(* ===== verification/Prelude.thy ===== *)
theory Prelude
  imports Main "HOL-Library.AList" "HOL-Library.Multiset"
begin

text \<open>
  What every component shares: Go error values, the result type of fallible calls, Go maps, and
  the generic list lemmas the component proofs use.

  An \<open>error\<close> is what the program can observe of a Go error: its message (\<open>err.Error()\<close>),
  whether its dynamic type is \<open>*unifi.ServerError\<close> (with the HTTP status code), and whether it is
  a Kubernetes API status error (\<open>errors.IsNotFound\<close>, \<open>errors.IsConflict\<close>).  Wrapping
  an error with \<open>fmt.Errorf\<close> gives a plain \<open>ErrorString\<close>.

  A Go map is an association list with distinct keys.  The order of the list is not observable:
  where the source ranges over a map, the model takes the iteration order as a parameter.
\<close>

section \<open>Collections of facts\<close>

named_theorems frame_simps \<open>what an operation leaves unchanged\<close>

section \<open>Errors and fallible calls\<close>

datatype k8s_reason = NotFound | Conflict | OtherReason

datatype error =
    ErrorString string
  | ServerError int string
  | StatusError k8s_reason string

fun Error :: "error \<Rightarrow> string" where
  "Error (ErrorString m) = m"
| "Error (ServerError code m) = m"
| "Error (StatusError r m) = m"

fun IsNotFound :: "error \<Rightarrow> bool" where
  "IsNotFound (StatusError NotFound _) = True"
| "IsNotFound _ = False"

fun IsConflict :: "error \<Rightarrow> bool" where
  "IsConflict (StatusError Conflict _) = True"
| "IsConflict _ = False"

type_synonym 'a result = "error + 'a"

text \<open>\<open>fmt.Errorf("what: %w", err)\<close>, as far as the program reads the result: its message.\<close>

definition wrap :: "string \<Rightarrow> error \<Rightarrow> error" where
  "wrap what err = ErrorString (what @ '': '' @ Error err)"

text \<open>A call that may also end in a run-time panic.\<close>

datatype 'a outcome = Return 'a | Panic

text \<open>A call on the outside world: it may fail, and it may change the world either way.\<close>

type_synonym ('w, 'a) io = "'w \<Rightarrow> 'a result \<times> 'w"

fun is_ok :: "'a result \<Rightarrow> bool" where
  "is_ok (Inr _) = True"
| "is_ok (Inl _) = False"

lemma is_ok_iff: "is_ok r \<longleftrightarrow> (\<exists>a. r = Inr a)"
  by (cases r) auto

lemma io_cases:
  obtains (Err) e w' where "p = (Inl e, w')" | (Ok) a w' where "p = (Inr a, w')"
  by (metis old.sum.exhaust surj_pair)

section \<open>Go maps\<close>

type_synonym ('k, 'v) gomap = "('k \<times> 'v) list"

abbreviation gm_get :: "('k, 'v) gomap \<Rightarrow> 'k \<Rightarrow> 'v option" where
  "gm_get \<equiv> map_of"

abbreviation gm_set :: "'k \<Rightarrow> 'v \<Rightarrow> ('k, 'v) gomap \<Rightarrow> ('k, 'v) gomap" where
  "gm_set \<equiv> AList.update"

abbreviation gm_del :: "'k \<Rightarrow> ('k, 'v) gomap \<Rightarrow> ('k, 'v) gomap" where
  "gm_del \<equiv> AList.delete"

abbreviation gm_has :: "('k, 'v) gomap \<Rightarrow> 'k \<Rightarrow> bool" where
  "gm_has m k \<equiv> map_of m k \<noteq> None"

definition gm_wf :: "('k, 'v) gomap \<Rightarrow> bool" where
  "gm_wf m \<longleftrightarrow> distinct (map fst m)"

text \<open>The loop \<open>for _, x := range xs { m[key(x)] = x }\<close>, which builds the lookup maps.\<close>

fun gm_index :: "('a \<Rightarrow> 'k) \<Rightarrow> 'a list \<Rightarrow> ('k, 'a) gomap \<Rightarrow> ('k, 'a) gomap" where
  "gm_index key [] m = m"
| "gm_index key (x # xs) m = gm_index key xs (gm_set (key x) x m)"

lemma gm_wf_Nil [simp]: "gm_wf []"
  by (simp add: gm_wf_def)

lemma gm_wf_set [simp]: "gm_wf m \<Longrightarrow> gm_wf (gm_set k v m)"
  by (simp add: gm_wf_def distinct_update)

lemma gm_wf_del [simp]: "gm_wf m \<Longrightarrow> gm_wf (gm_del k m)"
  by (simp add: gm_wf_def distinct_delete)

lemma gm_get_set [simp]: "gm_get (gm_set k v m) = (gm_get m)(k \<mapsto> v)"
  by (rule update_conv')

lemma gm_get_del [simp]: "gm_get (gm_del k m) = (gm_get m)(k := None)"
  by (rule delete_conv')

lemma gm_wf_index: "gm_wf m \<Longrightarrow> gm_wf (gm_index key xs m)"
  by (induction xs arbitrary: m) auto

lemma gm_get_index_SomeD:
  "gm_get (gm_index key xs m) k = Some v \<Longrightarrow> (v \<in> set xs \<and> key v = k) \<or> gm_get m k = Some v"
proof (induction xs arbitrary: m)
  case (Cons x xs)
  from Cons.IH [of "gm_set (key x) x m"] Cons.prems show ?case
    by (auto split: if_splits)
qed simp

lemma gm_get_index_dom:
  "gm_get (gm_index key xs m) k = None \<longleftrightarrow> k \<notin> key ` set xs \<and> gm_get m k = None"
  by (induction xs arbitrary: m) auto

text \<open>Without key collisions the index finds every element.\<close>

lemma gm_get_index_inj:
  assumes "x \<in> set xs" and "\<forall>y \<in> set xs. key y = key x \<longrightarrow> y = x"
  shows "gm_get (gm_index key xs []) (key x) = Some x"
proof -
  have "gm_get (gm_index key xs []) (key x) \<noteq> None"
    using assms(1) by (simp add: gm_get_index_dom)
  then obtain y where y: "gm_get (gm_index key xs []) (key x) = Some y" by blast
  then have "y \<in> set xs \<and> key y = key x"
    by (auto dest: gm_get_index_SomeD)
  with assms(2) y show ?thesis by simp
qed

lemma set_map_fst_index: "set (map fst (gm_index key xs m)) = key ` set xs \<union> fst ` set m"
  by (induction xs arbitrary: m) (auto simp: dom_update)

lemma gm_keys_iff: "k \<in> set (map fst m) \<longleftrightarrow> gm_get m k \<noteq> None"
  by (metis map_of_eq_None_iff set_map)

lemma map_of_filter_kept:
  "gm_get m k = Some v \<Longrightarrow> P (k, v) \<Longrightarrow> gm_get (filter P m) k = Some v"
proof (induction m)
  case (Cons kv m)
  then show ?case by (cases kv) (auto split: if_splits)
qed simp

text \<open>
  The iteration order of \<open>for k := range m\<close> is unspecified.  A function \<open>it\<close> stands for the
  order the runtime picks: it permutes the list of keys.
\<close>

definition iter_order :: "('k list \<Rightarrow> 'k list) \<Rightarrow> bool" where
  "iter_order it \<longleftrightarrow> (\<forall>ks. mset (it ks) = mset ks)"

lemma iter_order_set [simp]: "iter_order it \<Longrightarrow> set (it ks) = set ks"
  by (metis iter_order_def set_mset_mset)

lemma iter_order_distinct [simp]: "iter_order it \<Longrightarrow> distinct (it ks) = distinct ks"
  by (metis iter_order_def mset_eq_imp_distinct_iff)

lemma iter_order_length [simp]: "iter_order it \<Longrightarrow> length (it ks) = length ks"
  by (metis iter_order_def size_mset)

lemma iter_order_id: "iter_order (\<lambda>ks. ks)" and iter_order_rev: "iter_order rev"
  by (simp_all add: iter_order_def)

text \<open>The loop \<open>for k, v := range m { ... }\<close> that appends \<open>f k v\<close> to its result.\<close>

lemma range_loop_set:
  assumes "iter_order it"
  shows "x \<in> set (concat (map (\<lambda>k. case gm_get m k of None \<Rightarrow> [] | Some v \<Rightarrow> f k v) (it (map fst m)))) \<longleftrightarrow>
    (\<exists>k v. gm_get m k = Some v \<and> x \<in> set (f k v))"
proof -
  have "x \<in> set (concat (map (\<lambda>k. case gm_get m k of None \<Rightarrow> [] | Some v \<Rightarrow> f k v) (it (map fst m)))) \<longleftrightarrow>
    (\<exists>k \<in> set (map fst m). x \<in> set (case gm_get m k of None \<Rightarrow> [] | Some v \<Rightarrow> f k v))"
    using assms by (simp add: iter_order_set)
  also have "\<dots> \<longleftrightarrow> (\<exists>k v. gm_get m k = Some v \<and> x \<in> set (f k v))"
    unfolding Bex_def gm_keys_iff by (auto split: option.splits) blast
  finally show ?thesis .
qed

section \<open>Lists\<close>

lemma in_case_option: "x \<in> set (case m of None \<Rightarrow> [] | Some v \<Rightarrow> f v) \<longleftrightarrow> (\<exists>v. m = Some v \<and> x \<in> set (f v))"
  by (cases m) auto

lemma distinct_loop:
  "distinct ks \<Longrightarrow> (\<And>k. distinct (g k)) \<Longrightarrow> (\<And>k k' x. x \<in> set (g k) \<Longrightarrow> x \<in> set (g k') \<Longrightarrow> k = k') \<Longrightarrow>
   distinct (concat (map g ks))"
  by (induction ks) auto

lemma map_filter_Some_set: "y \<in> set (List.map_filter f xs) \<longleftrightarrow> (\<exists>x \<in> set xs. f x = Some y)"
  by (induction xs) (auto simp: List.map_filter_simps split: option.splits)

lemma map_filter_append: "List.map_filter f (xs @ ys) = List.map_filter f xs @ List.map_filter f ys"
  by (induction xs) (auto simp: List.map_filter_simps split: option.splits)

lemma find_SomeD: "List.find P xs = Some x \<Longrightarrow> x \<in> set xs \<and> P x"
  by (induction xs) (auto split: if_splits)

lemma find_NoneD: "List.find P xs = None \<Longrightarrow> x \<in> set xs \<Longrightarrow> \<not> P x"
  by (induction xs) (auto split: if_splits)

lemma find_append_none: "(\<forall>x \<in> set xs. \<not> P x) \<Longrightarrow> List.find P (xs @ ys) = List.find P ys"
  by (induction xs) auto

lemma last_touch:
  assumes "x \<in> set xs" and "P x"
  obtains pre y post where "xs = pre @ y # post" "P y" "\<forall>z \<in> set post. \<not> P z"
  using assms by (metis split_list_last_prop)

end
