(* ===== verification/GoStrings.thy ===== *)
theory GoStrings
  imports Prelude
begin

text \<open>
  The parts of Go's \<open>strconv\<close>, \<open>strings\<close> and \<open>fmt\<close> that the program calls, on byte
  strings.  Integers are Go \<open>int\<close> values (64 bits): the only place where the width is observable
  is the range check of \<open>strconv.Atoi\<close>, which is written out.  \<open>ToLower\<close> and
  \<open>EqualFold\<close> are only applied to protocol names, which the Kubernetes and UniFi APIs restrict to
  ASCII words; the model folds the ASCII letters and leaves every other byte alone.
\<close>

section \<open>strconv\<close>

definition is_digit :: "char \<Rightarrow> bool" where
  "is_digit c \<longleftrightarrow> 48 \<le> (of_char c :: nat) \<and> (of_char c :: nat) \<le> 57"

definition digit_val :: "char \<Rightarrow> nat" where
  "digit_val c = of_char c - 48"

definition digit_char :: "nat \<Rightarrow> char" where
  "digit_char d = ''0123456789'' ! d"

fun nat_str :: "nat \<Rightarrow> string" where
  "nat_str n = (if n < 10 then [digit_char n] else nat_str (n div 10) @ [digit_char (n mod 10)])"

declare nat_str.simps [simp del]

definition Itoa :: "int \<Rightarrow> string" where
  "Itoa i = (if i < 0 then CHR ''-'' # nat_str (nat (- i)) else nat_str (nat i))"

definition digits_val :: "string \<Rightarrow> nat" where
  "digits_val ds = foldl (\<lambda>a c. 10 * a + digit_val c) 0 ds"

definition in_int64 :: "int \<Rightarrow> bool" where
  "in_int64 i \<longleftrightarrow> - (2 ^ 63) \<le> i \<and> i < 2 ^ 63"

definition atoi_unsigned :: "bool \<Rightarrow> string \<Rightarrow> int option" where
  "atoi_unsigned neg ds =
     (if ds = [] \<or> \<not> list_all is_digit ds then None
      else let v = (if neg then - int (digits_val ds) else int (digits_val ds))
           in if in_int64 v then Some v else None)"

fun Atoi :: "string \<Rightarrow> int option" where
  "Atoi [] = None"
| "Atoi (c # cs) =
     (if c = CHR ''-'' then atoi_unsigned True cs
      else if c = CHR ''+'' then atoi_unsigned False cs
      else atoi_unsigned False (c # cs))"

lemma less_10_cases: "(d :: nat) < 10 \<Longrightarrow> d \<in> {0, 1, 2, 3, 4, 5, 6, 7, 8, 9}"
  by auto

lemma is_digit_digit_char [simp]: "d < 10 \<Longrightarrow> is_digit (digit_char d)"
  by (drule less_10_cases) (auto simp: is_digit_def digit_char_def)

lemma digit_val_digit_char [simp]: "d < 10 \<Longrightarrow> digit_val (digit_char d) = d"
  by (drule less_10_cases) (auto simp: digit_val_def digit_char_def)

text \<open>Evaluation of conversions at concrete arguments.\<close>

lemma Itoa_eval: "Itoa (numeral k) = nat_str (numeral k)" "Itoa 0 = ''0''" "Itoa 1 = ''1''"
  by (simp_all add: Itoa_def nat_str.simps [of 0] nat_str.simps [of "Suc 0"] digit_char_def)

lemma nat_str_eval:
  "nat_str (numeral k) =
     (if (numeral k :: nat) < 10 then [digit_char (numeral k)]
      else nat_str (numeral k div 10) @ [digit_char (numeral k mod 10)])"
  "nat_str 0 = ''0''" "nat_str (Suc 0) = ''1''"
  by (rule nat_str.simps) (simp_all add: nat_str.simps [of 0] nat_str.simps [of "Suc 0"] digit_char_def)

lemmas go_eval = Itoa_eval nat_str_eval digit_char_def atoi_unsigned_def is_digit_def in_int64_def
  digits_val_def digit_val_def

lemma nat_str_digits: "list_all is_digit (nat_str n)"
proof (induction n rule: nat_str.induct)
  case (1 n)
  then show ?case by (cases "n < 10") (simp_all add: nat_str.simps [of n])
qed

lemma nat_str_not_Nil [simp]: "nat_str n \<noteq> []"
  by (subst nat_str.simps) simp

lemma digits_val_snoc: "digits_val (ds @ [c]) = 10 * digits_val ds + digit_val c"
  by (simp add: digits_val_def)

lemma digits_val_nat_str [simp]: "digits_val (nat_str n) = n"
proof (induction n rule: nat_str.induct)
  case (1 n)
  show ?case
  proof (cases "n < 10")
    case True
    then show ?thesis by (simp add: nat_str.simps [of n] digits_val_def)
  next
    case False
    with 1 have "digits_val (nat_str (n div 10)) = n div 10" by simp
    with False show ?thesis by (simp add: nat_str.simps [of n] digits_val_snoc)
  qed
qed

lemma is_digit_not_sign: "is_digit c \<Longrightarrow> c \<noteq> CHR ''-'' \<and> c \<noteq> CHR ''+'' \<and> c \<noteq> CHR '':'' \<and> c \<noteq> CHR '',''"
  by (auto simp: is_digit_def)

lemma Atoi_digits: "ds \<noteq> [] \<Longrightarrow> list_all is_digit ds \<Longrightarrow> Atoi ds = atoi_unsigned False ds"
  by (cases ds) (auto dest: is_digit_not_sign)

lemma Atoi_Itoa: "in_int64 i \<Longrightarrow> Atoi (Itoa i) = Some i"
proof (cases "i < 0")
  case True
  assume "in_int64 i"
  with True show ?thesis
    by (simp add: Itoa_def atoi_unsigned_def nat_str_digits)
next
  case False
  assume "in_int64 i"
  with False show ?thesis
    by (simp add: Itoa_def Atoi_digits nat_str_digits) (simp add: atoi_unsigned_def nat_str_digits)
qed

lemma Atoi_in_int64: "Atoi s = Some i \<Longrightarrow> in_int64 i"
  by (cases s) (auto simp: atoi_unsigned_def Let_def split: if_splits)

lemma Itoa_inj: "Itoa i = Itoa j \<Longrightarrow> in_int64 i \<Longrightarrow> in_int64 j \<Longrightarrow> i = j"
  by (metis Atoi_Itoa option.inject)

lemma Itoa_not_Nil [simp]: "Itoa i \<noteq> []"
  by (simp add: Itoa_def)

lemma Itoa_nonneg_digits: "0 \<le> i \<Longrightarrow> list_all is_digit (Itoa i)"
  by (simp add: Itoa_def nat_str_digits)

lemma Itoa_nonneg_chars:
  assumes "0 \<le> i"
  shows "CHR ''-'' \<notin> set (Itoa i)" "CHR '':'' \<notin> set (Itoa i)" "CHR '','' \<notin> set (Itoa i)"
  using Itoa_nonneg_digits [OF assms] by (auto simp: list_all_iff dest: is_digit_not_sign)

lemma of_char_digit_char: "d < 10 \<Longrightarrow> (of_char (digit_char d) :: nat) = 48 + d"
  by (drule less_10_cases) (auto simp: digit_char_def)

lemma digit_char_val:
  assumes "is_digit c"
  shows "digit_char (digit_val c) = c" "digit_val c < 10"
proof -
  show "digit_val c < 10" using assms unfolding is_digit_def digit_val_def by arith
  then have "(of_char (digit_char (digit_val c)) :: nat) = of_char c"
    using assms by (simp add: of_char_digit_char is_digit_def digit_val_def)
  then show "digit_char (digit_val c) = c" by (simp only: of_char_eq_iff)
qed

lemma nat_str_snoc: "0 < n \<Longrightarrow> d < 10 \<Longrightarrow> nat_str (10 * n + d) = nat_str n @ [digit_char d]"
  by (subst nat_str.simps) simp

lemma digits_val_pos: "ds \<noteq> [] \<Longrightarrow> list_all is_digit ds \<Longrightarrow> hd ds \<noteq> CHR ''0'' \<Longrightarrow> 0 < digits_val ds"
proof (induction ds rule: rev_induct)
  case (snoc c ds)
  show ?case
  proof (cases ds)
    case Nil
    then have "c \<noteq> digit_char 0" "is_digit c" using snoc.prems by (auto simp: digit_char_def)
    then have "digit_val c \<noteq> 0" using digit_char_val(1) [of c] by metis
    then show ?thesis using Nil by (simp add: digits_val_def)
  next
    case (Cons b bs)
    then have "0 < digits_val ds" using snoc by simp
    then show ?thesis by (simp add: digits_val_snoc)
  qed
qed simp

text \<open>Numerals without a leading zero are the printed numbers.\<close>

lemma nat_str_digits_val:
  "ds \<noteq> [] \<Longrightarrow> list_all is_digit ds \<Longrightarrow> hd ds \<noteq> CHR ''0'' \<or> ds = ''0'' \<Longrightarrow> nat_str (digits_val ds) = ds"
proof (induction ds rule: rev_induct)
  case (snoc c ds)
  have c: "digit_char (digit_val c) = c" "digit_val c < 10"
    using snoc.prems(2) digit_char_val [of c] by auto
  show ?case
  proof (cases "ds = []")
    case True
    then show ?thesis using c by (simp add: digits_val_def nat_str.simps [of "digit_val c"])
  next
    case False
    then have hd: "hd ds \<noteq> CHR ''0''" using snoc.prems(3) by auto
    then have "0 < digits_val ds" using False snoc.prems(2) by (simp add: digits_val_pos)
    with snoc.IH False hd snoc.prems(2) c show ?thesis by (simp add: digits_val_snoc nat_str_snoc)
  qed
qed simp

lemma hd_nat_str: "0 < n \<Longrightarrow> hd (nat_str n) \<noteq> CHR ''0''"
proof (induction n rule: nat_str.induct)
  case (1 n)
  show ?case
  proof (cases "n < 10")
    case True
    then have "n \<in> {1, 2, 3, 4, 5, 6, 7, 8, 9}" using 1(2) by auto
    then show ?thesis by (auto simp: nat_str_eval digit_char_def)
  next
    case False
    with 1 show ?thesis by (subst nat_str.simps) simp
  qed
qed

text \<open>A port number is in range for every conversion the program makes.\<close>

definition valid_port :: "int \<Rightarrow> bool" where
  "valid_port p \<longleftrightarrow> 1 \<le> p \<and> p \<le> 65535"

lemma valid_port_int64: "valid_port p \<Longrightarrow> in_int64 p" and valid_port_nonneg: "valid_port p \<Longrightarrow> 0 \<le> p"
  by (auto simp: valid_port_def in_int64_def)

section \<open>strings\<close>

definition HasPrefix :: "string \<Rightarrow> string \<Rightarrow> bool" where
  "HasPrefix s p \<longleftrightarrow> take (length p) s = p"

lemma HasPrefix_iff: "HasPrefix s p \<longleftrightarrow> (\<exists>t. s = p @ t)"
  by (metis HasPrefix_def append_eq_conv_conj append_take_drop_id)

fun Contains :: "string \<Rightarrow> string \<Rightarrow> bool" where
  "Contains [] t = HasPrefix [] t"
| "Contains (c # s) t = (HasPrefix (c # s) t \<or> Contains s t)"

text \<open>\<open>strings.Split(s, sep)\<close> for a one-byte separator.\<close>

fun Split :: "string \<Rightarrow> char \<Rightarrow> string list" where
  "Split [] d = [[]]"
| "Split (c # s) d =
     (if c = d then [] # Split s d
      else (case Split s d of [] \<Rightarrow> [[c]] | p # ps \<Rightarrow> (c # p) # ps))"

text \<open>\<open>strings.SplitN(s, sep, n)\<close> for a one-byte separator and a positive \<open>n\<close>.\<close>

fun SplitN :: "string \<Rightarrow> char \<Rightarrow> nat \<Rightarrow> string list" where
  "SplitN s d 0 = []"
| "SplitN s d (Suc 0) = [s]"
| "SplitN s d (Suc (Suc n)) =
     (case dropWhile (\<lambda>c. c \<noteq> d) s of
        [] \<Rightarrow> [s]
      | _ # rest \<Rightarrow> takeWhile (\<lambda>c. c \<noteq> d) s # SplitN rest d (Suc n))"

text \<open>\<open>strings.Index(s, sep)\<close> for a one-byte separator: the first position, or -1.\<close>

fun Index :: "string \<Rightarrow> char \<Rightarrow> int" where
  "Index [] d = -1"
| "Index (c # s) d = (if c = d then 0 else (let i = Index s d in if i = -1 then -1 else i + 1))"

fun Join :: "string list \<Rightarrow> string \<Rightarrow> string" where
  "Join [] sep = []"
| "Join [p] sep = p"
| "Join (p # q # ps) sep = p @ sep @ Join (q # ps) sep"

text \<open>
  \<open>strings.TrimSpace\<close> removes leading and trailing Unicode white space.  The list holds the UTF-8
  encodings of the white space runes (\<open>unicode.IsSpace\<close>).
\<close>

definition space_runes :: "string list" where
  "space_runes =
     [[CHR 0x09], [CHR 0x0A], [CHR 0x0B], [CHR 0x0C], [CHR 0x0D], [CHR 0x20],
      [CHR 0xC2, CHR 0x85], [CHR 0xC2, CHR 0xA0], [CHR 0xE1, CHR 0x9A, CHR 0x80],
      [CHR 0xE2, CHR 0x80, CHR 0x80], [CHR 0xE2, CHR 0x80, CHR 0x81], [CHR 0xE2, CHR 0x80, CHR 0x82],
      [CHR 0xE2, CHR 0x80, CHR 0x83], [CHR 0xE2, CHR 0x80, CHR 0x84], [CHR 0xE2, CHR 0x80, CHR 0x85],
      [CHR 0xE2, CHR 0x80, CHR 0x86], [CHR 0xE2, CHR 0x80, CHR 0x87], [CHR 0xE2, CHR 0x80, CHR 0x88],
      [CHR 0xE2, CHR 0x80, CHR 0x89], [CHR 0xE2, CHR 0x80, CHR 0x8A], [CHR 0xE2, CHR 0x80, CHR 0xA8],
      [CHR 0xE2, CHR 0x80, CHR 0xA9], [CHR 0xE2, CHR 0x80, CHR 0xAF], [CHR 0xE2, CHR 0x81, CHR 0x9F],
      [CHR 0xE3, CHR 0x80, CHR 0x80]]"

lemma space_runes_nonempty: "e \<in> set space_runes \<Longrightarrow> e \<noteq> []"
  by (auto simp: space_runes_def)

text \<open>Strip the given byte strings from the front as long as one matches.\<close>

function strip_front :: "string list \<Rightarrow> string \<Rightarrow> string" where
  "strip_front es s =
     (case List.find (\<lambda>e. e \<noteq> [] \<and> HasPrefix s e) es of
        None \<Rightarrow> s
      | Some e \<Rightarrow> strip_front es (drop (length e) s))"
  by pat_completeness auto
termination
proof (relation "measure (\<lambda>(es, s). length s)")
  fix es :: "string list" and s e :: string
  assume "List.find (\<lambda>e. e \<noteq> [] \<and> HasPrefix s e) es = Some e"
  then have "e \<noteq> []" and "HasPrefix s e" by (auto dest: find_SomeD)
  then show "((es, drop (length e) s), (es, s)) \<in> measure (\<lambda>(es, s). length s)"
    by (auto simp: HasPrefix_iff)
qed simp

declare strip_front.simps [simp del]

definition TrimSpace :: "string \<Rightarrow> string" where
  "TrimSpace s = rev (strip_front (map rev space_runes) (rev (strip_front space_runes s)))"

definition lower_char :: "char \<Rightarrow> char" where
  "lower_char c = (if 65 \<le> (of_char c :: nat) \<and> (of_char c :: nat) \<le> 90 then char_of (of_char c + 32 :: nat) else c)"

definition ToLower :: "string \<Rightarrow> string" where
  "ToLower s = map lower_char s"

definition EqualFold :: "string \<Rightarrow> string \<Rightarrow> bool" where
  "EqualFold s t \<longleftrightarrow> ToLower s = ToLower t"

subsection \<open>Splitting and joining\<close>

lemma Split_not_Nil [simp]: "Split s d \<noteq> []"
  by (cases s) (auto split: list.splits)

lemma Split_no_sep: "d \<notin> set s \<Longrightarrow> Split s d = [s]"
  by (induction s) auto

lemma Split_append: "d \<notin> set p \<Longrightarrow> Split (p @ d # s) d = p # Split s d"
  by (induction p) auto

lemma Split_Join:
  assumes "ps \<noteq> []" and "\<forall>p \<in> set ps. d \<notin> set p"
  shows "Split (Join ps [d]) d = ps"
  using assms by (induction ps "[d]" rule: Join.induct) (auto simp: Split_no_sep Split_append)

lemma Join_Split: "Join (Split s d) [d] = s"
proof (induction s)
  case (Cons c s)
  obtain p ps where ps: "Split s d = p # ps" by (metis Split_not_Nil neq_Nil_conv)
  with Cons show ?case by (cases ps) auto
qed simp

lemma Split_parts_no_sep: "p \<in> set (Split s d) \<Longrightarrow> d \<notin> set p"
  by (induction s arbitrary: p) (auto split: if_splits list.splits)

lemma hd_Split: "hd (Split s d) = takeWhile (\<lambda>c. c \<noteq> d) s"
  by (induction s) (auto split: list.splits)

lemma SplitN_append: "d \<notin> set p \<Longrightarrow> SplitN (p @ d # s) d (Suc (Suc n)) = p # SplitN s d (Suc n)"
proof -
  assume "d \<notin> set p"
  then have "dropWhile (\<lambda>c. c \<noteq> d) (p @ d # s) = d # s" "takeWhile (\<lambda>c. c \<noteq> d) (p @ d # s) = p"
    by (induction p) auto
  then show ?thesis by simp
qed

lemma SplitN_no_sep: "d \<notin> set s \<Longrightarrow> SplitN s d (Suc n) = [s]"
proof (cases n)
  case (Suc m)
  assume "d \<notin> set s"
  then have "dropWhile (\<lambda>c. c \<noteq> d) s = []" by (induction s) auto
  with Suc show ?thesis by (simp del: dropWhile_eq_Nil_conv)
qed simp

text \<open>Cutting a string at the first separator.\<close>

lemma SplitN_cases:
  obtains (no) "d \<notin> set s" "SplitN s d (Suc (Suc n)) = [s]"
    | (cut) p r where "s = p @ d # r" "d \<notin> set p" "SplitN s d (Suc (Suc n)) = p # SplitN r d (Suc n)"
proof (cases "d \<in> set s")
  case True
  then obtain p r where "s = p @ d # r" "d \<notin> set p" by (metis split_list_first)
  with cut SplitN_append show ?thesis by blast
next
  case False
  with no SplitN_no_sep show ?thesis by blast
qed

lemma SplitN_Suc_not_Nil [simp]: "SplitN s d (Suc n) \<noteq> []"
  by (cases n) (auto split: list.splits)

lemma Index_no_sep: "d \<notin> set s \<Longrightarrow> Index s d = -1"
  by (induction s) (auto simp: Let_def)

lemma Index_append: "d \<notin> set p \<Longrightarrow> Index (p @ d # s) d = int (length p)"
  by (induction p) (auto simp: Let_def)

lemma Index_ge: "Index s d \<ge> -1"
  by (induction s) (auto simp: Let_def)

subsection \<open>Trimming\<close>

definition spaceless :: "string \<Rightarrow> bool" where
  "spaceless s \<longleftrightarrow> (\<forall>c \<in> set s. (of_char c :: nat) > 32 \<and> (of_char c :: nat) < 128)"

lemma HasPrefix_Cons: "HasPrefix (c # s) (e # es) \<longleftrightarrow> c = e \<and> HasPrefix s es"
  by (simp add: HasPrefix_def)

lemma HasPrefix_Nil [simp]: "HasPrefix s []" "HasPrefix [] (e # es) = False"
  by (simp_all add: HasPrefix_def)

lemma strip_front_stop:
  assumes "\<forall>e \<in> set es. e = [] \<or> \<not> HasPrefix s e"
  shows "strip_front es s = s"
proof -
  have "List.find (\<lambda>e. e \<noteq> [] \<and> HasPrefix s e) es = None"
    using assms by (auto simp: find_None_iff)
  then show ?thesis by (subst strip_front.simps) simp
qed

lemma TrimSpace_spaceless: "spaceless s \<Longrightarrow> TrimSpace s = s"
proof -
  assume s: "spaceless s"
  have front: "strip_front space_runes s = s"
    using s by (intro strip_front_stop, cases s) (auto simp: space_runes_def HasPrefix_Cons spaceless_def)
  have "strip_front (map rev space_runes) (rev s) = rev s"
    using s by (intro strip_front_stop, cases "rev s")
      (auto simp: space_runes_def HasPrefix_Cons spaceless_def rev_eq_Cons_iff)
  with front show ?thesis by (simp add: TrimSpace_def)
qed

lemma lower_char_idem: "lower_char (lower_char c) = lower_char c"
  by (auto simp: lower_char_def of_char_of)

lemma ToLower_idem [simp]: "ToLower (ToLower s) = ToLower s"
  by (induction s) (simp_all add: ToLower_def lower_char_idem)

section \<open>Composite keys\<close>

text \<open>
  \<open>fmt.Sprintf("%s-%s-%s", ...)\<close>: the key format of the lookup maps.  It is injective as soon as the
  key on one side is built from parts without a dash.
\<close>

definition key3 :: "string \<Rightarrow> string \<Rightarrow> string \<Rightarrow> string" where
  "key3 a b c = a @ ''-'' @ b @ ''-'' @ c"

lemma count_list_key3:
  "count_list (key3 a b c) (CHR ''-'') =
     count_list a (CHR ''-'') + count_list b (CHR ''-'') + count_list c (CHR ''-'') + 2"
  by (simp add: key3_def)

lemma count_list_0D: "count_list s c = 0 \<Longrightarrow> c \<notin> set s"
  by (simp add: count_list_0_iff)

lemma append_sep_eq:
  "p @ d # s = q @ d # t \<Longrightarrow> d \<notin> set p \<Longrightarrow> d \<notin> set q \<Longrightarrow> p = q \<and> s = t"
proof (induction p arbitrary: q)
  case Nil
  then show ?case by (cases q) auto
next
  case (Cons c p)
  then show ?case by (cases q) auto
qed

lemma key3_inj:
  assumes eq: "key3 a b c = key3 a' b' c'"
    and nodash: "CHR ''-'' \<notin> set a'" "CHR ''-'' \<notin> set b'" "CHR ''-'' \<notin> set c'"
  shows "a = a' \<and> b = b' \<and> c = c'"
proof -
  have "count_list (key3 a' b' c') (CHR ''-'') = 2"
    using nodash by (simp add: count_list_key3 count_list_0_iff)
  with eq have "count_list a (CHR ''-'') = 0 \<and> count_list b (CHR ''-'') = 0"
    using count_list_key3 [of a b c] by simp
  then have ab: "CHR ''-'' \<notin> set a" "CHR ''-'' \<notin> set b" by (simp_all add: count_list_0_iff)
  from eq have 1: "a @ CHR ''-'' # (b @ CHR ''-'' # c) = a' @ CHR ''-'' # (b' @ CHR ''-'' # c')"
    by (simp add: key3_def)
  from append_sep_eq [OF this ab(1) nodash(1)]
  have "a = a'" and 2: "b @ CHR ''-'' # c = b' @ CHR ''-'' # c'" by simp_all
  with append_sep_eq [OF 2 ab(2) nodash(2)] show ?thesis by simp
qed

section \<open>Durations\<close>

text \<open>\<open>time.Duration\<close> counts nanoseconds.\<close>

definition Second :: int where "Second = 1000000000"

definition Minute :: int where "Minute = 60 * Second"

end
