(* ===== verification/Routers.thy ===== *)
theory Routers
  imports GoStrings
begin

text \<open>
  The router interface (pkg/routers/router.go): the rule type of the UniFi API, the controller's own
  \<open>PortConfig\<close>, the interface value as a record of methods over the world \<open>'w\<close>, and the
  contract its callers rely on as the locale \<open>router_contract\<close>.

  A UniFi rule is looked up by external port and protocol, never by name: \<open>slot\<close> is that address.
  The contract is stated on the set of rules the router holds (\<open>rules w\<close>): which rule an operation
  adds, replaces or removes, and that everything else stays.
\<close>

section \<open>Data\<close>

text \<open>
  \<open>unifi.PortForward\<close>, with the fields that the program reads or writes.
\<close>

record PortForward =
  ID :: string
  SiteID :: string
  DestinationIP :: string
  pfDstPort :: string
  pfEnabled :: bool
  Fwd :: string
  pfFwdPort :: string
  pfName :: string
  PfwdInterface :: string
  Proto :: string
  Src :: string

record PortConfig =
  Name :: string
  Enabled :: bool
  Interface :: string
  DstPort :: int
  FwdPort :: int
  SrcIP :: string
  DstIP :: string
  Protocol :: string

record 'w Router =
  r_AddPort :: "PortConfig \<Rightarrow> ('w, unit) io"
  r_CheckPort :: "int \<Rightarrow> string \<Rightarrow> ('w, PortForward option) io"
  r_RemovePort :: "PortConfig \<Rightarrow> ('w, unit) io"
  r_UpdatePort :: "int \<Rightarrow> PortConfig \<Rightarrow> ('w, unit) io"
  r_DeletePortForwardByID :: "string \<Rightarrow> ('w, unit) io"
  r_ListAllPortForwards :: "('w, PortForward list) io"

section \<open>Slots\<close>

text \<open>The address of a rule: external port and protocol, as \<open>CheckPort\<close> compares them.\<close>

definition slot :: "PortForward \<Rightarrow> (int \<times> string) option" where
  "slot r = map_option (\<lambda>p. (p, ToLower (Proto r))) (Atoi (pfDstPort r))"

definition cslot :: "PortConfig \<Rightarrow> int \<times> string" where
  "cslot c = (DstPort c, ToLower (Protocol c))"

text \<open>A rule carries out a configuration: every field the controller sends is on the rule.\<close>

definition realises :: "PortConfig \<Rightarrow> PortForward \<Rightarrow> bool" where
  "realises c r \<longleftrightarrow>
     pfName r = Name c \<and> pfEnabled r = Enabled c \<and> Fwd r = DstIP c \<and>
     pfFwdPort r = Itoa (FwdPort c) \<and> pfDstPort r = Itoa (DstPort c) \<and>
     PfwdInterface r = Interface c \<and> Proto r = Protocol c"

lemma slot_realises: "realises c r \<Longrightarrow> in_int64 (DstPort c) \<Longrightarrow> slot r = Some (cslot c)"
  by (simp add: realises_def slot_def cslot_def Atoi_Itoa)

text \<open>
  A rule table without overlaps: identifiers are present and unique, and no two rules listen on the
  same slot.
\<close>

definition exclusive :: "PortForward set \<Rightarrow> bool" where
  "exclusive S \<longleftrightarrow> (\<forall>r \<in> S. \<forall>r' \<in> S. slot r \<noteq> None \<longrightarrow> slot r = slot r' \<longrightarrow> r = r')"

definition table_ok :: "PortForward list \<Rightarrow> bool" where
  "table_ok rs \<longleftrightarrow> distinct (map ID rs) \<and> '''' \<notin> set (map ID rs) \<and> exclusive (set rs)"

lemma exclusiveD: "exclusive S \<Longrightarrow> r \<in> S \<Longrightarrow> r' \<in> S \<Longrightarrow> slot r = Some s \<Longrightarrow> slot r' = Some s \<Longrightarrow> r = r'"
  unfolding exclusive_def by (metis option.distinct(1))

lemma table_ok_mset: "mset rs = mset rs' \<Longrightarrow> table_ok rs = table_ok rs'"
  unfolding table_ok_def by (metis mset_eq_imp_distinct_iff mset_eq_setD mset_map set_map)

lemma table_ok_exclusive: "table_ok rs \<Longrightarrow> exclusive (set rs)"
  by (simp add: table_ok_def)

lemma table_ok_ID_inj: "table_ok rs \<Longrightarrow> r \<in> set rs \<Longrightarrow> r' \<in> set rs \<Longrightarrow> ID r = ID r' \<Longrightarrow> r = r'"
  by (auto simp: table_ok_def distinct_map inj_on_def)

lemma table_ok_distinct: "table_ok rs \<Longrightarrow> distinct rs"
  by (simp add: table_ok_def distinct_map)

section \<open>The contract of a router\<close>

locale router_contract =
  fixes R :: "'w Router" and rules :: "'w \<Rightarrow> PortForward list"
  assumes list_ok:
      "r_ListAllPortForwards R w = (Inr rs, w') \<Longrightarrow> mset rs = mset (rules w) \<and> mset (rules w') = mset (rules w)"
    and check_found:
      "r_CheckPort R p proto w = (Inr (Some r), w') \<Longrightarrow>
         r \<in> set (rules w) \<and> slot r = Some (p, ToLower proto) \<and> mset (rules w') = mset (rules w)"
    and check_absent:
      "r_CheckPort R p proto w = (Inr None, w') \<Longrightarrow>
         Some (p, ToLower proto) \<notin> slot ` set (rules w) \<and> mset (rules w') = mset (rules w)"
    and add_ok:
      "table_ok (rules w) \<Longrightarrow> r_AddPort R c w = (Inr (), w') \<Longrightarrow>
         table_ok (rules w') \<and>
         (\<exists>r. realises c r \<and> r \<notin> set (rules w) \<and> set (rules w') = insert r (set (rules w)))"
    and update_ok:
      "table_ok (rules w) \<Longrightarrow> r_UpdatePort R p c w = (Inr (), w') \<Longrightarrow>
         table_ok (rules w') \<and>
         (\<exists>old new. old \<in> set (rules w) \<and> slot old = Some (p, ToLower (Protocol c)) \<and>
            realises c new \<and> ID new = ID old \<and> Src new = Src old \<and>
            set (rules w') = insert new (set (rules w) - {old}))"
    and remove_ok:
      "table_ok (rules w) \<Longrightarrow> r_RemovePort R c w = (Inr (), w') \<Longrightarrow>
         table_ok (rules w') \<and> set (rules w') = {r \<in> set (rules w). slot r \<noteq> Some (cslot c)}"
    and delete_ok:
      "table_ok (rules w) \<Longrightarrow> r_DeletePortForwardByID R i w = (Inr (), w') \<Longrightarrow>
         table_ok (rules w') \<and> set (rules w') = {r \<in> set (rules w). ID r \<noteq> i}"
begin

lemma list_set: "r_ListAllPortForwards R w = (Inr rs, w') \<Longrightarrow> set rs = set (rules w) \<and> set (rules w') = set (rules w)"
  using list_ok by (metis mset_eq_setD)

lemma list_table_ok:
  "r_ListAllPortForwards R w = (Inr rs, w') \<Longrightarrow> table_ok (rules w) \<Longrightarrow> table_ok rs \<and> table_ok (rules w')"
  using list_ok table_ok_mset by metis

end

text \<open>
  A router whose failed calls have no effect: what a rollback needs.
\<close>

locale router_atomic = router_contract +
  assumes list_err: "r_ListAllPortForwards R w = (Inl e, w') \<Longrightarrow> mset (rules w') = mset (rules w)"
    and add_err: "r_AddPort R c w = (Inl e, w') \<Longrightarrow> mset (rules w') = mset (rules w)"
    and update_err: "r_UpdatePort R p c w = (Inl e, w') \<Longrightarrow> mset (rules w') = mset (rules w)"
    and remove_err: "r_RemovePort R c w = (Inl e, w') \<Longrightarrow> mset (rules w') = mset (rules w)"
    and delete_err: "r_DeletePortForwardByID R i w = (Inl e, w') \<Longrightarrow> mset (rules w') = mset (rules w)"
    and check_err: "r_CheckPort R p proto w = (Inl e, w') \<Longrightarrow> mset (rules w') = mset (rules w)"

text \<open>
  A router in service: reachable, logged in and free of faults (\<open>up\<close>).  Then reading, removing and
  deleting a present rule always succeed, an update succeeds when a rule is on the addressed slot, and a creation when the slot is free,
  provided the gateway's validation accepts the configuration (\<open>accepted\<close>) and a target address is given.
\<close>

locale router_up = router_contract +
  fixes up :: "'w \<Rightarrow> bool" and accepted :: "PortConfig \<Rightarrow> bool"
  assumes list_up: "up w \<Longrightarrow> \<exists>rs w'. r_ListAllPortForwards R w = (Inr rs, w') \<and> up w'"
    and add_up:
      "up w \<Longrightarrow> table_ok (rules w) \<Longrightarrow> accepted c \<Longrightarrow> DstIP c \<noteq> '''' \<Longrightarrow> in_int64 (DstPort c) \<Longrightarrow>
         Some (cslot c) \<notin> slot ` set (rules w) \<Longrightarrow> \<exists>w'. r_AddPort R c w = (Inr (), w') \<and> up w'"
    and update_up:
      "up w \<Longrightarrow> table_ok (rules w) \<Longrightarrow> accepted c \<Longrightarrow> in_int64 (DstPort c) \<Longrightarrow>
         Some (cslot c) \<in> slot ` set (rules w) \<Longrightarrow> \<exists>w'. r_UpdatePort R (DstPort c) c w = (Inr (), w') \<and> up w'"
    and remove_up: "up w \<Longrightarrow> table_ok (rules w) \<Longrightarrow> \<exists>w'. r_RemovePort R c w = (Inr (), w') \<and> up w'"
    and probe_up: "up w \<Longrightarrow> \<exists>x w'. r_CheckPort R p proto w = (Inr x, w') \<and> up w'"
    and delete_up: "up w \<Longrightarrow> i \<in> ID ` set (rules w) \<Longrightarrow> \<exists>w'. r_DeletePortForwardByID R i w = (Inr (), w') \<and> up w'"

end
