(* ===== verification/PortTracking.thy ===== *)
theory PortTracking
  imports GoStrings
begin

text \<open>
  Port conflict tracking (pkg/utils/port_utils.go): the package variable \<open>usedExternalPorts\<close>, from
  external port to the key of the service that owns it.  Every function runs under \<open>portMutex\<close>, so
  each is one atomic step on the map.  The locale \<open>port_tracker\<close> is the interface \<open>PortTracker\<close> of
  pkg/interfaces/interfaces.go with the laws its callers rely on.
\<close>

type_synonym ports = "(int, string) gomap"

section \<open>Operations\<close>

definition CheckPortConflict :: "int \<Rightarrow> string \<Rightarrow> ports \<Rightarrow> unit result" where
  "CheckPortConflict externalPort serviceKey used =
     (case gm_get used externalPort of
        Some existingService \<Rightarrow>
          if existingService \<noteq> serviceKey then
            Inl (ErrorString (''external port '' @ Itoa externalPort @ '' already used by service '' @ existingService))
          else Inr ()
      | None \<Rightarrow> Inr ())"

definition markPortUsed :: "int \<Rightarrow> string \<Rightarrow> ports \<Rightarrow> ports" where
  "markPortUsed externalPort serviceKey used = gm_set externalPort serviceKey used"

definition MarkPortUsed :: "int \<Rightarrow> string \<Rightarrow> ports \<Rightarrow> ports" where
  "MarkPortUsed externalPort serviceKey used = markPortUsed externalPort serviceKey used"

definition UnmarkPortUsed :: "int \<Rightarrow> ports \<Rightarrow> ports" where
  "UnmarkPortUsed externalPort used = gm_del externalPort used"

definition ResetPortTracking :: "ports \<Rightarrow> ports" where
  "ResetPortTracking used = []"

definition ClearPortConflictTracking :: "ports \<Rightarrow> ports" where
  "ClearPortConflictTracking used = []"

definition UnmarkPortsForService :: "string \<Rightarrow> ports \<Rightarrow> ports" where
  "UnmarkPortsForService serviceKey used = filter (\<lambda>(port, svc). svc \<noteq> serviceKey) used"

definition GetUsedExternalPorts :: "ports \<Rightarrow> ports" where
  "GetUsedExternalPorts used = used"

section \<open>The interface\<close>

locale port_tracker =
  fixes check :: "int \<Rightarrow> string \<Rightarrow> 't \<Rightarrow> unit result"
    and mark :: "int \<Rightarrow> string \<Rightarrow> 't \<Rightarrow> 't"
    and unmark :: "int \<Rightarrow> 't \<Rightarrow> 't"
    and unmark_service :: "string \<Rightarrow> 't \<Rightarrow> 't"
    and clear :: "'t \<Rightarrow> 't"
    and owner :: "'t \<Rightarrow> int \<Rightarrow> string option"
    and inv :: "'t \<Rightarrow> bool"
  assumes check_iff: "is_ok (check p k t) \<longleftrightarrow> owner t p = None \<or> owner t p = Some k"
    and owner_mark: "owner (mark p k t) = (owner t)(p \<mapsto> k)"
    and owner_unmark: "owner (unmark p t) = (owner t)(p := None)"
    and owner_unmark_service: "inv t \<Longrightarrow> owner (unmark_service k t) p = (if owner t p = Some k then None else owner t p)"
    and owner_clear: "owner (clear t) = Map.empty"
    and inv_mark: "inv t \<Longrightarrow> inv (mark p k t)"
    and inv_unmark: "inv t \<Longrightarrow> inv (unmark p t)"
    and inv_unmark_service: "inv t \<Longrightarrow> inv (unmark_service k t)"
    and inv_clear: "inv (clear t)"
begin

text \<open>A port that was checked first is never taken from another service.\<close>

lemma checked_mark_keeps_owners:
  assumes "is_ok (check p k t)" and "owner t q = Some k'" and "k' \<noteq> k"
  shows "owner (mark p k t) q = Some k'"
  using assms by (auto simp: check_iff owner_mark)

lemma mark_then_conflict: "k' \<noteq> k \<Longrightarrow> \<not> is_ok (check p k' (mark p k t))"
  by (simp add: check_iff owner_mark)

lemma unmark_frees: "is_ok (check p k (unmark p t))"
  by (simp add: check_iff owner_unmark)

lemma unmark_service_frees: "inv t \<Longrightarrow> owner t p = Some k \<Longrightarrow> is_ok (check p k' (unmark_service k t))"
  by (simp add: check_iff owner_unmark_service)

end

lemma gm_get_filter_snd:
  "gm_wf m \<Longrightarrow> gm_get (filter (\<lambda>(k, v). P v) m) k =
     (case gm_get m k of Some v \<Rightarrow> if P v then Some v else None | None \<Rightarrow> None)"
  by (induction m) (auto simp: gm_wf_def map_of_eq_None_iff split: option.splits)

lemma gm_wf_filter: "gm_wf m \<Longrightarrow> gm_wf (filter P m)"
  by (simp add: gm_wf_def distinct_map_filter)

interpretation tracker: port_tracker
  CheckPortConflict markPortUsed UnmarkPortUsed UnmarkPortsForService ClearPortConflictTracking gm_get gm_wf
  by unfold_locales
    (auto simp: CheckPortConflict_def markPortUsed_def UnmarkPortUsed_def UnmarkPortsForService_def
       ClearPortConflictTracking_def gm_get_filter_snd gm_wf_filter
       split: option.splits)

section \<open>Properties\<close>

text \<open>
  Port ownership is exclusive and reversible.  Once a service has marked a port, the check
  refuses every other service and accepts the owner; after the owner's ports are released
  (\<open>UnmarkPortsForService\<close>) the port is free for any service, and the ports of the other services keep
  their owners.
\<close>

lemma port_ownership_lifecycle:
  assumes "gm_wf used" and "other \<noteq> svc"
  shows "\<not> is_ok (CheckPortConflict p other (markPortUsed p svc used)) \<and>
    is_ok (CheckPortConflict p svc (markPortUsed p svc used)) \<and>
    is_ok (CheckPortConflict p other (UnmarkPortsForService svc (markPortUsed p svc used))) \<and>
    (gm_get used q = Some other \<and> q \<noteq> p \<longrightarrow>
       gm_get (UnmarkPortsForService svc (markPortUsed p svc used)) q = Some other)"
  using assms
  by (simp add: tracker.check_iff tracker.owner_mark tracker.owner_unmark_service tracker.inv_mark)

lemma port_ownership_lifecycle_witness:
  "\<not> is_ok (CheckPortConflict 8080 ''b/b'' (markPortUsed 8080 ''a/a'' [(9090, ''b/b'')])) \<and>
   gm_get (UnmarkPortsForService ''a/a'' (markPortUsed 8080 ''a/a'' [(9090, ''b/b'')])) 9090 = Some ''b/b''"
  using port_ownership_lifecycle [of "[(9090, ''b/b'')]" "''b/b''" "''a/a''" 8080 9090]
  by (simp add: gm_wf_def)

end
