(* ===== verification/Services.thy ===== *)
theory Services
  imports Routers PortTracking
begin

text \<open>
  Kubernetes services and the desired state they describe (pkg/utils/service_utils.go): the parsed
  annotation, its validation against the service's ports, and \<open>GetPortConfigs\<close>, which turns a
  service into the list of port forwards it asks for and claims the external ports on the way.

  \<open>Service\<close> and \<open>ServicePort\<close> carry the fields of the Kubernetes types that the program reads or
  compares.  A nil annotation map is \<open>None\<close>; a nil and an empty slice are the same list.
\<close>

section \<open>Kubernetes data\<close>

datatype IntOrString = IntVal int | StrVal string

record ServicePort =
  spName :: string
  spProtocol :: string
  spAppProtocol :: "string option"
  spPort :: int
  spTargetPort :: IntOrString
  spNodePort :: int

record Service =
  svcNamespace :: string
  svcName :: string
  svcAnnotations :: "(string, string) gomap option"
  svcFinalizers :: "string list"
  svcDeletionTimestamp :: "int option"
  svcType :: string
  svcPorts :: "ServicePort list"
  svcIngress :: "string list"

record PortMapping =
  PortName :: string
  ExternalPort :: int

definition serviceKey :: "Service \<Rightarrow> string" where
  "serviceKey service = svcNamespace service @ ''/'' @ svcName service"

section \<open>Reading a service\<close>

definition GetLBIP :: "Service \<Rightarrow> string" where
  "GetLBIP service =
     (case List.find (\<lambda>ip. ip \<noteq> '''') (svcIngress service) of Some ip \<Rightarrow> ip | None \<Rightarrow> '''')"

text \<open>\<open>string(r)\<close> for an integer \<open>r\<close>: the UTF-8 encoding of the code point, not its digits.\<close>

definition rune_string :: "int \<Rightarrow> string" where
  "rune_string r =
     (let byte = (\<lambda>i. char_of (nat i)) in
      if r < 0 \<or> 0x10FFFF < r \<or> (0xD800 \<le> r \<and> r \<le> 0xDFFF) then [CHR 0xEF, CHR 0xBF, CHR 0xBD]
      else if r < 0x80 then [byte r]
      else if r < 0x800 then [byte (0xC0 + r div 64), byte (0x80 + r mod 64)]
      else if r < 0x10000 then [byte (0xE0 + r div 4096), byte (0x80 + r div 64 mod 64), byte (0x80 + r mod 64)]
      else [byte (0xF0 + r div 262144), byte (0x80 + r div 4096 mod 64),
            byte (0x80 + r div 64 mod 64), byte (0x80 + r mod 64)])"

definition GetPortNameByNumber :: "Service \<Rightarrow> int \<Rightarrow> string" where
  "GetPortNameByNumber service portNumber =
     (case List.find (\<lambda>port. spPort port = portNumber) (svcPorts service) of
        Some port \<Rightarrow> if spName port \<noteq> '''' then spName port else rune_string (spPort port)
      | None \<Rightarrow> Itoa portNumber)"

definition GetServicePortByName :: "Service \<Rightarrow> string \<Rightarrow> ServicePort option" where
  "GetServicePortByName service portName = List.find (\<lambda>port. spName port = portName) (svcPorts service)"

section \<open>The mapping annotation\<close>

definition quote :: string where
  "quote = [CHR 0x27]"

definition format_help :: string where
  "format_help = ''Valid format: '' @ quote @ ''externalPort:portname'' @ quote @ '' or '' @ quote @ ''portname'' @
     quote @ ''. Example: '' @ quote @ ''8080:http,8443:https'' @ quote"

definition parseSingleMapping :: "string \<Rightarrow> PortMapping result" where
  "parseSingleMapping mapping =
     (case Split mapping (CHR '':'') of
        [name] \<Rightarrow> Inr \<lparr>PortName = name, ExternalPort = 0\<rparr>
      | [port, name] \<Rightarrow>
          (case Atoi port of
             None \<Rightarrow> Inl (ErrorString (''invalid external port '' @ quote @ port @ quote @ '' in mapping '' @ quote @
                        mapping @ quote @ '' - must be a number between 1-65535. '' @ format_help))
           | Some externalPort \<Rightarrow>
               if externalPort < 1 \<or> externalPort > 65535 then
                 Inl (ErrorString (''external port '' @ Itoa externalPort @ '' out of valid range (1-65535) in mapping '' @
                   quote @ mapping @ quote @ ''. '' @ format_help))
               else Inr \<lparr>PortName = name, ExternalPort = externalPort\<rparr>)
      | _ \<Rightarrow> Inl (ErrorString (''invalid mapping format: too many colons in '' @ quote @ mapping @ quote @ ''. '' @ format_help)))"

fun parse_parts :: "string list \<Rightarrow> PortMapping list \<Rightarrow> PortMapping list result" where
  "parse_parts [] mappings = Inr mappings"
| "parse_parts (part # parts) mappings =
     (let part = TrimSpace part in
      if part = '''' then parse_parts parts mappings
      else (case parseSingleMapping part of
              Inl err \<Rightarrow> Inl (ErrorString (''invalid port mapping '' @ quote @ part @ quote @ '': '' @ Error err))
            | Inr mapping \<Rightarrow> parse_parts parts (mappings @ [mapping])))"

definition parsePortMappingAnnotation :: "string \<Rightarrow> PortMapping list result" where
  "parsePortMappingAnnotation annotation =
     (if annotation = '''' then Inr [] else parse_parts (Split annotation (CHR '','')) [])"

section \<open>Validation\<close>

definition external_port :: "ServicePort \<Rightarrow> PortMapping \<Rightarrow> int" where
  "external_port port mapping = (if ExternalPort mapping = 0 then spPort port else ExternalPort mapping)"

definition available_ports :: "Service \<Rightarrow> string" where
  "available_ports service = Join (map (\<lambda>port. spName port @ ''('' @ Itoa (spPort port) @ '')'') (svcPorts service)) '', ''"

text \<open>The inner and the outer loop of the duplicate check; \<open>seen\<close> is the map \<open>externalPorts\<close>.\<close>

fun dup_mappings :: "ServicePort \<Rightarrow> PortMapping list \<Rightarrow> int list \<Rightarrow> int list result" where
  "dup_mappings port [] seen = Inr seen"
| "dup_mappings port (mapping # ms) seen =
     (if PortName mapping = spName port then
        (let externalPort = external_port port mapping in
         if externalPort \<in> set seen then
           Inl (ErrorString (''duplicate external port '' @ Itoa externalPort @ '' within service''))
         else dup_mappings port ms (externalPort # seen))
      else dup_mappings port ms seen)"

fun dup_ports :: "ServicePort list \<Rightarrow> PortMapping list \<Rightarrow> int list \<Rightarrow> unit result" where
  "dup_ports [] mappings seen = Inr ()"
| "dup_ports (port # ports) mappings seen =
     (case dup_mappings port mappings seen of
        Inl err \<Rightarrow> Inl err
      | Inr seen' \<Rightarrow> dup_ports ports mappings seen')"

definition validatePortMappings :: "Service \<Rightarrow> PortMapping list \<Rightarrow> unit result" where
  "validatePortMappings service mappings =
     (case List.find (\<lambda>m. PortName m \<notin> set (map spName (svcPorts service))) mappings of
        Some m \<Rightarrow>
          Inl (ErrorString (''port mapping references non-existent port '' @ quote @ PortName m @ quote @ '' in service '' @
            svcNamespace service @ ''/'' @ svcName service @ '' - available ports: '' @ available_ports service @
            ''. '' @ format_help))
      | None \<Rightarrow> dup_ports (svcPorts service) mappings [])"

section \<open>The desired port forwards\<close>

definition rule_name :: "Service \<Rightarrow> ServicePort \<Rightarrow> string" where
  "rule_name service port = svcNamespace service @ ''/'' @ svcName service @ '':'' @ spName port"

definition port_config :: "Service \<Rightarrow> string \<Rightarrow> ServicePort \<Rightarrow> int \<Rightarrow> PortConfig" where
  "port_config service lbIP port externalPort =
     \<lparr>Name = rule_name service port, Enabled = True, Interface = ''wan'', DstPort = externalPort,
      FwdPort = spPort port, SrcIP = ''any'', DstIP = lbIP, Protocol = ToLower (spProtocol port)\<rparr>"

fun config_ports ::
    "Service \<Rightarrow> string \<Rightarrow> PortMapping list \<Rightarrow> ServicePort list \<Rightarrow> PortConfig list \<Rightarrow> (ports, PortConfig list) io" where
  "config_ports service lbIP mappings [] configs used = (Inr configs, used)"
| "config_ports service lbIP mappings (port # ports) configs used =
     (case List.find (\<lambda>m. PortName m = spName port) mappings of
        None \<Rightarrow> config_ports service lbIP mappings ports configs used
      | Some m \<Rightarrow>
          (let externalPort = external_port port m in
           case CheckPortConflict externalPort (serviceKey service) used of
             Inl err \<Rightarrow> (Inl err, used)
           | Inr _ \<Rightarrow>
               config_ports service lbIP mappings ports (configs @ [port_config service lbIP port externalPort])
                 (markPortUsed externalPort (serviceKey service) used)))"

definition get_annotation :: "Service \<Rightarrow> string \<Rightarrow> string" where
  "get_annotation service key =
     (case svcAnnotations service of
        None \<Rightarrow> ''''
      | Some anns \<Rightarrow> (case gm_get anns key of None \<Rightarrow> '''' | Some v \<Rightarrow> v))"

definition GetPortConfigs :: "Service \<Rightarrow> string \<Rightarrow> string \<Rightarrow> (ports, PortConfig list) io" where
  "GetPortConfigs service lbIP annotationKey used =
     (let annotation = get_annotation service annotationKey in
      if annotation = '''' then (Inl (ErrorString ''no port annotation found''), used)
      else (case parsePortMappingAnnotation annotation of
              Inl err \<Rightarrow> (Inl (ErrorString (''failed to parse port mapping: '' @ Error err)), used)
            | Inr mappings \<Rightarrow>
                (case validatePortMappings service mappings of
                   Inl err \<Rightarrow> (Inl err, used)
                 | Inr _ \<Rightarrow> config_ports service lbIP mappings (svcPorts service) [] used)))"

section \<open>Parsing\<close>

definition show_mapping :: "PortMapping \<Rightarrow> string" where
  "show_mapping m =
     (if ExternalPort m = 0 then PortName m else Itoa (ExternalPort m) @ '':'' @ PortName m)"

definition mapping_ok :: "PortMapping \<Rightarrow> bool" where
  "mapping_ok m \<longleftrightarrow>
     PortName m \<noteq> '''' \<and> spaceless (PortName m) \<and> CHR '':'' \<notin> set (PortName m) \<and> CHR '','' \<notin> set (PortName m) \<and>
     (ExternalPort m = 0 \<or> valid_port (ExternalPort m))"

lemma is_digit_spaceless: "list_all is_digit s \<Longrightarrow> spaceless s"
  by (auto simp: spaceless_def list_all_iff is_digit_def)

lemma spaceless_append [simp]: "spaceless (s @ t) \<longleftrightarrow> spaceless s \<and> spaceless t"
  by (auto simp: spaceless_def)

lemma show_mapping_ok:
  assumes "mapping_ok m"
  shows "show_mapping m \<noteq> ''''" "CHR '','' \<notin> set (show_mapping m)" "spaceless (show_mapping m)"
proof -
  have "spaceless (CHR '':'' # s) = spaceless s" for s by (simp add: spaceless_def)
  moreover have "spaceless (Itoa p)" "CHR '','' \<notin> set (Itoa p)" if "valid_port p" for p
    using that valid_port_nonneg Itoa_nonneg_digits Itoa_nonneg_chars is_digit_spaceless by blast+
  ultimately show "show_mapping m \<noteq> ''''" "CHR '','' \<notin> set (show_mapping m)" "spaceless (show_mapping m)"
    using assms by (auto simp: mapping_ok_def show_mapping_def)
qed

lemma parseSingleMapping_show:
  assumes "mapping_ok m"
  shows "parseSingleMapping (show_mapping m) = Inr m"
proof (cases "ExternalPort m = 0")
  case True
  with assms show ?thesis
    by (simp add: parseSingleMapping_def show_mapping_def mapping_ok_def Split_no_sep)
next
  case False
  with assms have p: "valid_port (ExternalPort m)" and n: "CHR '':'' \<notin> set (PortName m)"
    by (auto simp: mapping_ok_def)
  have "Split (show_mapping m) (CHR '':'') = [Itoa (ExternalPort m), PortName m]"
    using False n Itoa_nonneg_chars(2) [OF valid_port_nonneg [OF p]]
    by (simp add: show_mapping_def Split_append Split_no_sep)
  with p show ?thesis
    by (simp add: parseSingleMapping_def Atoi_Itoa valid_port_int64) (simp add: valid_port_def)
qed

lemma parse_parts_show:
  "\<forall>m \<in> set ms. mapping_ok m \<Longrightarrow> parse_parts (map show_mapping ms) acc = Inr (acc @ ms)"
  by (induction ms arbitrary: acc)
    (auto simp: show_mapping_ok TrimSpace_spaceless parseSingleMapping_show Let_def)

lemma parseSingleMapping_range:
  "parseSingleMapping s = Inr m \<Longrightarrow> ExternalPort m = 0 \<or> valid_port (ExternalPort m)"
  by (auto simp: parseSingleMapping_def valid_port_def split: list.splits option.splits if_splits)

lemma parse_parts_range:
  "parse_parts ps acc = Inr ms \<Longrightarrow> \<forall>m \<in> set acc. ExternalPort m = 0 \<or> valid_port (ExternalPort m) \<Longrightarrow>
   \<forall>m \<in> set ms. ExternalPort m = 0 \<or> valid_port (ExternalPort m)"
proof (induction ps arbitrary: acc)
  case (Cons p ps)
  show ?case
  proof (cases "TrimSpace p = ''''")
    case True
    with Cons show ?thesis by (simp add: Let_def)
  next
    case False
    with Cons.prems(1) obtain m where m: "parseSingleMapping (TrimSpace p) = Inr m"
      and rest: "parse_parts ps (acc @ [m]) = Inr ms"
      by (auto simp: Let_def split: sum.splits)
    from Cons.IH [OF rest] Cons.prems(2) parseSingleMapping_range [OF m] show ?thesis by auto
  qed
qed simp

text \<open>
  C38: parsing the annotation is a left inverse of writing it.  For every list of mappings whose port
  names are non-empty printable words without separators, and whose external ports are 0 (use the
  service port) or in 1..65535, the comma-separated annotation parses back to exactly that list.
\<close>

theorem annotation_roundtrip:
  assumes "\<forall>m \<in> set ms. mapping_ok m"
  shows "parsePortMappingAnnotation (Join (map show_mapping ms) '','') = Inr ms"
proof (cases ms)
  case Nil
  then show ?thesis by (simp add: parsePortMappingAnnotation_def)
next
  case (Cons m ms')
  have split: "Split (Join (map show_mapping ms) '','') (CHR '','') = map show_mapping ms"
    using Cons assms show_mapping_ok(2) by (intro Split_Join) auto
  moreover have "Join (map show_mapping ms) '','' \<noteq> ''''"
  proof
    assume "Join (map show_mapping ms) '','' = ''''"
    with split have "map show_mapping ms = ['''']" by simp
    with Cons assms show_mapping_ok(1) show False by simp
  qed
  ultimately show ?thesis
    using assms by (simp add: parsePortMappingAnnotation_def parse_parts_show)
qed

theorem annotation_roundtrip_witness:
  "parsePortMappingAnnotation ''8080:http,https'' =
     Inr [\<lparr>PortName = ''http'', ExternalPort = 8080\<rparr>, \<lparr>PortName = ''https'', ExternalPort = 0\<rparr>]"
proof -
  have "Itoa 8080 = ''8080''" by (simp add: go_eval)
  moreover have "\<forall>m \<in> set [\<lparr>PortName = ''http'', ExternalPort = 8080\<rparr>, \<lparr>PortName = ''https'', ExternalPort = 0\<rparr>].
      mapping_ok m"
    by (simp add: mapping_ok_def valid_port_def spaceless_def)
  ultimately show ?thesis
    using annotation_roundtrip by (fastforce simp: show_mapping_def)
qed

lemma parsed_valid:
  assumes "parsePortMappingAnnotation annotation = Inr ms" and "m \<in> set ms"
  shows "ExternalPort m = 0 \<or> valid_port (ExternalPort m)"
  using assms by (cases "annotation = ''''") (auto simp: parsePortMappingAnnotation_def dest!: parse_parts_range)

text \<open>
  Every external port that leaves the parser is 0 (meaning the service port is used) or a valid
  port number; nothing out of 1..65535 and no negative number passes, whatever the annotation says.
\<close>

lemma parsed_ports_in_range:
  assumes "parsePortMappingAnnotation annotation = Inr ms" and "m \<in> set ms"
  shows "ExternalPort m = 0 \<or> (1 \<le> ExternalPort m \<and> ExternalPort m \<le> 65535)"
  using parsed_valid [OF assms] by (simp add: valid_port_def)

theorem parsed_ports_in_range_witness:
  "ExternalPort \<lparr>PortName = ''http'', ExternalPort = 65535\<rparr> = 0 \<or>
   (1 \<le> ExternalPort \<lparr>PortName = ''http'', ExternalPort = 65535\<rparr> \<and>
    ExternalPort \<lparr>PortName = ''http'', ExternalPort = 65535\<rparr> \<le> 65535)"
proof (rule parsed_ports_in_range)
  show "parsePortMappingAnnotation ''65535:http'' = Inr [\<lparr>PortName = ''http'', ExternalPort = 65535\<rparr>]"
    by (simp add: parsePortMappingAnnotation_def TrimSpace_spaceless spaceless_def parseSingleMapping_def go_eval)
qed simp

section \<open>Validation and claiming\<close>

definition mapped_externals :: "PortMapping list \<Rightarrow> ServicePort \<Rightarrow> int list" where
  "mapped_externals ms port = map (external_port port) (filter (\<lambda>m. PortName m = spName port) ms)"

lemma dup_mappings_spec:
  "is_ok (dup_mappings port ms seen) \<longleftrightarrow>
     distinct (mapped_externals ms port) \<and> set (mapped_externals ms port) \<inter> set seen = {}"
  by (induction ms arbitrary: seen) (auto simp: mapped_externals_def Let_def)

lemma dup_mappings_seen:
  "dup_mappings port ms seen = Inr seen' \<Longrightarrow> set seen' = set (mapped_externals ms port) \<union> set seen"
  by (induction ms arbitrary: seen) (auto simp: mapped_externals_def Let_def split: if_splits)

lemma dup_ports_spec:
  "is_ok (dup_ports ps ms seen) \<longleftrightarrow>
     distinct (concat (map (mapped_externals ms) ps)) \<and>
     set (concat (map (mapped_externals ms) ps)) \<inter> set seen = {}"
proof (induction ps arbitrary: seen)
  case (Cons p ps)
  show ?case
  proof (cases "dup_mappings p ms seen")
    case (Inl e)
    with dup_mappings_spec [of p ms seen] show ?thesis by auto
  next
    case (Inr seen')
    with dup_mappings_spec [of p ms seen] dup_mappings_seen [OF Inr] Cons.IH [of seen'] show ?thesis
      by auto
  qed
qed simp

lemma validate_ok_iff:
  "is_ok (validatePortMappings service ms) \<longleftrightarrow>
     PortName ` set ms \<subseteq> spName ` set (svcPorts service) \<and>
     distinct (concat (map (\<lambda>port. map (external_port port) (filter (\<lambda>m. PortName m = spName port) ms))
       (svcPorts service)))"
proof (cases "List.find (\<lambda>m. PortName m \<notin> set (map spName (svcPorts service))) ms")
  case None
  then have "PortName ` set ms \<subseteq> spName ` set (svcPorts service)" by (auto dest: find_NoneD)
  with None dup_ports_spec [of "svcPorts service" ms "[]"] show ?thesis
    by (simp add: validatePortMappings_def) (simp add: mapped_externals_def [abs_def])
next
  case (Some m)
  from find_SomeD [OF this] have "\<not> PortName ` set ms \<subseteq> spName ` set (svcPorts service)" by auto
  with Some show ?thesis by (simp add: validatePortMappings_def)
qed

text \<open>
  The validation accepts exactly the mappings that name existing ports and give pairwise different
  external ports, where a mapping without its own port takes the service port.
\<close>

lemma validatePortMappings_iff:
  "is_ok (validatePortMappings service ms) \<longleftrightarrow>
     PortName ` set ms \<subseteq> spName ` set (svcPorts service) \<and>
     distinct (concat (map (\<lambda>port. map (external_port port) (filter (\<lambda>m. PortName m = spName port) ms))
       (svcPorts service)))"
  by (rule validate_ok_iff)

definition wanted_port :: "Service \<Rightarrow> string \<Rightarrow> PortMapping list \<Rightarrow> ServicePort \<Rightarrow> PortConfig option" where
  "wanted_port service lbIP ms port =
     map_option (\<lambda>m. port_config service lbIP port (external_port port m))
       (List.find (\<lambda>m. PortName m = spName port) ms)"

definition wanted :: "Service \<Rightarrow> string \<Rightarrow> PortMapping list \<Rightarrow> PortConfig list" where
  "wanted service lbIP ms = List.map_filter (wanted_port service lbIP ms) (svcPorts service)"

lemma config_ports_result:
  "config_ports service lbIP ms ps cs used = (Inr cs', used') \<Longrightarrow>
     cs' = cs @ List.map_filter (wanted_port service lbIP ms) ps \<and>
     gm_get used' = (\<lambda>q. if q \<in> DstPort ` set (List.map_filter (wanted_port service lbIP ms) ps)
                          then Some (serviceKey service) else gm_get used q)"
proof (induction ps arbitrary: cs used)
  case (Cons p ps)
  show ?case
  proof (cases "List.find (\<lambda>m. PortName m = spName p) ms")
    case None
    with Cons show ?thesis by (simp add: wanted_port_def List.map_filter_simps)
  next
    case (Some m)
    let ?e = "external_port p m"
    from Some Cons.prems have "config_ports service lbIP ms ps (cs @ [port_config service lbIP p ?e])
        (markPortUsed ?e (serviceKey service) used) = (Inr cs', used')"
      by (auto simp: Let_def split: sum.splits)
    from Cons.IH [OF this] Some show ?thesis
      by (auto simp: wanted_port_def List.map_filter_simps port_config_def tracker.owner_mark fun_eq_iff)
  qed
qed (simp add: List.map_filter_simps)

lemma config_ports_owners:
  assumes "config_ports service lbIP ms ps cs used = (res, used')"
  shows "(gm_get used q = Some k \<and> k \<noteq> serviceKey service \<longrightarrow> gm_get used' q = Some k) \<and>
         (gm_get used' q = Some k \<longrightarrow> k = serviceKey service \<or> gm_get used q = Some k)"
  using assms
proof (induction ps arbitrary: cs used)
  case (Cons p ps)
  show ?case
  proof (cases "List.find (\<lambda>m. PortName m = spName p) ms")
    case None
    with Cons show ?thesis by simp
  next
    case (Some m)
    let ?e = "external_port p m" and ?k = "serviceKey service"
    show ?thesis
    proof (cases "CheckPortConflict ?e ?k used")
      case (Inl e)
      with Some Cons.prems show ?thesis by (simp add: Let_def)
    next
      case (Inr u)
      with Some Cons.prems have rest: "config_ports service lbIP ms ps (cs @ [port_config service lbIP p ?e])
          (markPortUsed ?e ?k used) = (res, used')" by (simp add: Let_def)
      have "is_ok (CheckPortConflict ?e ?k used)" using Inr by simp
      with Cons.IH [OF rest] tracker.checked_mark_keeps_owners [of ?e ?k used q k] show ?thesis
        by (auto simp: tracker.owner_mark split: if_splits)
    qed
  qed
qed simp

lemma wanted_DstPort_subset:
  "wanted_port service lbIP ms p = Some c \<Longrightarrow> DstPort c \<in> set (mapped_externals ms p)"
  by (force simp: wanted_port_def mapped_externals_def port_config_def dest: find_SomeD)

lemma wanted_distinct:
  "distinct (concat (map (mapped_externals ms) ps)) \<Longrightarrow>
   distinct (map DstPort (List.map_filter (wanted_port service lbIP ms) ps))"
proof (induction ps)
  case (Cons p ps)
  then have IH: "distinct (map DstPort (List.map_filter (wanted_port service lbIP ms) ps))" by simp
  have sub: "DstPort d \<in> set (concat (map (mapped_externals ms) ps))"
    if "q \<in> set ps" "wanted_port service lbIP ms q = Some d" for q d
    using that(1) wanted_DstPort_subset [OF that(2)] by auto
  show ?case
  proof (cases "wanted_port service lbIP ms p")
    case (Some c)
    have "DstPort c \<notin> DstPort ` set (List.map_filter (wanted_port service lbIP ms) ps)"
    proof
      assume "DstPort c \<in> DstPort ` set (List.map_filter (wanted_port service lbIP ms) ps)"
      then obtain q d where "q \<in> set ps" "wanted_port service lbIP ms q = Some d" "DstPort d = DstPort c"
        by (auto simp: map_filter_Some_set)
      with sub have "DstPort c \<in> set (concat (map (mapped_externals ms) ps))" by metis
      with wanted_DstPort_subset [OF Some] Cons.prems show False by auto
    qed
    with IH Some show ?thesis by (simp add: List.map_filter_simps)
  qed (simp add: IH List.map_filter_simps)
qed (simp add: List.map_filter_simps)

lemma GetPortConfigs_okE:
  assumes "GetPortConfigs service lbIP key used = (Inr cfgs, used')"
  obtains ms where "parsePortMappingAnnotation (get_annotation service key) = Inr ms"
    "is_ok (validatePortMappings service ms)" "cfgs = wanted service lbIP ms" "distinct (map DstPort cfgs)"
    "gm_get used' = (\<lambda>q. if q \<in> DstPort ` set cfgs then Some (serviceKey service) else gm_get used q)"
proof -
  from assms obtain ms where ms: "parsePortMappingAnnotation (get_annotation service key) = Inr ms"
    and v: "is_ok (validatePortMappings service ms)"
    and c: "config_ports service lbIP ms (svcPorts service) [] used = (Inr cfgs, used')"
    by (auto simp: GetPortConfigs_def Let_def is_ok_iff split: if_splits sum.splits)
  from config_ports_result [OF c] have cfgs: "cfgs = wanted service lbIP ms" by (simp add: wanted_def)
  moreover from v have "distinct (map DstPort (wanted service lbIP ms))"
    unfolding wanted_def validate_ok_iff
    by (intro wanted_distinct) (simp add: mapped_externals_def [abs_def])
  ultimately show ?thesis using that ms v config_ports_result [OF c] by (simp add: wanted_def)
qed

text \<open>Claiming succeeds when every port the service asks for is free or its own already.\<close>

lemma config_ports_succeeds:
  assumes "\<forall>c \<in> set (List.map_filter (wanted_port service lbIP ms) ps). gm_get used (DstPort c) \<in> {None, Some (serviceKey service)}"
  shows "\<exists>used'. config_ports service lbIP ms ps cs used = (Inr (cs @ List.map_filter (wanted_port service lbIP ms) ps), used')"
  using assms
proof (induction ps arbitrary: cs used)
  case (Cons p ps)
  show ?case
  proof (cases "List.find (\<lambda>m. PortName m = spName p) ms")
    case None
    with Cons show ?thesis by (simp add: wanted_port_def List.map_filter_simps)
  next
    case (Some m)
    let ?e = "external_port p m" and ?k = "serviceKey service"
    from Some have w: "wanted_port service lbIP ms p = Some (port_config service lbIP p ?e)" by (simp add: wanted_port_def)
    with Cons.prems have "gm_get used ?e \<in> {None, Some ?k}" by (simp add: List.map_filter_simps port_config_def)
    then have ok: "is_ok (CheckPortConflict ?e ?k used)" by (auto simp: CheckPortConflict_def split: option.splits)
    have "\<forall>c \<in> set (List.map_filter (wanted_port service lbIP ms) ps).
        gm_get (markPortUsed ?e ?k used) (DstPort c) \<in> {None, Some ?k}"
      using Cons.prems w by (simp add: List.map_filter_simps tracker.owner_mark)
    from Cons.IH [OF this, of "cs @ [port_config service lbIP p ?e]"] Some ok w show ?thesis
      by (auto simp: List.map_filter_simps Let_def is_ok_iff)
  qed
qed (simp add: List.map_filter_simps)

lemma GetPortConfigs_again:
  assumes "GetPortConfigs service lbIP key used = (Inr cfgs, used')"
  shows "\<exists>used''. GetPortConfigs service lbIP key used' = (Inr cfgs, used'')"
proof -
  from assms obtain ms where ms: "parsePortMappingAnnotation (get_annotation service key) = Inr ms"
    "is_ok (validatePortMappings service ms)" "cfgs = wanted service lbIP ms" and
    own: "gm_get used' = (\<lambda>q. if q \<in> DstPort ` set cfgs then Some (serviceKey service) else gm_get used q)"
    by (rule GetPortConfigs_okE)
  have "\<exists>u. config_ports service lbIP ms (svcPorts service) [] used' = (Inr ([] @ wanted service lbIP ms), u)"
    unfolding wanted_def using own ms(3) by (intro config_ports_succeeds) (simp add: wanted_def)
  moreover have "get_annotation service key \<noteq> ''''" using assms by (auto simp: GetPortConfigs_def)
  ultimately show ?thesis using ms by (auto simp: GetPortConfigs_def Let_def is_ok_iff)
qed

lemma wantedE:
  assumes "c \<in> set (wanted service lbIP ms)"
  obtains port m where "port \<in> set (svcPorts service)" "m \<in> set ms" "PortName m = spName port"
    "c = port_config service lbIP port (external_port port m)"
  using assms by (auto simp: wanted_def map_filter_Some_set wanted_port_def dest!: find_SomeD)

text \<open>
  C20: a successful \<open>GetPortConfigs\<close> returns exactly the port forwards the annotation asks for, in the
  order of the service's ports: one for each port the annotation names, from the external port of the
  first mapping that names it (or the service port itself) to the service port on the load balancer
  IP, named namespace/service:port.  Their external ports are pairwise different, and afterwards each
  of them is recorded as owned by this service, while every other port keeps its owner.
\<close>

theorem GetPortConfigs_desired:
  assumes "GetPortConfigs service lbIP key used = (Inr cfgs, used')"
  shows "\<exists>ms. parsePortMappingAnnotation (get_annotation service key) = Inr ms \<and>
    cfgs = List.map_filter (\<lambda>port. map_option
        (\<lambda>m. port_config service lbIP port (external_port port m))
        (List.find (\<lambda>m. PortName m = spName port) ms)) (svcPorts service) \<and>
    distinct (map DstPort cfgs) \<and>
    (\<forall>q. gm_get used' q = (if q \<in> DstPort ` set cfgs then Some (serviceKey service) else gm_get used q))"
  using assms by (elim GetPortConfigs_okE) (auto simp: wanted_def wanted_port_def [abs_def])

definition example_port :: "string \<Rightarrow> int \<Rightarrow> ServicePort" where
  "example_port name port =
     \<lparr>spName = name, spProtocol = ''TCP'', spAppProtocol = None, spPort = port,
      spTargetPort = IntVal port, spNodePort = 0\<rparr>"

definition example_service :: "string \<Rightarrow> Service" where
  "example_service annotation =
     \<lparr>svcNamespace = ''web'', svcName = ''shop'', svcAnnotations = Some [(''map'', annotation)],
      svcFinalizers = [], svcDeletionTimestamp = None, svcType = ''LoadBalancer'',
      svcPorts = [example_port ''http'' 80, example_port ''tls'' 443], svcIngress = [''10.0.0.5'']\<rparr>"

lemmas service_eval = example_service_def example_port_def GetPortConfigs_def get_annotation_def
  parsePortMappingAnnotation_def TrimSpace_spaceless spaceless_def parseSingleMapping_def
  validatePortMappings_def external_port_def CheckPortConflict_def markPortUsed_def serviceKey_def
  port_config_def rule_name_def ToLower_def lower_char_def GetLBIP_def Let_def

lemma char_of_lower: "char_of (116 :: nat) = CHR ''t''" "char_of (99 :: nat) = CHR ''c''" "char_of (112 :: nat) = CHR ''p''"
  "char_of (117 :: nat) = CHR ''u''" "char_of (100 :: nat) = CHR ''d''" "char_of (115 :: nat) = CHR ''s''"
  by (simp_all add: char_of_eq_iff)

theorem GetPortConfigs_desired_witness:
  "\<exists>cfgs used'. GetPortConfigs (example_service ''8080:http,tls'') ''10.0.0.5'' ''map'' [] = (Inr cfgs, used') \<and>
     map DstPort cfgs = [8080, 443] \<and> gm_get used' 8080 = Some ''web/shop'' \<and> gm_get used' 80 = None"
proof -
  obtain cfgs used' where run:
    "GetPortConfigs (example_service ''8080:http,tls'') ''10.0.0.5'' ''map'' [] = (Inr cfgs, used')"
    and ports: "map DstPort cfgs = [8080, 443]"
    by (simp add: service_eval go_eval)
  have dst: "DstPort ` set cfgs = {8080, 443}" using arg_cong [OF ports, of set] by simp
  have key: "serviceKey (example_service ''8080:http,tls'') = ''web/shop''" by (simp add: service_eval)
  from GetPortConfigs_desired [OF run] have "gm_get used' 8080 = Some ''web/shop'' \<and> gm_get used' 80 = None"
    unfolding dst key by force
  with run ports show ?thesis by (intro exI [of _ cfgs] exI [of _ used']) simp
qed

text \<open>
  C21: claiming ports never takes one from another service.  Whatever \<open>GetPortConfigs\<close> returns, success
  or error, a port owned by a different service keeps its owner, a port it newly marks belongs to this
  service, and when it succeeds none of the ports it returns was owned by another service before.
\<close>

theorem GetPortConfigs_never_steals:
  assumes run: "GetPortConfigs service lbIP key used = (res, used')" and other: "k \<noteq> serviceKey service"
  shows "(gm_get used q = Some k \<longrightarrow> gm_get used' q = Some k) \<and>
    (gm_get used' q = Some k \<longrightarrow> gm_get used q = Some k) \<and>
    (\<forall>cfgs c. res = Inr cfgs \<longrightarrow> c \<in> set cfgs \<longrightarrow> gm_get used (DstPort c) \<noteq> Some k)"
proof -
  have keep: "(gm_get used q = Some k \<longrightarrow> gm_get used' q = Some k) \<and>
      (gm_get used' q = Some k \<longrightarrow> gm_get used q = Some k)" for q
    using run other config_ports_owners [of service lbIP _ "svcPorts service" "[]" used res used' q k]
    by (auto simp: GetPortConfigs_def Let_def split: if_splits sum.splits)
  moreover have "gm_get used (DstPort c) \<noteq> Some k" if "res = Inr cfgs" "c \<in> set cfgs" for cfgs c
  proof -
    have "GetPortConfigs service lbIP key used = (Inr cfgs, used')" using run that by simp
    then have "gm_get used' (DstPort c) = Some (serviceKey service)"
      using that by (elim GetPortConfigs_okE) auto
    with keep [of "DstPort c"] other show ?thesis by auto
  qed
  ultimately show ?thesis by blast
qed

theorem GetPortConfigs_never_steals_witness:
  "\<exists>e used'. GetPortConfigs (example_service ''8080:http,tls'') ''10.0.0.5'' ''map'' [(443, ''db/proxy'')] = (Inl e, used') \<and>
     gm_get used' 443 = Some ''db/proxy''"
proof -
  obtain e used' where run:
    "GetPortConfigs (example_service ''8080:http,tls'') ''10.0.0.5'' ''map'' [(443, ''db/proxy'')] = (Inl e, used')"
    by (simp add: service_eval go_eval)
  have "''db/proxy'' \<noteq> serviceKey (example_service ''8080:http,tls'')" by (simp add: service_eval)
  with run GetPortConfigs_never_steals [OF run this, of 443] show ?thesis by auto
qed

text \<open>
  A claim that fails halfway is not undone.  When a later port of the service is owned by another
  service, \<open>GetPortConfigs\<close> returns an error, but the ports before it stay marked as owned by the
  service that got no port forward.
\<close>

lemma failed_claim_keeps_marks:
  "\<exists>service used used' e.
     GetPortConfigs service ''10.0.0.5'' ''map'' used = (Inl e, used') \<and>
     gm_get used 8080 = None \<and> gm_get used' 8080 = Some (serviceKey service)"
  by (rule exI [of _ "example_service ''8080:http,tls''"], rule exI [of _ "[(443, ''db/proxy'')]"])
    (simp add: service_eval go_eval)

end
