(* ===== verification/UnifiRouter.thy ===== *)
theory UnifiRouter
  imports Routers
begin

text \<open>
  The UniFi implementation of the router interface (pkg/routers/unifi.go).  The UniFi API client
  (github.com/filipowm/go-unifi) talks HTTP to the gateway; it is a record of calls over the world
  \<open>'w\<close>, and the locales \<open>unifi_client\<close> and \<open>unifi_client_atomic\<close> name what the router
  relies on:

  \<^item> listing returns the stored rules and changes nothing; logging in changes no rule;
  \<^item> a created rule is stored as sent under a fresh, non-empty identifier;
  \<^item> an update replaces the rule with the identifier in the payload; a delete removes it;
  \<^item> the gateway refuses a rule that would listen on an occupied slot (the \<open>PortForwardOverlaps\<close>
    error that pkg/controller/portforwardrule_controller.go handles);
  \<^item> a call answered with status 401 had no effect; for \<open>unifi_client_atomic\<close>, no call that
    reports an error had an effect.

  \<open>ref_client\<close> is an in-memory gateway that satisfies them.
\<close>

section \<open>The UniFi API client\<close>

record 'w UnifiClient =
  c_Login :: "('w, unit) io"
  c_ListPortForward :: "string \<Rightarrow> ('w, PortForward list) io"
  c_CreatePortForward :: "string \<Rightarrow> PortForward \<Rightarrow> ('w, PortForward) io"
  c_UpdatePortForward :: "string \<Rightarrow> PortForward \<Rightarrow> ('w, PortForward) io"
  c_DeletePortForward :: "string \<Rightarrow> string \<Rightarrow> ('w, unit) io"

record 'w UnifiRouter =
  urSiteID :: string
  urClient :: "'w UnifiClient"

section \<open>The router\<close>

definition StatusUnauthorized :: int where
  "StatusUnauthorized = 401"

definition withAuthRetry :: "'w UnifiRouter \<Rightarrow> ('w, 'a) io \<Rightarrow> ('w, 'a) io" where
  "withAuthRetry router fn w =
     (case fn w of
        (Inr a, w1) \<Rightarrow> (Inr a, w1)
      | (Inl err, w1) \<Rightarrow>
          (case err of
             ServerError code msg \<Rightarrow>
               if code = StatusUnauthorized then
                 (case c_Login (urClient router) w1 of
                    (Inr _, w2) \<Rightarrow> fn w2
                  | (Inl _, w2) \<Rightarrow> (Inl err, w2))
               else (Inl err, w1)
           | _ \<Rightarrow> (Inl err, w1)))"

definition matches_port :: "int \<Rightarrow> string \<Rightarrow> PortForward \<Rightarrow> bool" where
  "matches_port port protocol pf \<longleftrightarrow>
     (case Atoi (pfDstPort pf) of
        None \<Rightarrow> False
      | Some portNum \<Rightarrow> portNum = port \<and> EqualFold (Proto pf) protocol)"

definition CheckPort :: "'w UnifiRouter \<Rightarrow> int \<Rightarrow> string \<Rightarrow> ('w, PortForward option) io" where
  "CheckPort router port protocol w =
     (case withAuthRetry router (c_ListPortForward (urClient router) (urSiteID router)) w of
        (Inl err, w1) \<Rightarrow> (Inl err, w1)
      | (Inr portforwards, w1) \<Rightarrow> (Inr (List.find (matches_port port protocol) portforwards), w1))"

definition add_payload :: "'w UnifiRouter \<Rightarrow> PortConfig \<Rightarrow> PortForward" where
  "add_payload router config =
     \<lparr>ID = '''', SiteID = urSiteID router, DestinationIP = ''any'', pfDstPort = Itoa (DstPort config),
      pfEnabled = Enabled config, Fwd = DstIP config, pfFwdPort = Itoa (FwdPort config),
      pfName = Name config, PfwdInterface = Interface config, Proto = Protocol config, Src = ''any''\<rparr>"

definition AddPort :: "'w UnifiRouter \<Rightarrow> PortConfig \<Rightarrow> ('w, unit) io" where
  "AddPort router config w =
     (if DstIP config = '''' then
        (Inl (ErrorString (''forward IP was empty - I don'' @ [CHR 0x27] @ ''t want to create such a rule'')), w)
      else
        (case withAuthRetry router
                (c_CreatePortForward (urClient router) (urSiteID router) (add_payload router config)) w of
           (Inl err, w1) \<Rightarrow> (Inl err, w1)
         | (Inr _, w1) \<Rightarrow> (Inr (), w1)))"

definition update_payload :: "'w UnifiRouter \<Rightarrow> PortForward \<Rightarrow> PortConfig \<Rightarrow> PortForward" where
  "update_payload router pf config =
     \<lparr>ID = ID pf, SiteID = urSiteID router, DestinationIP = DestinationIP pf,
      pfDstPort = Itoa (DstPort config), pfEnabled = Enabled config, Fwd = DstIP config,
      pfFwdPort = Itoa (FwdPort config), pfName = Name config, PfwdInterface = Interface config,
      Proto = Protocol config, Src = Src pf\<rparr>"

definition UpdatePort :: "'w UnifiRouter \<Rightarrow> int \<Rightarrow> PortConfig \<Rightarrow> ('w, unit) io" where
  "UpdatePort router port config w =
     (case CheckPort router port (Protocol config) w of
        (Inl err, w1) \<Rightarrow> (Inl err, w1)
      | (Inr None, w1) \<Rightarrow>
          (Inl (ErrorString (''port forward rule for port '' @ Itoa port @ '' not found'')), w1)
      | (Inr (Some pf), w1) \<Rightarrow>
          (case withAuthRetry router
                  (c_UpdatePortForward (urClient router) (urSiteID router) (update_payload router pf config)) w1 of
             (Inl err, w2) \<Rightarrow>
               (Inl (ErrorString (''failed to update port forward rule for port '' @ Itoa port @
                                  '' (protocol '' @ Protocol config @ ''): '' @ Error err)), w2)
           | (Inr _, w2) \<Rightarrow> (Inr (), w2)))"

definition DeletePortForwardByID :: "'w UnifiRouter \<Rightarrow> string \<Rightarrow> ('w, unit) io" where
  "DeletePortForwardByID router ruleID w =
     withAuthRetry router (c_DeletePortForward (urClient router) (urSiteID router) ruleID) w"

definition ListAllPortForwards :: "'w UnifiRouter \<Rightarrow> ('w, PortForward list) io" where
  "ListAllPortForwards router w =
     withAuthRetry router (c_ListPortForward (urClient router) (urSiteID router)) w"

definition RemovePort :: "'w UnifiRouter \<Rightarrow> PortConfig \<Rightarrow> ('w, unit) io" where
  "RemovePort router config w =
     (case CheckPort router (DstPort config) (Protocol config) w of
        (Inl err, w1) \<Rightarrow> (Inl err, w1)
      | (Inr None, w1) \<Rightarrow> (Inr (), w1)
      | (Inr (Some pf), w1) \<Rightarrow>
          (case withAuthRetry router (c_DeletePortForward (urClient router) (urSiteID router) (ID pf)) w1 of
             (Inl err, w2) \<Rightarrow>
               (Inl (ErrorString (''deleting port-forward rule '' @ ID pf @ '': '' @ Error err)), w2)
           | (Inr _, w2) \<Rightarrow> (Inr (), w2)))"

text \<open>\<open>*UnifiRouter\<close> as a value of the interface \<open>routers.Router\<close>.\<close>

definition unifi_router :: "'w UnifiRouter \<Rightarrow> 'w Router" where
  "unifi_router router =
     \<lparr>r_AddPort = AddPort router, r_CheckPort = CheckPort router, r_RemovePort = RemovePort router,
      r_UpdatePort = UpdatePort router, r_DeletePortForwardByID = DeletePortForwardByID router,
      r_ListAllPortForwards = ListAllPortForwards router\<rparr>"

lemma unifi_router_simps [simp]:
  "r_AddPort (unifi_router u) = AddPort u" "r_CheckPort (unifi_router u) = CheckPort u"
  "r_RemovePort (unifi_router u) = RemovePort u" "r_UpdatePort (unifi_router u) = UpdatePort u"
  "r_DeletePortForwardByID (unifi_router u) = DeletePortForwardByID u"
  "r_ListAllPortForwards (unifi_router u) = ListAllPortForwards u"
  by (simp_all add: unifi_router_def)

text \<open>
  \<open>CreateUnifiRouter\<close>: an API key replaces user and password, and the new client logs in at once.
  \<open>NewClient\<close> stands for \<open>unifi.NewClient\<close>.
\<close>

record ClientConfig =
  ccfURL :: string
  ccfVerifySSL :: bool
  ccfHardValidation :: bool
  ccfUser :: string
  ccfPassword :: string
  ccfRememberMe :: bool
  ccfAPIKey :: string

definition client_config :: "string \<Rightarrow> string \<Rightarrow> string \<Rightarrow> string \<Rightarrow> ClientConfig" where
  "client_config baseURL username password apiKey =
     (let clientConfig = \<lparr>ccfURL = baseURL, ccfVerifySSL = False, ccfHardValidation = True, ccfUser = username,
            ccfPassword = password, ccfRememberMe = True, ccfAPIKey = ''''\<rparr>
      in if apiKey \<noteq> '''' then clientConfig\<lparr>ccfAPIKey := apiKey, ccfUser := '''', ccfPassword := ''''\<rparr>
         else clientConfig)"

definition CreateUnifiRouter ::
    "(ClientConfig \<Rightarrow> ('w, 'w UnifiClient) io) \<Rightarrow> string \<Rightarrow> string \<Rightarrow> string \<Rightarrow> string \<Rightarrow> string \<Rightarrow>
     ('w, 'w UnifiRouter) io" where
  "CreateUnifiRouter NewClient baseURL username password site apiKey w =
     (case NewClient (client_config baseURL username password apiKey) w of
        (Inl err, w1) \<Rightarrow> (Inl (wrap ''failed to create client'' err), w1)
      | (Inr client, w1) \<Rightarrow>
          (case c_Login client w1 of
             (Inl err, w2) \<Rightarrow> (Inl err, w2)
           | (Inr _, w2) \<Rightarrow> (Inr \<lparr>urSiteID = site, urClient = client\<rparr>, w2)))"

text \<open>The ports that \<open>CheckPort\<close> logs when it finds none.\<close>

definition getAvailablePorts :: "PortForward list \<Rightarrow> string list" where
  "getAvailablePorts portforwards =
     map (\<lambda>pf. pfDstPort pf @ ''/'' @ Proto pf) (filter (\<lambda>pf. pfDstPort pf \<noteq> '''') portforwards)"

section \<open>What the router relies on\<close>

abbreviation unauthorized :: "error \<Rightarrow> bool" where
  "unauthorized e \<equiv> (\<exists>m. e = ServerError StatusUnauthorized m)"

locale unifi_client =
  fixes U :: "'w UnifiRouter" and rules :: "'w \<Rightarrow> PortForward list"
  assumes c_login: "mset (rules (snd (c_Login (urClient U) w))) = mset (rules w)"
    and c_list: "c_ListPortForward (urClient U) (urSiteID U) w = (Inr rs, w') \<Longrightarrow> rs = rules w \<and> mset (rules w') = mset (rules w)"
    and c_create:
      "c_CreatePortForward (urClient U) (urSiteID U) pf w = (Inr r, w') \<Longrightarrow>
         (\<exists>i. i \<noteq> '''' \<and> i \<notin> ID ` set (rules w) \<and> mset (rules w') = add_mset (pf\<lparr>ID := i\<rparr>) (mset (rules w))) \<and>
         (slot pf \<noteq> None \<longrightarrow> slot pf \<notin> slot ` set (rules w))"
    and c_update:
      "c_UpdatePortForward (urClient U) (urSiteID U) pf w = (Inr r, w') \<Longrightarrow>
         mset (rules w') = mset (map (\<lambda>r. if ID r = ID pf then pf else r) (rules w)) \<and>
         (slot pf \<noteq> None \<longrightarrow> slot pf \<notin> slot ` {r \<in> set (rules w). ID r \<noteq> ID pf})"
    and c_delete:
      "c_DeletePortForward (urClient U) (urSiteID U) i w = (Inr (), w') \<Longrightarrow>
         mset (rules w') = mset (filter (\<lambda>r. ID r \<noteq> i) (rules w))"
    and c_list_401: "c_ListPortForward (urClient U) (urSiteID U) w = (Inl e, w') \<Longrightarrow> unauthorized e \<Longrightarrow> mset (rules w') = mset (rules w)"
    and c_create_401: "c_CreatePortForward (urClient U) (urSiteID U) pf w = (Inl e, w') \<Longrightarrow> unauthorized e \<Longrightarrow> mset (rules w') = mset (rules w)"
    and c_update_401: "c_UpdatePortForward (urClient U) (urSiteID U) pf w = (Inl e, w') \<Longrightarrow> unauthorized e \<Longrightarrow> mset (rules w') = mset (rules w)"
    and c_delete_401: "c_DeletePortForward (urClient U) (urSiteID U) i w = (Inl e, w') \<Longrightarrow> unauthorized e \<Longrightarrow> mset (rules w') = mset (rules w)"

locale unifi_client_atomic = unifi_client +
  assumes c_list_err: "c_ListPortForward (urClient U) (urSiteID U) w = (Inl e, w') \<Longrightarrow> mset (rules w') = mset (rules w)"
    and c_create_err: "c_CreatePortForward (urClient U) (urSiteID U) pf w = (Inl e, w') \<Longrightarrow> mset (rules w') = mset (rules w)"
    and c_update_err: "c_UpdatePortForward (urClient U) (urSiteID U) pf w = (Inl e, w') \<Longrightarrow> mset (rules w') = mset (rules w)"
    and c_delete_err: "c_DeletePortForward (urClient U) (urSiteID U) i w = (Inl e, w') \<Longrightarrow> mset (rules w') = mset (rules w)"

text \<open>
  A router made by \<open>CreateUnifiRouter\<close> is one over a client that \<open>NewClient\<close> made, on the given site, and
  making it leaves the rules alone.
\<close>

lemma CreateUnifiRouterE:
  assumes "CreateUnifiRouter NewClient baseURL username password site apiKey w = (Inr U, w')"
  obtains client w1 where "NewClient (client_config baseURL username password apiKey) w = (Inr client, w1)"
    and "c_Login client w1 = (Inr (), w')" and "U = \<lparr>urSiteID = site, urClient = client\<rparr>"
  using assms by (auto simp: CreateUnifiRouter_def split: prod.splits sum.splits)

lemma created_router_ok:
  assumes create: "CreateUnifiRouter NewClient baseURL username password site apiKey w = (Inr U, w')"
    and clients: "\<And>cfg w client w1. NewClient cfg w = (Inr client, w1) \<Longrightarrow>
      unifi_client \<lparr>urSiteID = site, urClient = client\<rparr> rules \<and> mset (rules w1) = mset (rules w)"
  shows "unifi_client U rules" and "mset (rules w') = mset (rules w)"
proof -
  obtain client w1 where new: "NewClient (client_config baseURL username password apiKey) w = (Inr client, w1)"
    and login: "c_Login client w1 = (Inr (), w')" and U: "U = \<lparr>urSiteID = site, urClient = client\<rparr>"
    using create by (rule CreateUnifiRouterE)
  from clients [OF new] U show *: "unifi_client U rules" by simp
  from unifi_client.c_login [OF *, of w1] login U clients [OF new]
  show "mset (rules w') = mset (rules w)" by simp
qed

context unifi_client
begin

lemma retry_ok:
  assumes "withAuthRetry U fn w = (Inr a, w')"
    and "\<And>w e w1. fn w = (Inl e, w1) \<Longrightarrow> unauthorized e \<Longrightarrow> mset (rules w1) = mset (rules w)"
  obtains w0 where "mset (rules w0) = mset (rules w)" "fn w0 = (Inr a, w')"
proof (cases "fn w" rule: io_cases)
  case (Ok b w1)
  with assms(1) that show ?thesis by (auto simp: withAuthRetry_def)
next
  case (Err e w1)
  with assms(1) obtain m u w2 where e: "e = ServerError StatusUnauthorized m"
    and login: "c_Login (urClient U) w1 = (Inr u, w2)" and fn: "fn w2 = (Inr a, w')"
    by (auto simp: withAuthRetry_def split: error.splits if_splits prod.splits sum.splits)
  have "mset (rules w2) = mset (rules w1)" using c_login [of w1] login by simp
  also have "\<dots> = mset (rules w)" using assms(2) [OF Err] e by blast
  finally show ?thesis using that fn by blast
qed

lemma list_all_ok:
  assumes "ListAllPortForwards U w = (Inr rs, w')"
  shows "mset rs = mset (rules w) \<and> mset (rules w') = mset (rules w)"
proof -
  from assms obtain w0 where "mset (rules w0) = mset (rules w)"
    "c_ListPortForward (urClient U) (urSiteID U) w0 = (Inr rs, w')"
    unfolding ListAllPortForwards_def by (elim retry_ok) (auto dest: c_list_401)
  with c_list show ?thesis by metis
qed

lemma matches_port_slot: "matches_port p proto r \<longleftrightarrow> slot r = Some (p, ToLower proto)"
  by (auto simp: matches_port_def slot_def EqualFold_def split: option.splits)

lemma check_ok:
  assumes "CheckPort U p proto w = (Inr res, w')"
  shows "mset (rules w') = mset (rules w) \<and>
    (case res of Some r \<Rightarrow> r \<in> set (rules w) \<and> slot r = Some (p, ToLower proto)
               | None \<Rightarrow> Some (p, ToLower proto) \<notin> slot ` set (rules w))"
proof -
  from assms obtain rs where l: "ListAllPortForwards U w = (Inr rs, w')"
    and res: "res = List.find (matches_port p proto) rs"
    by (auto simp: CheckPort_def ListAllPortForwards_def split: prod.splits sum.splits)
  from list_all_ok [OF l] have "set rs = set (rules w)" by (metis mset_eq_setD)
  with list_all_ok [OF l] res show ?thesis
    by (auto simp: matches_port_slot split: option.splits dest: find_SomeD find_NoneD)
qed

lemma add_port_ok:
  assumes ok: "table_ok (rules w)" and add: "AddPort U c w = (Inr (), w')"
  shows "table_ok (rules w') \<and>
    (\<exists>r. realises c r \<and> r \<notin> set (rules w) \<and> set (rules w') = insert r (set (rules w)))"
proof -
  let ?pf = "add_payload U c"
  from add obtain r where "withAuthRetry U (c_CreatePortForward (urClient U) (urSiteID U) ?pf) w = (Inr r, w')"
    by (auto simp: AddPort_def split: if_splits prod.splits sum.splits)
  then obtain w0 where w0: "mset (rules w0) = mset (rules w)"
    and cr: "c_CreatePortForward (urClient U) (urSiteID U) ?pf w0 = (Inr r, w')"
    by (elim retry_ok) (auto dest: c_create_401)
  from c_create [OF cr] obtain i where i: "i \<noteq> ''''" "i \<notin> ID ` set (rules w0)"
    and m: "mset (rules w') = add_mset (?pf\<lparr>ID := i\<rparr>) (mset (rules w0))"
    and free: "slot ?pf \<noteq> None \<longrightarrow> slot ?pf \<notin> slot ` set (rules w0)" by blast
  let ?r = "?pf\<lparr>ID := i\<rparr>"
  have S0: "set (rules w0) = set (rules w)" using w0 by (metis mset_eq_setD)
  from m w0 have m': "mset (rules w') = mset (?r # rules w)" by simp
  have "slot ?r = slot ?pf" by (simp add: slot_def)
  with free S0 ok i have "table_ok (?r # rules w)"
    unfolding table_ok_def exclusive_def by (auto simp: image_iff)
  with m' have "table_ok (rules w')" using table_ok_mset by blast
  moreover have "set (rules w') = insert ?r (set (rules w))"
    using m' by (metis list.set(2) mset_eq_setD)
  moreover have "realises c ?r" by (simp add: realises_def add_payload_def)
  moreover have "?r \<notin> set (rules w)" using i S0 by force
  ultimately show ?thesis by blast
qed

lemma delete_by_id_ok:
  assumes ok: "table_ok (rules w)"
    and del: "withAuthRetry U (c_DeletePortForward (urClient U) (urSiteID U) i) w = (Inr (), w')"
  shows "table_ok (rules w') \<and> set (rules w') = {r \<in> set (rules w). ID r \<noteq> i}"
proof -
  from del obtain w0 where w0: "mset (rules w0) = mset (rules w)"
    and d: "c_DeletePortForward (urClient U) (urSiteID U) i w0 = (Inr (), w')"
    by (elim retry_ok) (auto dest: c_delete_401)
  from w0 have "table_ok (rules w0)" using ok table_ok_mset by blast
  then have "table_ok (filter (\<lambda>r. ID r \<noteq> i) (rules w0))"
    unfolding table_ok_def exclusive_def by (auto simp: distinct_map_filter)
  moreover from c_delete [OF d] have m: "mset (rules w') = mset (filter (\<lambda>r. ID r \<noteq> i) (rules w0))" .
  moreover from mset_eq_setD [OF m] mset_eq_setD [OF w0]
  have "set (rules w') = {r \<in> set (rules w). ID r \<noteq> i}" by simp
  ultimately show ?thesis using table_ok_mset by blast
qed

lemma remove_port_ok:
  assumes ok: "table_ok (rules w)" and rem: "RemovePort U c w = (Inr (), w')"
  shows "table_ok (rules w') \<and> set (rules w') = {r \<in> set (rules w). slot r \<noteq> Some (cslot c)}"
proof -
  from rem obtain res w1 where chk: "CheckPort U (DstPort c) (Protocol c) w = (Inr res, w1)"
    by (auto simp: RemovePort_def split: prod.splits sum.splits)
  have ok1: "table_ok (rules w1)" and S1: "set (rules w1) = set (rules w)"
    using check_ok [OF chk] ok table_ok_mset by (metis mset_eq_setD)+
  show ?thesis
  proof (cases res)
    case None
    with rem chk have "w' = w1" by (auto simp: RemovePort_def)
    with None check_ok [OF chk] ok1 S1 show ?thesis by (auto simp: cslot_def image_iff)
  next
    case (Some pf)
    with rem chk have "withAuthRetry U (c_DeletePortForward (urClient U) (urSiteID U) (ID pf)) w1 = (Inr (), w')"
      by (auto simp: RemovePort_def split: prod.splits sum.splits)
    from delete_by_id_ok [OF ok1 this] S1
    have del: "table_ok (rules w')" "set (rules w') = {r \<in> set (rules w). ID r \<noteq> ID pf}" by auto
    have pf: "pf \<in> set (rules w)" "slot pf = Some (cslot c)"
      using check_ok [OF chk] Some by (auto simp: cslot_def)
    have "{r \<in> set (rules w). ID r \<noteq> ID pf} = {r \<in> set (rules w). slot r \<noteq> Some (cslot c)}"
      using pf ok table_ok_ID_inj [OF ok] exclusiveD [OF table_ok_exclusive [OF ok]] by (metis (lifting))
    with del show ?thesis by simp
  qed
qed

lemma table_ok_replace:
  assumes ok: "table_ok rs" and old: "old \<in> set rs" and id: "ID new = ID old"
    and free: "slot new \<noteq> None \<longrightarrow> slot new \<notin> slot ` {r \<in> set rs. ID r \<noteq> ID new}"
  shows "table_ok (map (\<lambda>r. if ID r = ID new then new else r) rs)"
    and "set (map (\<lambda>r. if ID r = ID new then new else r) rs) = insert new (set rs - {old})"
proof -
  let ?f = "\<lambda>r. if ID r = ID new then new else r"
  have ids: "map ID (map ?f rs) = map ID rs" by auto
  have eq: "r = old" if "r \<in> set rs" "ID r = ID new" for r
    using that table_ok_ID_inj [OF ok that(1) old] id by simp
  show S: "set (map ?f rs) = insert new (set rs - {old})"
    using old id eq by (auto simp: image_iff)
  have other: "ID r \<noteq> ID new" if "r \<in> set rs - {old}" for r using that eq by blast
  have "exclusive (insert new (set rs - {old}))"
    unfolding exclusive_def
  proof (intro ballI impI)
    fix r r' assume r: "r \<in> insert new (set rs - {old})" and r': "r' \<in> insert new (set rs - {old})"
      and s: "slot r \<noteq> None" "slot r = slot r'"
    show "r = r'"
    proof (cases "r = new \<or> r' = new")
      case True
      with r r' s free other show ?thesis by (auto simp: image_iff)
    next
      case False
      with r r' s table_ok_exclusive [OF ok] show ?thesis by (auto simp: exclusive_def)
    qed
  qed
  then show "table_ok (map ?f rs)"
    unfolding table_ok_def ids S using ok by (simp add: table_ok_def)
qed

lemma update_port_ok:
  assumes ok: "table_ok (rules w)" and upd: "UpdatePort U p c w = (Inr (), w')"
  shows "table_ok (rules w') \<and>
    (\<exists>old new. old \<in> set (rules w) \<and> slot old = Some (p, ToLower (Protocol c)) \<and>
       realises c new \<and> ID new = ID old \<and> Src new = Src old \<and>
       set (rules w') = insert new (set (rules w) - {old}))"
proof -
  from upd obtain old w1 r where chk: "CheckPort U p (Protocol c) w = (Inr (Some old), w1)"
    and "withAuthRetry U (c_UpdatePortForward (urClient U) (urSiteID U) (update_payload U old c)) w1 = (Inr r, w')"
    by (auto simp: UpdatePort_def split: prod.splits sum.splits option.splits)
  then obtain w0 where w0: "mset (rules w0) = mset (rules w1)"
    and up: "c_UpdatePortForward (urClient U) (urSiteID U) (update_payload U old c) w0 = (Inr r, w')"
    by (elim retry_ok) (auto dest: c_update_401)
  let ?new = "update_payload U old c"
  have old: "old \<in> set (rules w)" "slot old = Some (p, ToLower (Protocol c))"
    and m0: "mset (rules w0) = mset (rules w)" using check_ok [OF chk] w0 by auto
  have ok0: "table_ok (rules w0)" and S0: "set (rules w0) = set (rules w)"
    using m0 ok table_ok_mset by (blast, metis mset_eq_setD)
  from c_update [OF up] have m: "mset (rules w') = mset (map (\<lambda>r. if ID r = ID ?new then ?new else r) (rules w0))"
    and free: "slot ?new \<noteq> None \<longrightarrow> slot ?new \<notin> slot ` {r \<in> set (rules w0). ID r \<noteq> ID ?new}" by blast+
  have id: "ID ?new = ID old" by (simp add: update_payload_def)
  have "table_ok (rules w')"
    using table_ok_replace(1) [OF ok0 _ id free] old(1) S0 m table_ok_mset by blast
  moreover have "set (rules w') = insert ?new (set (rules w) - {old})"
    using table_ok_replace(2) [OF ok0 _ id free] old(1) S0 mset_eq_setD [OF m] by simp
  moreover have "realises c ?new \<and> Src ?new = Src old"
    by (simp add: realises_def update_payload_def)
  ultimately show ?thesis using old id by blast
qed

end

sublocale unifi_client \<subseteq> router_contract "unifi_router U" rules
proof unfold_locales
  fix w w' rs assume "r_ListAllPortForwards (unifi_router U) w = (Inr rs, w')"
  then show "mset rs = mset (rules w) \<and> mset (rules w') = mset (rules w)"
    by (simp add: list_all_ok)
next
  fix p proto w r w' assume "r_CheckPort (unifi_router U) p proto w = (Inr (Some r), w')"
  then show "r \<in> set (rules w) \<and> slot r = Some (p, ToLower proto) \<and> mset (rules w') = mset (rules w)"
    using check_ok by fastforce
next
  fix p proto w w' assume "r_CheckPort (unifi_router U) p proto w = (Inr None, w')"
  then show "Some (p, ToLower proto) \<notin> slot ` set (rules w) \<and> mset (rules w') = mset (rules w)"
    using check_ok by fastforce
qed (unfold unifi_router_simps DeletePortForwardByID_def,
    (rule add_port_ok update_port_ok remove_port_ok delete_by_id_ok; assumption)+)

context unifi_client
begin

lemma implements_router: "router_contract (unifi_router U) rules"
  by unfold_locales

end

context unifi_client_atomic
begin

lemma retry_err:
  assumes "withAuthRetry U fn w = (Inl e, w')"
    and fn: "\<And>w e w1. fn w = (Inl e, w1) \<Longrightarrow> mset (rules w1) = mset (rules w)"
  shows "mset (rules w') = mset (rules w)"
proof (cases "fn w" rule: io_cases)
  case (Err e1 w1)
  note m1 = fn [OF Err]
  show ?thesis
  proof (cases "w' = w1")
    case False
    with Err assms(1) obtain l w2 where l: "c_Login (urClient U) w1 = (l, w2)"
      and w2: "w' = w2 \<or> fn w2 = (Inl e, w')"
      by (auto simp: withAuthRetry_def split: error.splits if_splits prod.splits sum.splits)
    from c_login [of w1] l m1 have "mset (rules w2) = mset (rules w)" by simp
    with w2 fn show ?thesis by metis
  qed (simp add: m1)
qed (use assms in \<open>auto simp: withAuthRetry_def\<close>)

lemma check_error: "CheckPort U p proto w = (Inl e, w') \<Longrightarrow> mset (rules w') = mset (rules w)"
  by (auto simp: CheckPort_def split: prod.splits sum.splits intro: retry_err dest: c_list_err)

lemma update_error: "UpdatePort U p c w = (Inl e, w') \<Longrightarrow> mset (rules w') = mset (rules w)"
  by (auto simp: UpdatePort_def split: prod.splits sum.splits option.splits
      dest!: check_error check_ok retry_err [OF _ c_update_err])

lemma remove_error: "RemovePort U c w = (Inl e, w') \<Longrightarrow> mset (rules w') = mset (rules w)"
  by (auto simp: RemovePort_def split: prod.splits sum.splits option.splits
      dest!: check_error check_ok retry_err [OF _ c_delete_err])

lemma add_error: "AddPort U c w = (Inl e, w') \<Longrightarrow> mset (rules w') = mset (rules w)"
  by (auto simp: AddPort_def split: if_splits prod.splits sum.splits
      dest!: retry_err [OF _ c_create_err])

end

sublocale unifi_client_atomic \<subseteq> router_atomic "unifi_router U" rules
  by unfold_locales
    (auto simp: ListAllPortForwards_def DeletePortForwardByID_def
       dest: retry_err [OF _ c_list_err] retry_err [OF _ c_delete_err]
         add_error update_error remove_error check_error)

context unifi_client_atomic
begin

lemma implements_atomic_router: "router_atomic (unifi_router U) rules"
  by unfold_locales

end

section \<open>A gateway in service\<close>

text \<open>
  A client with a valid session to a gateway without faults.  \<open>valid_rule\<close> stands for the validation of
  rules by the gateway; it does not look at the identifier, and accepts the filters (destination and
  source) of rules that are already stored.
\<close>

locale unifi_client_up = unifi_client +
  fixes client_up :: "'w \<Rightarrow> bool" and valid_rule :: "PortForward \<Rightarrow> bool"
  assumes u_list: "client_up w \<Longrightarrow> \<exists>rs w'. c_ListPortForward (urClient U) (urSiteID U) w = (Inr rs, w') \<and> client_up w'"
    and u_create:
      "client_up w \<Longrightarrow> valid_rule pf \<Longrightarrow> slot pf \<notin> slot ` set (rules w) \<Longrightarrow>
         \<exists>r w'. c_CreatePortForward (urClient U) (urSiteID U) pf w = (Inr r, w') \<and> client_up w'"
    and u_update:
      "client_up w \<Longrightarrow> valid_rule pf \<Longrightarrow> ID pf \<in> ID ` set (rules w) \<Longrightarrow>
         slot pf \<notin> slot ` {r \<in> set (rules w). ID r \<noteq> ID pf} \<Longrightarrow>
         \<exists>r w'. c_UpdatePortForward (urClient U) (urSiteID U) pf w = (Inr r, w') \<and> client_up w'"
    and u_delete:
      "client_up w \<Longrightarrow> i \<in> ID ` set (rules w) \<Longrightarrow>
         \<exists>w'. c_DeletePortForward (urClient U) (urSiteID U) i w = (Inr (), w') \<and> client_up w'"
    and valid_filters:
      "valid_rule pf \<Longrightarrow> r \<in> set (rules w) \<Longrightarrow>
         valid_rule (pf\<lparr>ID := ID r, DestinationIP := DestinationIP r, Src := Src r\<rparr>)"
begin

lemma list_all_up:
  assumes "client_up w"
  shows "\<exists>rs w'. ListAllPortForwards U w = (Inr rs, w') \<and> client_up w'"
  using u_list [OF assms] by (auto simp: ListAllPortForwards_def withAuthRetry_def)

lemma check_up:
  assumes "client_up w"
  shows "\<exists>res w'. CheckPort U p proto w = (Inr res, w') \<and> client_up w'"
  using u_list [OF assms] by (auto simp: CheckPort_def withAuthRetry_def)

lemma slot_add_payload: "in_int64 (DstPort c) \<Longrightarrow> slot (add_payload U c) = Some (cslot c)"
  by (simp add: add_payload_def slot_def cslot_def Atoi_Itoa)

lemma slot_update_payload: "in_int64 (DstPort c) \<Longrightarrow> slot (update_payload U r c) = Some (cslot c)"
  by (simp add: update_payload_def slot_def cslot_def Atoi_Itoa)

lemma add_port_up:
  assumes "client_up w" "valid_rule (add_payload U c)" "DstIP c \<noteq> ''''" "in_int64 (DstPort c)"
    and "Some (cslot c) \<notin> slot ` set (rules w)"
  shows "\<exists>w'. AddPort U c w = (Inr (), w') \<and> client_up w'"
  using u_create [OF assms(1,2)] assms(3-) by (auto simp: AddPort_def withAuthRetry_def slot_add_payload)

lemma update_port_up:
  assumes up: "client_up w" and tab: "table_ok (rules w)" and val: "valid_rule (add_payload U c)"
    and p: "in_int64 (DstPort c)" and occ: "Some (cslot c) \<in> slot ` set (rules w)"
  shows "\<exists>w'. UpdatePort U (DstPort c) c w = (Inr (), w') \<and> client_up w'"
proof -
  obtain res w1 where ch: "CheckPort U (DstPort c) (Protocol c) w = (Inr res, w1)" and up1: "client_up w1"
    using check_up [OF up] by blast
  note m = check_ok [OF ch]
  then have S: "set (rules w1) = set (rules w)" by (metis mset_eq_setD)
  from m occ obtain r where r: "res = Some r" "r \<in> set (rules w1)" "slot r = Some (cslot c)"
    by (cases res) (auto simp: cslot_def S)
  have "update_payload U r c = (add_payload U c)\<lparr>ID := ID r, DestinationIP := DestinationIP r, Src := Src r\<rparr>"
    by (simp add: update_payload_def add_payload_def)
  with valid_filters [OF val r(2)] have "valid_rule (update_payload U r c)" by simp
  moreover have "slot (update_payload U r c) \<notin> slot ` {q \<in> set (rules w1). ID q \<noteq> ID r}"
  proof
    assume "slot (update_payload U r c) \<in> slot ` {q \<in> set (rules w1). ID q \<noteq> ID r}"
    then obtain q where q: "q \<in> set (rules w)" "ID q \<noteq> ID r" "slot q = Some (cslot c)"
      by (auto simp: slot_update_payload [OF p] S)
    with exclusiveD [OF table_ok_exclusive [OF tab] q(1) _ q(3) r(3)] r(2) S show False by simp
  qed
  ultimately obtain q w2 where "c_UpdatePortForward (urClient U) (urSiteID U) (update_payload U r c) w1 = (Inr q, w2)" "client_up w2"
    using u_update [OF up1, of "update_payload U r c"] r(2) by (auto simp: update_payload_def)
  with ch r(1) show ?thesis by (auto simp: UpdatePort_def withAuthRetry_def)
qed

lemma remove_port_up:
  assumes up: "client_up w"
  shows "\<exists>w'. RemovePort U c w = (Inr (), w') \<and> client_up w'"
proof -
  obtain res w1 where ch: "CheckPort U (DstPort c) (Protocol c) w = (Inr res, w1)" and up1: "client_up w1"
    using check_up [OF up] by blast
  note m = check_ok [OF ch]
  then have S: "set (rules w1) = set (rules w)" by (metis mset_eq_setD)
  show ?thesis
  proof (cases res)
    case (Some r)
    with m have "ID r \<in> ID ` set (rules w1)" by (simp add: S)
    from u_delete [OF up1 this] ch Some show ?thesis by (auto simp: RemovePort_def withAuthRetry_def)
  qed (use ch up1 in \<open>simp add: RemovePort_def\<close>)
qed

lemma delete_port_up:
  "client_up w \<Longrightarrow> i \<in> ID ` set (rules w) \<Longrightarrow> \<exists>w'. DeletePortForwardByID U i w = (Inr (), w') \<and> client_up w'"
  using u_delete [of w i] by (auto simp: DeletePortForwardByID_def withAuthRetry_def)

end

sublocale unifi_client_up \<subseteq> router_up "unifi_router U" rules client_up "\<lambda>c. valid_rule (add_payload U c)"
  by unfold_locales (auto simp: list_all_up add_port_up update_port_up remove_port_up check_up delete_port_up)

end
