(* ===== verification/RefGateway.thy ===== *)
theory RefGateway
  imports UnifiRouter
begin

text \<open>
  An in-memory gateway that satisfies the assumptions on the UniFi API: a rule table, a login session
  (calls without one are answered with status 401), and a list of faults, one per call, that make the
  call fail with status 500 before it has an effect.  The record is extensible, so the same gateway
  can be the router part of a larger world.  It instantiates the client wherever a concrete run of the
  router code is evaluated.
\<close>

record gateway =
  gw_rules :: "PortForward list"
  gw_session :: bool
  gw_faults :: "bool list"

definition gw_fault :: "'e gateway_scheme \<Rightarrow> bool" where
  "gw_fault g = (case gw_faults g of [] \<Rightarrow> False | b # _ \<Rightarrow> b)"

definition gw_tick :: "'e gateway_scheme \<Rightarrow> 'e gateway_scheme" where
  "gw_tick g = g\<lparr>gw_faults := tl (gw_faults g)\<rparr>"

definition gw_call :: "('e gateway_scheme, 'a) io \<Rightarrow> ('e gateway_scheme, 'a) io" where
  "gw_call act g =
     (if gw_fault g then (Inl (ServerError 500 ''internal error''), gw_tick g)
      else if \<not> gw_session g then (Inl (ServerError StatusUnauthorized ''login required''), gw_tick g)
      else act (gw_tick g))"

definition fresh_id :: "PortForward list \<Rightarrow> string" where
  "fresh_id rs = replicate (Suc (foldr (\<lambda>r n. max (length (ID r)) n) rs 0)) (CHR ''x'')"

definition slot_taken :: "PortForward \<Rightarrow> PortForward list \<Rightarrow> bool" where
  "slot_taken pf rs \<longleftrightarrow> slot pf \<noteq> None \<and> slot pf \<in> set (map slot rs)"

definition ref_client :: "'e gateway_scheme UnifiClient" where
  "ref_client =
     \<lparr>c_Login = (\<lambda>g. (Inr (), g\<lparr>gw_session := True\<rparr>)),
      c_ListPortForward = (\<lambda>_. gw_call (\<lambda>g. (Inr (gw_rules g), g))),
      c_CreatePortForward = (\<lambda>_ pf. gw_call (\<lambda>g.
        if slot_taken pf (gw_rules g) then (Inl (ServerError 400 ''api.err.PortForwardOverlaps''), g)
        else let r = pf\<lparr>ID := fresh_id (gw_rules g)\<rparr> in (Inr r, g\<lparr>gw_rules := gw_rules g @ [r]\<rparr>))),
      c_UpdatePortForward = (\<lambda>_ pf. gw_call (\<lambda>g.
        if ID pf \<notin> set (map ID (gw_rules g)) then (Inl (ServerError 404 ''api.err.IdInvalid''), g)
        else if slot_taken pf (filter (\<lambda>r. ID r \<noteq> ID pf) (gw_rules g))
        then (Inl (ServerError 400 ''api.err.PortForwardOverlaps''), g)
        else (Inr pf, g\<lparr>gw_rules := map (\<lambda>r. if ID r = ID pf then pf else r) (gw_rules g)\<rparr>))),
      c_DeletePortForward = (\<lambda>_ i. gw_call (\<lambda>g.
        if i \<notin> set (map ID (gw_rules g)) then (Inl (ServerError 404 ''api.err.IdInvalid''), g)
        else (Inr (), g\<lparr>gw_rules := filter (\<lambda>r. ID r \<noteq> i) (gw_rules g)\<rparr>)))\<rparr>"

definition ref_router :: "string \<Rightarrow> 'e gateway_scheme UnifiRouter" where
  "ref_router site = \<lparr>urSiteID = site, urClient = ref_client\<rparr>"

lemma fresh_id_longer: "r \<in> set rs \<Longrightarrow> length (ID r) < length (fresh_id rs)"
  by (induction rs) (auto simp: fresh_id_def less_Suc_eq_le le_max_iff_disj)

lemma fresh_id_fresh: "r \<in> set rs \<Longrightarrow> fresh_id rs \<noteq> ID r"
  using fresh_id_longer by fastforce

lemma gw_tick_rules [simp]: "gw_rules (gw_tick g) = gw_rules g"
  by (simp add: gw_tick_def)

lemma fresh_id_nonempty: "fresh_id rs \<noteq> ''''"
  by (simp add: fresh_id_def)

interpretation ref: unifi_client_atomic "ref_router site" gw_rules
  by unfold_locales
    (auto simp: ref_router_def ref_client_def gw_call_def slot_taken_def Let_def
       split: if_splits intro!: exI [of _ "fresh_id _"] fresh_id_nonempty dest: fresh_id_fresh)

lemma ref_unifi_client: "unifi_client (ref_router site) gw_rules"
  by (rule ref.unifi_client_axioms)

lemma ref_unifi_client_atomic: "unifi_client_atomic (ref_router site) gw_rules"
  by (rule ref.unifi_client_atomic_axioms)

definition gw_up :: "'e gateway_scheme \<Rightarrow> bool" where
  "gw_up g \<longleftrightarrow> gw_session g \<and> gw_faults g = []"

interpretation ref: unifi_client_up "ref_router site" gw_rules gw_up "\<lambda>_. True"
  by unfold_locales
    (auto simp: ref_router_def ref_client_def gw_call_def gw_fault_def gw_tick_def gw_up_def slot_taken_def Let_def)

text \<open>Evaluation of concrete runs.\<close>

lemmas gw_eval =
  ref_router_def ref_client_def gw_call_def gw_fault_def gw_tick_def slot_taken_def Let_def

section \<open>Properties of the UniFi router\<close>

text \<open>
  C16: \<open>UnifiRouter\<close> implements the router interface.  If the UniFi client behaves as assumed (listing
  returns the table, creations, updates and deletions by identifier take effect, overlapping rules are
  refused, a call answered with status 401 has no effect), then \<open>AddPort\<close>, \<open>CheckPort\<close>, \<open>UpdatePort\<close>,
  \<open>RemovePort\<close>, \<open>DeletePortForwardByID\<close> and \<open>ListAllPortForwards\<close>, with their lookups by port
  and protocol and their re-login, meet the contract that the controller relies on: each changes exactly
  the rule on the addressed port and protocol and keeps the table free of overlaps.
\<close>

theorem unifi_router_implements_contract:
  "unifi_client U rules \<Longrightarrow> router_contract (unifi_router U) rules"
  by (rule unifi_client.implements_router)

theorem unifi_router_implements_contract_witness: "router_contract (unifi_router (ref_router ''default'')) gw_rules"
  by (rule unifi_router_implements_contract [OF ref_unifi_client])

text \<open>
  C23: the UniFi router adds no partial effects of its own.  If no failed client call has an effect, then no
  failed call of a router method has one, although \<open>UpdatePort\<close> and \<open>RemovePort\<close> make two client
  calls and every call may be repeated after a login.
\<close>

theorem unifi_router_failures_are_atomic:
  "unifi_client_atomic U rules \<Longrightarrow> router_atomic (unifi_router U) rules"
  by (rule unifi_client_atomic.implements_atomic_router)

theorem unifi_router_failures_are_atomic_witness: "router_atomic (unifi_router (ref_router ''default'')) gw_rules"
  by (rule unifi_router_failures_are_atomic [OF ref_unifi_client_atomic])

text \<open>
  An expired session is renewed transparently.  When listing is answered with status 401, the login
  succeeds and listing with the new session is not answered with 401, every method that starts by listing
  the rules returns what it would have returned had the login been made before the call.
\<close>

lemma expired_session_is_renewed:
  assumes expired: "c_ListPortForward (urClient U) (urSiteID U) w = (Inl (ServerError StatusUnauthorized m), w1)"
    and login: "c_Login (urClient U) w1 = (Inr (), w2)"
    and valid: "\<nexists>m' w3. c_ListPortForward (urClient U) (urSiteID U) w2 = (Inl (ServerError StatusUnauthorized m'), w3)"
  shows "ListAllPortForwards U w = ListAllPortForwards U w2 \<and> CheckPort U p proto w = CheckPort U p proto w2 \<and>
    UpdatePort U p c w = UpdatePort U p c w2 \<and> RemovePort U c w = RemovePort U c w2"
proof -
  have "withAuthRetry U (c_ListPortForward (urClient U) (urSiteID U)) w2 = c_ListPortForward (urClient U) (urSiteID U) w2"
    using valid by (cases "c_ListPortForward (urClient U) (urSiteID U) w2" rule: io_cases)
      (auto simp: withAuthRetry_def split: error.splits)
  with expired login have l: "ListAllPortForwards U w = ListAllPortForwards U w2"
    by (simp add: ListAllPortForwards_def withAuthRetry_def)
  then have "CheckPort U p proto w = CheckPort U p proto w2" for p proto
    unfolding CheckPort_def ListAllPortForwards_def by simp
  with l show ?thesis by (simp add: UpdatePort_def RemovePort_def)
qed

lemma expired_session_is_renewed_witness:
  "CheckPort (ref_router ''default'') 80 ''tcp'' \<lparr>gw_rules = [], gw_session = False, gw_faults = []\<rparr> =
   CheckPort (ref_router ''default'') 80 ''tcp'' \<lparr>gw_rules = [], gw_session = True, gw_faults = []\<rparr>"
  by (rule expired_session_is_renewed [THEN conjunct2, THEN conjunct1,
        of _ _ "''login required''" "\<lparr>gw_rules = [], gw_session = False, gw_faults = []\<rparr>"])
    (simp_all add: gw_eval)

end
