(* ===== verification/RuleNames.thy ===== *)
theory RuleNames
  imports Services RefGateway
begin

text \<open>
  Rule names (pkg/utils/string_utils.go): the naming scheme namespace/service:port by which the
  controller recognises its own rules on the router, and the rebuild of the port tracking map from
  the rules on the router (pkg/helpers/helpers.go).
\<close>

section \<open>Operations\<close>

definition extractServiceKeyFromRuleName :: "string \<Rightarrow> string" where
  "extractServiceKeyFromRuleName ruleName =
     (case Split ruleName (CHR '':'') of
        [] \<Rightarrow> ''''
      | part # _ \<Rightarrow> (let servicePart = TrimSpace part in if servicePart \<noteq> '''' then servicePart else ''''))"

definition ExtractServiceKeyFromRuleName :: "string \<Rightarrow> string" where
  "ExtractServiceKeyFromRuleName ruleName = extractServiceKeyFromRuleName ruleName"

definition ExtractServiceKeyFromRuleNameUnexported :: "string \<Rightarrow> string" where
  "ExtractServiceKeyFromRuleNameUnexported ruleName = extractServiceKeyFromRuleName ruleName"

definition isManagedRule :: "string \<Rightarrow> bool" where
  "isManagedRule ruleName =
     (let slashIndex = Index ruleName (CHR ''/''); colonIndex = Index ruleName (CHR '':'') in
      if slashIndex = -1 \<or> colonIndex = -1 \<or> slashIndex \<ge> colonIndex then False
      else if slashIndex = 0 \<or> colonIndex = slashIndex + 1 \<or> colonIndex = int (length ruleName) - 1 then False
      else True)"

definition IsManagedRule :: "string \<Rightarrow> bool" where
  "IsManagedRule ruleName = isManagedRule ruleName"

definition IsManagedRuleUnexported :: "string \<Rightarrow> bool" where
  "IsManagedRuleUnexported ruleName = isManagedRule ruleName"

definition ParseIntField :: "string \<Rightarrow> int" where
  "ParseIntField input =
     (if input = '''' then 0
      else (case Atoi input of Some result \<Rightarrow> if result > 0 then result else 0 | None \<Rightarrow> 0))"

definition RuleBelongsToService :: "string \<Rightarrow> string \<Rightarrow> string \<Rightarrow> bool" where
  "RuleBelongsToService ruleName namespace serviceName =
     HasPrefix ruleName (namespace @ ''/'' @ serviceName @ '':'')"

text \<open>The loop that marks the port of every managed rule (helpers.go, after the map was cleared).\<close>

fun track_rules :: "PortForward list \<Rightarrow> ports \<Rightarrow> ports" where
  "track_rules [] used = used"
| "track_rules (rule # rs) used =
     (if isManagedRule (pfName rule) then
        (case Atoi (pfDstPort rule) of
           Some externalPort \<Rightarrow>
             track_rules rs (markPortUsed externalPort (extractServiceKeyFromRuleName (pfName rule)) used)
         | None \<Rightarrow> track_rules rs used)
      else track_rules rs used)"

definition SyncPortTrackingWithRouterSelective ::
    "'w Router \<Rightarrow> bool \<Rightarrow> (ports \<times> 'w, unit) io" where
  "SyncPortTrackingWithRouterSelective R skipIfEmpty st =
     (case st of (used, w) \<Rightarrow>
        (case r_ListAllPortForwards R w of
           (Inl err, w1) \<Rightarrow> (Inl err, (used, w1))
         | (Inr rs, w1) \<Rightarrow>
             (let managedRuleCount = length (filter (\<lambda>rule. isManagedRule (pfName rule)) rs) in
              if skipIfEmpty \<and> managedRuleCount = 0 then (Inr (), (used, w1))
              else if skipIfEmpty \<and> managedRuleCount > 0 then
                (case r_ListAllPortForwards R w1 of
                   (Inl err, w2) \<Rightarrow> (Inl err, (used, w2))
                 | (Inr rs2, w2) \<Rightarrow> (Inr (), (track_rules rs2 (ClearPortConflictTracking used), w2)))
              else (Inr (), (track_rules rs (ClearPortConflictTracking used), w1)))))"

definition SyncPortTrackingWithRouter :: "'w Router \<Rightarrow> (ports \<times> 'w, unit) io" where
  "SyncPortTrackingWithRouter R st = SyncPortTrackingWithRouterSelective R False st"

section \<open>Names\<close>

text \<open>Kubernetes names are DNS labels: lower case letters, digits and dashes.\<close>

definition dns_char :: "char \<Rightarrow> bool" where
  "dns_char c \<longleftrightarrow>
     (let n = (of_char c :: nat) in n = 45 \<or> (48 \<le> n \<and> n \<le> 57) \<or> (97 \<le> n \<and> n \<le> 122))"

definition dns_name :: "string \<Rightarrow> bool" where
  "dns_name s \<longleftrightarrow> s \<noteq> '''' \<and> list_all dns_char s"

lemma dns_char_not: "dns_char c \<Longrightarrow> c \<noteq> CHR ''/'' \<and> c \<noteq> CHR '':'' \<and> 32 < (of_char c :: nat) \<and> (of_char c :: nat) < 128"
  by (auto simp: dns_char_def Let_def)

lemma dns_name_chars:
  assumes "dns_name s"
  shows "CHR ''/'' \<notin> set s" "CHR '':'' \<notin> set s" "spaceless s" "s \<noteq> ''''"
  using assms dns_char_not by (auto simp: dns_name_def spaceless_def list_all_iff)

lemma belongs_iff: "RuleBelongsToService r ns n \<longleftrightarrow> (\<exists>p. r = ns @ ''/'' @ n @ '':'' @ p)"
  by (simp add: RuleBelongsToService_def HasPrefix_iff)

lemma key_inj:
  assumes "dns_name ns" "dns_name n" "dns_name ns'" "dns_name n'"
    and "ns @ ''/'' @ n @ '':'' @ p = ns' @ ''/'' @ n' @ '':'' @ p'"
  shows "ns = ns' \<and> n = n' \<and> p = p'"
proof -
  from assms(5) have "ns @ CHR ''/'' # (n @ CHR '':'' # p) = ns' @ CHR ''/'' # (n' @ CHR '':'' # p')" by simp
  from append_sep_eq [OF this] assms(1,3) have "ns = ns'" and "n @ CHR '':'' # p = n' @ CHR '':'' # p'"
    by (simp_all add: dns_name_chars)
  with append_sep_eq [OF this(2)] assms(2,4) show ?thesis by (simp add: dns_name_chars)
qed

text \<open>
  C36: no rule belongs to two services.  For services with Kubernetes names, the prefix test on the rule
  name identifies at most one namespace and service, so the clean-up of one service cannot select a
  rule of another, even when one name is a prefix of the other.
\<close>

theorem rule_belongs_to_one_service:
  assumes "dns_name ns" "dns_name n" "dns_name ns'" "dns_name n'"
    and "RuleBelongsToService r ns n" and "RuleBelongsToService r ns' n'"
  shows "ns = ns' \<and> n = n'"
  using assms key_inj unfolding belongs_iff by blast

theorem rule_belongs_to_one_service_witness:
  "RuleBelongsToService ''web/shop:http'' ''web'' ''shop'' \<and> ''web'' = ''web'' \<and> ''shop'' = ''shop''"
  using rule_belongs_to_one_service [of "''web''" "''shop''" "''web''" "''shop''" "''web/shop:http''"]
  by (simp add: dns_name_def dns_char_def RuleBelongsToService_def HasPrefix_def)

text \<open>
  The two ways in which the reconciler decides that a rule belongs to a service: the prefix test, and
  cutting the rule name at its colons.
\<close>

definition split_key_matches :: "string \<Rightarrow> string \<Rightarrow> bool" where
  "split_key_matches name key =
     (let parts = SplitN name (CHR '':'') 3 in length parts \<ge> 2 \<and> hd parts = key)"

lemma split_key_matches_iff:
  assumes "CHR '':'' \<notin> set key"
  shows "split_key_matches name key \<longleftrightarrow> HasPrefix name (key @ '':'')"
proof -
  have three: "SplitN name (CHR '':'') 3 = SplitN name (CHR '':'') (Suc (Suc (Suc 0)))"
    by (simp add: numeral_3_eq_3)
  show ?thesis
  proof (cases rule: SplitN_cases [of "CHR '':''" name "Suc 0"])
    case no
    then have "\<not> HasPrefix name (key @ '':'')" by (auto simp: HasPrefix_iff)
    with no three show ?thesis by (simp add: split_key_matches_def)
  next
    case (cut p r)
    have "length (SplitN r (CHR '':'') (Suc (Suc 0))) \<ge> 1"
      using SplitN_Suc_not_Nil [of r "CHR '':''" "Suc 0"] by (simp add: Suc_leI del: SplitN.simps)
    with cut three have "split_key_matches name key \<longleftrightarrow> p = key" by (simp add: split_key_matches_def)
    moreover have "HasPrefix name (key @ '':'') \<longleftrightarrow> p = key"
      using cut assms append_sep_eq [of p "CHR '':''" r key] by (auto simp: HasPrefix_iff)
    ultimately show ?thesis by simp
  qed
qed

lemma split_key_matches_imp:
  "split_key_matches name key \<Longrightarrow> HasPrefix name (key @ '':'')"
proof -
  assume m: "split_key_matches name key"
  have three: "SplitN name (CHR '':'') 3 = SplitN name (CHR '':'') (Suc (Suc (Suc 0)))"
    by (simp add: numeral_3_eq_3)
  show ?thesis
  proof (cases rule: SplitN_cases [of "CHR '':''" name "Suc 0"])
    case no
    with m three show ?thesis by (simp add: split_key_matches_def)
  next
    case (cut p r)
    with m three have "p = key" by (simp add: split_key_matches_def)
    with cut show ?thesis by (auto simp: HasPrefix_iff)
  qed
qed

lemma generated_name:
  assumes "dns_name (svcNamespace service)" "dns_name (svcName service)" "spName port \<noteq> ''''"
  shows "isManagedRule (rule_name service port) \<and>
    extractServiceKeyFromRuleName (rule_name service port) = serviceKey service"
proof -
  let ?ns = "svcNamespace service" and ?n = "svcName service" and ?p = "spName port"
  note ns = dns_name_chars [OF assms(1)] and n = dns_name_chars [OF assms(2)]
  have name: "rule_name service port = ?ns @ CHR ''/'' # (?n @ CHR '':'' # ?p)" by (simp add: rule_name_def)
  have name': "rule_name service port = (?ns @ CHR ''/'' # ?n) @ CHR '':'' # ?p" by (simp add: rule_name_def)
  have slash: "Index (rule_name service port) (CHR ''/'') = int (length ?ns)"
    unfolding name using ns by (simp add: Index_append)
  have colon: "Index (rule_name service port) (CHR '':'') = int (length ?ns + 1 + length ?n)"
    unfolding name' using ns n by (subst Index_append) auto
  have "length ?n > 0" "length ?ns > 0" "length ?p > 0" using ns n assms(3) by auto
  then have "isManagedRule (rule_name service port)"
    unfolding isManagedRule_def Let_def slash colon by (auto simp: name)
  moreover have "extractServiceKeyFromRuleName (rule_name service port) = serviceKey service"
  proof -
    have "Split (rule_name service port) (CHR '':'') = (?ns @ CHR ''/'' # ?n) # Split ?p (CHR '':'')"
      unfolding name' using ns n by (intro Split_append) auto
    moreover have "TrimSpace (?ns @ CHR ''/'' # ?n) = ?ns @ CHR ''/'' # ?n"
      using ns n by (intro TrimSpace_spaceless) (auto simp: spaceless_def)
    ultimately show ?thesis by (simp add: extractServiceKeyFromRuleName_def serviceKey_def Let_def)
  qed
  ultimately show ?thesis by blast
qed

text \<open>
  C37: the names the controller generates are the names it recognises.  For a service and a port with
  Kubernetes names, the generated rule name passes \<open>isManagedRule\<close>, its service key is extracted from
  it again, and the prefix test attributes it to this service.
\<close>

theorem generated_name_roundtrip:
  assumes "dns_name (svcNamespace service)" "dns_name (svcName service)" "spName port \<noteq> ''''"
  shows "isManagedRule (rule_name service port) \<and>
    extractServiceKeyFromRuleName (rule_name service port) = serviceKey service \<and>
    RuleBelongsToService (rule_name service port) (svcNamespace service) (svcName service)"
  using generated_name [OF assms] by (simp add: belongs_iff rule_name_def)

theorem generated_name_roundtrip_witness:
  "isManagedRule ''web/shop:http'' \<and> extractServiceKeyFromRuleName ''web/shop:http'' = ''web/shop''"
  using generated_name_roundtrip [of "example_service ''http''" "example_port ''http'' 80"]
  by (simp add: service_eval dns_name_def dns_char_def)

section \<open>Rebuilding the port tracking map\<close>

lemma track_rules_owner:
  "gm_get (track_rules rs used) p = Some k \<Longrightarrow>
     gm_get used p = Some k \<or>
     (\<exists>r \<in> set rs. isManagedRule (pfName r) \<and> Atoi (pfDstPort r) = Some p \<and>
        extractServiceKeyFromRuleName (pfName r) = k)"
proof (induction rs arbitrary: used)
  case (Cons r rs)
  show ?case
  proof (cases "isManagedRule (pfName r) \<and> Atoi (pfDstPort r) \<noteq> None")
    case True
    then obtain q where q: "Atoi (pfDstPort r) = Some q" by auto
    with True Cons.IH [of "markPortUsed q (extractServiceKeyFromRuleName (pfName r)) used"] Cons.prems
    show ?thesis by (auto simp: tracker.owner_mark split: if_splits)
  next
    case False
    with Cons.IH [of used] Cons.prems show ?thesis by (auto split: if_splits)
  qed
qed simp

lemma track_rules_dom:
  "gm_get (track_rules rs used) p \<noteq> None \<longleftrightarrow>
     gm_get used p \<noteq> None \<or> (\<exists>r \<in> set rs. isManagedRule (pfName r) \<and> Atoi (pfDstPort r) = Some p)"
  by (induction rs arbitrary: used) (auto simp: tracker.owner_mark split: option.splits)

text \<open>
  A full synchronisation makes the tracking map a picture of the router.  After
  \<open>SyncPortTrackingWithRouter\<close> succeeds, a port is tracked exactly when some rule with a managed name
  and a numeric external port is on the router, its recorded owner is the service of such a rule, and
  rules that do not follow the naming scheme are not tracked.
\<close>

lemma sync_tracks_managed_rules:
  assumes "router_contract R rules"
    and "SyncPortTrackingWithRouter R (used, w) = (Inr (), (used', w'))"
  shows "(gm_get used' p \<noteq> None \<longleftrightarrow>
      (\<exists>r \<in> set (rules w). isManagedRule (pfName r) \<and> Atoi (pfDstPort r) = Some p)) \<and>
    (\<forall>k. gm_get used' p = Some k \<longrightarrow>
      (\<exists>r \<in> set (rules w). isManagedRule (pfName r) \<and> Atoi (pfDstPort r) = Some p \<and>
        extractServiceKeyFromRuleName (pfName r) = k))"
proof -
  from assms(2) obtain rs where l: "r_ListAllPortForwards R w = (Inr rs, w')"
    and used': "used' = track_rules rs []"
    by (auto simp: SyncPortTrackingWithRouter_def SyncPortTrackingWithRouterSelective_def
        ClearPortConflictTracking_def Let_def split: prod.splits sum.splits)
  from router_contract.list_set [OF assms(1) l] have "set rs = set (rules w)" by simp
  with used' track_rules_dom [of rs "[]" p] track_rules_owner [of rs "[]" p] show ?thesis by auto
qed

definition tracked_rule :: "string \<Rightarrow> string \<Rightarrow> string \<Rightarrow> PortForward" where
  "tracked_rule i name dst =
     \<lparr>ID = i, SiteID = ''default'', DestinationIP = ''any'', pfDstPort = dst, pfEnabled = True, Fwd = ''10.0.0.5'',
      pfFwdPort = ''80'', pfName = name, PfwdInterface = ''wan'', Proto = ''tcp'', Src = ''any''\<rparr>"

lemma sync_tracks_managed_rules_witness:
  "\<exists>used' w'. SyncPortTrackingWithRouter (unifi_router (ref_router ''default''))
       ([(22, ''old/svc'')], \<lparr>gw_rules = [tracked_rule ''a'' ''web/shop:http'' ''8080'', tracked_rule ''b'' ''vpn'' ''1194''],
          gw_session = True, gw_faults = []\<rparr>) = (Inr (), (used', w')) \<and>
     gm_get used' 8080 \<noteq> None \<and> gm_get used' 1194 = None \<and> gm_get used' 22 = None"
proof -
  let ?w = "\<lparr>gw_rules = [tracked_rule ''a'' ''web/shop:http'' ''8080'', tracked_rule ''b'' ''vpn'' ''1194''],
      gw_session = True, gw_faults = []\<rparr>"
  have "\<exists>used' w'. SyncPortTrackingWithRouter (unifi_router (ref_router ''default'')) ([(22, ''old/svc'')], ?w) = (Inr (), (used', w'))"
    by (simp add: SyncPortTrackingWithRouter_def SyncPortTrackingWithRouterSelective_def ListAllPortForwards_def
        withAuthRetry_def gw_eval)
  then obtain used' w' where
    run: "SyncPortTrackingWithRouter (unifi_router (ref_router ''default'')) ([(22, ''old/svc'')], ?w) = (Inr (), (used', w'))" by blast
  have "gm_get used' p \<noteq> None \<longleftrightarrow> (\<exists>r \<in> set (gw_rules ?w). isManagedRule (pfName r) \<and> Atoi (pfDstPort r) = Some p)" for p
    using sync_tracks_managed_rules [OF ref.router_contract_axioms run] by blast
  note this [of 8080] this [of 1194] this [of 22]
  with run show ?thesis
    by (auto simp: tracked_rule_def isManagedRule_def go_eval)
qed

end
