(* ===== verification/GoNet.thy ===== *)
theory GoNet
  imports GoStrings
begin

text \<open>
  \<open>net.ParseIP\<close>, of which the program only uses the nil test, and the lexical part of
  \<open>path/filepath\<close> on Unix.
\<close>

section \<open>net.ParseIP\<close>

text \<open>
  \<open>netip.ParseAddr\<close>: the first of the characters dot, colon and percent decides between IPv4, IPv6 and
  failure.  An IPv4 field has no leading zero and is at most 255.  An address with a zone is nil for
  \<open>net.ParseIP\<close>.
\<close>

definition ipv4_field :: "string \<Rightarrow> bool" where
  "ipv4_field f \<longleftrightarrow> f \<noteq> [] \<and> list_all is_digit f \<and> (hd f = CHR ''0'' \<longrightarrow> f = ''0'') \<and> digits_val f \<le> 255"

definition parseIPv4 :: "string \<Rightarrow> bool" where
  "parseIPv4 s \<longleftrightarrow> (let fields = Split s (CHR ''.'') in length fields = 4 \<and> list_all ipv4_field fields)"

definition is_hex :: "char \<Rightarrow> bool" where
  "is_hex c \<longleftrightarrow> is_digit c \<or> c \<in> set ''abcdefABCDEF''"

text \<open>
  The loop over the 16-bit groups: \<open>n\<close> groups of the eight are left, \<open>ell\<close> says whether the double
  colon has been seen.
\<close>

fun ipv6_groups :: "nat \<Rightarrow> bool \<Rightarrow> string \<Rightarrow> bool" where
  "ipv6_groups 0 ell s = (s = [] \<and> \<not> ell)"
| "ipv6_groups (Suc n) ell s =
     (let off = length (takeWhile is_hex s) in
      if off = 0 \<or> off > 4 then False
      else (case drop off s of
          [] \<Rightarrow> ell = (n > 0)
        | c # cs \<Rightarrow>
            if c = CHR ''.'' then (if ell then n \<ge> 2 else n = 1) \<and> parseIPv4 s
            else if c \<noteq> CHR '':'' then False
            else (case cs of
                [] \<Rightarrow> False
              | d # ds \<Rightarrow>
                  if d = CHR '':'' then \<not> ell \<and> (if ds = [] then n > 0 else ipv6_groups n True ds)
                  else ipv6_groups n ell cs)))"

definition parseIPv6 :: "string \<Rightarrow> bool" where
  "parseIPv6 s \<longleftrightarrow>
     (if CHR ''%'' \<in> set s then False
      else if take 2 s = ''::'' then drop 2 s = [] \<or> ipv6_groups 8 True (drop 2 s)
      else ipv6_groups 8 False s)"

definition ParseIP_ok :: "string \<Rightarrow> bool" where
  "ParseIP_ok s \<longleftrightarrow>
     (case List.find (\<lambda>c. c = CHR ''.'' \<or> c = CHR '':'' \<or> c = CHR ''%'') s of
        None \<Rightarrow> False
      | Some c \<Rightarrow> if c = CHR ''.'' then parseIPv4 s else if c = CHR '':'' then parseIPv6 s else False)"

section \<open>Which addresses are accepted\<close>

lemma ipv4_field_iff: "ipv4_field f \<longleftrightarrow> (\<exists>a < 256. f = nat_str a)"
proof
  assume f: "ipv4_field f"
  then have "nat_str (digits_val f) = f" by (auto simp: ipv4_field_def intro: nat_str_digits_val)
  then show "\<exists>a < 256. f = nat_str a" using f by (intro exI [of _ "digits_val f"]) (simp add: ipv4_field_def)
next
  assume "\<exists>a < 256. f = nat_str a"
  then obtain a where a: "a < 256" "f = nat_str a" by blast
  have "hd f = CHR ''0'' \<longrightarrow> f = ''0''"
    using hd_nat_str [of a] a(2) by (cases "a = 0") (auto simp: nat_str_eval)
  then show "ipv4_field f" using a nat_str_digits [of a] by (simp add: ipv4_field_def)
qed

text \<open>The dotted decimal form of four bytes.\<close>

definition dotted :: "nat \<Rightarrow> nat \<Rightarrow> nat \<Rightarrow> nat \<Rightarrow> string" where
  "dotted a b c d = nat_str a @ ''.'' @ nat_str b @ ''.'' @ nat_str c @ ''.'' @ nat_str d"

lemma nat_str_plain: "c \<in> set (nat_str n) \<Longrightarrow> c \<noteq> CHR ''.'' \<and> c \<noteq> CHR '':'' \<and> c \<noteq> CHR ''%''"
  using nat_str_digits [of n] by (auto simp: list_all_iff is_digit_def)

lemma parseIPv4_iff:
  "parseIPv4 s \<longleftrightarrow> (\<exists>a < 256. \<exists>b < 256. \<exists>c < 256. \<exists>d < 256. s = dotted a b c d)"
proof
  assume "parseIPv4 s"
  then obtain f1 f2 f3 f4 where f: "Split s (CHR ''.'') = [f1, f2, f3, f4]" "list_all ipv4_field [f1, f2, f3, f4]"
    by (auto simp: parseIPv4_def Let_def numeral_eq_Suc length_Suc_conv)
  then have "s = Join [f1, f2, f3, f4] ''.''" using Join_Split [of s "CHR ''.''"] by simp
  with f(2) show "\<exists>a < 256. \<exists>b < 256. \<exists>c < 256. \<exists>d < 256. s = dotted a b c d"
    by (auto simp: ipv4_field_iff dotted_def)
next
  assume "\<exists>a < 256. \<exists>b < 256. \<exists>c < 256. \<exists>d < 256. s = dotted a b c d"
  then obtain a b c d where s: "a < 256" "b < 256" "c < 256" "d < 256" "s = dotted a b c d" by blast
  have "s = Join [nat_str a, nat_str b, nat_str c, nat_str d] [CHR ''.'']" using s(5) by (simp add: dotted_def)
  then have "Split s (CHR ''.'') = [nat_str a, nat_str b, nat_str c, nat_str d]"
    by (metis (no_types, lifting) Split_Join nat_str_plain set_ConsD empty_iff list.set(1) list.distinct(1))
  with s show "parseIPv4 s" by (auto simp: parseIPv4_def ipv4_field_iff)
qed

text \<open>
  An address without a colon is accepted exactly when it is the dotted decimal form of four bytes.  (The
  other accepted strings are IPv6 addresses.)
\<close>

lemma ipv4_addresses_exact:
  "ParseIP_ok s \<and> CHR '':'' \<notin> set s \<longleftrightarrow> (\<exists>a < 256. \<exists>b < 256. \<exists>c < 256. \<exists>d < 256. s = dotted a b c d)"
proof
  assume s: "ParseIP_ok s \<and> CHR '':'' \<notin> set s"
  then obtain c where "List.find (\<lambda>c. c = CHR ''.'' \<or> c = CHR '':'' \<or> c = CHR ''%'') s = Some c"
    "if c = CHR ''.'' then parseIPv4 s else if c = CHR '':'' then parseIPv6 s else False"
    by (auto simp: ParseIP_ok_def split: option.splits)
  with s have "parseIPv4 s" by (auto dest!: find_SomeD split: if_splits)
  then show "\<exists>a < 256. \<exists>b < 256. \<exists>c < 256. \<exists>d < 256. s = dotted a b c d" by (simp only: parseIPv4_iff)
next
  assume r: "\<exists>a < 256. \<exists>b < 256. \<exists>c < 256. \<exists>d < 256. s = dotted a b c d"
  then have "parseIPv4 s" by (simp only: parseIPv4_iff)
  moreover have "List.find (\<lambda>c. c = CHR ''.'' \<or> c = CHR '':'' \<or> c = CHR ''%'') s = Some (CHR ''.'')"
    using r by (auto simp: dotted_def nat_str_plain find_append_none)
  moreover have "CHR '':'' \<notin> set s" using r by (auto simp: dotted_def dest: nat_str_plain)
  ultimately show "ParseIP_ok s \<and> CHR '':'' \<notin> set s" by (simp add: ParseIP_ok_def)
qed

section \<open>path/filepath\<close>

text \<open>
  \<open>filepath.Clean\<close>: the components of the result, last first.  Empty and dot components go, a double dot
  takes the component before it away; at the root it goes too.
\<close>

fun clean_parts :: "bool \<Rightarrow> string list \<Rightarrow> string list \<Rightarrow> string list" where
  "clean_parts rooted [] acc = acc"
| "clean_parts rooted (e # es) acc =
     (if e = [] \<or> e = ''.'' then clean_parts rooted es acc
      else if e = ''..'' then
        (case acc of
           [] \<Rightarrow> clean_parts rooted es (if rooted then [] else [''..''])
         | x # xs \<Rightarrow> clean_parts rooted es (if x = ''..'' then e # acc else xs))
      else clean_parts rooted es (e # acc))"

definition is_rooted :: "string \<Rightarrow> bool" where
  "is_rooted path \<longleftrightarrow> HasPrefix path ''/''"

definition path_Clean :: "string \<Rightarrow> string" where
  "path_Clean path =
     (let out = Join (rev (clean_parts (is_rooted path) (Split path (CHR ''/'')) [])) ''/'' in
      if is_rooted path then ''/'' @ out else if out = [] then ''.'' else out)"

definition path_Abs :: "string \<Rightarrow> string \<Rightarrow> string" where
  "path_Abs cwd path = (if is_rooted path then path_Clean path else path_Clean (cwd @ ''/'' @ path))"

end
