(* ===== verification/Config.thy ===== *)
theory Config
  imports GoNet
begin

text \<open>
  The configuration (pkg/config/config.go): the annotation and label names, the settings, their loading from
  the environment and their validation.

  The environment is a function from variable names to values, empty where a variable is not set
  (\<open>os.Getenv\<close>).  \<open>time.ParseDuration\<close>, which computes with floating point, is the argument
  \<open>ParseDuration\<close>.  \<open>log.Fatal\<close> ends the process: the result is \<open>Inl\<close>.
\<close>

section \<open>Names\<close>

definition FilterAnnotation :: string where
  "FilterAnnotation = ''unifi-port-forward.fiskhe.st/mapping''"

definition FinalizerLabel :: string where
  "FinalizerLabel = ''unifi-port-forward.fiskhe.st/router-rule-protection''"

definition CleanupStatusAnnotation :: string where
  "CleanupStatusAnnotation = ''unifi-port-forward.fiskhe.st/cleanup-status''"

definition CleanupAttemptsAnnotation :: string where
  "CleanupAttemptsAnnotation = ''unifi-port-forward.fiskhe.st/cleanup-attempts''"

definition PortForwardRulesCRDName :: string where
  "PortForwardRulesCRDName = ''portforwardrules.unifi-port-forward.fiskhe.st''"

section \<open>Settings\<close>

record Config =
  RouterIP :: string
  Username :: string
  Password :: string
  Site :: string
  APIKey :: string
  Debug :: bool
  SyncInterval :: int
  FinalizerMaxRetries :: int
  FinalizerRetryInterval :: int
  Host :: string

definition emptyConfig :: Config where
  "emptyConfig =
     \<lparr>RouterIP = '''', Username = '''', Password = '''', Site = '''', APIKey = '''', Debug = False, SyncInterval = 0,
      FinalizerMaxRetries = 0, FinalizerRetryInterval = 0, Host = ''''\<rparr>"

definition validateIP :: "string \<Rightarrow> unit result" where
  "validateIP ip =
     (if ip = '''' then Inl (ErrorString ''empty string'')
      else if \<not> ParseIP_ok ip then Inl (ErrorString ''invalid IP address format'')
      else Inr ())"

definition validation_errors :: "Config \<Rightarrow> string list" where
  "validation_errors c =
     (if RouterIP c = '''' then [''router IP cannot be empty'']
      else (case validateIP (RouterIP c) of
              Inl err \<Rightarrow> [''invalid router IP format: '' @ Error err]
            | Inr _ \<Rightarrow> [])) @
     (if Password c = '''' \<and> APIKey c = '''' then [''either password or API key must be provided''] else []) @
     (if Site c = '''' then [''site cannot be empty''] else []) @
     (if SyncInterval c < 5 * Minute then [''sync interval cannot happen more often than every five minutes''] else [])"

definition Validate :: "Config \<Rightarrow> unit result" where
  "Validate c =
     (let errors = validation_errors c in
      if length errors > 0 then Inl (ErrorString (''configuration validation failed: '' @ Join errors ''; ''))
      else Inr ())"

section \<open>The derived URL\<close>

text \<open>
  \<open>url.URL.String\<close> for a URL with only a scheme and a host.  In a host, letters, digits and the
  punctuation listed stand for themselves; every other byte is percent-encoded.
\<close>

definition host_char :: "char \<Rightarrow> bool" where
  "host_char c \<longleftrightarrow> is_digit c \<or> (65 \<le> (of_char c :: nat) \<and> (of_char c :: nat) \<le> 90) \<or>
     (97 \<le> (of_char c :: nat) \<and> (of_char c :: nat) \<le> 122) \<or> c \<in> set ''-_.~!$&()*+,;=:[]<>'' \<or> c = CHR 0x27 \<or> c = CHR 0x22"

definition percent :: "char \<Rightarrow> string" where
  "percent c = [CHR ''%'', ''0123456789ABCDEF'' ! (of_char c div 16), ''0123456789ABCDEF'' ! (of_char c mod 16)]"

definition escape_host :: "string \<Rightarrow> string" where
  "escape_host h = concat (map (\<lambda>c. if host_char c then [c] else percent c) h)"

definition SetDerivedValues :: "Config \<Rightarrow> Config" where
  "SetDerivedValues c =
     c\<lparr>Host := (if RouterIP c = '''' then ''https:'' else ''https://'' @ escape_host (RouterIP c))\<rparr>"

text \<open>\<open>ToURL\<close>; \<open>url_Parse\<close> stands for \<open>url.Parse\<close>.\<close>

definition ToURL :: "(string \<Rightarrow> 'u result) \<Rightarrow> Config \<Rightarrow> 'u result" where
  "ToURL url_Parse c =
     (if Host c = '''' then Inl (ErrorString ''router IP not configured'') else url_Parse (Host c))"

section \<open>Loading\<close>

definition from_env :: "(string \<Rightarrow> string) \<Rightarrow> string \<Rightarrow> string \<Rightarrow> string" where
  "from_env env name current = (if env name \<noteq> '''' then env name else current)"

definition InitFromEnv :: "(string \<Rightarrow> int result) \<Rightarrow> (string \<Rightarrow> string) \<Rightarrow> Config \<Rightarrow> Config result" where
  "InitFromEnv ParseDuration env cfg =
     (let cfg1 = cfg\<lparr>RouterIP := from_env env ''UNIFI_ROUTER_IP'' (RouterIP cfg),
            Username := from_env env ''UNIFI_USERNAME'' (Username cfg),
            Password := from_env env ''UNIFI_PASSWORD'' (Password cfg),
            Site := from_env env ''UNIFI_SITE'' (Site cfg),
            APIKey := from_env env ''UNIFI_API_KEY'' (APIKey cfg)\<rparr>;
          sync = (if env ''UNIFI_SYNC_INTERVAL'' \<noteq> '''' then
                    (case ParseDuration (env ''UNIFI_SYNC_INTERVAL'') of
                       Inl err \<Rightarrow> Inl err
                     | Inr syncInterval \<Rightarrow> Inr (cfg1\<lparr>SyncInterval := syncInterval\<rparr>))
                  else Inr cfg1)
      in case sync of
           Inl err \<Rightarrow> Inl err
         | Inr cfg2 \<Rightarrow> Inr (if env ''DEBUG'' \<noteq> '''' then cfg2\<lparr>Debug := (env ''DEBUG'' \<noteq> '''')\<rparr> else cfg2))"

definition SetDefaults :: "Config \<Rightarrow> Config" where
  "SetDefaults c =
     c\<lparr>RouterIP := (if RouterIP c = '''' then ''192.168.1.1'' else RouterIP c),
       Username := (if Username c = '''' then ''admin'' else Username c),
       Site := (if Site c = '''' then ''default'' else Site c),
       SyncInterval := (if SyncInterval c = 0 then 15 * Minute else SyncInterval c)\<rparr>"

definition Load :: "(string \<Rightarrow> int result) \<Rightarrow> (string \<Rightarrow> string) \<Rightarrow> Config \<Rightarrow> Config result" where
  "Load ParseDuration env c =
     (case InitFromEnv ParseDuration env c of
        Inl err \<Rightarrow> Inl err
      | Inr c1 \<Rightarrow> Inr (SetDerivedValues (SetDefaults c1)))"

section \<open>Which configurations are accepted\<close>

lemma validateIP_ok_iff: "validateIP ip = Inr () \<longleftrightarrow> ParseIP_ok ip"
  by (auto simp: validateIP_def ParseIP_ok_def)

text \<open>
  \<open>Validate\<close> accepts exactly the configurations with a well-formed router address, a password or an API key,
  a site and a synchronisation interval of at least five minutes.
\<close>

lemma config_validation_exact:
  "Validate c = Inr () \<longleftrightarrow>
     ParseIP_ok (RouterIP c) \<and> (Password c \<noteq> '''' \<or> APIKey c \<noteq> '''') \<and> Site c \<noteq> '''' \<and> 5 * Minute \<le> SyncInterval c"
proof -
  have "(case validateIP ip of Inl err \<Rightarrow> [f err] | Inr u \<Rightarrow> []) = [] \<longleftrightarrow> ParseIP_ok ip" for ip and f :: "error \<Rightarrow> string"
    using validateIP_ok_iff [of ip] by (cases "validateIP ip") auto
  moreover have "\<not> ParseIP_ok ''''" by (simp add: ParseIP_ok_def)
  ultimately show ?thesis by (auto simp: Validate_def Let_def validation_errors_def)
qed

lemma host_char_dotted: "list_all host_char (dotted a b c d)"
proof -
  have "list_all host_char (nat_str n)" for n
    using nat_str_digits [of n] by (auto simp: list_all_iff host_char_def)
  then show ?thesis by (simp add: dotted_def host_char_def)
qed

lemma escape_host_plain: "list_all host_char h \<Longrightarrow> escape_host h = h"
  by (induction h) (simp_all add: escape_host_def)

lemma derived_host: "Host (SetDerivedValues (c\<lparr>RouterIP := dotted a b c' d\<rparr>)) = ''https://'' @ dotted a b c' d"
  using escape_host_plain [OF host_char_dotted] by (simp add: SetDerivedValues_def dotted_def)

text \<open>Once the derived value is set, \<open>ToURL\<close> hands it to the URL parser, also without a router address.\<close>

lemma ToURL_derived: "ToURL url_Parse (SetDerivedValues c) = url_Parse (Host (SetDerivedValues c))"
  by (simp add: ToURL_def SetDerivedValues_def)

lemma InitFromEnv_values:
  assumes "InitFromEnv ParseDuration env c = Inr c1"
  shows "RouterIP c1 = from_env env ''UNIFI_ROUTER_IP'' (RouterIP c)" "Site c1 = from_env env ''UNIFI_SITE'' (Site c)"
    "Password c1 = from_env env ''UNIFI_PASSWORD'' (Password c)" "Debug c1 = (env ''DEBUG'' \<noteq> '''' \<or> Debug c)"
  using assms by (simp_all add: InitFromEnv_def Let_def split: sum.splits if_split_asm) auto

lemma LoadE:
  assumes "Load ParseDuration env c = Inr c'"
  obtains c1 where "InitFromEnv ParseDuration env c = Inr c1" "c' = SetDerivedValues (SetDefaults c1)"
  using assms by (auto simp: Load_def split: sum.splits)

text \<open>What \<open>Load\<close> gives: the variable where it is set, else the value it had, else the default.\<close>

lemma Load_values:
  assumes "Load ParseDuration env c = Inr c'"
  shows "RouterIP c' = (let ip = from_env env ''UNIFI_ROUTER_IP'' (RouterIP c) in if ip = '''' then ''192.168.1.1'' else ip)"
    "Site c' = (let site = from_env env ''UNIFI_SITE'' (Site c) in if site = '''' then ''default'' else site)"
    "Password c' = from_env env ''UNIFI_PASSWORD'' (Password c)"
    "Debug c' = (env ''DEBUG'' \<noteq> '''' \<or> Debug c)"
    "Host c' = ''https://'' @ escape_host (RouterIP c')"
proof -
  obtain c1 where c1: "InitFromEnv ParseDuration env c = Inr c1" "c' = SetDerivedValues (SetDefaults c1)"
    using assms by (rule LoadE)
  note v = InitFromEnv_values [OF c1(1)]
  show "RouterIP c' = (let ip = from_env env ''UNIFI_ROUTER_IP'' (RouterIP c) in if ip = '''' then ''192.168.1.1'' else ip)"
    unfolding c1(2) Let_def v(1) [symmetric] by (simp add: SetDefaults_def SetDerivedValues_def)
  show "Site c' = (let site = from_env env ''UNIFI_SITE'' (Site c) in if site = '''' then ''default'' else site)"
    unfolding c1(2) Let_def v(2) [symmetric] by (simp add: SetDefaults_def SetDerivedValues_def)
  show "Password c' = from_env env ''UNIFI_PASSWORD'' (Password c)"
    unfolding c1(2) v(3) [symmetric] by (simp add: SetDefaults_def SetDerivedValues_def)
  show "Debug c' = (env ''DEBUG'' \<noteq> '''' \<or> Debug c)"
    unfolding c1(2) v(4) [symmetric] by (simp add: SetDefaults_def SetDerivedValues_def)
  show "Host c' = ''https://'' @ escape_host (RouterIP c')"
    unfolding c1(2) by (simp add: SetDefaults_def SetDerivedValues_def)
qed

end
