(* ===== verification/ChangeDetection.thy ===== *)
theory ChangeDetection
  imports RuleNames Config
begin

text \<open>
  Change detection (pkg/controller/change_detection.go) and the event filter of the service controller
  (pkg/controller/predicates.go): what an update event changed, which events reach the reconciler, and
  the comparison of the load balancer IP with the rules on the router.
\<close>

section \<open>Data\<close>

record PortChangeDetail =
  ChangeType :: string
  OldPort :: "ServicePort option"
  NewPort :: "ServicePort option"

record ChangeContext =
  IPChanged :: bool
  OldIP :: string
  NewIP :: string
  AnnotationChanged :: bool
  OldAnnotation :: string
  NewAnnotation :: string
  SpecChanged :: bool
  PortChanges :: "PortChangeDetail list"
  DeletionChanged :: bool
  IsInitialSync :: bool
  ServiceKey :: string
  ServiceNamespace :: string
  ServiceName :: string
  PortForwardRules :: "string list"

text \<open>A \<open>ChangeContext\<close> literal that sets the three service fields only.\<close>

definition newContext :: "string \<Rightarrow> string \<Rightarrow> string \<Rightarrow> ChangeContext" where
  "newContext key ns name =
     \<lparr>IPChanged = False, OldIP = '''', NewIP = '''', AnnotationChanged = False, OldAnnotation = '''',
      NewAnnotation = '''', SpecChanged = False, PortChanges = [], DeletionChanged = False,
      IsInitialSync = False, ServiceKey = key, ServiceNamespace = ns, ServiceName = name,
      PortForwardRules = []\<rparr>"

section \<open>Analysing an update\<close>

definition HasRelevantChanges :: "ChangeContext \<Rightarrow> bool" where
  "HasRelevantChanges c =
     (if IsInitialSync c then False
      else IPChanged c \<or> AnnotationChanged c \<or> SpecChanged c \<or> DeletionChanged c)"

text \<open>\<open>(*metav1.Time).IsZero\<close>: a nil timestamp and the zero time.\<close>

definition IsZeroTime :: "int option \<Rightarrow> bool" where
  "IsZeroTime t = (case t of None \<Rightarrow> True | Some n \<Rightarrow> n = 0)"

definition portKeyByName :: "ServicePort \<Rightarrow> string" where
  "portKeyByName port = spName port @ ''-'' @ spProtocol port"

text \<open>The three loops over the port maps.\<close>

definition removed_ports ::
    "(string list \<Rightarrow> string list) \<Rightarrow> (string, ServicePort) gomap \<Rightarrow> (string, ServicePort) gomap \<Rightarrow> PortChangeDetail list" where
  "removed_ports it oldPortMap newPortMap =
     List.map_filter (\<lambda>key.
       (case gm_get oldPortMap key of
          Some oldPort \<Rightarrow>
            if \<not> gm_has newPortMap key
            then Some \<lparr>ChangeType = ''removed'', OldPort = Some oldPort, NewPort = None\<rparr> else None
        | None \<Rightarrow> None)) (it (map fst oldPortMap))"

definition added_ports ::
    "(string list \<Rightarrow> string list) \<Rightarrow> (string, ServicePort) gomap \<Rightarrow> (string, ServicePort) gomap \<Rightarrow> PortChangeDetail list" where
  "added_ports it oldPortMap newPortMap =
     List.map_filter (\<lambda>key.
       (case gm_get newPortMap key of
          Some newPort \<Rightarrow>
            if \<not> gm_has oldPortMap key
            then Some \<lparr>ChangeType = ''added'', OldPort = None, NewPort = Some newPort\<rparr> else None
        | None \<Rightarrow> None)) (it (map fst newPortMap))"

definition modified_ports ::
    "(string list \<Rightarrow> string list) \<Rightarrow> (string, ServicePort) gomap \<Rightarrow> (string, ServicePort) gomap \<Rightarrow> PortChangeDetail list" where
  "modified_ports it oldPortMap newPortMap =
     List.map_filter (\<lambda>key.
       (case (gm_get oldPortMap key, gm_get newPortMap key) of
          (Some oldPort, Some newPort) \<Rightarrow>
            if oldPort \<noteq> newPort
            then Some \<lparr>ChangeType = ''modified'', OldPort = Some oldPort, NewPort = Some newPort\<rparr> else None
        | _ \<Rightarrow> None)) (it (map fst oldPortMap))"

definition analyzePortChanges ::
    "(string list \<Rightarrow> string list) \<Rightarrow> ServicePort list \<Rightarrow> ServicePort list \<Rightarrow> PortChangeDetail list" where
  "analyzePortChanges it oldPorts newPorts =
     (let oldPortMap = gm_index portKeyByName oldPorts [];
          newPortMap = gm_index portKeyByName newPorts []
      in removed_ports it oldPortMap newPortMap @ added_ports it oldPortMap newPortMap @
         modified_ports it oldPortMap newPortMap)"

definition analyzeChanges :: "(string list \<Rightarrow> string list) \<Rightarrow> Service \<Rightarrow> Service \<Rightarrow> ChangeContext" where
  "analyzeChanges it oldSvc newSvc =
     (let ctx = newContext (serviceKey newSvc) (svcNamespace newSvc) (svcName newSvc) in
      if IsZeroTime (svcDeletionTimestamp oldSvc) \<and> \<not> IsZeroTime (svcDeletionTimestamp newSvc)
      then ctx\<lparr>DeletionChanged := True\<rparr>
      else
        (let oldIP = GetLBIP oldSvc; newIP = GetLBIP newSvc;
             ctx1 = (if oldIP \<noteq> newIP then ctx\<lparr>IPChanged := True, OldIP := oldIP, NewIP := newIP\<rparr> else ctx);
             ctx2 = (if svcAnnotations oldSvc \<noteq> None \<and> svcAnnotations newSvc \<noteq> None then
                       (let oldPortAnn = get_annotation oldSvc FilterAnnotation;
                            newPortAnn = get_annotation newSvc FilterAnnotation
                        in if oldPortAnn \<noteq> newPortAnn
                           then ctx1\<lparr>AnnotationChanged := True, OldAnnotation := oldPortAnn, NewAnnotation := newPortAnn\<rparr>
                           else ctx1)
                     else ctx1)
         in if svcPorts oldSvc \<noteq> svcPorts newSvc
            then ctx2\<lparr>SpecChanged := True, PortChanges := analyzePortChanges it (svcPorts oldSvc) (svcPorts newSvc)\<rparr>
            else ctx2))"

definition collectRulesForService :: "PortConfig list \<Rightarrow> string list" where
  "collectRulesForService configs = map Name configs"

definition compareIPsWithRouterState :: "string \<Rightarrow> PortForward list \<Rightarrow> bool \<times> string \<times> string" where
  "compareIPsWithRouterState desiredIP currentRules =
     (if desiredIP = '''' then (False, '''', '''')
      else if length currentRules = 0 then (False, '''', '''')
      else (case List.find (\<lambda>rule. Fwd rule \<noteq> desiredIP) currentRules of
              Some rule \<Rightarrow> (True, Fwd rule, desiredIP)
            | None \<Rightarrow> (False, '''', '''')))"

text \<open>The line that \<open>logServiceVsRouterStateDifferences\<close> writes to the standard output, if any.\<close>

definition logServiceVsRouterStateDifferences ::
    "string \<Rightarrow> PortForward list \<Rightarrow> string \<Rightarrow> string \<Rightarrow> string option" where
  "logServiceVsRouterStateDifferences serviceIP currentRules serviceName serviceNamespace =
     (case currentRules of
        [] \<Rightarrow> None
      | rule # _ \<Rightarrow>
          (let routerIP = Fwd rule in
           if serviceIP \<noteq> routerIP then
             Some (''SERVICE_vs_ROUTER_IP_MISMATCH: service='' @ serviceNamespace @ ''/'' @ serviceName @
                   '', service_ip='' @ serviceIP @ '', router_ip='' @ routerIP @ [CHR 0x0A])
           else None))"

section \<open>The event filter\<close>

definition hasPortForwardAnnotation :: "Service \<Rightarrow> bool" where
  "hasPortForwardAnnotation service =
     (case svcAnnotations service of None \<Rightarrow> False | Some annotations \<Rightarrow> gm_has annotations FilterAnnotation)"

definition ContainsFinalizer :: "Service \<Rightarrow> bool" where
  "ContainsFinalizer service = (FinalizerLabel \<in> set (svcFinalizers service))"

text \<open>
  An event carries an object; \<open>None\<close> stands for one that is not a \<open>*corev1.Service\<close>.
\<close>

definition predicate_Generic :: "Service option \<Rightarrow> bool" where
  "predicate_Generic e = False"

definition predicate_Update :: "(string list \<Rightarrow> string list) \<Rightarrow> Service option \<Rightarrow> Service option \<Rightarrow> bool" where
  "predicate_Update it objectOld objectNew =
     (case (objectOld, objectNew) of
        (Some oldSvc, Some newSvc) \<Rightarrow>
          if \<not> hasPortForwardAnnotation oldSvc \<and> \<not> hasPortForwardAnnotation newSvc then False
          else if \<not> HasRelevantChanges (analyzeChanges it oldSvc newSvc) then False
          else True
      | _ \<Rightarrow> False)"

definition predicate_Create :: "Service option \<Rightarrow> bool" where
  "predicate_Create obj =
     (case obj of None \<Rightarrow> False | Some svc \<Rightarrow> if \<not> hasPortForwardAnnotation svc then False else True)"

definition predicate_Delete :: "Service option \<Rightarrow> bool" where
  "predicate_Delete obj =
     (case obj of
        None \<Rightarrow> False
      | Some svc \<Rightarrow>
          if ContainsFinalizer svc then True
          else if hasPortForwardAnnotation svc then True
          else False)"

section \<open>Properties\<close>

lemma analyzeChanges_relevant:
  "HasRelevantChanges (analyzeChanges it old new) \<longleftrightarrow>
     (IsZeroTime (svcDeletionTimestamp old) \<and> \<not> IsZeroTime (svcDeletionTimestamp new)) \<or>
     GetLBIP old \<noteq> GetLBIP new \<or>
     (svcAnnotations old \<noteq> None \<and> svcAnnotations new \<noteq> None \<and>
        get_annotation old FilterAnnotation \<noteq> get_annotation new FilterAnnotation) \<or>
     svcPorts old \<noteq> svcPorts new"
  by (simp add: analyzeChanges_def HasRelevantChanges_def newContext_def Let_def)

text \<open>
  What the filter looks at.  An update event reaches the reconciler exactly when the old or the new service carries the mapping
  annotation and deletion was requested, the load balancer IP changed, the mapping text changed between
  two present annotation maps, or the service ports changed.
\<close>

lemma update_event_filter:
  "predicate_Update it (Some old) (Some new) \<longleftrightarrow>
     (hasPortForwardAnnotation old \<or> hasPortForwardAnnotation new) \<and>
     ((IsZeroTime (svcDeletionTimestamp old) \<and> \<not> IsZeroTime (svcDeletionTimestamp new)) \<or>
      GetLBIP old \<noteq> GetLBIP new \<or>
      (svcAnnotations old \<noteq> None \<and> svcAnnotations new \<noteq> None \<and>
         get_annotation old FilterAnnotation \<noteq> get_annotation new FilterAnnotation) \<or>
      svcPorts old \<noteq> svcPorts new)"
  by (simp add: predicate_Update_def analyzeChanges_relevant)

lemma update_event_filter_example:
  "predicate_Update (\<lambda>ks. ks)
      (Some ((example_service ''http'')\<lparr>svcAnnotations := Some [(FilterAnnotation, ''http'')]\<rparr>))
      (Some ((example_service ''http'')\<lparr>svcAnnotations := Some [(FilterAnnotation, ''tls'')]\<rparr>))"
  unfolding update_event_filter
  by (simp add: hasPortForwardAnnotation_def example_service_def get_annotation_def IsZeroTime_def)

text \<open>
  Taking away the last annotation of a managed service goes unnoticed.  When the annotation map of
  the new object is nil and nothing else changed, the update event is filtered out, although the
  service had the mapping annotation before: its rules stay on the router until another event.
\<close>

lemma removing_all_annotations_is_filtered:
  assumes "hasPortForwardAnnotation old" and "svcAnnotations new = None"
    and "svcPorts new = svcPorts old" and "svcIngress new = svcIngress old"
    and "svcDeletionTimestamp new = svcDeletionTimestamp old"
  shows "\<not> predicate_Update it (Some old) (Some new)"
  using assms by (simp add: predicate_Update_def analyzeChanges_relevant GetLBIP_def)

theorem removing_all_annotations_is_filtered_witness:
  "\<not> predicate_Update (\<lambda>ks. ks)
      (Some ((example_service ''http'')\<lparr>svcAnnotations := Some [(FilterAnnotation, ''http'')]\<rparr>))
      (Some ((example_service ''http'')\<lparr>svcAnnotations := None\<rparr>))"
  by (rule removing_all_annotations_is_filtered) (simp_all add: hasPortForwardAnnotation_def example_service_def)

lemma gm_index_get_iff:
  assumes "inj_on key (set xs)"
  shows "gm_get (gm_index key xs []) k = Some v \<longleftrightarrow> v \<in> set xs \<and> key v = k"
  using assms gm_get_index_SomeD [of key xs "[]" k v] gm_get_index_inj [of v xs key]
  by (auto simp: inj_on_def)

lemma key_loop_iff:
  assumes "iter_order it"
  shows "d \<in> set (List.map_filter f (it (map fst m))) \<longleftrightarrow> (\<exists>k v. gm_get m k = Some v \<and> f k = Some d)"
  unfolding map_filter_Some_set iter_order_set [OF assms] bex_simps Bex_def gm_keys_iff by blast

lemma removed_ports_iff:
  assumes "iter_order it"
  shows "d \<in> set (removed_ports it m n) \<longleftrightarrow>
    (\<exists>k p. gm_get m k = Some p \<and> gm_get n k = None \<and>
       d = \<lparr>ChangeType = ''removed'', OldPort = Some p, NewPort = None\<rparr>)"
  unfolding removed_ports_def key_loop_iff [OF assms] by (rule iff_exI)+ (auto split: if_splits)

lemma added_ports_iff:
  assumes "iter_order it"
  shows "d \<in> set (added_ports it m n) \<longleftrightarrow>
    (\<exists>k q. gm_get n k = Some q \<and> gm_get m k = None \<and>
       d = \<lparr>ChangeType = ''added'', OldPort = None, NewPort = Some q\<rparr>)"
  unfolding added_ports_def key_loop_iff [OF assms] by (rule iff_exI)+ (auto split: if_splits)

lemma modified_ports_iff:
  assumes "iter_order it"
  shows "d \<in> set (modified_ports it m n) \<longleftrightarrow>
    (\<exists>k p. gm_get m k = Some p \<and> (\<exists>q. gm_get n k = Some q \<and> p \<noteq> q \<and>
       d = \<lparr>ChangeType = ''modified'', OldPort = Some p, NewPort = Some q\<rparr>))"
  unfolding modified_ports_def key_loop_iff [OF assms] by (rule iff_exI)+ (auto split: option.splits if_splits)

lemma index_absent: "gm_get (gm_index key xs []) k = None \<longleftrightarrow> k \<notin> key ` set xs"
  by (simp add: gm_get_index_dom)

text \<open>
  The port change analysis is complete and classifies each change once.  For port lists without two
  ports of the same name and protocol, and whatever order the maps are traversed in, the result holds
  exactly: a removed entry for every old port whose name and protocol are gone, an added entry for
  every new one, and a modified entry for every pair with the same name and protocol that differs in
  another field.
\<close>

lemma analyzePortChanges_complete:
  assumes "iter_order it" and "inj_on portKeyByName (set old)" and "inj_on portKeyByName (set new)"
  shows "d \<in> set (analyzePortChanges it old new) \<longleftrightarrow>
    (\<exists>p \<in> set old. portKeyByName p \<notin> portKeyByName ` set new \<and>
       d = \<lparr>ChangeType = ''removed'', OldPort = Some p, NewPort = None\<rparr>) \<or>
    (\<exists>q \<in> set new. portKeyByName q \<notin> portKeyByName ` set old \<and>
       d = \<lparr>ChangeType = ''added'', OldPort = None, NewPort = Some q\<rparr>) \<or>
    (\<exists>p \<in> set old. \<exists>q \<in> set new. portKeyByName p = portKeyByName q \<and> p \<noteq> q \<and>
       d = \<lparr>ChangeType = ''modified'', OldPort = Some p, NewPort = Some q\<rparr>)"
  unfolding analyzePortChanges_def Let_def set_append Un_iff
    removed_ports_iff [OF assms(1)] added_ports_iff [OF assms(1)] modified_ports_iff [OF assms(1)]
    gm_index_get_iff [OF assms(2)] gm_index_get_iff [OF assms(3)] index_absent
  by (rule disj_cong, blast, rule disj_cong, blast, metis)

theorem analyzePortChanges_complete_witness:
  "\<lparr>ChangeType = ''modified'', OldPort = Some (example_port ''http'' 80), NewPort = Some (example_port ''http'' 81)\<rparr>
     \<in> set (analyzePortChanges (\<lambda>ks. ks) [example_port ''http'' 80] [example_port ''http'' 81])"
  by (subst analyzePortChanges_complete) (auto simp: iter_order_id portKeyByName_def example_port_def)

end
