(* ===== verification/Operations.thy ===== *)
theory Operations
  imports ChangeDetection RefGateway
begin

text \<open>
  Port operations (pkg/controller/unified_operations.go): the difference between the rules on the router
  and the desired configurations as a list of create, update and delete operations, their execution
  with rollback, and the clean-up variant.

  Where \<open>calculateDelta\<close> ranges over a Go map, the iteration order is the parameter \<open>itc\<close> (current
  rules) or \<open>itd\<close> (desired configurations).  The state of an execution is the port tracking map and
  the world the router lives in.
\<close>

section \<open>Data\<close>

datatype OperationType = OpCreate | OpUpdate | OpDelete

record PortOperation =
  opType :: OperationType
  opConfig :: PortConfig
  opExistingRule :: "PortForward option"
  opReason :: string

text \<open>
  \<open>String\<close>; the arrow is the character U+2192.  The source's \<open>default\<close> branch is for strings that are
  none of the three operation types.
\<close>

definition PortOperation_String :: "PortOperation \<Rightarrow> string" where
  "PortOperation_String op =
     (let config = opConfig op;
          target = ''rule port '' @ Itoa (DstPort config) @ '' '' @ [CHR 0xE2, CHR 0x86, CHR 0x92] @ '' '' @
            DstIP config @ '':'' @ Itoa (FwdPort config) @ '' ('' @ Protocol config @ '')''
      in case opType op of
           OpCreate \<Rightarrow> ''CREATE '' @ target
         | OpUpdate \<Rightarrow> ''UPDATE '' @ target
         | OpDelete \<Rightarrow> ''DELETE rule port '' @ Itoa (DstPort config) @ '' ('' @ Protocol config @ '')'')"

record OperationResult =
  Created :: "PortConfig list"
  Updated :: "PortConfig list"
  Deleted :: "PortConfig list"
  Failed :: "error list"

record 'w cstate =
  usedPorts :: ports
  world :: 'w

definition emptyResult :: OperationResult where
  "emptyResult = \<lparr>Created = [], Updated = [], Deleted = [], Failed = []\<rparr>"

section \<open>Mismatches\<close>

definition strToInt :: "string \<Rightarrow> int" where
  "strToInt s = (case Atoi s of Some i \<Rightarrow> i | None \<Rightarrow> 0)"

definition determineMismatchType :: "PortForward \<Rightarrow> PortConfig \<Rightarrow> ChangeContext \<Rightarrow> string" where
  "determineMismatchType existingRule desiredConfig changeContext =
     (if pfFwdPort existingRule \<noteq> Itoa (FwdPort desiredConfig) then ''fwdport''
      else if pfDstPort existingRule \<noteq> Itoa (DstPort desiredConfig) then ''port''
      else if Proto existingRule \<noteq> Protocol desiredConfig then ''protocol''
      else if IPChanged changeContext \<or> Fwd existingRule \<noteq> DstIP desiredConfig then ''ip''
      else if pfName existingRule \<noteq> Name desiredConfig then ''name''
      else if pfEnabled existingRule \<noteq> Enabled desiredConfig then ''enabled''
      else '''')"

definition isSafeUpdate :: "string \<Rightarrow> bool" where
  "isSafeUpdate mismatchType = (mismatchType \<in> set [''name'', ''ip'', ''enabled'', ''ownership''])"

text \<open>
  The \<open>PortConfig\<close> literals that copy a rule; the call sites differ in how they read the ports.
\<close>

definition rule_config :: "(string \<Rightarrow> int) \<Rightarrow> PortForward \<Rightarrow> PortConfig" where
  "rule_config parse rule =
     \<lparr>Name = pfName rule, Enabled = pfEnabled rule, Interface = PfwdInterface rule,
      DstPort = parse (pfDstPort rule), FwdPort = parse (pfFwdPort rule), SrcIP = Src rule,
      DstIP = Fwd rule, Protocol = Proto rule\<rparr>"

definition configKey :: "PortConfig \<Rightarrow> string" where
  "configKey config = key3 (Itoa (DstPort config)) (Itoa (FwdPort config)) (Protocol config)"

definition ruleKey :: "PortForward \<Rightarrow> string" where
  "ruleKey rule = key3 (pfDstPort rule) (pfFwdPort rule) (Proto rule)"

section \<open>The difference\<close>

definition belongs :: "Service \<Rightarrow> PortForward \<Rightarrow> bool" where
  "belongs service rule = RuleBelongsToService (pfName rule) (svcNamespace service) (svcName service)"

definition detectPortConflicts :: "PortForward list \<Rightarrow> PortConfig list \<Rightarrow> Service \<Rightarrow> PortOperation list" where
  "detectPortConflicts currentRules desiredConfigs service =
     (let desiredMap = gm_index configKey desiredConfigs [] in
      if length desiredConfigs = 0 then []
      else List.map_filter (\<lambda>rule.
        if belongs service rule then None
        else (let portKey = key3 (Itoa (strToInt (pfDstPort rule))) (Itoa (strToInt (pfFwdPort rule))) (Proto rule) in
              case gm_get desiredMap portKey of
                None \<Rightarrow> None
              | Some desiredConfig \<Rightarrow>
                  if ID rule \<noteq> '''' then
                    Some \<lparr>opType = OpUpdate, opConfig = desiredConfig, opExistingRule = Some rule,
                          opReason = ''ownership_takeover''\<rparr>
                  else None)) currentRules)"

definition validateConflictOperations :: "PortOperation list \<Rightarrow> PortForward list \<Rightarrow> PortOperation list" where
  "validateConflictOperations operations currentRules =
     filter (\<lambda>op. \<not> (opType op = OpUpdate \<and> opReason op = ''ownership_takeover'' \<and>
       \<not> (case opExistingRule op of
             Some er \<Rightarrow> ID er \<in> set (map ID currentRules)
           | None \<Rightarrow> False))) operations"

definition delete_op :: "PortForward \<Rightarrow> PortOperation" where
  "delete_op rule =
     \<lparr>opType = OpDelete, opConfig = rule_config strToInt rule, opExistingRule = Some rule,
      opReason = ''port_no_longer_desired''\<rparr>"

definition desired_ops :: "ChangeContext \<Rightarrow> PortForward option \<Rightarrow> PortConfig \<Rightarrow> PortOperation list" where
  "desired_ops changeContext existing desiredConfig =
     (case existing of
        None \<Rightarrow> [\<lparr>opType = OpCreate, opConfig = desiredConfig, opExistingRule = None, opReason = ''port_not_yet_exists''\<rparr>]
      | Some existingRule \<Rightarrow>
          (let mismatchType = determineMismatchType existingRule desiredConfig changeContext in
           if mismatchType \<noteq> '''' then
             if isSafeUpdate mismatchType then
               [\<lparr>opType = OpUpdate, opConfig = desiredConfig, opExistingRule = Some existingRule,
                 opReason = ''configuration_mismatch_safe''\<rparr>]
             else
               [\<lparr>opType = OpDelete, opConfig = rule_config ParseIntField existingRule,
                 opExistingRule = Some existingRule, opReason = ''configuration_mismatch_delete''\<rparr>,
                \<lparr>opType = OpCreate, opConfig = desiredConfig, opExistingRule = None,
                 opReason = ''configuration_mismatch_create''\<rparr>]
           else []))"

definition calculateDelta ::
    "(string list \<Rightarrow> string list) \<Rightarrow> (string list \<Rightarrow> string list) \<Rightarrow>
     PortForward list \<Rightarrow> PortConfig list \<Rightarrow> ChangeContext \<Rightarrow> Service \<Rightarrow> PortOperation list" where
  "calculateDelta itc itd currentRules desiredConfigs changeContext service =
     (let conflictOperations = detectPortConflicts currentRules desiredConfigs service;
          validConflictOperations = validateConflictOperations conflictOperations currentRules;
          conflictPorts = map (\<lambda>op. configKey (opConfig op)) conflictOperations;
          desiredMap = gm_index configKey desiredConfigs [];
          currentMap = gm_index ruleKey (filter (belongs service) currentRules) [];
          deletions = concat (map (\<lambda>portKey.
            (case gm_get currentMap portKey of
               None \<Rightarrow> []
             | Some rule \<Rightarrow> if \<not> gm_has desiredMap portKey then [delete_op rule] else []))
            (itc (map fst currentMap)));
          creations = concat (map (\<lambda>portKey.
            (case gm_get desiredMap portKey of
               None \<Rightarrow> []
             | Some desiredConfig \<Rightarrow>
                 if portKey \<in> set conflictPorts then []
                 else desired_ops changeContext (gm_get currentMap portKey) desiredConfig))
            (itd (map fst desiredMap)))
      in validConflictOperations @ deletions @ creations)"

definition countOwnershipTakeovers :: "PortOperation list \<Rightarrow> nat" where
  "countOwnershipTakeovers operations = length (filter (\<lambda>op. opReason op = ''ownership_takeover'') operations)"

section \<open>Execution\<close>

definition run_op :: "'w Router \<Rightarrow> PortOperation \<Rightarrow> ('w, unit) io" where
  "run_op R op =
     (case opType op of
        OpCreate \<Rightarrow> r_AddPort R (opConfig op)
      | OpUpdate \<Rightarrow> r_UpdatePort R (DstPort (opConfig op)) (opConfig op)
      | OpDelete \<Rightarrow> r_RemovePort R (opConfig op))"

definition record_op :: "PortOperation \<Rightarrow> OperationResult \<Rightarrow> OperationResult" where
  "record_op op result =
     (case opType op of
        OpCreate \<Rightarrow> result\<lparr>Created := Created result @ [opConfig op]\<rparr>
      | OpUpdate \<Rightarrow> result\<lparr>Updated := Updated result @ [opConfig op]\<rparr>
      | OpDelete \<Rightarrow> result\<lparr>Deleted := Deleted result @ [opConfig op]\<rparr>)"

definition unmark_op :: "PortOperation \<Rightarrow> ports \<Rightarrow> ports" where
  "unmark_op op used =
     (case opType op of
        OpDelete \<Rightarrow> UnmarkPortUsed (DstPort (opConfig op)) used
      | _ \<Rightarrow> used)"

definition rollback_op :: "'w Router \<Rightarrow> PortOperation \<Rightarrow> ('w, unit) io" where
  "rollback_op R op w =
     (case opType op of
        OpCreate \<Rightarrow> r_RemovePort R (opConfig op) w
      | OpUpdate \<Rightarrow>
          (case opExistingRule op of
             None \<Rightarrow> (Inr (), w)
           | Some er \<Rightarrow>
               (case r_UpdatePort R (DstPort (opConfig op)) (rule_config strToInt er) w of
                  (Inl err, w1) \<Rightarrow>
                    if Contains (Error err) ''not found''
                    then r_AddPort R ((opConfig op)\<lparr>Interface := ''wan'', SrcIP := ''any''\<rparr>) w1
                    else (Inl err, w1)
                | (Inr _, w1) \<Rightarrow> (Inr (), w1)))
      | OpDelete \<Rightarrow> r_AddPort R (opConfig op) w)"

text \<open>
  \<open>rollbackOperations\<close> goes through the completed operations in reverse order.  A failing step is
  logged and skipped, and the function always returns nil.
\<close>

fun rollback_loop :: "'w Router \<Rightarrow> PortOperation list \<Rightarrow> 'w \<Rightarrow> 'w" where
  "rollback_loop R [] w = w"
| "rollback_loop R (op # ops) w = rollback_loop R ops (snd (rollback_op R op w))"

definition rollbackOperations :: "'w Router \<Rightarrow> PortOperation list \<Rightarrow> ('w, unit) io" where
  "rollbackOperations R operations w = (Inr (), rollback_loop R (rev operations) w)"

fun exec_loop ::
    "'w Router \<Rightarrow> PortOperation list \<Rightarrow> PortOperation list \<Rightarrow> OperationResult \<Rightarrow> ('w, 'e) cstate_scheme \<Rightarrow>
     (OperationResult \<times> error option) \<times> ('w, 'e) cstate_scheme" where
  "exec_loop R [] completed result st = ((result, None), st)"
| "exec_loop R (op # ops) completed result st =
     (case run_op R op (world st) of
        (Inr _, w1) \<Rightarrow>
          exec_loop R ops (completed @ [op]) (record_op op result)
            (st\<lparr>usedPorts := unmark_op op (usedPorts st), world := w1\<rparr>)
      | (Inl err, w1) \<Rightarrow>
          (let result' = result\<lparr>Failed := Failed result @ [err]\<rparr> in
           case rollbackOperations R completed w1 of
             (Inl rollbackErr, w2) \<Rightarrow>
               ((result', Some (ErrorString (''operation failed: '' @ Error err @ '', rollback also failed: '' @ Error rollbackErr))),
                st\<lparr>world := w2\<rparr>)
           | (Inr _, w2) \<Rightarrow>
               ((result', Some (ErrorString (''operation failed: '' @ Error err))), st\<lparr>world := w2\<rparr>)))"

definition executeOperations ::
    "'w Router \<Rightarrow> PortOperation list \<Rightarrow> ('w, 'e) cstate_scheme \<Rightarrow>
     (OperationResult \<times> error option) \<times> ('w, 'e) cstate_scheme" where
  "executeOperations R operations st = exec_loop R operations [] emptyResult st"

section \<open>Clean-up\<close>

fun rollback_cleanup_loop :: "'w Router \<Rightarrow> PortOperation list \<Rightarrow> 'w \<Rightarrow> 'w" where
  "rollback_cleanup_loop R [] w = w"
| "rollback_cleanup_loop R (op # ops) w = rollback_cleanup_loop R ops (snd (r_AddPort R (opConfig op) w))"

definition rollbackCleanupOperations :: "'w Router \<Rightarrow> PortOperation list \<Rightarrow> ('w, unit) io" where
  "rollbackCleanupOperations R operations w = (Inr (), rollback_cleanup_loop R (rev operations) w)"

fun cleanup_loop ::
    "'w Router \<Rightarrow> PortOperation list \<Rightarrow> PortOperation list \<Rightarrow> OperationResult \<Rightarrow> ('w, 'e) cstate_scheme \<Rightarrow>
     (OperationResult \<times> error option) \<times> ('w, 'e) cstate_scheme" where
  "cleanup_loop R [] completed result st = ((result, None), st)"
| "cleanup_loop R (op # ops) completed result st =
     (case r_RemovePort R (opConfig op) (world st) of
        (Inr _, w1) \<Rightarrow>
          cleanup_loop R ops (completed @ [op]) (result\<lparr>Deleted := Deleted result @ [opConfig op]\<rparr>)
            (st\<lparr>usedPorts := UnmarkPortUsed (DstPort (opConfig op)) (usedPorts st), world := w1\<rparr>)
      | (Inl err, w1) \<Rightarrow>
          (let result' = result\<lparr>Failed := Failed result @ [err]\<rparr> in
           case rollbackCleanupOperations R completed w1 of
             (Inl rollbackErr, w2) \<Rightarrow>
               ((result', Some (ErrorString (''cleanup operation failed: '' @ Error err @
                  '', cleanup rollback also failed: '' @ Error rollbackErr))), st\<lparr>world := w2\<rparr>)
           | (Inr _, w2) \<Rightarrow>
               ((result', Some (ErrorString (''cleanup operation failed: '' @ Error err))), st\<lparr>world := w2\<rparr>)))"

fun op_name :: "OperationType \<Rightarrow> string" where
  "op_name OpCreate = ''create''"
| "op_name OpUpdate = ''update''"
| "op_name OpDelete = ''delete''"

definition executeCleanupOperations ::
    "'w Router \<Rightarrow> PortOperation list \<Rightarrow> ('w, 'e) cstate_scheme \<Rightarrow>
     (OperationResult \<times> error option) \<times> ('w, 'e) cstate_scheme" where
  "executeCleanupOperations R operations st =
     (case List.find (\<lambda>op. opType op \<noteq> OpDelete) operations of
        Some op \<Rightarrow>
          ((emptyResult, Some (ErrorString (''executeCleanupOperations only supports DELETE operations, got '' @
             op_name (opType op)))), st)
      | None \<Rightarrow> cleanup_loop R operations [] emptyResult st)"

section \<open>The desired state\<close>

definition calculateDesiredState ::
    "Service \<Rightarrow> ('w, 'e) cstate_scheme \<Rightarrow> PortConfig list result \<times> ('w, 'e) cstate_scheme" where
  "calculateDesiredState service st =
     (let lbIP = GetLBIP service in
      if lbIP = '''' then (Inl (ErrorString ''service has no LoadBalancer IP''), st)
      else (case GetPortConfigs service lbIP FilterAnnotation (usedPorts st) of
              (Inl err, used) \<Rightarrow>
                (Inl (ErrorString (''failed to get port configurations: '' @ Error err)), st\<lparr>usedPorts := used\<rparr>)
            | (Inr portConfigs, used) \<Rightarrow> (Inr portConfigs, st\<lparr>usedPorts := used\<rparr>)))"

section \<open>Example data\<close>

definition example_rule :: "string \<Rightarrow> string \<Rightarrow> int \<Rightarrow> int \<Rightarrow> PortForward" where
  "example_rule i name dst fwd =
     \<lparr>ID = i, SiteID = ''default'', DestinationIP = ''any'', pfDstPort = Itoa dst, pfEnabled = True,
      Fwd = ''10.0.0.5'', pfFwdPort = Itoa fwd, pfName = name, PfwdInterface = ''wan'', Proto = ''tcp'', Src = ''any''\<rparr>"

definition example_config :: "string \<Rightarrow> int \<Rightarrow> int \<Rightarrow> PortConfig" where
  "example_config name dst fwd =
     \<lparr>Name = name, Enabled = True, Interface = ''wan'', DstPort = dst, FwdPort = fwd, SrcIP = ''any'',
      DstIP = ''10.0.0.5'', Protocol = ''tcp''\<rparr>"

definition example_gateway :: "PortForward list \<Rightarrow> bool list \<Rightarrow> gateway" where
  "example_gateway rs faults = \<lparr>gw_rules = rs, gw_session = True, gw_faults = faults\<rparr>"

definition example_state :: "PortForward list \<Rightarrow> bool list \<Rightarrow> gateway cstate" where
  "example_state rs faults = \<lparr>usedPorts = [], world = example_gateway rs faults\<rparr>"

lemmas router_eval = gw_eval unifi_router_simps AddPort_def UpdatePort_def RemovePort_def CheckPort_def
  ListAllPortForwards_def DeletePortForwardByID_def withAuthRetry_def add_payload_def update_payload_def
  matches_port_def EqualFold_def ToLower_def lower_char_def char_of_lower slot_def fresh_id_def
  example_gateway_def example_state_def example_rule_def example_config_def StatusUnauthorized_def

lemmas delta_eval = calculateDelta_def detectPortConflicts_def validateConflictOperations_def configKey_def
  ruleKey_def belongs_def RuleBelongsToService_def HasPrefix_def key3_def delete_op_def desired_ops_def
  determineMismatchType_def isSafeUpdate_def rule_config_def strToInt_def List.map_filter_simps
  example_rule_def example_config_def Let_def

lemmas exec_eval = executeOperations_def emptyResult_def run_op_def record_op_def unmark_op_def
  UnmarkPortUsed_def rollbackOperations_def rollback_op_def

definition ex_cur :: "PortForward list" where
  "ex_cur = [example_rule ''a'' ''web/shop:old'' 9090 80]"

definition ex_ds :: "PortConfig list" where
  "ex_ds = [example_config ''web/shop:http'' 8080 80]"

definition ex_state :: "bool list \<Rightarrow> gateway cstate" where
  "ex_state faults = example_state (ex_cur @ [example_rule ''b'' ''other/svc:x'' 7000 70]) faults"

abbreviation ex_delta :: "PortOperation list" where
  "ex_delta \<equiv> calculateDelta (\<lambda>ks. ks) (\<lambda>ks. ks) ex_cur ex_ds (newContext ''k'' ''web'' ''shop'') (example_service ''8080:http'')"

lemmas ex_eval = ex_cur_def ex_ds_def ex_state_def example_service_def newContext_def

lemma ex_delta_eval:
  "ex_delta =
     [delete_op (example_rule ''a'' ''web/shop:old'' 9090 80),
      \<lparr>opType = OpCreate, opConfig = example_config ''web/shop:http'' 8080 80, opExistingRule = None,
        opReason = ''port_not_yet_exists''\<rparr>]"
  by (simp add: delta_eval ex_eval go_eval)

end
