(* ===== verification/OpsEffect.thy ===== *)
theory OpsEffect
  imports Operations
begin

text \<open>
  What a sequence of port operations does to the rule table: \<open>op_post\<close> is the effect of one
  operation on the set of rules, \<open>ops_post\<close> that of a completed sequence.  The lemmas reduce the
  final table to the last operation on each slot; \<open>exec_ok\<close> and \<open>cleanup_ok\<close> show that the
  execution loops of unified_operations.go refine this specification on every router that keeps
  the contract.
\<close>

section \<open>The specification\<close>

abbreviation op_slot :: "PortOperation \<Rightarrow> int \<times> string" where
  "op_slot op \<equiv> cslot (opConfig op)"

definition op_post :: "PortOperation \<Rightarrow> PortForward set \<Rightarrow> PortForward set \<Rightarrow> bool" where
  "op_post op S S' =
     (case opType op of
        OpCreate \<Rightarrow> \<exists>r. realises (opConfig op) r \<and> r \<notin> S \<and> S' = insert r S
      | OpUpdate \<Rightarrow> \<exists>old new. old \<in> S \<and> slot old = Some (op_slot op) \<and> realises (opConfig op) new \<and>
          ID new = ID old \<and> Src new = Src old \<and> S' = insert new (S - {old})
      | OpDelete \<Rightarrow> S' = {r \<in> S. slot r \<noteq> Some (op_slot op)})"

inductive ops_post :: "PortOperation list \<Rightarrow> PortForward set \<Rightarrow> PortForward set \<Rightarrow> bool" where
  ops_done: "ops_post [] S S"
| ops_step: "op_post op S S1 \<Longrightarrow> exclusive S1 \<Longrightarrow> ops_post ops S1 S' \<Longrightarrow> ops_post (op # ops) S S'"

inductive_simps ops_post_Nil [simp]: "ops_post [] S S'"
inductive_cases ops_post_ConsE: "ops_post (op # ops) S S'"

lemma ops_post_append: "ops_post (xs @ ys) S S' \<Longrightarrow> \<exists>T. ops_post xs S T \<and> ops_post ys T S'"
proof (induction xs arbitrary: S)
  case (Cons op xs)
  then show ?case by (auto elim!: ops_post_ConsE) (meson ops_step)
qed (auto intro: ops_done)

lemma ops_post_exclusive: "ops_post ops S S' \<Longrightarrow> exclusive S \<Longrightarrow> exclusive S'"
  by (induction rule: ops_post.induct) auto

section \<open>Effect on one slot\<close>

lemma op_post_frame:
  assumes "op_post op S S'" "in_int64 (DstPort (opConfig op))" "slot r \<noteq> Some (op_slot op)"
  shows "r \<in> S' \<longleftrightarrow> r \<in> S"
  using assms by (cases "opType op") (auto simp: op_post_def slot_realises)

lemma ops_post_frame:
  assumes "ops_post ops S S'" "\<forall>op \<in> set ops. in_int64 (DstPort (opConfig op))"
    and "\<forall>op \<in> set ops. slot r \<noteq> Some (op_slot op)"
  shows "r \<in> S' \<longleftrightarrow> r \<in> S"
  using assms by (induction rule: ops_post.induct) (auto simp: op_post_frame)

text \<open>A rule survives operations that can only create on its slot: the router refuses those.\<close>

lemma op_post_keep:
  assumes "op_post op S S'" "exclusive S'" "in_int64 (DstPort (opConfig op))" "r \<in> S"
    and "slot r = Some (op_slot op) \<longrightarrow> opType op = OpCreate"
  shows "r \<in> S'"
  using assms by (cases "opType op") (auto simp: op_post_def)

lemma ops_post_keep:
  assumes "ops_post ops S S'" "\<forall>op \<in> set ops. in_int64 (DstPort (opConfig op))" "r \<in> S"
    and "\<forall>op \<in> set ops. slot r = Some (op_slot op) \<longrightarrow> opType op = OpCreate"
  shows "r \<in> S'"
  using assms
proof (induction rule: ops_post.induct)
  case (ops_step op S S1 ops S')
  have "r \<in> S1" using ops_step.prems by (intro op_post_keep [OF ops_step.hyps(1,2)]) auto
  with ops_step show ?case by simp
qed simp

lemma ops_post_new:
  assumes "ops_post ops S S'" "r \<in> S'" "r \<notin> S"
  shows "\<exists>op \<in> set ops. opType op \<noteq> OpDelete \<and> realises (opConfig op) r"
  using assms
proof (induction rule: ops_post.induct)
  case (ops_step op S S1 ops S')
  show ?case
  proof (cases "r \<in> S1")
    case True
    with ops_step.hyps(1) ops_step.prems show ?thesis
      by (cases "opType op") (auto simp: op_post_def)
  qed (use ops_step in auto)
qed simp

text \<open>The last operation on a slot decides what is there in the end.\<close>

lemma ops_post_last:
  assumes run: "ops_post (pre @ op # post) S S'"
    and wf: "\<forall>o' \<in> set (pre @ op # post). in_int64 (DstPort (opConfig o'))"
    and last: "\<forall>o' \<in> set post. op_slot o' \<noteq> op_slot op"
  shows "if opType op = OpDelete then \<forall>r \<in> S'. slot r \<noteq> Some (op_slot op)
    else \<exists>r \<in> S'. realises (opConfig op) r \<and> slot r = Some (op_slot op)"
proof -
  from ops_post_append [OF run] obtain T where T: "ops_post (op # post) T S'" by blast
  then obtain T1 where 1: "op_post op T T1" and 2: "ops_post post T1 S'" by (auto elim: ops_post_ConsE)
  have keep: "slot r = Some (op_slot op) \<Longrightarrow> r \<in> S' \<longleftrightarrow> r \<in> T1" for r
    using last wf by (intro ops_post_frame [OF 2]) auto
  show ?thesis
    using 1 keep wf by (cases "opType op") (auto simp: op_post_def slot_realises)
qed

text \<open>A slot that is occupied and not deleted cannot be created on.\<close>

lemma op_post_occupied:
  assumes "op_post op S S'" "exclusive S'" "in_int64 (DstPort (opConfig op))" "r \<in> S" "slot r = Some s"
    and "op_slot op = s \<longrightarrow> opType op \<noteq> OpDelete"
  shows "(\<exists>r' \<in> S'. slot r' = Some s) \<and> \<not> (op_slot op = s \<and> opType op = OpCreate)"
proof (cases "op_slot op = s")
  case False
  with assms op_post_frame [OF assms(1,3), of r] show ?thesis by auto
next
  case True
  show ?thesis
  proof (cases "opType op")
    case OpCreate
    with assms(1) obtain q where "realises (opConfig op) q" "q \<notin> S" "S' = insert q S" by (auto simp: op_post_def)
    with exclusiveD [OF assms(2), of q r s] slot_realises [of "opConfig op" q] assms True show ?thesis by auto
  next
    case OpUpdate
    with assms(1,3) slot_realises True show ?thesis by (auto simp: op_post_def)
  qed (use assms(6) True in simp)
qed

lemma ops_post_occupied:
  assumes "ops_post ops S S'" "\<forall>op \<in> set ops. in_int64 (DstPort (opConfig op))" "\<exists>r \<in> S. slot r = Some s"
    and "\<forall>op \<in> set ops. op_slot op = s \<longrightarrow> opType op \<noteq> OpDelete"
  shows "\<forall>op \<in> set ops. \<not> (op_slot op = s \<and> opType op = OpCreate)"
  using assms
proof (induction rule: ops_post.induct)
  case (ops_step op S S1 ops S')
  then obtain r where "r \<in> S" "slot r = Some s" by blast
  with op_post_occupied [OF ops_step.hyps(1,2), of r s] ops_step show ?case by simp
qed simp

section \<open>The execution loops refine the specification\<close>

context router_contract
begin

lemma run_op_ok:
  assumes "run_op R op w = (Inr u, w')" "table_ok (rules w)"
  shows "table_ok (rules w') \<and> op_post op (set (rules w)) (set (rules w'))"
  using assms add_ok [of w "opConfig op" w'] remove_ok [of w "opConfig op" w']
    update_ok [of w "DstPort (opConfig op)" "opConfig op" w']
  by (cases "opType op") (auto simp: run_op_def op_post_def cslot_def)

lemma exec_ok:
  assumes "exec_loop R ops completed result st = ((result', None), st')" "table_ok (rules (world st))"
  shows "table_ok (rules (world st')) \<and> ops_post ops (set (rules (world st))) (set (rules (world st')))"
  using assms
proof (induction ops arbitrary: completed result st)
  case (Cons op ops)
  show ?case
  proof (cases "run_op R op (world st)" rule: io_cases)
    case (Err e w1)
    with Cons.prems show ?thesis by (simp add: rollbackOperations_def Let_def)
  next
    case (Ok u w1)
    from run_op_ok [OF Ok Cons.prems(2)] have w1: "table_ok (rules w1)"
      "op_post op (set (rules (world st))) (set (rules w1))" by auto
    with Cons.IH [OF Cons.prems(1) [unfolded exec_loop.simps Ok, simplified]] show ?thesis
      by (auto intro!: ops_step table_ok_exclusive)
  qed
qed (auto intro: ops_done)

lemma cleanup_ok:
  assumes "cleanup_loop R ops completed result st = ((result', None), st')" "table_ok (rules (world st))"
    and "\<forall>op \<in> set ops. opType op = OpDelete"
  shows "table_ok (rules (world st')) \<and> ops_post ops (set (rules (world st))) (set (rules (world st')))"
  using assms
proof (induction ops arbitrary: completed result st)
  case (Cons op ops)
  show ?case
  proof (cases "r_RemovePort R (opConfig op) (world st)" rule: io_cases)
    case (Err e w1)
    with Cons.prems show ?thesis by (simp add: rollbackCleanupOperations_def Let_def)
  next
    case (Ok u w1)
    then have "run_op R op (world st) = (Inr u, w1)" using Cons.prems(3) by (simp add: run_op_def)
    from run_op_ok [OF this Cons.prems(2)] have w1: "table_ok (rules w1)"
      "op_post op (set (rules (world st))) (set (rules w1))" by auto
    with Cons.IH [OF Cons.prems(1) [unfolded cleanup_loop.simps Ok, simplified]] Cons.prems(3) show ?thesis
      by (auto intro!: ops_step table_ok_exclusive)
  qed
qed (auto intro: ops_done)

end

end
