(* ===== verification/Planner.thy ===== *)
theory Planner
  imports OpsEffect
begin

text \<open>
  Plans: sequences of operations that first delete what is no longer wanted and then create or update
  what is.  \<open>plan_ok\<close> says what a plan must contain, in terms of a key that pairs rules with desired
  configurations and of a relation \<open>good\<close> under which a rule may stay as it is; the locale
  \<open>planner\<close> is the interface of the two components that compute plans, \<open>calculateDelta\<close> and
  \<open>correctServiceDrift\<close>, and its lemma \<open>converges\<close> shows that executing a plan reaches the
  desired state and touches no other rule.
\<close>

section \<open>Assumptions on names and ports\<close>

text \<open>
  A rule in the format the controller writes: the port fields and the protocol contain no dash
  (UniFi also accepts port ranges), and the external port is a number.
\<close>

definition plain_rule :: "PortForward \<Rightarrow> bool" where
  "plain_rule r \<longleftrightarrow>
     CHR ''-'' \<notin> set (pfDstPort r) \<and> CHR ''-'' \<notin> set (pfFwdPort r) \<and> CHR ''-'' \<notin> set (Proto r) \<and>
     Atoi (pfDstPort r) \<noteq> None"

definition plain_config :: "PortConfig \<Rightarrow> bool" where
  "plain_config c \<longleftrightarrow>
     0 \<le> DstPort c \<and> in_int64 (DstPort c) \<and> 0 \<le> FwdPort c \<and> in_int64 (FwdPort c) \<and>
     CHR ''-'' \<notin> set (Protocol c)"

text \<open>The desired configurations of a service: named after it, on pairwise different external ports.\<close>

definition desired_ok :: "Service \<Rightarrow> PortConfig list \<Rightarrow> bool" where
  "desired_ok service ds \<longleftrightarrow>
     distinct (map DstPort ds) \<and>
     (\<forall>d \<in> set ds. plain_config d \<and> RuleBelongsToService (Name d) (svcNamespace service) (svcName service))"

lemma desired_same_slot:
  "desired_ok service ds \<Longrightarrow> c \<in> set ds \<Longrightarrow> d \<in> set ds \<Longrightarrow> DstPort c = DstPort d \<Longrightarrow> c = d"
  by (auto simp: desired_ok_def distinct_map inj_on_def)

section \<open>Plans\<close>

text \<open>
  The state a service should be in: every desired configuration has a good rule, every rule of the
  service is good for a desired configuration, and all other rules are those of the earlier table.
\<close>

definition converged ::
    "(PortConfig \<Rightarrow> PortForward \<Rightarrow> bool) \<Rightarrow> Service \<Rightarrow> PortConfig list \<Rightarrow> PortForward set \<Rightarrow> PortForward set \<Rightarrow> bool" where
  "converged good service ds S S' \<longleftrightarrow>
     (\<forall>d \<in> set ds. \<exists>r \<in> S'. good d r) \<and>
     (\<forall>r \<in> S'. belongs service r \<longrightarrow> (\<exists>d \<in> set ds. good d r)) \<and>
     (\<forall>r. \<not> belongs service r \<longrightarrow> (r \<in> S' \<longleftrightarrow> r \<in> S))"

definition plan_ok ::
    "(PortForward \<Rightarrow> string) \<Rightarrow> (PortConfig \<Rightarrow> PortForward \<Rightarrow> bool) \<Rightarrow> PortForward list \<Rightarrow> PortConfig list \<Rightarrow>
     PortOperation list \<Rightarrow> PortOperation list \<Rightarrow> bool" where
  "plan_ok key good cur ds dels adds \<longleftrightarrow>
     (\<forall>op \<in> set (dels @ adds). in_int64 (DstPort (opConfig op))) \<and>
     (\<forall>r \<in> set cur. \<forall>d \<in> set ds. key r = configKey d \<longrightarrow> slot r = Some (cslot d)) \<and>
     (\<forall>op \<in> set dels. opType op = OpDelete \<and> (\<exists>r \<in> set cur. key r \<notin> configKey ` set ds \<and> slot r = Some (op_slot op))) \<and>
     (\<forall>r \<in> set cur. key r \<notin> configKey ` set ds \<longrightarrow> (\<exists>op \<in> set dels. slot r = Some (op_slot op))) \<and>
     (\<forall>op \<in> set adds. opConfig op \<in> set ds \<and>
        (opType op = OpCreate \<or> opType op = OpUpdate \<and> (\<exists>r \<in> set cur. key r = configKey (opConfig op)))) \<and>
     (\<forall>d \<in> set ds. configKey d \<notin> key ` set cur \<longrightarrow> (\<exists>op \<in> set adds. opConfig op = d)) \<and>
     (\<forall>r \<in> set cur. \<forall>d \<in> set ds. key r = configKey d \<longrightarrow> good d r \<or> (\<exists>op \<in> set adds. opConfig op = d)) \<and>
     (\<forall>d \<in> set ds. \<forall>r. realises d r \<longrightarrow> good d r)"

lemma plan_okD:
  assumes "plan_ok key good cur ds dels adds"
  shows po_wf: "\<forall>op \<in> set (dels @ adds). in_int64 (DstPort (opConfig op))"
    and po_key: "r \<in> set cur \<Longrightarrow> d \<in> set ds \<Longrightarrow> key r = configKey d \<Longrightarrow> slot r = Some (cslot d)"
    and po_del: "op \<in> set dels \<Longrightarrow> opType op = OpDelete \<and> (\<exists>r \<in> set cur. key r \<notin> configKey ` set ds \<and> slot r = Some (op_slot op))"
    and po_stale: "r \<in> set cur \<Longrightarrow> key r \<notin> configKey ` set ds \<Longrightarrow> \<exists>op \<in> set dels. slot r = Some (op_slot op)"
    and po_add: "op \<in> set adds \<Longrightarrow> opConfig op \<in> set ds \<and>
      (opType op = OpCreate \<or> opType op = OpUpdate \<and> (\<exists>r \<in> set cur. key r = configKey (opConfig op)))"
    and po_new: "d \<in> set ds \<Longrightarrow> configKey d \<notin> key ` set cur \<Longrightarrow> \<exists>op \<in> set adds. opConfig op = d"
    and po_good: "r \<in> set cur \<Longrightarrow> d \<in> set ds \<Longrightarrow> key r = configKey d \<Longrightarrow> good d r \<or> (\<exists>op \<in> set adds. opConfig op = d)"
    and po_realises: "d \<in> set ds \<Longrightarrow> realises d r \<Longrightarrow> good d r"
  using assms unfolding plan_ok_def by blast+

section \<open>Executing a plan\<close>

definition plan_run ::
    "(PortForward \<Rightarrow> string) \<Rightarrow> (PortConfig \<Rightarrow> PortForward \<Rightarrow> bool) \<Rightarrow> Service \<Rightarrow> PortConfig list \<Rightarrow> PortForward list \<Rightarrow>
     PortOperation list \<Rightarrow> PortOperation list \<Rightarrow> PortForward set \<Rightarrow> PortForward set \<Rightarrow> bool" where
  "plan_run key good service ds cur dels adds S S' \<longleftrightarrow>
     exclusive S \<and> set cur = {r \<in> S. belongs service r} \<and> desired_ok service ds \<and>
     plan_ok key good cur ds dels adds \<and> ops_post (dels @ adds) S S'"

lemma plan_runD:
  assumes "plan_run key good service ds cur dels adds S S'"
  shows dr_S: "exclusive S" and dr_cur: "set cur = {r \<in> S. belongs service r}"
    and dr_ds: "desired_ok service ds" and dr_plan: "plan_ok key good cur ds dels adds"
    and dr_run: "ops_post (dels @ adds) S S'"
  using assms by (simp_all add: plan_run_def)

lemmas dr_wf = po_wf [OF dr_plan]
lemmas dr_del_op = po_del [OF dr_plan]

lemma dr_add_op:
  "plan_run key good service ds cur dels adds S S' \<Longrightarrow> op \<in> set adds \<Longrightarrow> opConfig op \<in> set ds \<and> opType op \<noteq> OpDelete"
  using po_add [OF dr_plan] by fastforce

lemma dr_same_slot:
  "plan_run key good service ds cur dels adds S S' \<Longrightarrow> c \<in> set ds \<Longrightarrow> d \<in> set ds \<Longrightarrow> cslot c = cslot d \<Longrightarrow> c = d"
  using desired_same_slot [OF dr_ds] by (simp add: cslot_def)

lemma dr_exclusive: "plan_run key good service ds cur dels adds S S' \<Longrightarrow> exclusive S'"
  using dr_run dr_S by (rule ops_post_exclusive)

text \<open>An operation that creates or updates a desired configuration has the last word on its slot.\<close>

lemma dr_touched:
  assumes D: "plan_run key good service ds cur dels adds S S'" and "op \<in> set adds"
  shows "\<exists>r \<in> S'. realises (opConfig op) r \<and> slot r = Some (op_slot op)"
proof -
  note run = dr_run [OF D] and wf = dr_wf [OF D] and add_op = dr_add_op [OF D] and
    same_slot = dr_same_slot [OF D]
  obtain pre o' post where split: "adds = pre @ o' # post" "op_slot o' = op_slot op"
    "\<forall>o'' \<in> set post. op_slot o'' \<noteq> op_slot op"
    using last_touch [of op adds "\<lambda>o'. op_slot o' = op_slot op"] assms(2-) by blast
  then have o': "o' \<in> set adds" by simp
  with same_slot add_op assms(2-) split have "opConfig o' = opConfig op" by simp
  moreover have "\<exists>r \<in> S'. realises (opConfig o') r \<and> slot r = Some (op_slot o')"
    using ops_post_last [of "dels @ pre" o' post S S'] run wf split add_op [OF o'] by simp
  ultimately show ?thesis by simp
qed

text \<open>A rule of the service whose slot no operation names is still there.\<close>

lemma dr_untouched_iff:
  assumes D: "plan_run key good service ds cur dels adds S S'" and "\<forall>op \<in> set (dels @ adds). slot r \<noteq> Some (op_slot op)"
  shows "r \<in> S' \<longleftrightarrow> r \<in> S"
  using ops_post_frame [OF dr_run [OF D] dr_wf [OF D]] assms(2) by blast

lemma dr_desired_present:
  assumes D: "plan_run key good service ds cur dels adds S S'" and "d \<in> set ds"
  shows "\<exists>r \<in> S'. good d r"
proof -
  note S = dr_S [OF D] and cur = dr_cur [OF D] and plan = dr_plan [OF D] and
    del_op = dr_del_op [OF D] and add_op = dr_add_op [OF D] and
    same_slot = dr_same_slot [OF D] and touched = dr_touched [OF D] and
    untouched_iff = dr_untouched_iff [OF D]
  show ?thesis
  proof (cases "\<exists>op \<in> set adds. opConfig op = d")
    case True
    then show ?thesis using touched po_realises [OF plan assms(2)] by blast
  next
    case False
    then have "configKey d \<in> key ` set cur" using po_new [OF plan assms(2)] by blast
    then obtain r where r: "r \<in> set cur" "key r = configKey d" by auto
    then have slot: "slot r = Some (cslot d)" using po_key [OF plan] assms(2) by blast
    have match: "good d r" using False po_good [OF plan r(1) assms(2) r(2)] by blast
    have "slot r \<noteq> Some (op_slot op)" if op: "op \<in> set (dels @ adds)" for op
    proof
      assume same: "slot r = Some (op_slot op)"
      show False
      proof (cases "op \<in> set dels")
        case True
        then obtain q where q: "q \<in> set cur" "key q \<notin> configKey ` set ds" "slot q = slot r"
          using del_op same by metis
        then have "q = r" using exclusiveD [OF S] r(1) cur slot by auto
        with q r assms(2-) show False by auto
      next
        case new: False
        with op add_op have "opConfig op \<in> set ds" by auto
        with same slot same_slot assms(2-) have "opConfig op = d" by auto
        with new op False show False by auto
      qed
    qed
    then have "r \<in> S'" using r(1) cur untouched_iff by blast
    with match show ?thesis by blast
  qed
qed

lemma dr_service_rule_desired:
  assumes D: "plan_run key good service ds cur dels adds S S'" and "r \<in> S'" "belongs service r"
  shows "\<exists>d \<in> set ds. good d r"
proof -
  note cur = dr_cur [OF D] and plan = dr_plan [OF D] and run = dr_run [OF D] and wf = dr_wf [OF D] and
    del_op = dr_del_op [OF D] and add_op = dr_add_op [OF D] and S' = dr_exclusive [OF D] and
    touched = dr_touched [OF D] and untouched_iff = dr_untouched_iff [OF D]
  show ?thesis
  proof (cases "\<exists>op \<in> set adds. slot r = Some (op_slot op)")
    case True
    then obtain op where op: "op \<in> set adds" "slot r = Some (op_slot op)" by blast
    with touched obtain q where q: "q \<in> S'" "realises (opConfig op) q" "slot q = Some (op_slot op)" by blast
    with exclusiveD [OF S'] assms(2-) op have "q = r" by blast
    with q add_op [OF op(1)] po_realises [OF plan] show ?thesis by blast
  next
    case False
    have nodel: "\<not> slot r = Some (op_slot op)" if del: "op \<in> set dels" for op
    proof
      assume same: "slot r = Some (op_slot op)"
      obtain pre o' post where split: "dels = pre @ o' # post" "op_slot o' = op_slot op"
        "\<forall>o'' \<in> set post. op_slot o'' \<noteq> op_slot op"
        using last_touch [of op dels "\<lambda>o'. op_slot o' = op_slot op"] del by blast
      then have "o' \<in> set dels" by simp
      with del_op have "opType o' = OpDelete" by blast
      have "\<forall>o'' \<in> set (post @ adds). op_slot o'' \<noteq> op_slot o'" using split False same by auto
      then have "\<forall>q \<in> S'. slot q \<noteq> Some (op_slot op)"
        using ops_post_last [of pre o' "post @ adds" S S'] run wf split \<open>opType o' = OpDelete\<close> by simp
      with assms(2-) same show False by blast
    qed
    with False have r: "r \<in> set cur" using assms(2-) untouched_iff [of r] cur by auto
    then have "key r \<in> configKey ` set ds" using po_stale [OF plan] nodel by blast
    then obtain d where d: "d \<in> set ds" "key r = configKey d" by auto
    then have "slot r = Some (cslot d)" using po_key [OF plan r] by blast
    then have "good d r" using po_good [OF plan r d] False by auto
    with d show ?thesis by blast
  qed
qed

lemma dr_others_kept:
  assumes D: "plan_run key good service ds cur dels adds S S'" and "\<not> belongs service r"
  shows "r \<in> S' \<longleftrightarrow> r \<in> S"
proof -
  note S = dr_S [OF D] and cur = dr_cur [OF D] and ds = dr_ds [OF D] and plan = dr_plan [OF D] and
    run = dr_run [OF D] and wf = dr_wf [OF D] and del_op = dr_del_op [OF D] and add_op = dr_add_op [OF D]
  show ?thesis
  proof
    assume "r \<in> S'"
    show "r \<in> S"
    proof (rule ccontr)
      assume "r \<notin> S"
      with ops_post_new [OF run \<open>r \<in> S'\<close>] obtain op where op: "op \<in> set (dels @ adds)"
        "opType op \<noteq> OpDelete" "realises (opConfig op) r" by blast
      with del_op have "op \<in> set adds" by auto
      with add_op ds have "belongs service r"
        using op(3) by (auto simp: desired_ok_def belongs_def realises_def)
      with assms(2-) show False by blast
    qed
  next
    assume r: "r \<in> S"
    have "opType op = OpCreate" if op: "op \<in> set (dels @ adds)" "slot r = Some (op_slot op)" for op
    proof -
      have notcur: "slot q \<noteq> Some (op_slot op)" if "q \<in> set cur" for q
        using that exclusiveD [OF S _ r _ op(2)] cur assms(2-) by auto
      with op del_op have "op \<in> set adds" by auto
      from po_add [OF plan this] show ?thesis using notcur po_key [OF plan] by blast
    qed
    then show "r \<in> S'" using ops_post_keep [OF run wf r] by blast
  qed
qed

lemma plan_run_converges: "plan_run key good service ds cur dels adds S S' \<Longrightarrow> converged good service ds S S'"
  unfolding converged_def by (simp add: dr_desired_present dr_service_rule_desired dr_others_kept)

section \<open>The interface of a planner\<close>

locale planner =
  fixes key :: "PortForward \<Rightarrow> string" and good :: "PortConfig \<Rightarrow> PortForward \<Rightarrow> bool"
    and pre :: "Service \<Rightarrow> PortForward list \<Rightarrow> PortConfig list \<Rightarrow> bool"
    and plan :: "Service \<Rightarrow> PortForward list \<Rightarrow> PortConfig list \<Rightarrow> PortOperation list"
  assumes plan_is_ok:
    "pre service cur ds \<Longrightarrow> desired_ok service ds \<Longrightarrow>
       \<exists>dels adds. plan service cur ds = dels @ adds \<and> plan_ok key good cur ds dels adds"
begin

lemma converges:
  assumes "pre service cur ds" "desired_ok service ds" "exclusive S" "set cur = {r \<in> S. belongs service r}"
    and "ops_post (plan service cur ds) S S'"
  shows "converged good service ds S S'"
proof -
  from plan_is_ok [OF assms(1,2)] obtain dels adds where
    p: "plan service cur ds = dels @ adds" "plan_ok key good cur ds dels adds" by blast
  with assms have "plan_run key good service ds cur dels adds S S'" by (simp add: plan_run_def)
  then show ?thesis by (rule plan_run_converges)
qed

lemma execution_converges:
  assumes R: "router_contract R rules" and ok: "table_ok (rules (world st))"
    and pre: "pre service cur ds" "desired_ok service ds"
    and cur: "set cur = {r \<in> set (rules (world st)). belongs service r}"
    and run: "executeOperations R (plan service cur ds) st = ((result, None), st')"
  shows "converged good service ds (set (rules (world st))) (set (rules (world st'))) \<and> table_ok (rules (world st'))"
  using router_contract.exec_ok [OF R run [unfolded executeOperations_def] ok]
    converges [OF pre table_ok_exclusive [OF ok] cur] by blast

end

end
