(* ===== verification/Convergence.thy ===== *)
theory Convergence
  imports Planner
begin

text \<open>
  The difference computed by \<open>calculateDelta\<close> and its execution: on success the rules of the
  service are exactly the desired ones and every other rule is as before.
\<close>

text \<open>
  A rule matches a configuration when it agrees with it on every field that \<open>determineMismatchType\<close>
  compares (the interface and the source are not among them).
\<close>

definition rule_matches :: "PortConfig \<Rightarrow> PortForward \<Rightarrow> bool" where
  "rule_matches c r \<longleftrightarrow>
     pfName r = Name c \<and> pfEnabled r = Enabled c \<and> Fwd r = DstIP c \<and>
     pfFwdPort r = Itoa (FwdPort c) \<and> pfDstPort r = Itoa (DstPort c) \<and> Proto r = Protocol c"

lemma realises_matches: "realises c r \<Longrightarrow> rule_matches c r"
  by (simp add: realises_def rule_matches_def)

lemma no_mismatch_iff:
  "determineMismatchType r c ctx = '''' \<longleftrightarrow> rule_matches c r \<and> \<not> IPChanged ctx"
  by (auto simp: determineMismatchType_def rule_matches_def)

section \<open>Keys\<close>

lemma ruleKey_inj:
  assumes "ruleKey r = ruleKey r'" "plain_rule r'"
  shows "pfDstPort r = pfDstPort r' \<and> pfFwdPort r = pfFwdPort r' \<and> Proto r = Proto r'"
  using assms key3_inj unfolding ruleKey_def plain_rule_def by blast

lemma configKey_ruleKey:
  assumes "ruleKey r = configKey c" "plain_config c"
  shows "pfDstPort r = Itoa (DstPort c) \<and> pfFwdPort r = Itoa (FwdPort c) \<and> Proto r = Protocol c"
  using assms key3_inj [of "pfDstPort r" "pfFwdPort r" "Proto r"] Itoa_nonneg_chars
  unfolding ruleKey_def configKey_def plain_config_def by metis

lemma configKey_inj:
  assumes "configKey c = configKey d" "plain_config c" "plain_config d"
  shows "DstPort c = DstPort d"
  using assms key3_inj [of "Itoa (DstPort c)" "Itoa (FwdPort c)" "Protocol c"] Itoa_nonneg_chars Itoa_inj
  unfolding configKey_def plain_config_def by metis

lemma ruleKey_slot: "ruleKey r = configKey c \<Longrightarrow> plain_config c \<Longrightarrow> slot r = Some (cslot c)"
  using configKey_ruleKey [of r c] by (simp add: slot_def cslot_def plain_config_def Atoi_Itoa)

lemma key_same_rule:
  assumes "exclusive S" "r \<in> S" "r' \<in> S" "plain_rule r'" "ruleKey r = ruleKey r'"
  shows "r = r'"
proof -
  from ruleKey_inj [OF assms(5,4)] have "slot r = slot r'" by (simp add: slot_def)
  moreover from assms(4) obtain s where "slot r' = Some s" by (auto simp: plain_rule_def slot_def)
  ultimately show ?thesis using assms exclusiveD by metis
qed

lemma desired_get:
  assumes "desired_ok service ds"
  shows "gm_get (gm_index configKey ds []) k = Some d \<longleftrightarrow> d \<in> set ds \<and> configKey d = k"
proof
  assume "gm_get (gm_index configKey ds []) k = Some d"
  then show "d \<in> set ds \<and> configKey d = k" by (auto dest: gm_get_index_SomeD)
next
  assume d: "d \<in> set ds \<and> configKey d = k"
  have "y = d" if "y \<in> set ds" "configKey y = configKey d" for y
    using that d configKey_inj [of y d] desired_same_slot [OF assms] assms by (auto simp: desired_ok_def)
  with d show "gm_get (gm_index configKey ds []) k = Some d"
    using gm_get_index_inj [of d ds configKey] by blast
qed

lemma current_get:
  assumes "exclusive (set cur)" "\<forall>r \<in> set cur. plain_rule r"
  shows "gm_get (gm_index ruleKey cur []) k = Some r \<longleftrightarrow> r \<in> set cur \<and> ruleKey r = k"
proof
  assume "gm_get (gm_index ruleKey cur []) k = Some r"
  then show "r \<in> set cur \<and> ruleKey r = k" by (auto dest: gm_get_index_SomeD)
next
  assume r: "r \<in> set cur \<and> ruleKey r = k"
  with key_same_rule [OF assms(1)] assms(2)
  show "gm_get (gm_index ruleKey cur []) k = Some r"
    using gm_get_index_inj [of r cur ruleKey] by blast
qed

section \<open>The operations of a difference\<close>

text \<open>
  When every listed rule belongs to the service, as in \<open>processAllChanges\<close>, no ownership takeover is
  produced and the difference is made of these operations.
\<close>

lemma no_conflicts: "\<forall>r \<in> set cur. belongs service r \<Longrightarrow> detectPortConflicts cur ds service = []"
  by (auto simp: detectPortConflicts_def Let_def map_filter_def filter_empty_conv)

definition delta_del :: "PortForward list \<Rightarrow> PortConfig list \<Rightarrow> PortOperation set" where
  "delta_del cur ds = {delete_op r | r. r \<in> set cur \<and> ruleKey r \<notin> configKey ` set ds}"

definition delta_add :: "ChangeContext \<Rightarrow> PortForward list \<Rightarrow> PortConfig list \<Rightarrow> PortOperation set" where
  "delta_add ctx cur ds =
     {\<lparr>opType = OpCreate, opConfig = d, opExistingRule = None, opReason = ''port_not_yet_exists''\<rparr> | d.
        d \<in> set ds \<and> configKey d \<notin> ruleKey ` set cur} \<union>
     {\<lparr>opType = OpUpdate, opConfig = d, opExistingRule = Some r, opReason = ''configuration_mismatch_safe''\<rparr> | d r.
        d \<in> set ds \<and> r \<in> set cur \<and> ruleKey r = configKey d \<and> (IPChanged ctx \<or> \<not> rule_matches d r)}"

lemma desired_ops_existing:
  assumes "plain_config d" "ruleKey r = configKey d"
  shows "desired_ops ctx (Some r) d =
    (if IPChanged ctx \<or> \<not> rule_matches d r
     then [\<lparr>opType = OpUpdate, opConfig = d, opExistingRule = Some r, opReason = ''configuration_mismatch_safe''\<rparr>]
     else [])"
  using configKey_ruleKey [OF assms(2,1)]
  by (auto simp: desired_ops_def determineMismatchType_def rule_matches_def isSafeUpdate_def Let_def)

lemma desired_ops_at:
  assumes "\<And>k r. gm_get C k = Some r \<longleftrightarrow> r \<in> set cur \<and> ruleKey r = k" "desired_ok service ds" "d \<in> set ds"
  shows "op \<in> set (desired_ops ctx (gm_get C (configKey d)) d) \<longleftrightarrow>
    (configKey d \<notin> ruleKey ` set cur \<and>
       op = \<lparr>opType = OpCreate, opConfig = d, opExistingRule = None, opReason = ''port_not_yet_exists''\<rparr>) \<or>
    (\<exists>r \<in> set cur. ruleKey r = configKey d \<and> (IPChanged ctx \<or> \<not> rule_matches d r) \<and>
       op = \<lparr>opType = OpUpdate, opConfig = d, opExistingRule = Some r, opReason = ''configuration_mismatch_safe''\<rparr>)"
proof (cases "gm_get C (configKey d)")
  case None
  then have none: "\<not> (r \<in> set cur \<and> ruleKey r = configKey d)" for r
    using assms(1) [of "configKey d" r] by simp
  then have "configKey d \<notin> ruleKey ` set cur" by force
  with None none show ?thesis by (simp add: desired_ops_def)
next
  case (Some r)
  have "plain_config d" using assms(2,3) by (simp add: desired_ok_def)
  moreover from Some have r: "r \<in> set cur" "ruleKey r = configKey d" by (auto simp: assms(1))
  ultimately have ops: "desired_ops ctx (Some r) d =
    (if IPChanged ctx \<or> \<not> rule_matches d r
     then [\<lparr>opType = OpUpdate, opConfig = d, opExistingRule = Some r, opReason = ''configuration_mismatch_safe''\<rparr>]
     else [])" by (intro desired_ops_existing)
  have one: "r' \<in> set cur \<and> ruleKey r' = configKey d \<longleftrightarrow> r' = r" for r'
    using Some assms(1) [of "configKey d" r'] by auto
  then have "configKey d \<in> ruleKey ` set cur" by (metis imageI)
  moreover have "(\<exists>r' \<in> set cur. ruleKey r' = configKey d \<and> P r') \<longleftrightarrow> P r" for P
    unfolding Bex_def conj_assoc [symmetric] one by simp
  ultimately show ?thesis unfolding Some ops by (simp split: if_split) (rule conj_commute)
qed

lemma desired_ops_distinct: "distinct (desired_ops ctx er d)"
  by (auto simp: desired_ops_def Let_def split: option.splits)

text \<open>What the reconciler passes to \<open>calculateDelta\<close>: rules of the service, in plain format, on distinct slots.\<close>

definition current_ok :: "Service \<Rightarrow> PortForward list \<Rightarrow> bool" where
  "current_ok service cur \<longleftrightarrow>
     exclusive (set cur) \<and> (\<forall>r \<in> set cur. plain_rule r \<and> belongs service r)"

lemma calculateDelta_split:
  assumes it: "iter_order itc" "iter_order itd" and cur: "current_ok service cur" and ds: "desired_ok service ds"
  obtains dels adds where "calculateDelta itc itd cur ds ctx service = dels @ adds"
    "set dels = delta_del cur ds" "set adds = delta_add ctx cur ds" "distinct dels" "distinct adds"
proof -
  let ?D = "gm_index configKey ds []" and ?C = "gm_index ruleKey cur []"
  let ?dels = "concat (map (\<lambda>k. case gm_get ?C k of None \<Rightarrow> []
     | Some rule \<Rightarrow> if \<not> gm_has ?D k then [delete_op rule] else []) (itc (map fst ?C)))"
  let ?adds = "concat (map (\<lambda>k. case gm_get ?D k of None \<Rightarrow> []
     | Some d \<Rightarrow> desired_ops ctx (gm_get ?C k) d) (itd (map fst ?D)))"
  have bel: "filter (belongs service) cur = cur" using cur by (simp add: current_ok_def)
  have none: "detectPortConflicts cur ds service = []" using cur by (intro no_conflicts) (simp add: current_ok_def)
  have D: "gm_get ?D k = Some d \<longleftrightarrow> d \<in> set ds \<and> configKey d = k" for k d by (rule desired_get [OF ds])
  have C: "gm_get ?C k = Some r \<longleftrightarrow> r \<in> set cur \<and> ruleKey r = k" for k r
    using cur by (intro current_get) (auto simp: current_ok_def)
  have Dn: "gm_get ?D k = None \<longleftrightarrow> k \<notin> configKey ` set ds" for k by (simp add: gm_get_index_dom)
  have Cn: "gm_get ?C k = None \<longleftrightarrow> k \<notin> ruleKey ` set cur" for k by (simp add: gm_get_index_dom)
  have "calculateDelta itc itd cur ds ctx service = ?dels @ ?adds"
    by (simp add: calculateDelta_def none bel validateConflictOperations_def Let_def cong: option.case_cong)
  moreover have "set ?dels = delta_del cur ds"
  proof (rule set_eqI)
    fix op
    show "op \<in> set ?dels \<longleftrightarrow> op \<in> delta_del cur ds"
      unfolding range_loop_set [OF it(1)] C by (auto simp: Dn delta_del_def)
  qed
  moreover have "set ?adds = delta_add ctx cur ds"
  proof (rule set_eqI)
    fix op
    have "op \<in> set ?adds \<longleftrightarrow> (\<exists>d \<in> set ds. op \<in> set (desired_ops ctx (gm_get ?C (configKey d)) d))"
      unfolding range_loop_set [OF it(2)] D by blast
    also have "\<dots> \<longleftrightarrow> op \<in> delta_add ctx cur ds"
      unfolding delta_add_def Un_iff mem_Collect_eq using desired_ops_at [OF C ds, of _ op ctx] by (simp add: Bex_def) blast
    finally show "op \<in> set ?adds \<longleftrightarrow> op \<in> delta_add ctx cur ds" .
  qed
  moreover have "distinct ?dels"
  proof (rule distinct_loop)
    show "distinct (itc (map fst ?C))" using it(1) gm_wf_index [of "[]" ruleKey cur] by (simp add: gm_wf_def)
  next
    fix k k' op
    assume "op \<in> set (case gm_get ?C k of None \<Rightarrow> [] | Some r \<Rightarrow> if \<not> gm_has ?D k then [delete_op r] else [])"
      and "op \<in> set (case gm_get ?C k' of None \<Rightarrow> [] | Some r \<Rightarrow> if \<not> gm_has ?D k' then [delete_op r] else [])"
    then obtain r r' where "gm_get ?C k = Some r" "gm_get ?C k' = Some r'" "op = delete_op r" "op = delete_op r'"
      unfolding in_case_option by (auto split: if_splits)
    then show "k = k'" unfolding C by (auto simp: delete_op_def)
  qed (simp split: option.split)
  moreover have "distinct ?adds"
  proof (rule distinct_loop)
    show "distinct (itd (map fst ?D))" using it(2) gm_wf_index [of "[]" configKey ds] by (simp add: gm_wf_def)
  next
    fix k k' op
    assume "op \<in> set (case gm_get ?D k of None \<Rightarrow> [] | Some d \<Rightarrow> desired_ops ctx (gm_get ?C k) d)"
      and "op \<in> set (case gm_get ?D k' of None \<Rightarrow> [] | Some d \<Rightarrow> desired_ops ctx (gm_get ?C k') d)"
    then obtain d d' where "gm_get ?D k = Some d" "gm_get ?D k' = Some d'"
      and op: "op \<in> set (desired_ops ctx (gm_get ?C k) d)" "op \<in> set (desired_ops ctx (gm_get ?C k') d')"
      unfolding in_case_option by blast
    then have dd: "d \<in> set ds" "k = configKey d" "d' \<in> set ds" "k' = configKey d'" by (simp_all add: D)
    with op desired_ops_at [OF C ds, of d op ctx] desired_ops_at [OF C ds, of d' op ctx]
    have "opConfig op = d" "opConfig op = d'" by auto
    with dd show "k = k'" by simp
  qed (simp add: desired_ops_distinct split: option.split)
  ultimately show ?thesis by (rule that)
qed

section \<open>Convergence\<close>

lemma delete_op_slot: "plain_rule r \<Longrightarrow> slot r = Some (op_slot (delete_op r))"
  by (auto simp: delete_op_def rule_config_def cslot_def slot_def strToInt_def plain_rule_def)

lemma delta_del_iff:
  "op \<in> delta_del cur ds \<longleftrightarrow> (\<exists>r \<in> set cur. ruleKey r \<notin> configKey ` set ds \<and> op = delete_op r)"
  by (auto simp: delta_del_def)

lemma delta_add_cases:
  assumes "op \<in> delta_add ctx cur ds"
  obtains (create) "opConfig op \<in> set ds" "opType op = OpCreate" "configKey (opConfig op) \<notin> ruleKey ` set cur"
  | (update) r where "opConfig op \<in> set ds" "opType op = OpUpdate" "r \<in> set cur"
      "ruleKey r = configKey (opConfig op)" "opExistingRule op = Some r"
  using assms by (auto simp: delta_add_def)

lemma delta_wf:
  assumes "op \<in> delta_del cur ds \<union> delta_add ctx cur ds" "\<forall>r \<in> set cur. plain_rule r" "desired_ok service ds"
  shows "in_int64 (DstPort (opConfig op))"
proof (cases "op \<in> delta_del cur ds")
  case True
  then obtain r where "op = delete_op r" "plain_rule r" using assms(2) by (auto simp: delta_del_iff)
  then show ?thesis
    by (auto simp: delete_op_def rule_config_def strToInt_def plain_rule_def dest: Atoi_in_int64)
next
  case False
  with assms(1) have "op \<in> delta_add ctx cur ds" by simp
  then have "opConfig op \<in> set ds" by (cases rule: delta_add_cases)
  then show ?thesis using assms(3) by (auto simp: desired_ok_def plain_config_def)
qed

lemma delta_plan_ok:
  assumes "\<forall>r \<in> set cur. plain_rule r" "desired_ok service ds"
    and "set dels = delta_del cur ds" "set adds = delta_add ctx cur ds"
  shows "plan_ok ruleKey rule_matches cur ds dels adds"
  unfolding plan_ok_def
proof (intro conjI)
  show "\<forall>op \<in> set (dels @ adds). in_int64 (DstPort (opConfig op))"
    using delta_wf [OF _ assms(1,2)] by (simp add: assms(3,4))
  show "\<forall>r \<in> set cur. \<forall>d \<in> set ds. ruleKey r = configKey d \<longrightarrow> slot r = Some (cslot d)"
    using ruleKey_slot assms(2) by (auto simp: desired_ok_def)
  show "\<forall>op \<in> set dels. opType op = OpDelete \<and> (\<exists>r \<in> set cur. ruleKey r \<notin> configKey ` set ds \<and> slot r = Some (op_slot op))"
    using assms(1) delete_op_slot by (auto simp: assms(3) delta_del_iff) (auto simp: delete_op_def)
  show "\<forall>r \<in> set cur. ruleKey r \<notin> configKey ` set ds \<longrightarrow> (\<exists>op \<in> set dels. slot r = Some (op_slot op))"
    using assms(1) delete_op_slot delta_del_iff [of _ cur ds] unfolding assms(3) by blast
  show "\<forall>op \<in> set adds. opConfig op \<in> set ds \<and>
      (opType op = OpCreate \<or> opType op = OpUpdate \<and> (\<exists>r \<in> set cur. ruleKey r = configKey (opConfig op)))"
    by (auto simp: assms(4) elim: delta_add_cases)
  show "\<forall>d \<in> set ds. configKey d \<notin> ruleKey ` set cur \<longrightarrow> (\<exists>op \<in> set adds. opConfig op = d)"
    by (force simp: assms(4) delta_add_def)
  show "\<forall>r \<in> set cur. \<forall>d \<in> set ds. ruleKey r = configKey d \<longrightarrow> rule_matches d r \<or> (\<exists>op \<in> set adds. opConfig op = d)"
    by (force simp: assms(4) delta_add_def)
qed (simp add: realises_matches)

interpretation delta: planner ruleKey rule_matches
    "\<lambda>service cur ds. iter_order itc \<and> iter_order itd \<and> current_ok service cur"
    "\<lambda>service cur ds. calculateDelta itc itd cur ds ctx service" for itc itd ctx
proof
  fix service cur ds
  assume pre: "iter_order itc \<and> iter_order itd \<and> current_ok service cur" and ds: "desired_ok service ds"
  then obtain dels adds where split: "calculateDelta itc itd cur ds ctx service = dels @ adds"
    "set dels = delta_del cur ds" "set adds = delta_add ctx cur ds" "distinct dels" "distinct adds"
    by (elim conjE) (rule calculateDelta_split)
  have "\<forall>r \<in> set cur. plain_rule r" using pre by (simp add: current_ok_def)
  from delta_plan_ok [OF this ds split(2,3)] split(1)
  show "\<exists>dels adds. calculateDelta itc itd cur ds ctx service = dels @ adds \<and>
      plan_ok ruleKey rule_matches cur ds dels adds" by blast
qed

lemma execute_delta_converges:
  assumes R: "router_contract R rules" and it: "iter_order itc" "iter_order itd"
    and ok: "table_ok (rules (world st))"
    and cur: "set cur = {r \<in> set (rules (world st)). belongs service r}"
    and plain: "\<forall>r \<in> set cur. plain_rule r" and ds: "desired_ok service ds"
    and run: "executeOperations R (calculateDelta itc itd cur ds ctx service) st = ((result, None), st')"
  shows "converged rule_matches service ds (set (rules (world st))) (set (rules (world st'))) \<and> table_ok (rules (world st'))"
proof -
  have "exclusive (set (rules (world st)))" using ok by (rule table_ok_exclusive)
  then have "current_ok service cur" using cur plain by (auto simp: current_ok_def exclusive_def)
  with delta.execution_converges [OF R ok _ ds cur run] it show ?thesis by blast
qed

text \<open>
  A converged state needs no work.  When the rules of the service are exactly the desired ones and the
  context reports no address change, \<open>calculateDelta\<close> returns no operation, whatever the iteration
  orders of its maps: the reconciler does not write to the router again.
\<close>

lemma delta_idempotent:
  assumes "iter_order itc" "iter_order itd" and ds: "desired_ok service ds"
    and cur: "set cur = {r \<in> S'. belongs service r}" "exclusive S'" "\<forall>r \<in> set cur. plain_rule r"
    and conv: "converged rule_matches service ds S S'" and "\<not> IPChanged ctx"
  shows "calculateDelta itc itd cur ds ctx service = []"
proof -
  have cok: "current_ok service cur" using cur by (auto simp: current_ok_def exclusive_def)
  have key: "rule_matches d r \<Longrightarrow> ruleKey r = configKey d" for d r
    by (simp add: rule_matches_def ruleKey_def configKey_def)
  have 1: "ruleKey r \<in> configKey ` set ds" if "r \<in> set cur" for r
    using that conv cur(1) key by (fastforce simp: converged_def)
  have 2: "configKey d \<in> ruleKey ` set cur" if "d \<in> set ds" for d
  proof -
    from that conv obtain r where r: "r \<in> S'" "rule_matches d r" by (auto simp: converged_def)
    moreover from r(2) ds that have "belongs service r"
      by (auto simp: belongs_def desired_ok_def rule_matches_def)
    ultimately show ?thesis using key cur(1) by (metis (no_types, lifting) imageI mem_Collect_eq)
  qed
  have 3: "rule_matches d r" if "d \<in> set ds" "r \<in> set cur" "ruleKey r = configKey d" for d r
  proof -
    from that(2) cur(1) conv obtain e where e: "e \<in> set ds" "rule_matches e r" by (auto simp: converged_def)
    with key that(3) have "configKey e = configKey d" by metis
    with e that(1) ds desired_same_slot [OF ds] configKey_inj show ?thesis by (metis desired_ok_def)
  qed
  obtain dels adds where "calculateDelta itc itd cur ds ctx service = dels @ adds"
    "set dels = delta_del cur ds" "set adds = delta_add ctx cur ds" "distinct dels" "distinct adds"
    by (rule calculateDelta_split [OF assms(1,2) cok ds])
  moreover have "delta_del cur ds = {}" using 1 by (auto simp: delta_del_def)
  moreover have "delta_add ctx cur ds = {}" using 2 3 assms(8) by (auto simp: delta_add_def)
  ultimately show ?thesis by simp
qed

theorem delta_idempotent_witness:
  "calculateDelta (\<lambda>ks. ks) rev [example_rule ''a'' ''web/shop:http'' 8080 80] ex_ds
     (newContext ''k'' ''web'' ''shop'') (example_service ''8080:http'') = []"
proof (rule delta_idempotent)
  let ?S = "{example_rule ''a'' ''web/shop:http'' 8080 80, example_rule ''b'' ''other/svc:x'' 7000 70}"
  show "exclusive ?S" by (simp add: exclusive_def router_eval go_eval)
  show "set [example_rule ''a'' ''web/shop:http'' 8080 80] = {r \<in> ?S. belongs (example_service ''8080:http'') r}"
    by (auto simp: belongs_def RuleBelongsToService_def HasPrefix_def ex_eval router_eval)
  show "converged rule_matches (example_service ''8080:http'') ex_ds ?S ?S"
    by (auto simp: converged_def rule_matches_def belongs_def RuleBelongsToService_def HasPrefix_def ex_eval router_eval)
  show "desired_ok (example_service ''8080:http'') ex_ds"
    by (simp add: desired_ok_def plain_config_def RuleBelongsToService_def HasPrefix_def ex_eval router_eval go_eval)
qed (simp_all add: iter_order_id iter_order_rev plain_rule_def router_eval go_eval newContext_def)

end
