(* ===== verification/LostAnswers.thy ===== *)
theory LostAnswers
  imports RefGateway
begin

text \<open>
  Calls that fail after they took effect.  The UniFi client reports \<open>ErrNotFound\<close> after a successful POST or PUT
  whose answer does not hold exactly one rule (vendor/github.com/filipowm/go-unifi, port_forward.generated.go), and an
  answer may be lost on its way.  So an error does not mean that nothing has happened; what can be relied on is
  that a call that fails either has no effect or its whole effect.
\<close>

section \<open>The contract of a router\<close>

locale router_lossy = router_contract +
  assumes list_err: "r_ListAllPortForwards R w = (Inl e, w') \<Longrightarrow> mset (rules w') = mset (rules w)"
    and check_err: "r_CheckPort R p proto w = (Inl e, w') \<Longrightarrow> mset (rules w') = mset (rules w)"
    and add_lost:
      "table_ok (rules w) \<Longrightarrow> r_AddPort R c w = (Inl e, w') \<Longrightarrow> mset (rules w') = mset (rules w) \<or>
         table_ok (rules w') \<and> (\<exists>r. realises c r \<and> r \<notin> set (rules w) \<and> set (rules w') = insert r (set (rules w)))"
    and update_lost:
      "table_ok (rules w) \<Longrightarrow> r_UpdatePort R p c w = (Inl e, w') \<Longrightarrow> mset (rules w') = mset (rules w) \<or>
         table_ok (rules w') \<and>
         (\<exists>old new. old \<in> set (rules w) \<and> slot old = Some (p, ToLower (Protocol c)) \<and>
            realises c new \<and> ID new = ID old \<and> Src new = Src old \<and>
            set (rules w') = insert new (set (rules w) - {old}))"
    and remove_lost:
      "table_ok (rules w) \<Longrightarrow> r_RemovePort R c w = (Inl e, w') \<Longrightarrow> mset (rules w') = mset (rules w) \<or>
         table_ok (rules w') \<and> set (rules w') = {r \<in> set (rules w). slot r \<noteq> Some (cslot c)}"
    and delete_lost:
      "table_ok (rules w) \<Longrightarrow> r_DeletePortForwardByID R i w = (Inl e, w') \<Longrightarrow> mset (rules w') = mset (rules w) \<or>
         table_ok (rules w') \<and> set (rules w') = {r \<in> set (rules w). ID r \<noteq> i}"
begin

text \<open>Whatever a call answers, it has had no effect or its whole effect.\<close>

lemma add_cases:
  assumes "table_ok (rules w)" "r_AddPort R c w = (res, w')"
  obtains (kept) "mset (rules w') = mset (rules w)"
  | (took) r where "table_ok (rules w')" "realises c r" "r \<notin> set (rules w)" "set (rules w') = insert r (set (rules w))"
  using assms add_ok [of w c w'] add_lost [of w c _ w'] by (cases res) auto

lemma update_cases:
  assumes "table_ok (rules w)" "r_UpdatePort R p c w = (res, w')"
  obtains (kept) "mset (rules w') = mset (rules w)"
  | (took) old new where "table_ok (rules w')" "old \<in> set (rules w)" "slot old = Some (p, ToLower (Protocol c))"
      "realises c new" "set (rules w') = insert new (set (rules w) - {old})"
  using assms update_ok [of w p c w'] update_lost [of w p c _ w'] by (cases res) auto

lemma remove_cases:
  assumes "table_ok (rules w)" "r_RemovePort R c w = (res, w')"
  obtains (kept) "mset (rules w') = mset (rules w)"
  | (took) "table_ok (rules w')" "set (rules w') = {r \<in> set (rules w). slot r \<noteq> Some (cslot c)}"
  using assms remove_ok [of w c w'] remove_lost [of w c _ w'] by (cases res) auto

end

text \<open>A router whose failed calls have no effect is one of these.\<close>

sublocale router_atomic \<subseteq> router_lossy
  by unfold_locales (simp_all add: list_err check_err add_err update_err remove_err delete_err)

lemma router_atomic_lossy: "router_atomic R rules \<Longrightarrow> router_lossy R rules"
  unfolding router_lossy_def router_lossy_axioms_def
  by (simp add: router_atomic_def router_atomic_axioms_def)

section \<open>The UniFi client\<close>

locale unifi_client_lossy = unifi_client +
  assumes c_list_lost: "c_ListPortForward (urClient U) (urSiteID U) w = (Inl e, w') \<Longrightarrow> mset (rules w') = mset (rules w)"
    and c_create_lost:
      "c_CreatePortForward (urClient U) (urSiteID U) pf w = (Inl e, w') \<Longrightarrow> mset (rules w') = mset (rules w) \<or>
         (\<exists>i. i \<noteq> '''' \<and> i \<notin> ID ` set (rules w) \<and> mset (rules w') = add_mset (pf\<lparr>ID := i\<rparr>) (mset (rules w))) \<and>
         (slot pf \<noteq> None \<longrightarrow> slot pf \<notin> slot ` set (rules w))"
    and c_update_lost:
      "c_UpdatePortForward (urClient U) (urSiteID U) pf w = (Inl e, w') \<Longrightarrow> mset (rules w') = mset (rules w) \<or>
         mset (rules w') = mset (map (\<lambda>r. if ID r = ID pf then pf else r) (rules w)) \<and>
         (slot pf \<noteq> None \<longrightarrow> slot pf \<notin> slot ` {r \<in> set (rules w). ID r \<noteq> ID pf})"
    and c_delete_lost:
      "c_DeletePortForward (urClient U) (urSiteID U) i w = (Inl e, w') \<Longrightarrow> mset (rules w') = mset (rules w) \<or>
         mset (rules w') = mset (filter (\<lambda>r. ID r \<noteq> i) (rules w))"

text \<open>
  The same client, if it told the truth: a call that fails after it took effect succeeds.  The router over this
  client keeps the contract, and a call that fails over the real one either changes nothing or does what it does over
  this one.
\<close>

definition told :: "('w \<Rightarrow> PortForward list) \<Rightarrow> 'a \<Rightarrow> ('w, 'a) io \<Rightarrow> ('w, 'a) io" where
  "told rules a call w =
     (case call w of
        (Inl e, w') \<Rightarrow> if mset (rules w') = mset (rules w) then (Inl e, w') else (Inr a, w')
      | (Inr b, w') \<Rightarrow> (Inr b, w'))"

definition truthful :: "('w \<Rightarrow> PortForward list) \<Rightarrow> 'w UnifiRouter \<Rightarrow> 'w UnifiRouter" where
  "truthful rules U = U\<lparr>urClient := (urClient U)
     \<lparr>c_CreatePortForward := (\<lambda>s pf. told rules pf (c_CreatePortForward (urClient U) s pf)),
      c_UpdatePortForward := (\<lambda>s pf. told rules pf (c_UpdatePortForward (urClient U) s pf)),
      c_DeletePortForward := (\<lambda>s i. told rules () (c_DeletePortForward (urClient U) s i))\<rparr>\<rparr>"

lemma truthful_simps [simp]:
  "urSiteID (truthful rules U) = urSiteID U" "c_Login (urClient (truthful rules U)) = c_Login (urClient U)"
  "c_ListPortForward (urClient (truthful rules U)) = c_ListPortForward (urClient U)"
  "c_CreatePortForward (urClient (truthful rules U)) s pf = told rules pf (c_CreatePortForward (urClient U) s pf)"
  "c_UpdatePortForward (urClient (truthful rules U)) s pf = told rules pf (c_UpdatePortForward (urClient U) s pf)"
  "c_DeletePortForward (urClient (truthful rules U)) s i = told rules () (c_DeletePortForward (urClient U) s i)"
  by (simp_all add: truthful_def)

lemma toldD:
  assumes "told rules a call w = (res, w')"
  shows "\<exists>res'. call w = (res', w')" and "res = Inl e \<Longrightarrow> call w = (Inl e, w') \<and> mset (rules w') = mset (rules w)"
  using assms by (auto simp: told_def split: prod.splits sum.splits if_splits)

lemma truthful_CheckPort [simp]: "CheckPort (truthful rules U) p proto w = CheckPort U p proto w"
  unfolding CheckPort_def withAuthRetry_def truthful_simps ..

lemma truthful_payloads [simp]:
  "add_payload (truthful rules U) c = add_payload U c" "update_payload (truthful rules U) pf c = update_payload U pf c"
  by (simp_all add: add_payload_def update_payload_def)

context unifi_client_lossy
begin

lemma retry_told:
  assumes run: "withAuthRetry U call w = (Inl e, w')"
    and no: "\<And>w e w1. call w = (Inl e, w1) \<Longrightarrow> unauthorized e \<Longrightarrow> mset (rules w1) = mset (rules w)"
  shows "mset (rules w') = mset (rules w) \<or> withAuthRetry (truthful rules U) (told rules a call) w = (Inr a, w')"
proof (cases "call w" rule: io_cases)
  case (Ok b w1)
  with run show ?thesis by (simp add: withAuthRetry_def)
next
  case (Err e1 w1)
  show ?thesis
  proof (cases "unauthorized e1")
    case False
    with run Err have "w' = w1" by (auto simp: withAuthRetry_def split: error.splits if_splits)
    with Err show ?thesis by (simp add: withAuthRetry_def told_def)
  next
    case True
    note same = no [OF Err True]
    obtain l w2 where l: "c_Login (urClient U) w1 = (l, w2)" by fastforce
    with c_login [of w1] same have w2: "mset (rules w2) = mset (rules w)" by simp
    show ?thesis
    proof (cases l)
      case (Inl le)
      with run Err True l w2 show ?thesis by (auto simp: withAuthRetry_def)
    next
      case (Inr u)
      with run Err True l have "call w2 = (Inl e, w')" by (auto simp: withAuthRetry_def)
      with Err True l Inr same w2 show ?thesis by (auto simp: withAuthRetry_def told_def split: if_splits)
    qed
  qed
qed

lemma add_told: "AddPort U c w = (Inl e, w') \<Longrightarrow> mset (rules w') = mset (rules w) \<or> AddPort (truthful rules U) c w = (Inr (), w')"
  using retry_told [of "c_CreatePortForward (urClient U) (urSiteID U) (add_payload U c)" w _ w' "add_payload U c"] c_create_401
  by (auto simp: AddPort_def split: if_splits prod.splits sum.splits)

lemma list_error:
  assumes run: "withAuthRetry U (c_ListPortForward (urClient U) (urSiteID U)) w = (Inl e, w')"
  shows "mset (rules w') = mset (rules w)"
proof -
  let ?list = "c_ListPortForward (urClient U) (urSiteID U)"
  from run consider "?list w = (Inl e, w')"
    | e1 w1 l w2 where "?list w = (Inl e1, w1)" "c_Login (urClient U) w1 = (l, w2)" "w' = w2 \<or> ?list w2 = (Inl e, w')"
    by (auto simp: withAuthRetry_def split: error.splits if_splits prod.splits sum.splits)
  then show ?thesis
  proof cases
    case 2
    with c_login [of w1] c_list_lost have "mset (rules w2) = mset (rules w)" by simp
    with 2(3) c_list_lost show ?thesis by metis
  qed (rule c_list_lost)
qed

lemma check_error: "CheckPort U p proto w = (Inl e, w') \<Longrightarrow> mset (rules w') = mset (rules w)"
  by (auto simp: CheckPort_def split: prod.splits sum.splits intro: list_error)

lemma update_told:
  assumes "UpdatePort U p c w = (Inl e, w')"
  shows "mset (rules w') = mset (rules w) \<or> UpdatePort (truthful rules U) p c w = (Inr (), w')"
proof (cases "CheckPort U p (Protocol c) w" rule: io_cases)
  case (Err e1 w1)
  with assms check_error [OF Err] show ?thesis by (simp add: UpdatePort_def)
next
  case (Ok x w1)
  note same = check_ok [OF Ok]
  show ?thesis
  proof (cases x)
    case None
    with assms Ok same show ?thesis by (simp add: UpdatePort_def)
  next
    case (Some pf)
    with assms Ok obtain e1 where
      "withAuthRetry U (c_UpdatePortForward (urClient U) (urSiteID U) (update_payload U pf c)) w1 = (Inl e1, w')"
      by (auto simp: UpdatePort_def split: prod.splits sum.splits)
    from retry_told [OF this, where a = "update_payload U pf c"] c_update_401 Some Ok same show ?thesis
      by (auto simp: UpdatePort_def)
  qed
qed

lemma remove_told:
  assumes "RemovePort U c w = (Inl e, w')"
  shows "mset (rules w') = mset (rules w) \<or> RemovePort (truthful rules U) c w = (Inr (), w')"
proof (cases "CheckPort U (DstPort c) (Protocol c) w" rule: io_cases)
  case (Err e1 w1)
  with assms check_error [OF Err] show ?thesis by (simp add: RemovePort_def)
next
  case (Ok x w1)
  note same = check_ok [OF Ok]
  show ?thesis
  proof (cases x)
    case None
    with assms Ok show ?thesis by (simp add: RemovePort_def)
  next
    case (Some pf)
    with assms Ok obtain e1 where
      "withAuthRetry U (c_DeletePortForward (urClient U) (urSiteID U) (ID pf)) w1 = (Inl e1, w')"
      by (auto simp: RemovePort_def split: prod.splits sum.splits)
    from retry_told [OF this, where a = "()"] c_delete_401 Some Ok same show ?thesis by (auto simp: RemovePort_def)
  qed
qed

lemma delete_told:
  "DeletePortForwardByID U i w = (Inl e, w') \<Longrightarrow>
     mset (rules w') = mset (rules w) \<or> DeletePortForwardByID (truthful rules U) i w = (Inr (), w')"
  using retry_told [where a = "()"] c_delete_401 by (simp add: DeletePortForwardByID_def)

lemma truthful_client: "unifi_client (truthful rules U) rules"
proof unfold_locales
  fix w w' pf r
  assume "c_CreatePortForward (urClient (truthful rules U)) (urSiteID (truthful rules U)) pf w = (Inr r, w')"
  then show "(\<exists>i. i \<noteq> '''' \<and> i \<notin> ID ` set (rules w) \<and> mset (rules w') = add_mset (pf\<lparr>ID := i\<rparr>) (mset (rules w))) \<and>
      (slot pf \<noteq> None \<longrightarrow> slot pf \<notin> slot ` set (rules w))"
    using c_create [of pf w _ w'] c_create_lost [of pf w _ w'] by (auto simp: told_def split: prod.splits sum.splits if_splits)
next
  fix w w' pf r
  assume "c_UpdatePortForward (urClient (truthful rules U)) (urSiteID (truthful rules U)) pf w = (Inr r, w')"
  then show "mset (rules w') = mset (map (\<lambda>r. if ID r = ID pf then pf else r) (rules w)) \<and>
      (slot pf \<noteq> None \<longrightarrow> slot pf \<notin> slot ` {r \<in> set (rules w). ID r \<noteq> ID pf})"
    using c_update [of pf w _ w'] c_update_lost [of pf w _ w'] by (auto simp: told_def split: prod.splits sum.splits if_splits)
next
  fix w w' i
  assume "c_DeletePortForward (urClient (truthful rules U)) (urSiteID (truthful rules U)) i w = (Inr (), w')"
  then show "mset (rules w') = mset (filter (\<lambda>r. ID r \<noteq> i) (rules w))"
    using c_delete [of i w w'] c_delete_lost [of i w _ w'] by (auto simp: told_def split: prod.splits sum.splits if_splits)
qed (auto simp: c_login c_list_401 dest: toldD(2) [OF _ refl] c_list)

lemmas told_contract = unifi_client.implements_router [OF truthful_client]

lemma lossy_router: "router_lossy (unifi_router U) rules"
proof (rule router_lossy.intro [OF implements_router], unfold_locales, unfold unifi_router_simps)
  fix w e w' assume "ListAllPortForwards U w = (Inl e, w')"
  then show "mset (rules w') = mset (rules w)" unfolding ListAllPortForwards_def by (rule list_error)
next
  fix w p proto e w' assume "CheckPort U p proto w = (Inl e, w')"
  then show "mset (rules w') = mset (rules w)" by (rule check_error)
next
  fix w c e w' assume "table_ok (rules w)" "AddPort U c w = (Inl e, w')"
  with add_told router_contract.add_ok [OF told_contract, unfolded unifi_router_simps]
  show "mset (rules w') = mset (rules w) \<or>
      table_ok (rules w') \<and> (\<exists>r. realises c r \<and> r \<notin> set (rules w) \<and> set (rules w') = insert r (set (rules w)))" by blast
next
  fix w p c e w' assume "table_ok (rules w)" "UpdatePort U p c w = (Inl e, w')"
  with update_told router_contract.update_ok [OF told_contract, unfolded unifi_router_simps]
  show "mset (rules w') = mset (rules w) \<or> table_ok (rules w') \<and>
      (\<exists>old new. old \<in> set (rules w) \<and> slot old = Some (p, ToLower (Protocol c)) \<and> realises c new \<and> ID new = ID old \<and>
         Src new = Src old \<and> set (rules w') = insert new (set (rules w) - {old}))" by blast
next
  fix w c e w' assume "table_ok (rules w)" "RemovePort U c w = (Inl e, w')"
  with remove_told router_contract.remove_ok [OF told_contract, unfolded unifi_router_simps]
  show "mset (rules w') = mset (rules w) \<or>
      table_ok (rules w') \<and> set (rules w') = {r \<in> set (rules w). slot r \<noteq> Some (cslot c)}" by blast
next
  fix w i e w' assume "table_ok (rules w)" "DeletePortForwardByID U i w = (Inl e, w')"
  with delete_told router_contract.delete_ok [OF told_contract, unfolded unifi_router_simps]
  show "mset (rules w') = mset (rules w) \<or>
      table_ok (rules w') \<and> set (rules w') = {r \<in> set (rules w). ID r \<noteq> i}" by blast
qed

end

sublocale unifi_client_lossy \<subseteq> router_lossy "unifi_router U" rules
  by (rule lossy_router)

section \<open>A gateway whose answers get lost\<close>

text \<open>
  The in-memory gateway once more; here a flag of \<open>gw_faults\<close> is used up before every call, which makes it fail before it
  has an effect, and another one after every change, which makes it fail with \<open>ErrNotFound\<close> after the effect.
\<close>

definition ErrNotFound :: error where
  "ErrNotFound = ErrorString ''not found''"

definition lose :: "('e gateway_scheme, 'a) io \<Rightarrow> ('e gateway_scheme, 'a) io" where
  "lose call g =
     (case call g of
        (Inl e, g1) \<Rightarrow> (Inl e, g1)
      | (Inr a, g1) \<Rightarrow> if gw_fault g1 then (Inl ErrNotFound, gw_tick g1) else (Inr a, gw_tick g1))"

definition lossy_client :: "'e gateway_scheme UnifiClient" where
  "lossy_client = ref_client
     \<lparr>c_CreatePortForward := (\<lambda>s pf. lose (c_CreatePortForward ref_client s pf)),
      c_UpdatePortForward := (\<lambda>s pf. lose (c_UpdatePortForward ref_client s pf)),
      c_DeletePortForward := (\<lambda>s i. lose (c_DeletePortForward ref_client s i))\<rparr>"

definition lossy_router_of :: "string \<Rightarrow> 'e gateway_scheme UnifiRouter" where
  "lossy_router_of site = \<lparr>urSiteID = site, urClient = lossy_client\<rparr>"

lemma loseD:
  assumes "lose call g = (res, g')"
  obtains (error) e where "call g = (Inl e, g')" "res = Inl e"
  | (effect) a g1 where "call g = (Inr a, g1)" "gw_rules g' = gw_rules g1" "res = Inr a \<or> res = Inl ErrNotFound"
  using assms by (auto simp: lose_def split: prod.splits sum.splits if_splits)


lemma lossy_router_simps [simp]:
  "urSiteID (lossy_router_of site) = site" "c_Login (urClient (lossy_router_of site)) = c_Login ref_client"
  "c_ListPortForward (urClient (lossy_router_of site)) = c_ListPortForward ref_client"
  "c_CreatePortForward (urClient (lossy_router_of site)) s pf = lose (c_CreatePortForward ref_client s pf)"
  "c_UpdatePortForward (urClient (lossy_router_of site)) s pf = lose (c_UpdatePortForward ref_client s pf)"
  "c_DeletePortForward (urClient (lossy_router_of site)) s i = lose (c_DeletePortForward ref_client s i)"
  by (simp_all add: lossy_router_of_def lossy_client_def)

lemma ref_router_sel: "urClient (ref_router site) = ref_client" "urSiteID (ref_router site) = site"
  by (simp_all add: ref_router_def)

lemmas ref_laws = ref.c_list ref.c_create ref.c_update ref.c_delete
lemmas ref_errors = ref.c_list_err ref.c_create_err ref.c_update_err ref.c_delete_err

interpretation lossy: unifi_client_lossy "lossy_router_of site" gw_rules
  by unfold_locales
    (auto simp: ref.c_login [of site, unfolded ref_router_sel] ErrNotFound_def simp del: mset_filter elim!: loseD
       dest: ref_laws [of site, unfolded ref_router_sel] ref_errors [of site, unfolded ref_router_sel])

lemma lossy_example: "unifi_client_lossy (lossy_router_of site) gw_rules"
  by (rule lossy.unifi_client_lossy_axioms)

section \<open>The property\<close>

text \<open>
  C6: a failed call of the router has no effect or its whole effect.  If that holds of the calls of the UniFi client
  (whose create and update report \<open>ErrNotFound\<close> after the request took effect when the answer is not as expected, and a call
  answered with status 401 has no effect), then it holds of \<open>AddPort\<close>, \<open>UpdatePort\<close>, \<open>RemovePort\<close> and
  \<open>DeletePortForwardByID\<close>, which look a rule up first and may log in and repeat the call: an error never stands for
  a rule that is half written, for one that is written twice, or for a change of another rule, and the
  table stays free of overlaps.
\<close>

theorem unifi_router_failures_are_whole:
  "unifi_client_lossy U rules \<Longrightarrow> router_lossy (unifi_router U) rules"
  by (rule unifi_client_lossy.lossy_router)

theorem unifi_router_failures_are_whole_witness: "router_lossy (unifi_router (lossy_router_of ''default'')) gw_rules"
  by (rule unifi_router_failures_are_whole [OF lossy_example])

text \<open>
  Such a router may fail and have had an effect: here the gateway stores the rule and its answer is lost.  So it is
  not one whose failed calls have no effect.
\<close>

lemma lost_answer:
  assumes "DstIP c \<noteq> ''''"
  shows "\<exists>r g. AddPort (lossy_router_of ''default'') c \<lparr>gw_rules = [], gw_session = True, gw_faults = [False, True]\<rparr> =
      (Inl ErrNotFound, g) \<and> gw_rules g = [r] \<and> realises c r"
  using assms by (simp add: AddPort_def withAuthRetry_def lose_def ErrNotFound_def gw_eval realises_def add_payload_def)

end
