(* ===== verification/Rollback.thy ===== *)
theory Rollback
  imports Convergence LostAnswers
begin

text \<open>
  Outcomes of \<open>executeOperations\<close> and \<open>executeCleanupOperations\<close>: what a successful run
  reports, and what the rollback after a failed operation restores.
\<close>

section \<open>Outcomes\<close>

text \<open>The operations before the failing one, run in order.\<close>

fun run_ops :: "'w Router \<Rightarrow> PortOperation list \<Rightarrow> 'w \<Rightarrow> 'w option" where
  "run_ops R [] w = Some w"
| "run_ops R (op # ops) w =
     (case run_op R op w of (Inr _, w1) \<Rightarrow> run_ops R ops w1 | (Inl _, _) \<Rightarrow> None)"

definition report :: "PortOperation list \<Rightarrow> OperationResult" where
  "report ops =
     \<lparr>Created = map opConfig (filter (\<lambda>op. opType op = OpCreate) ops),
      Updated = map opConfig (filter (\<lambda>op. opType op = OpUpdate) ops),
      Deleted = map opConfig (filter (\<lambda>op. opType op = OpDelete) ops), Failed = []\<rparr>"

definition freed :: "PortOperation list \<Rightarrow> ports \<Rightarrow> ports" where
  "freed ops used = fold unmark_op ops used"

lemma record_report: "record_op op (report ops) = report (ops @ [op])"
  by (cases "opType op") (auto simp: record_op_def report_def)

lemma report_Nil: "report [] = emptyResult"
  by (simp add: report_def emptyResult_def)

lemma exec_outcome:
  assumes "exec_loop R ops done (report done) st = ((result, e), st')"
  shows "(e = None \<and> result = report (done @ ops) \<and> run_ops R ops (world st) = Some (world st') \<and>
      usedPorts st' = freed ops (usedPorts st)) \<or>
    (\<exists>pre op post err w1 w2. ops = pre @ op # post \<and> run_ops R pre (world st) = Some w1 \<and>
      run_op R op w1 = (Inl err, w2) \<and> e = Some (ErrorString (''operation failed: '' @ Error err)) \<and>
      result = (report (done @ pre))\<lparr>Failed := [err]\<rparr> \<and>
      world st' = rollback_loop R (rev (done @ pre)) w2 \<and> usedPorts st' = freed pre (usedPorts st))"
    (is "?ok ops done st \<or> ?fail ops done st")
  using assms
proof (induction ops arbitrary: "done" st)
  case (Cons op ops)
  show ?case
  proof (cases "run_op R op (world st)" rule: io_cases)
    case (Err err w2)
    with Cons.prems have "e = Some (ErrorString (''operation failed: '' @ Error err))"
      "result = (report done)\<lparr>Failed := [err]\<rparr>" "world st' = rollback_loop R (rev done) w2"
      "usedPorts st' = usedPorts st"
      by (auto simp: rollbackOperations_def Let_def report_def)
    with Err have "?fail (op # ops) done st"
      by (intro exI [of _ "[]"] exI [of _ op] exI [of _ ops]) (auto simp: freed_def)
    then show ?thesis ..
  next
    case (Ok u w1)
    let ?st = "st\<lparr>usedPorts := unmark_op op (usedPorts st), world := w1\<rparr>"
    from Ok Cons.prems have "exec_loop R ops (done @ [op]) (report (done @ [op])) ?st = ((result, e), st')"
      by (simp add: record_report)
    from Cons.IH [OF this] show ?thesis
    proof
      assume "?ok ops (done @ [op]) ?st"
      with Ok show ?thesis by (simp add: freed_def)
    next
      assume "?fail ops (done @ [op]) ?st"
      then obtain pre op' post err w3 w2 where
        "ops = pre @ op' # post" "run_ops R pre w1 = Some w3" "run_op R op' w3 = (Inl err, w2)"
        "e = Some (ErrorString (''operation failed: '' @ Error err))"
        "result = (report (done @ op # pre))\<lparr>Failed := [err]\<rparr>"
        "world st' = rollback_loop R (rev (done @ op # pre)) w2"
        "usedPorts st' = freed pre (unmark_op op (usedPorts st))" by auto
      with Ok have "?fail (op # ops) done st"
        by (intro exI [of _ "op # pre"] exI [of _ op'] exI [of _ post] exI [of _ err]) (auto simp: freed_def)
      then show ?thesis ..
    qed
  qed
qed (simp add: freed_def)

text \<open>
  C19: the two ways \<open>executeOperations\<close> ends.  Either every operation ran in order, the result lists
  their configurations by kind and no failure, and the external port of every deleted rule is
  released; or some operation failed, the result lists what was completed before it and exactly
  that one error, the completed operations are rolled back in reverse order, and the error returned
  is that of the operation (never the message about a failed rollback).  So one port that fails undoes the
  others, where examples/README.md says that the controller goes on with them and that partial success is better.
\<close>

theorem executeOperations_outcome:
  assumes "executeOperations R ops st = ((result, e), st')"
  shows "(e = None \<and> result = report ops \<and> run_ops R ops (world st) = Some (world st') \<and>
      usedPorts st' = freed ops (usedPorts st)) \<or>
    (\<exists>pre op post err w1 w2. ops = pre @ op # post \<and> run_ops R pre (world st) = Some w1 \<and>
      run_op R op w1 = (Inl err, w2) \<and> e = Some (ErrorString (''operation failed: '' @ Error err)) \<and>
      result = (report pre)\<lparr>Failed := [err]\<rparr> \<and>
      world st' = rollback_loop R (rev pre) w2 \<and> usedPorts st' = freed pre (usedPorts st))"
  using assms exec_outcome [of R ops "[]" st] by (simp add: executeOperations_def report_Nil)

lemma ex_failing_run:
  "\<exists>result st'. executeOperations (unifi_router (ref_router ''default'')) ex_delta (ex_state [False, False, True]) =
     ((result, Some (ErrorString ''operation failed: internal error'')), st')"
  unfolding ex_delta_eval
  by (simp add: delete_op_def rule_config_def strToInt_def exec_eval router_eval ex_eval go_eval)

theorem executeOperations_outcome_witness:
  "\<exists>result st'. executeOperations (unifi_router (ref_router ''default'')) ex_delta (ex_state [False, False, True]) =
     ((result, Some (ErrorString ''operation failed: internal error'')), st') \<and> length (Failed result) = 1"
proof -
  from ex_failing_run obtain result st' where
    run: "executeOperations (unifi_router (ref_router ''default'')) ex_delta (ex_state [False, False, True]) =
      ((result, Some (ErrorString ''operation failed: internal error'')), st')" by blast
  with executeOperations_outcome [OF run] show ?thesis by auto
qed

section \<open>Views\<close>

text \<open>
  What the controller controls on a rule.  Up to this view every operation is a function of the rule
  table: identifiers, site and source are left out.
\<close>

datatype rule_view =
  View (vName: string) (vEnabled: bool) (vFwd: string) (vFwdPort: string) (vDstPort: string) (vInterface: string) (vProto: string)

definition view :: "PortForward \<Rightarrow> rule_view" where
  "view r = View (pfName r) (pfEnabled r) (Fwd r) (pfFwdPort r) (pfDstPort r) (PfwdInterface r) (Proto r)"

definition cview :: "PortConfig \<Rightarrow> rule_view" where
  "cview c = View (Name c) (Enabled c) (DstIP c) (Itoa (FwdPort c)) (Itoa (DstPort c)) (Interface c) (Protocol c)"

definition vslot :: "rule_view \<Rightarrow> (int \<times> string) option" where
  "vslot v = map_option (\<lambda>i. (i, ToLower (vProto v))) (Atoi (vDstPort v))"

definition clear_slot :: "int \<times> string \<Rightarrow> rule_view set \<Rightarrow> rule_view set" where
  "clear_slot s V = {v \<in> V. vslot v \<noteq> Some s}"

definition vop :: "PortOperation \<Rightarrow> rule_view set \<Rightarrow> rule_view set" where
  "vop op V =
     (case opType op of
        OpCreate \<Rightarrow> insert (cview (opConfig op)) V
      | OpUpdate \<Rightarrow> insert (cview (opConfig op)) (clear_slot (op_slot op) V)
      | OpDelete \<Rightarrow> clear_slot (op_slot op) V)"

lemma realises_view: "realises c r \<longleftrightarrow> view r = cview c"
  by (auto simp: realises_def view_def cview_def)

lemma vslot_view [simp]: "vslot (view r) = slot r"
  by (simp add: view_def slot_def vslot_def)

lemma view_clear: "view ` {r \<in> S. slot r \<noteq> Some s} = clear_slot s (view ` S)"
  by (auto simp: clear_slot_def)

lemma view_replace:
  assumes "exclusive S" "old \<in> S" "slot old = Some s" "realises c new"
  shows "view ` insert new (S - {old}) = insert (cview c) (clear_slot s (view ` S))"
proof -
  have "S - {old} = {r \<in> S. slot r \<noteq> Some s}"
    using assms(1-3) by (auto dest: exclusiveD)
  with assms(4) show ?thesis by (simp add: view_clear realises_view)
qed

lemma op_post_view:
  assumes "op_post op S S'" "exclusive S"
  shows "view ` S' = vop op (view ` S)"
proof (cases "opType op")
  case OpUpdate
  with assms obtain old new where "old \<in> S" "slot old = Some (op_slot op)" "realises (opConfig op) new"
    "S' = insert new (S - {old})" by (auto simp: op_post_def)
  with view_replace [OF assms(2)] OpUpdate show ?thesis by (simp add: vop_def)
qed (use assms in \<open>auto simp: op_post_def vop_def view_clear realises_view\<close>)

section \<open>Undoing\<close>

text \<open>A rule whose ports are written the way the controller writes them.\<close>

definition canonical_rule :: "PortForward \<Rightarrow> bool" where
  "canonical_rule r \<longleftrightarrow> pfDstPort r = Itoa (strToInt (pfDstPort r)) \<and> pfFwdPort r = Itoa (strToInt (pfFwdPort r)) \<and>
     slot r \<noteq> None"

text \<open>
  The operation remembers what it replaces: an update its existing rule, a delete the configuration
  of the rule it removes.
\<close>

definition sole :: "int \<times> string \<Rightarrow> rule_view \<Rightarrow> rule_view set \<Rightarrow> bool" where
  "sole s v V \<longleftrightarrow> (\<forall>u \<in> V. vslot u = Some s \<longrightarrow> u = v)"

definition remembers :: "PortOperation \<Rightarrow> rule_view set \<Rightarrow> bool" where
  "remembers op V =
     (case opType op of
        OpCreate \<Rightarrow> \<forall>v \<in> V. vslot v \<noteq> Some (op_slot op)
      | _ \<Rightarrow> (case opExistingRule op of
           None \<Rightarrow> False
         | Some er \<Rightarrow> canonical_rule er \<and> view er \<in> V \<and> slot er = Some (op_slot op) \<and>
             sole (op_slot op) (view er) V \<and>
             (opType op = OpDelete \<longrightarrow> opConfig op = rule_config strToInt er)))"

fun all_remember :: "PortOperation list \<Rightarrow> rule_view set \<Rightarrow> bool" where
  "all_remember [] V = True"
| "all_remember (op # ops) V = (remembers op V \<and> all_remember ops (vop op V))"

text \<open>Every step of the rollback succeeds.\<close>

fun rollback_clean :: "'w Router \<Rightarrow> PortOperation list \<Rightarrow> 'w \<Rightarrow> bool" where
  "rollback_clean R [] w = True"
| "rollback_clean R (op # ops) w =
     (case rollback_op R op w of (res, w1) \<Rightarrow> is_ok res \<and> rollback_clean R ops w1)"

text \<open>
  If the sequence fails at some operation, that operation has had no effect and every step of the rollback succeeds.
\<close>

fun undone_cleanly ::
    "'w Router \<Rightarrow> ('w \<Rightarrow> PortForward list) \<Rightarrow> PortOperation list \<Rightarrow> PortOperation list \<Rightarrow> 'w \<Rightarrow> bool" where
  "undone_cleanly R rules [] completed w = True"
| "undone_cleanly R rules (op # ops) completed w =
     (case run_op R op w of
        (Inr _, w1) \<Rightarrow> undone_cleanly R rules ops (completed @ [op]) w1
      | (Inl _, w1) \<Rightarrow> mset (rules w1) = mset (rules w) \<and> rollback_clean R (rev completed) w1)"

lemma undone_cleanlyD:
  "undone_cleanly R rules (pre @ op # post) completed w \<Longrightarrow> run_ops R pre w = Some w1 \<Longrightarrow>
   run_op R op w1 = (Inl e, w2) \<Longrightarrow> mset (rules w2) = mset (rules w1) \<and> rollback_clean R (rev (completed @ pre)) w2"
proof (induction pre arbitrary: completed w)
  case (Cons o' pre)
  then obtain u w' where "run_op R o' w = (Inr u, w')" by (cases "run_op R o' w" rule: io_cases) auto
  with Cons.prems Cons.IH [of "completed @ [o']" w'] show ?case by simp
qed simp

lemma cview_rule_config: "canonical_rule r \<Longrightarrow> cview (rule_config strToInt r) = view r"
  by (simp add: canonical_rule_def cview_def view_def rule_config_def)

lemma cslot_rule_config: "canonical_rule r \<Longrightarrow> slot r = Some (cslot (rule_config strToInt r))"
  by (auto simp: canonical_rule_def slot_def cslot_def rule_config_def strToInt_def)

lemma clear_insert: "vslot v = Some s \<Longrightarrow> clear_slot s (insert v V) = clear_slot s V"
  by (auto simp: clear_slot_def)

lemma clear_idem: "clear_slot s (clear_slot s V) = clear_slot s V"
  by (auto simp: clear_slot_def)

lemma clear_none: "\<forall>v \<in> V. vslot v \<noteq> Some s \<Longrightarrow> clear_slot s V = V"
  by (auto simp: clear_slot_def)

lemma clear_one: "v \<in> V \<Longrightarrow> sole s v V \<Longrightarrow> insert v (clear_slot s V) = V"
  unfolding clear_slot_def sole_def by blast

lemma vslot_cview: "in_int64 (DstPort c) \<Longrightarrow> vslot (cview c) = Some (cslot c)"
  by (simp add: cview_def cslot_def Atoi_Itoa vslot_def)

context router_lossy
begin

lemma rollback_op_view:
  assumes run: "rollback_op R op w = (Inr u, w')" and ok: "table_ok (rules w)"
    and V: "view ` set (rules w) = vop op V" and rem: "remembers op V" and c: "in_int64 (DstPort (opConfig op))"
  shows "table_ok (rules w') \<and> view ` set (rules w') = V"
proof (cases "opType op")
  case OpCreate
  with run have "r_RemovePort R (opConfig op) w = (Inr (), w')" by (simp add: rollback_op_def)
  from remove_ok [OF ok this] show ?thesis
    using V rem OpCreate c by (simp add: view_clear vop_def clear_insert vslot_cview remembers_def clear_none)
next
  case OpDelete
  with rem obtain er where er: "canonical_rule er" "view er \<in> V" "slot er = Some (op_slot op)"
    "sole (op_slot op) (view er) V" "opConfig op = rule_config strToInt er"
    by (auto simp: remembers_def split: option.splits)
  from run OpDelete have "r_AddPort R (opConfig op) w = (Inr (), w')" by (simp add: rollback_op_def)
  from add_ok [OF ok this] obtain r where "table_ok (rules w')" "realises (opConfig op) r"
    "set (rules w') = insert r (set (rules w))" by blast
  moreover have "insert (view er) (clear_slot (op_slot op) V) = V" using er by (intro clear_one) auto
  ultimately show ?thesis
    using V OpDelete er by (simp add: vop_def realises_view cview_rule_config)
next
  case OpUpdate
  with rem obtain er where er: "opExistingRule op = Some er" "canonical_rule er" "view er \<in> V"
    "slot er = Some (op_slot op)" "sole (op_slot op) (view er) V"
    by (auto simp: remembers_def split: option.splits)
  let ?c = "rule_config strToInt er"
  have slot: "cslot ?c = op_slot op" using cslot_rule_config er by fastforce
  have cur: "\<exists>r \<in> set (rules w). slot r = Some (op_slot op)"
  proof -
    have "cview (opConfig op) \<in> view ` set (rules w)" using V OpUpdate by (simp add: vop_def)
    then obtain r where "r \<in> set (rules w)" "view r = cview (opConfig op)" by auto
    with c vslot_cview [OF c] show ?thesis by (metis vslot_view)
  qed
  show ?thesis
  proof (cases "r_UpdatePort R (DstPort (opConfig op)) ?c w" rule: io_cases)
    case (Ok a w1)
    with run OpUpdate er have "w1 = w'" by (simp add: rollback_op_def)
    with update_ok [OF ok, of "DstPort (opConfig op)" ?c w1] Ok obtain old new where
      post: "table_ok (rules w')" "old \<in> set (rules w)" "realises ?c new"
      "slot old = Some (DstPort (opConfig op), ToLower (Protocol ?c))"
      "set (rules w') = insert new (set (rules w) - {old})" by auto
    with slot have "slot old = Some (op_slot op)" by (simp add: cslot_def)
    with post have "view ` set (rules w') = insert (view er) (clear_slot (op_slot op) (view ` set (rules w)))"
      using view_replace [OF table_ok_exclusive [OF ok] post(2) _ post(3)] er by (simp add: cview_rule_config)
    also have "\<dots> = insert (view er) (clear_slot (op_slot op) V)"
      using V OpUpdate c by (simp add: vop_def clear_insert vslot_cview clear_idem)
    also have "\<dots> = V" using er by (intro clear_one) auto
    finally show ?thesis using post by simp
  next
    case (Err e w1)
    let ?d = "(opConfig op)\<lparr>Interface := ''wan'', SrcIP := ''any''\<rparr>"
    from Err run OpUpdate er have add: "r_AddPort R ?d w1 = (Inr (), w')"
      by (auto simp: rollback_op_def split: if_splits)
    have tab1: "table_ok (rules w1)" and cur1: "\<exists>r \<in> set (rules w1). slot r = Some (op_slot op)"
    proof (atomize (full), cases rule: update_cases [OF ok Err])
      case 1
      with ok cur table_ok_mset [OF 1] mset_eq_setD [OF 1]
      show "table_ok (rules w1) \<and> (\<exists>r \<in> set (rules w1). slot r = Some (op_slot op))" by simp
    next
      case (2 old new)
      with slot_realises [OF 2(4)] slot c have "slot new = Some (op_slot op)" by (simp add: cslot_def)
      with 2 show "table_ok (rules w1) \<and> (\<exists>r \<in> set (rules w1). slot r = Some (op_slot op))" by simp
    qed
    from add_ok [OF tab1 add] obtain r where r: "table_ok (rules w')" "realises ?d r" "r \<notin> set (rules w1)"
      "set (rules w') = insert r (set (rules w1))" by blast
    from r(2) c have "slot r = Some (op_slot op)"
      using slot_realises [of ?d r] by (simp add: cslot_def)
    with cur1 r table_ok_exclusive [OF r(1)] have False by (metis exclusiveD insertCI)
    then show ?thesis ..
  qed
qed

lemma rollback_view:
  assumes "rollback_clean R (rev ops) w" "table_ok (rules w)" "view ` set (rules w) = fold vop ops V"
    and "all_remember ops V" "\<forall>op \<in> set ops. in_int64 (DstPort (opConfig op))"
  shows "view ` set (rules (rollback_loop R (rev ops) w)) = V"
  using assms
proof (induction ops arbitrary: w rule: rev_induct)
  case (snoc op ops)
  have rem: "remembers op (fold vop ops V)" and all: "all_remember ops V"
    using snoc.prems(4) by (induction ops arbitrary: V) auto
  from snoc.prems(1) obtain u w1 where step: "rollback_op R op w = (Inr u, w1)"
    and clean: "rollback_clean R (rev ops) w1"
    by (auto simp: is_ok_iff split: prod.splits)
  from rollback_op_view [OF step snoc.prems(2) _ rem] snoc.prems(3,5)
  have "table_ok (rules w1) \<and> view ` set (rules w1) = fold vop ops V" by simp
  with snoc.IH [OF clean] all snoc.prems(5) step show ?case by simp
qed simp

lemma run_ops_view:
  assumes "run_ops R ops w = Some w'" "table_ok (rules w)"
  shows "table_ok (rules w') \<and> view ` set (rules w') = fold vop ops (view ` set (rules w))"
  using assms
proof (induction ops arbitrary: w)
  case (Cons op ops)
  then obtain u w1 where "run_op R op w = (Inr u, w1)" "run_ops R ops w1 = Some w'"
    by (auto split: prod.splits sum.splits)
  moreover from this Cons.prems(2) run_op_ok [of op w u w1]
  have "table_ok (rules w1)" "view ` set (rules w1) = vop op (view ` set (rules w))"
    using op_post_view table_ok_exclusive by blast+
  ultimately show ?case using Cons.IH by simp
qed simp

end

text \<open>
  A statically checkable form: every update or delete carries a rule of the initial table that sits on
  its slot, and no earlier operation of the sequence touches that slot.
\<close>

definition carries :: "PortForward set \<Rightarrow> PortOperation \<Rightarrow> bool" where
  "carries S op \<longleftrightarrow> opType op \<noteq> OpCreate \<longrightarrow>
     (\<exists>er \<in> S. opExistingRule op = Some er \<and> canonical_rule er \<and> slot er = Some (op_slot op) \<and>
        (opType op = OpDelete \<longrightarrow> opConfig op = rule_config strToInt er))"

definition first_on_slot :: "PortOperation \<Rightarrow> PortOperation \<Rightarrow> bool" where
  "first_on_slot op later \<longleftrightarrow> opType later \<noteq> OpCreate \<longrightarrow> op_slot later \<noteq> op_slot op"

lemma sole_view: "exclusive S \<Longrightarrow> r \<in> S \<Longrightarrow> slot r = Some s \<Longrightarrow> sole s (view r) (view ` S)"
  unfolding sole_def using exclusiveD [of S _ r s] by fastforce

lemma carries_remembers:
  assumes "op_post op S S1" "exclusive S" "exclusive S1" "carries S op" "in_int64 (DstPort (opConfig op))"
  shows "remembers op (view ` S)"
proof (cases "opType op")
  case OpCreate
  with assms(1) obtain r where r: "realises (opConfig op) r" "r \<notin> S" "S1 = insert r S" by (auto simp: op_post_def)
  then have "slot q \<noteq> Some (op_slot op)" if "q \<in> S" for q
    using that exclusiveD [OF assms(3), of q r "op_slot op"] slot_realises [OF r(1) assms(5)] r by blast
  with OpCreate show ?thesis by (simp add: remembers_def)
next
  case OpUpdate
  with assms(4) obtain er where er: "er \<in> S" "opExistingRule op = Some er" "canonical_rule er"
    "slot er = Some (op_slot op)" by (auto simp: carries_def)
  then have "sole (op_slot op) (view er) (view ` S)" using sole_view [OF assms(2)] by blast
  with er OpUpdate show ?thesis by (simp add: remembers_def)
next
  case OpDelete
  with assms(4) obtain er where er: "er \<in> S" "opExistingRule op = Some er" "canonical_rule er"
    "slot er = Some (op_slot op)" "opConfig op = rule_config strToInt er" by (auto simp: carries_def)
  then have "sole (op_slot op) (view er) (view ` S)" using sole_view [OF assms(2)] by blast
  with er OpDelete show ?thesis by (simp add: remembers_def)
qed

lemma carries_step:
  assumes "op_post op S S1" "carries S later" "first_on_slot op later" "in_int64 (DstPort (opConfig op))"
  shows "carries S1 later"
  using assms op_post_frame [OF assms(1,4)] unfolding carries_def first_on_slot_def by (metis option.inject)

context router_lossy
begin

lemma run_ops_remember:
  assumes "run_ops R ops w = Some w'" "table_ok (rules w)" "\<forall>op \<in> set ops. carries (set (rules w)) op"
    and "sorted_wrt first_on_slot ops" "\<forall>op \<in> set ops. in_int64 (DstPort (opConfig op))"
  shows "all_remember ops (view ` set (rules w))"
  using assms
proof (induction ops arbitrary: w)
  case (Cons op ops)
  then obtain u w1 where step: "run_op R op w = (Inr u, w1)" and rest: "run_ops R ops w1 = Some w'"
    by (auto split: prod.splits sum.splits)
  from run_op_ok [OF step Cons.prems(2)]
  have w1: "table_ok (rules w1)" "op_post op (set (rules w)) (set (rules w1))" by auto
  have "remembers op (view ` set (rules w))"
    using carries_remembers [OF w1(2)] w1 Cons.prems by (simp add: table_ok_exclusive)
  moreover have "\<forall>later \<in> set ops. carries (set (rules w1)) later"
    using carries_step [OF w1(2)] Cons.prems by simp
  moreover have "vop op (view ` set (rules w)) = view ` set (rules w1)"
    using op_post_view [OF w1(2)] Cons.prems(2) by (simp add: table_ok_exclusive)
  ultimately show ?case using Cons.IH [OF rest w1(1)] Cons.prems by simp
qed simp

lemma failed_execution_restores:
  assumes run: "run_ops R pre w = Some w1" and fail: "run_op R op w1 = (Inl err, w2)"
    and ok: "table_ok (rules w)" and mem: "\<forall>o' \<in> set pre. carries (set (rules w)) o'"
    and srt: "sorted_wrt first_on_slot pre" and wf: "\<forall>o' \<in> set pre. in_int64 (DstPort (opConfig o'))"
    and same: "mset (rules w2) = mset (rules w1)" and clean: "rollback_clean R (rev pre) w2"
  shows "view ` set (rules (rollback_loop R (rev pre) w2)) = view ` set (rules w)"
proof (rule rollback_view [OF clean _ _ _ wf])
  from run_ops_view [OF run ok] have w1: "table_ok (rules w1)"
    "view ` set (rules w1) = fold vop pre (view ` set (rules w))" by auto
  with same show "table_ok (rules w2)" using table_ok_mset by metis
  show "view ` set (rules w2) = fold vop pre (view ` set (rules w))" using w1 same mset_eq_setD by metis
  show "all_remember pre (view ` set (rules w))" using run_ops_remember [OF run ok mem srt wf] .
qed

end

text \<open>The operations of a difference carry what they replace.\<close>

lemma delta_carries:
  assumes "op \<in> delta_del cur ds \<union> delta_add ctx cur ds" "\<forall>r \<in> set cur. plain_rule r \<and> canonical_rule r"
    and "desired_ok service ds" "set cur \<subseteq> S"
  shows "carries S op"
proof (cases "op \<in> delta_del cur ds")
  case True
  then obtain r where "r \<in> set cur" "op = delete_op r" by (auto simp: delta_del_iff)
  with assms(2,4) delete_op_slot [of r] show ?thesis by (auto simp: carries_def delete_op_def)
next
  case False
  with assms(1) have "op \<in> delta_add ctx cur ds" by simp
  then show ?thesis
  proof (cases rule: delta_add_cases)
    case (update r)
    with assms(3) ruleKey_slot have "slot r = Some (op_slot op)" by (simp add: desired_ok_def)
    with update assms(2,4) show ?thesis by (auto simp: carries_def)
  qed (simp add: carries_def)
qed

lemma delta_order:
  assumes "exclusive (set cur)" "\<forall>r \<in> set cur. plain_rule r" "desired_ok service ds"
    and dels: "set dels = delta_del cur ds" "distinct dels" and adds: "set adds = delta_add ctx cur ds" "distinct adds"
  shows "sorted_wrt first_on_slot (dels @ adds)"
proof -
  have d: "\<exists>r \<in> set cur. ruleKey r \<notin> configKey ` set ds \<and> op = delete_op r \<and> slot r = Some (op_slot op)"
    if "op \<in> set dels" for op
    using that assms(2) delete_op_slot by (auto simp: dels delta_del_iff)
  have "op = later" if "op \<in> set dels" "later \<in> set dels" "op_slot later = op_slot op" for op later
    using d [OF that(1)] d [OF that(2)] that(3) exclusiveD [OF assms(1)] by metis
  then have 1: "sorted_wrt first_on_slot dels"
    using dels(2) unfolding first_on_slot_def by (induction dels) auto
  have a: "opConfig op \<in> set ds" if "op \<in> set adds" for op
    using that by (auto simp: adds delta_add_def)
  have u: "\<exists>r \<in> set cur. ruleKey r = configKey (opConfig op) \<and> slot r = Some (op_slot op) \<and>
      op = \<lparr>opType = OpUpdate, opConfig = opConfig op, opExistingRule = Some r, opReason = ''configuration_mismatch_safe''\<rparr>"
    if "op \<in> set adds" "configKey (opConfig op) \<in> ruleKey ` set cur" for op
    using that assms(3) ruleKey_slot by (auto simp: adds delta_add_def desired_ok_def)
  have up: "configKey (opConfig op) \<in> ruleKey ` set cur" if "op \<in> set adds" "opType op \<noteq> OpCreate" for op
    using that by (force simp: adds delta_add_def)
  have "op = later" if ops: "op \<in> set adds" "later \<in> set adds" "op_slot later = op_slot op" "opType later \<noteq> OpCreate" for op later
  proof -
    have "opConfig op = opConfig later"
      using desired_same_slot [OF assms(3) a a] ops by (simp add: cslot_def)
    with u [OF ops(1)] u [OF ops(2)] up [OF ops(2,4)] key_same_rule [OF assms(1)] assms(2)
    show ?thesis by (metis)
  qed
  then have 2: "sorted_wrt first_on_slot adds"
    using adds(2) unfolding first_on_slot_def by (induction adds) auto
  have "first_on_slot op later" if "op \<in> set dels" "later \<in> set adds" for op later
    unfolding first_on_slot_def
  proof (intro impI notI)
    assume upd: "opType later \<noteq> OpCreate" and same: "op_slot later = op_slot op"
    from d [OF that(1)] u [OF that(2) up [OF that(2) upd]] same exclusiveD [OF assms(1)] a [OF that(2)] show False by (metis imageI)
  qed
  with 1 2 show ?thesis by (simp add: sorted_wrt_append)
qed

text \<open>
  C8: what the rollback of a failed difference restores.  Let the router keep its contract, with calls that fail either
  without effect or with their whole effect, and let no two rules have the same external port and protocol; let
  the service's rules have numeric ports, written the way the controller writes them.  If an operation of the computed
  difference fails without having had an effect, whichever one it is, and every step of the rollback succeeds,
  then the router shows the same rules as before: the same names, enabled flags, target addresses, internal and
  external ports, interfaces and protocols.  The identifiers, sites, sources and destination filters of rules that were
  deleted and created again are not restored (lemma \<open>rollback_opens_rule\<close>), and a failed operation that did take effect is
  not undone (lemma \<open>lost_answer_not_undone\<close>).  This is all or nothing, while examples/README.md promises that the
  controller goes on with the other ports.
\<close>

theorem failed_delta_restores:
  assumes R: "router_lossy R rules" and it: "iter_order itc" "iter_order itd"
    and ok: "table_ok (rules (world st))"
    and cur: "set cur = {r \<in> set (rules (world st)). belongs service r}"
    and plain: "\<forall>r \<in> set cur. plain_rule r \<and> canonical_rule r" and ds: "desired_ok service ds"
    and run: "executeOperations R (calculateDelta itc itd cur ds ctx service) st = ((result, Some err), st')"
    and clean: "undone_cleanly R rules (calculateDelta itc itd cur ds ctx service) [] (world st)"
  shows "view ` set (rules (world st')) = view ` set (rules (world st))"
proof -
  let ?ops = "calculateDelta itc itd cur ds ctx service"
  have ex: "exclusive (set cur)" using table_ok_exclusive [OF ok] cur by (auto simp: exclusive_def)
  with cur plain have cok: "current_ok service cur" by (simp add: current_ok_def)
  obtain dels adds where
    delta: "?ops = dels @ adds" and d: "set dels = delta_del cur ds" and a: "set adds = delta_add ctx cur ds"
    and dist: "distinct dels" "distinct adds"
    by (rule calculateDelta_split [OF it cok ds, of ctx])
  have srt: "sorted_wrt first_on_slot ?ops"
    unfolding delta using delta_order [OF ex _ ds d dist(1) a dist(2)] plain by blast
  have car: "\<forall>op \<in> set ?ops. carries (set (rules (world st))) op"
    unfolding delta using d a delta_carries [OF _ plain ds] cur by auto
  have wf: "\<forall>op \<in> set ?ops. in_int64 (DstPort (opConfig op))"
    unfolding delta using d a plain delta_wf [OF _ _ ds] by simp
  from run exec_outcome [of R ?ops "[]" st result "Some err" st'] obtain pre op post e w1 w2 where
    split: "?ops = pre @ op # post" and pre: "run_ops R pre (world st) = Some w1" and
    f: "run_op R op w1 = (Inl e, w2)" and w: "world st' = rollback_loop R (rev pre) w2"
    by (auto simp: executeOperations_def report_Nil)
  from srt car wf have "sorted_wrt first_on_slot pre" "\<forall>o' \<in> set pre. carries (set (rules (world st))) o'"
    "\<forall>o' \<in> set pre. in_int64 (DstPort (opConfig o'))"
    unfolding split by (simp_all add: sorted_wrt_append)
  moreover have "mset (rules w2) = mset (rules w1)" "rollback_clean R (rev pre) w2"
    using undone_cleanlyD [OF clean [unfolded split] pre f] by simp_all
  ultimately show ?thesis using router_lossy.failed_execution_restores [OF R pre f ok] w by simp
qed

lemma ex_ok:
  "table_ok (gw_rules (world (ex_state faults)))"
  "set ex_cur = {r \<in> set (gw_rules (world (ex_state faults))). belongs (example_service ''8080:http'') r}"
  "\<forall>r \<in> set ex_cur. plain_rule r \<and> canonical_rule r" "desired_ok (example_service ''8080:http'') ex_ds"
  by (auto simp: ex_eval router_eval table_ok_def exclusive_def belongs_def RuleBelongsToService_def
      HasPrefix_def plain_rule_def canonical_rule_def strToInt_def desired_ok_def plain_config_def go_eval)

theorem failed_delta_restores_witness:
  "\<exists>result st'. executeOperations (unifi_router (ref_router ''default'')) ex_delta (ex_state [False, False, True]) =
     ((result, Some (ErrorString ''operation failed: internal error'')), st') \<and>
     view ` set (gw_rules (world st')) = view ` set (gw_rules (world (ex_state [False, False, True])))"
proof -
  let ?R = "unifi_router (ref_router ''default'')"
  from ex_failing_run obtain result st' where
    run: "executeOperations ?R ex_delta (ex_state [False, False, True]) =
      ((result, Some (ErrorString ''operation failed: internal error'')), st')" by blast
  have "undone_cleanly ?R gw_rules ex_delta [] (world (ex_state [False, False, True]))"
    unfolding ex_delta_eval
    by (simp add: delete_op_def rule_config_def strToInt_def exec_eval router_eval ex_eval go_eval)
  from failed_delta_restores [OF ref.router_lossy_axioms iter_order_id iter_order_id ex_ok run this] run
  show ?thesis by blast
qed

text \<open>
  What the rollback does not restore.  A rule that only one source may use is deleted, the creation after it fails, and
  the rollback puts the rule back for any source: the port is open to everyone.
\<close>

lemma rollback_opens_rule:
  "\<exists>result err st'. executeOperations (unifi_router (ref_router ''default''))
       [delete_op ((example_rule ''a'' ''web/shop:old'' 9090 80)\<lparr>Src := s\<rparr>),
        \<lparr>opType = OpCreate, opConfig = example_config ''web/shop:http'' 8080 80, opExistingRule = None,
          opReason = ''port_not_yet_exists''\<rparr>]
       (example_state [(example_rule ''a'' ''web/shop:old'' 9090 80)\<lparr>Src := s\<rparr>] [False, False, True]) = ((result, Some err), st') \<and>
     map (\<lambda>r. (pfName r, Src r)) (gw_rules (world st')) = [(''web/shop:old'', ''any'')]"
  by (simp add: delete_op_def rule_config_def strToInt_def exec_eval router_eval go_eval)

text \<open>
  A failed operation that took effect is not undone: the answer to the creation is lost, the execution reports an
  error and brings the old rule back, and the new rule is on the gateway next to it.
\<close>

lemma lost_answer_not_undone:
  "\<exists>result err st'. executeOperations (unifi_router (lossy_router_of ''default'')) ex_delta
       (ex_state [False, False, False, False, True]) = ((result, Some err), st') \<and>
     map pfName (gw_rules (world st')) = [''other/svc:x'', ''web/shop:http'', ''web/shop:old'']"
  unfolding ex_delta_eval
  by (simp add: delete_op_def rule_config_def strToInt_def exec_eval router_eval ex_eval lose_def ErrNotFound_def go_eval)

section \<open>Clean-up\<close>

lemma cleanup_used:
  assumes "cleanup_loop R ops completed result st = ((result', None), st')"
  shows "gm_get (usedPorts st') p = (if p \<in> (\<lambda>op. DstPort (opConfig op)) ` set ops then None else gm_get (usedPorts st) p) \<and>
    Deleted result' = Deleted result @ map opConfig ops \<and> Failed result' = Failed result"
  using assms
proof (induction ops arbitrary: completed result st)
  case (Cons op ops)
  then show ?case
    by (cases "r_RemovePort R (opConfig op) (world st)" rule: io_cases)
      (auto simp: rollbackCleanupOperations_def Let_def tracker.owner_unmark)
qed simp

lemma delete_ops_post:
  assumes "ops_post ops S S'" "\<forall>op \<in> set ops. opType op = OpDelete"
  shows "S' = {r \<in> S. \<forall>op \<in> set ops. slot r \<noteq> Some (op_slot op)}"
  using assms by (induction rule: ops_post.induct) (auto simp: op_post_def)

end
