(* ===== verification/Drift.thy ===== *)
theory Drift
  imports Rollback
begin

text \<open>
  Drift detection (pkg/controller/drift_detection.go): the comparison of the rules on the router with
  the desired configurations of a service that the periodic reconciler acts on.
\<close>

section \<open>Data\<close>

record RuleMismatch =
  rmCurrent :: PortForward
  rmDesired :: PortConfig
  rmMismatchType :: string

record DriftAnalysis =
  daServiceName :: string
  daService :: Service
  DesiredRules :: "PortConfig list"
  CurrentRules :: "PortForward list"
  MissingRules :: "PortConfig list"
  WrongRules :: "RuleMismatch list"
  ExtraRules :: "PortForward list"
  HasDrift :: bool

section \<open>Matching by port and protocol\<close>

definition exactKey :: "PortForward \<Rightarrow> string" where
  "exactKey rule = key3 (Itoa (ParseIntField (pfDstPort rule))) (Itoa (ParseIntField (pfFwdPort rule))) (Proto rule)"

definition dstPortOnlyKey :: "int \<Rightarrow> string \<Rightarrow> string" where
  "dstPortOnlyKey dstPort proto = Itoa dstPort @ ''-'' @ proto"

text \<open>\<open>m[key] = append(m[key], rule)\<close> for every rule.\<close>

fun group_rules :: "(PortForward \<Rightarrow> string) \<Rightarrow> PortForward list \<Rightarrow> (string, PortForward list) gomap \<Rightarrow> (string, PortForward list) gomap" where
  "group_rules key [] m = m"
| "group_rules key (rule # rs) m =
     group_rules key rs
       (gm_set (key rule) ((case gm_get m (key rule) of None \<Rightarrow> [] | Some l \<Rightarrow> l) @ [rule]) m)"

text \<open>
  The chain of tests that decides whether an existing rule is taken over; the empty string stands for
  \<open>shouldTakeOwnership = false\<close>.
\<close>

definition ownership_mismatch :: "string \<Rightarrow> PortForward \<Rightarrow> PortConfig \<Rightarrow> string" where
  "ownership_mismatch serviceName existingRule desiredRule =
     (if \<not> HasPrefix (pfName existingRule) (serviceName @ '':'') then ''ownership''
      else if pfName existingRule \<noteq> Name desiredRule then ''name''
      else if Fwd existingRule \<noteq> DstIP desiredRule then ''ip''
      else if pfEnabled existingRule \<noteq> Enabled desiredRule then ''enabled''
      else '''')"

definition claim_rule ::
    "PortConfig \<Rightarrow> PortForward \<Rightarrow> DriftAnalysis \<times> (string, bool) gomap \<Rightarrow> DriftAnalysis \<times> (string, bool) gomap" where
  "claim_rule desiredRule existingRule s =
     (case s of (analysis, processedRules) \<Rightarrow>
        (let mismatchType = ownership_mismatch (daServiceName analysis) existingRule desiredRule in
         if mismatchType \<noteq> '''' then
           (analysis\<lparr>WrongRules := WrongRules analysis @
               [\<lparr>rmCurrent = existingRule, rmDesired = desiredRule, rmMismatchType = mismatchType\<rparr>],
              HasDrift := True\<rparr>,
            if ID existingRule \<noteq> '''' then gm_set (ID existingRule) True processedRules else processedRules)
         else (analysis, processedRules)))"

definition match_desired ::
    "(string, PortForward) gomap \<Rightarrow> (string, PortForward list) gomap \<Rightarrow> PortConfig \<Rightarrow>
     DriftAnalysis \<times> (string, bool) gomap \<Rightarrow> DriftAnalysis \<times> (string, bool) gomap" where
  "match_desired exactMatchMap dstPortOnlyMap desiredRule s =
     (case gm_get exactMatchMap (configKey desiredRule) of
        Some existingRule \<Rightarrow> claim_rule desiredRule existingRule s
      | None \<Rightarrow>
          (case gm_get dstPortOnlyMap (dstPortOnlyKey (DstPort desiredRule) (Protocol desiredRule)) of
             Some matchingRules \<Rightarrow> fold (claim_rule desiredRule) matchingRules s
           | None \<Rightarrow> s))"

definition findMatchingRulesByPortAndProtocol ::
    "DriftAnalysis \<Rightarrow> PortForward list \<Rightarrow> DriftAnalysis \<times> (string, bool) gomap" where
  "findMatchingRulesByPortAndProtocol analysis allRouterRules =
     (let exactMatchMap = gm_index exactKey allRouterRules [];
          dstPortOnlyMap = group_rules (\<lambda>rule. dstPortOnlyKey (ParseIntField (pfDstPort rule)) (Proto rule)) allRouterRules []
      in fold (match_desired exactMatchMap dstPortOnlyMap) (DesiredRules analysis) (analysis, []))"

section \<open>Missing and extra rules\<close>

definition analyzeDesiredVsCurrent ::
    "(string list \<Rightarrow> string list) \<Rightarrow> (string list \<Rightarrow> string list) \<Rightarrow> DriftAnalysis \<Rightarrow> (string, bool) gomap \<Rightarrow> DriftAnalysis" where
  "analyzeDesiredVsCurrent itd itc analysis processedRules =
     (let desiredMap = gm_index configKey (DesiredRules analysis) [];
          currentMap = gm_index exactKey
            (filter (\<lambda>rule. \<not> (ID rule \<noteq> '''' \<and> gm_get processedRules (ID rule) = Some True)) (CurrentRules analysis)) [];
          missing = concat (map (\<lambda>key. (case gm_get desiredMap key of None \<Rightarrow> []
            | Some desiredRule \<Rightarrow> if \<not> gm_has currentMap key then [desiredRule] else [])) (itd (map fst desiredMap)));
          extra = concat (map (\<lambda>key. (case gm_get currentMap key of None \<Rightarrow> []
            | Some currentRule \<Rightarrow> if \<not> gm_has desiredMap key then [currentRule] else [])) (itc (map fst currentMap)))
      in analysis\<lparr>MissingRules := MissingRules analysis @ missing, ExtraRules := ExtraRules analysis @ extra,
           HasDrift := (HasDrift analysis \<or> missing \<noteq> [] \<or> extra \<noteq> [])\<rparr>)"

section \<open>Analysis\<close>

definition calculateDesiredRulesForService :: "Service \<Rightarrow> (ports, PortConfig list) io" where
  "calculateDesiredRulesForService service used =
     (let lbIP = GetLBIP service in
      if lbIP = '''' then (Inl (ErrorString ''service has no LoadBalancer IP''), used)
      else (case GetPortConfigs service lbIP FilterAnnotation used of
              (Inl err, used') \<Rightarrow> (Inl (ErrorString (''failed to get port configurations: '' @ Error err)), used')
            | (Inr portConfigs, used') \<Rightarrow> (Inr portConfigs, used')))"

definition newAnalysis :: "Service \<Rightarrow> DriftAnalysis" where
  "newAnalysis service =
     \<lparr>daServiceName = serviceKey service, daService = service, DesiredRules = [], CurrentRules = [],
      MissingRules = [], WrongRules = [], ExtraRules = [], HasDrift = False\<rparr>"

definition analyzeServiceDrift ::
    "(string list \<Rightarrow> string list) \<Rightarrow> (string list \<Rightarrow> string list) \<Rightarrow> Service \<Rightarrow> PortForward list \<Rightarrow> (ports, DriftAnalysis) io" where
  "analyzeServiceDrift itd itc service allRouterRules used =
     (case calculateDesiredRulesForService service used of
        (Inl err, used') \<Rightarrow> (Inl (ErrorString (''failed to calculate desired rules: '' @ Error err)), used')
      | (Inr desiredRules, used') \<Rightarrow>
          (let analysis = (newAnalysis service)\<lparr>DesiredRules := desiredRules,
                 CurrentRules := filter (\<lambda>rule. HasPrefix (pfName rule) (serviceKey service @ '':'')) allRouterRules\<rparr>;
               (analysis', processedRules) = findMatchingRulesByPortAndProtocol analysis allRouterRules
           in (Inr (analyzeDesiredVsCurrent itd itc analysis' processedRules), used')))"

fun AnalyzeAllServicesDrift ::
    "(string list \<Rightarrow> string list) \<Rightarrow> (string list \<Rightarrow> string list) \<Rightarrow> Service list \<Rightarrow> PortForward list \<Rightarrow>
     (ports, DriftAnalysis list) io" where
  "AnalyzeAllServicesDrift itd itc [] allRouterRules used = (Inr [], used)"
| "AnalyzeAllServicesDrift itd itc (service # services) allRouterRules used =
     (case analyzeServiceDrift itd itc service allRouterRules used of
        (Inl err, used') \<Rightarrow>
          (Inl (ErrorString (''failed to analyze drift for service '' @ serviceKey service @ '': '' @ Error err)), used')
      | (Inr analysis, used') \<Rightarrow>
          (case AnalyzeAllServicesDrift itd itc services allRouterRules used' of
             (Inl err, used'') \<Rightarrow> (Inl err, used'')
           | (Inr analyses, used'') \<Rightarrow> (Inr (analysis # analyses), used'')))"

end
