(* ===== verification/Events.thy ===== *)
theory Events
  imports Drift
begin

text \<open>
  Kubernetes events (pkg/controller/change_events.go).  The recorder is the list of events it was given;
  \<open>recorder\<close> says whether the publisher has one.  The annotation of an event, the JSON text of its
  \<open>PortForwardEventData\<close>, is represented by the data itself.
\<close>

section \<open>Data\<close>

record PortForwardEventData =
  edServiceKey :: string
  edServiceNamespace :: string
  edServiceName :: string
  edPortMapping :: string
  edExternalIP :: string
  edInternalIP :: string
  edExternalPort :: int
  edProtocol :: string
  edReason :: string
  edMessage :: string
  edError :: string

record Event =
  evObject :: string
  evType :: string
  evReason :: string
  evMessage :: string
  evData :: PortForwardEventData

definition EventPortForwardCreated :: string where "EventPortForwardCreated = ''PortForwardCreated''"
definition EventPortForwardUpdated :: string where "EventPortForwardUpdated = ''PortForwardUpdated''"
definition EventPortForwardDeleted :: string where "EventPortForwardDeleted = ''PortForwardDeleted''"
definition EventPortForwardFailed :: string where "EventPortForwardFailed = ''PortForwardFailed''"
definition EventPortForwardTakenOwnership :: string where
  "EventPortForwardTakenOwnership = ''PortForwardTakenOwnership''"
definition EventDriftDetected :: string where "EventDriftDetected = ''DriftDetected''"
definition EventDriftCorrected :: string where "EventDriftCorrected = ''DriftCorrected''"
definition EventServicePeriodicReconciliationCompleted :: string where
  "EventServicePeriodicReconciliationCompleted = ''ServicePeriodicReconciliationCompleted''"

text \<open>A \<open>PortForwardEventData\<close> literal with the service fields, the reason and the message.\<close>

definition event_data :: "Service \<Rightarrow> string \<Rightarrow> string \<Rightarrow> PortForwardEventData" where
  "event_data service reason message =
     \<lparr>edServiceKey = serviceKey service, edServiceNamespace = svcNamespace service,
      edServiceName = svcName service, edPortMapping = '''', edExternalIP = '''', edInternalIP = '''',
      edExternalPort = 0, edProtocol = '''', edReason = reason, edMessage = message, edError = ''''\<rparr>"

definition fmt_bool :: "bool \<Rightarrow> string" where
  "fmt_bool b = (if b then ''true'' else ''false'')"

definition quoted :: "string \<Rightarrow> string" where
  "quoted s = [CHR 0x27] @ s @ [CHR 0x27]"

section \<open>Publishing\<close>

text \<open>A publisher is known by whether it has a recorder.\<close>

definition NewEventPublisher :: "bool \<Rightarrow> bool option" where
  "NewEventPublisher recorder = Some recorder"

definition createEvent :: "bool \<Rightarrow> Service \<Rightarrow> string \<Rightarrow> string \<Rightarrow> PortForwardEventData \<Rightarrow> Event list \<Rightarrow> Event list" where
  "createEvent recorder service eventType message eventData events =
     (if recorder then
        events @ [\<lparr>evObject = serviceKey service,
          evType = (if eventType = EventPortForwardFailed then ''Warning'' else ''Normal''),
          evReason = eventType, evMessage = message, evData = eventData\<rparr>]
      else events)"

definition PublishPortForwardCreatedEvent ::
    "bool \<Rightarrow> Service \<Rightarrow> string \<Rightarrow> string \<Rightarrow> string \<Rightarrow> string \<Rightarrow> int \<Rightarrow> int \<Rightarrow> string \<Rightarrow> string \<Rightarrow> Event list \<Rightarrow> Event list" where
  "PublishPortForwardCreatedEvent recorder service portName portMapping externalIP internalIP internalPort externalPort protocol reason =
     createEvent recorder service EventPortForwardCreated
       (''Created port forward rule '' @ quoted (serviceKey service @ '':'' @ portName) @ '': '' @ Itoa externalPort @
        ''('' @ protocol @ '') -> '' @ internalIP @ '':'' @ Itoa internalPort)
       ((event_data service reason (portName @ ''('' @ protocol @ '') -> '' @ internalIP @ '':'' @ Itoa externalPort))
          \<lparr>edPortMapping := portMapping, edExternalIP := externalIP, edInternalIP := internalIP,
           edExternalPort := externalPort, edProtocol := protocol\<rparr>)"

definition PublishPortForwardUpdatedEvent ::
    "bool \<Rightarrow> Service \<Rightarrow> string \<Rightarrow> string \<Rightarrow> string \<Rightarrow> string \<Rightarrow> int \<Rightarrow> string \<Rightarrow> string \<Rightarrow> Event list \<Rightarrow> Event list" where
  "PublishPortForwardUpdatedEvent recorder service portName portMapping externalIP internalIP externalPort protocol reason =
     createEvent recorder service EventPortForwardUpdated
       (''Updated port forward rule '' @ quoted (serviceKey service @ '':'' @ portName))
       ((event_data service reason (portMapping @ '' -> '' @ internalIP @ '':'' @ Itoa externalPort @ '' ('' @ protocol @ '')''))
          \<lparr>edPortMapping := portMapping, edExternalIP := externalIP, edInternalIP := internalIP,
           edExternalPort := externalPort, edProtocol := protocol\<rparr>)"

definition PublishPortForwardDeletedEvent ::
    "bool \<Rightarrow> Service \<Rightarrow> string \<Rightarrow> string \<Rightarrow> int \<Rightarrow> string \<Rightarrow> string \<Rightarrow> Event list \<Rightarrow> Event list" where
  "PublishPortForwardDeletedEvent recorder service portName portMapping externalPort protocol reason =
     createEvent recorder service EventPortForwardDeleted
       (''Deleted port forward rule '' @ quoted (serviceKey service @ '':'' @ portName) @ '': '' @ Itoa externalPort @
        ''('' @ protocol @ '')'')
       ((event_data service reason (portName @ ''('' @ protocol @ '') (port '' @ Itoa externalPort @ '')''))
          \<lparr>edPortMapping := portMapping, edExternalPort := externalPort, edProtocol := protocol\<rparr>)"

definition PublishPortForwardFailedEvent ::
    "bool \<Rightarrow> Service \<Rightarrow> string \<Rightarrow> string \<Rightarrow> string \<Rightarrow> int \<Rightarrow> string \<Rightarrow> string \<Rightarrow> error option \<Rightarrow> Event list \<Rightarrow> Event list" where
  "PublishPortForwardFailedEvent recorder service portMapping externalIP internalIP externalPort protocol reason err =
     createEvent recorder service EventPortForwardFailed
       (''Failed to create port forward rule: '' @ portMapping @ '' service: '' @ svcName service @ '' - '' @ reason @
        (case err of None \<Rightarrow> '''' | Some e \<Rightarrow> '' - Error: '' @ Error e))
       ((event_data service reason reason)
          \<lparr>edPortMapping := portMapping, edExternalIP := externalIP, edInternalIP := internalIP,
           edExternalPort := externalPort, edProtocol := protocol,
           edError := (case err of None \<Rightarrow> '''' | Some e \<Rightarrow> Error e)\<rparr>)"

definition PublishPortForwardTakenOwnershipEvent ::
    "bool \<Rightarrow> Service \<Rightarrow> string \<Rightarrow> string \<Rightarrow> int \<Rightarrow> string \<Rightarrow> Event list \<Rightarrow> Event list" where
  "PublishPortForwardTakenOwnershipEvent recorder service oldRuleName newRuleName externalPort protocol =
     (let message = ''Renamed manual rule '' @ quoted oldRuleName @ '' to '' @ quoted newRuleName @
            '' (port '' @ Itoa externalPort @ '', '' @ protocol @ '')'';
          eventData = (event_data service ''PortConflictTakeOwnership'' message)
            \<lparr>edPortMapping := Itoa externalPort @ '':'' @ Itoa externalPort, edExternalPort := externalPort,
             edProtocol := protocol\<rparr>
      in createEvent recorder service EventPortForwardTakenOwnership
           (''Took ownership of existing port forward rule: '' @ message @ '' service: '' @ svcName service @
            '' - renamed from '' @ quoted oldRuleName @ '' to '' @ quoted newRuleName) eventData)"

definition drift_counts :: "DriftAnalysis \<Rightarrow> string" where
  "drift_counts analysis =
     ''missing: '' @ Itoa (int (length (MissingRules analysis))) @ '', wrong: '' @
     Itoa (int (length (WrongRules analysis))) @ '', extra: '' @ Itoa (int (length (ExtraRules analysis)))"

definition PublishDriftDetectedEvent :: "bool \<Rightarrow> Service \<Rightarrow> DriftAnalysis \<Rightarrow> Event list \<Rightarrow> Event list" where
  "PublishDriftDetectedEvent recorder service analysis =
     createEvent recorder service EventDriftDetected
       (''Drift detected for service '' @ serviceKey service @ '' - corrective actions will be taken'')
       (event_data service ''DriftDetected'' (''Drift detected - '' @ drift_counts analysis))"

definition PublishDriftCorrectedEvent :: "bool \<Rightarrow> Service \<Rightarrow> DriftAnalysis \<Rightarrow> Event list \<Rightarrow> Event list" where
  "PublishDriftCorrectedEvent recorder service analysis =
     createEvent recorder service EventDriftCorrected
       (''Drift corrected for service '' @ serviceKey service)
       (event_data service ''DriftCorrected'' (''Drift corrected - '' @ drift_counts analysis))"

definition PublishDriftCorrectionFailedEvent ::
    "bool \<Rightarrow> Service \<Rightarrow> DriftAnalysis \<Rightarrow> error \<Rightarrow> Event list \<Rightarrow> Event list" where
  "PublishDriftCorrectionFailedEvent recorder service analysis err =
     createEvent recorder service EventPortForwardFailed
       (''Failed to correct drift for service '' @ serviceKey service @ '' - '' @ Error err)
       ((event_data service ''DriftCorrectionFailed'' ''Failed to correct drift'')\<lparr>edError := Error err\<rparr>)"

definition PublishServicePeriodicReconciliationCompletedEvent ::
    "bool \<Rightarrow> Service \<Rightarrow> bool \<Rightarrow> int \<Rightarrow> int \<Rightarrow> Event list \<Rightarrow> Event list" where
  "PublishServicePeriodicReconciliationCompletedEvent recorder service hasDrift correctedRules failedOperations =
     createEvent recorder service EventServicePeriodicReconciliationCompleted
       (''Periodic reconciliation completed for service '' @ serviceKey service @ '' - drift detected: '' @
        fmt_bool hasDrift @ '', rules corrected: '' @ Itoa correctedRules @ '', failed: '' @ Itoa failedOperations)
       (event_data service ''ServicePeriodicReconciliationCompleted''
          (''Reconciliation completed - drift: '' @ fmt_bool hasDrift @ '', corrected: '' @ Itoa correctedRules @
           '', failed: '' @ Itoa failedOperations))"

section \<open>What is published\<close>

lemma createEvent_prefix: "\<exists>new. createEvent rec service t m d events = events @ new \<and> length new \<le> 1"
  by (simp add: createEvent_def)

end
