(* ===== verification/Reconciler.thy ===== *)
theory Reconciler
  imports Events
begin

text \<open>
  The service reconciler (pkg/controller/reconciler.go): the handler of one reconcile request, with its
  finalizer protocol, the clean-up of deleted and missing services, the retry bookkeeping and the
  suppression of duplicate events.

  The Kubernetes API server is the record \<open>Kube\<close> of calls on the world, and \<open>rcNow\<close> reads the
  clock (nanoseconds), which may advance the world.  \<open>time.Sleep\<close> and the logging calls have no
  counterpart.  The state of the reconciler extends the state of an execution by its two maps and the
  events handed to the recorder.
\<close>

section \<open>State\<close>

record 'w Kube =
  k_Get :: "string \<Rightarrow> string \<Rightarrow> ('w, Service) io"
  k_Update :: "Service \<Rightarrow> ('w, unit) io"
  k_ListServices :: "('w, Service list) io"

record 'w Reconciler =
  rcClient :: "'w Kube"
  rcRouter :: "'w Router"
  rcEventPublisher :: "bool option"
  rcCleanupWindow :: int
  rcNow :: "'w \<Rightarrow> int \<times> 'w"

record 'w rstate = "'w cstate" +
  recentCleanups :: "(string, int) gomap"
  cleanupRetryCount :: "(string, nat) gomap"
  events :: "Event list"

record Result =
  Requeue :: bool
  RequeueAfter :: int

definition emptyResultR :: Result where
  "emptyResultR = \<lparr>Requeue = False, RequeueAfter = 0\<rparr>"

definition on_world :: "('w, 'a) io \<Rightarrow> ('w, 'e) cstate_scheme \<Rightarrow> 'a result \<times> ('w, 'e) cstate_scheme" where
  "on_world act st = (case act (world st) of (res, w) \<Rightarrow> (res, st\<lparr>world := w\<rparr>))"

definition time_now :: "'w Reconciler \<Rightarrow> ('w, 'e) cstate_scheme \<Rightarrow> int \<times> ('w, 'e) cstate_scheme" where
  "time_now r st = (case rcNow r (world st) of (t, w) \<Rightarrow> (t, st\<lparr>world := w\<rparr>))"

definition publish :: "'w Reconciler \<Rightarrow> (bool \<Rightarrow> Event list \<Rightarrow> Event list) \<Rightarrow> 'w rstate \<Rightarrow> 'w rstate" where
  "publish r f st =
     (case rcEventPublisher r of None \<Rightarrow> st | Some recorder \<Rightarrow> st\<lparr>events := f recorder (events st)\<rparr>)"

section \<open>Duplicate event detection\<close>

definition cleanupOldEntries :: "int \<Rightarrow> int \<Rightarrow> (string, int) gomap \<Rightarrow> (string, int) gomap" where
  "cleanupOldEntries now window m = filter (\<lambda>(serviceKey, cleanupTime). \<not> cleanupTime < now - window) m"

definition markServiceCleanup :: "'w Reconciler \<Rightarrow> string \<Rightarrow> 'w rstate \<Rightarrow> 'w rstate" where
  "markServiceCleanup r key st =
     (let (now1, st1) = time_now r st;
          st2 = st1\<lparr>recentCleanups := gm_set key now1 (recentCleanups st1)\<rparr>;
          (now2, st3) = time_now r st2
      in st3\<lparr>recentCleanups := cleanupOldEntries now2 (rcCleanupWindow r) (recentCleanups st3)\<rparr>)"

definition isRecentlyCleaned :: "'w Reconciler \<Rightarrow> string \<Rightarrow> 'w rstate \<Rightarrow> bool \<times> 'w rstate" where
  "isRecentlyCleaned r key st =
     (case gm_get (recentCleanups st) key of
        Some cleanupTime \<Rightarrow> (let (now, st1) = time_now r st in (now - cleanupTime < rcCleanupWindow r, st1))
      | None \<Rightarrow> (False, st))"

section \<open>Clean-up retries\<close>

definition MaxCleanupRetries :: nat where "MaxCleanupRetries = 5"

definition CleanupRetryStartInterval :: int where "CleanupRetryStartInterval = 30 * Second"
definition CleanupRetryMaxInterval :: int where "CleanupRetryMaxInterval = 600 * Second"
definition CleanupDeadline :: int where "CleanupDeadline = 7200 * Second"

definition recordCleanupRetry :: "string \<Rightarrow> 'w rstate \<Rightarrow> 'w rstate" where
  "recordCleanupRetry key st =
     st\<lparr>cleanupRetryCount :=
       gm_set key (Suc (case gm_get (cleanupRetryCount st) key of Some n \<Rightarrow> n | None \<Rightarrow> 0)) (cleanupRetryCount st)\<rparr>"

definition getCleanupRetryCount :: "string \<Rightarrow> 'w rstate \<Rightarrow> nat" where
  "getCleanupRetryCount key st = (case gm_get (cleanupRetryCount st) key of Some n \<Rightarrow> n | None \<Rightarrow> 0)"

definition clearCleanupRetries :: "string \<Rightarrow> 'w rstate \<Rightarrow> 'w rstate" where
  "clearCleanupRetries key st = st\<lparr>cleanupRetryCount := gm_del key (cleanupRetryCount st)\<rparr>"

text \<open>
  \<open>time.Duration(float64(start) * math.Pow(2, n))\<close>.  The product is exact (a small integer times a
  power of two); where it does not fit 64 bits the conversion is implementation-defined: \<open>ovf\<close>.
\<close>

definition backoff :: "(nat \<Rightarrow> int) \<Rightarrow> nat \<Rightarrow> int" where
  "backoff ovf n =
     (let x = CleanupRetryStartInterval * 2 ^ n;
          interval = (if in_int64 x then x else ovf n)
      in if interval > CleanupRetryMaxInterval then CleanupRetryMaxInterval else interval)"

definition calculateRetryInterval :: "(nat \<Rightarrow> int) \<Rightarrow> string \<Rightarrow> 'w rstate \<Rightarrow> int" where
  "calculateRetryInterval ovf key st = backoff ovf (getCleanupRetryCount key st)"

definition shouldGiveUpOnCleanup :: "(nat \<Rightarrow> int) \<Rightarrow> string \<Rightarrow> 'w rstate \<Rightarrow> bool" where
  "shouldGiveUpOnCleanup ovf key st =
     (let retryCount = getCleanupRetryCount key st in
      if retryCount \<ge> MaxCleanupRetries then True
      else sum_list (map (backoff ovf) [0..<Suc retryCount]) > CleanupDeadline)"

section \<open>Clean-up of a service\<close>

definition cleanup_op :: "string \<Rightarrow> PortForward \<Rightarrow> PortOperation" where
  "cleanup_op reason rule =
     \<lparr>opType = OpDelete, opConfig = rule_config strToInt rule, opExistingRule = Some rule, opReason = reason\<rparr>"

definition cleanup_ops :: "string \<Rightarrow> string \<Rightarrow> string \<Rightarrow> PortForward list \<Rightarrow> PortOperation list" where
  "cleanup_ops reason namespace name currentRules =
     map (cleanup_op reason) (filter (\<lambda>rule. RuleBelongsToService (pfName rule) namespace name) currentRules)"

definition port_pair :: "PortConfig \<Rightarrow> string" where
  "port_pair config = Itoa (DstPort config) @ '':'' @ Itoa (FwdPort config)"

definition deleted_event :: "Service \<Rightarrow> string \<Rightarrow> PortConfig \<Rightarrow> bool \<Rightarrow> Event list \<Rightarrow> Event list" where
  "deleted_event service reason config recorder =
     PublishPortForwardDeletedEvent recorder service (GetPortNameByNumber service (FwdPort config))
       (port_pair config) (DstPort config) (Protocol config) reason"

definition finalizeService :: "'w Reconciler \<Rightarrow> Service \<Rightarrow> 'w rstate \<Rightarrow> error option \<times> 'w rstate" where
  "finalizeService r service st =
     (case on_world (r_ListAllPortForwards (rcRouter r)) st of
        (Inl err, st1) \<Rightarrow> (Some err, st1)
      | (Inr currentRules, st1) \<Rightarrow>
          (case executeCleanupOperations (rcRouter r)
                  (cleanup_ops ''service_deletion_finalizer'' (svcNamespace service) (svcName service) currentRules) st1 of
             ((result, Some err), st2) \<Rightarrow> (Some err, st2)
           | ((result, None), st2) \<Rightarrow>
               (None, fold (\<lambda>config. publish r (deleted_event service ''ServiceCleanup'' config)) (Deleted result) st2)))"

definition RemoveFinalizer :: "Service \<Rightarrow> Service" where
  "RemoveFinalizer service = service\<lparr>svcFinalizers := filter (\<lambda>f. f \<noteq> FinalizerLabel) (svcFinalizers service)\<rparr>"

definition AddFinalizer :: "Service \<Rightarrow> Service" where
  "AddFinalizer service =
     (if ContainsFinalizer service then service
      else service\<lparr>svcFinalizers := svcFinalizers service @ [FinalizerLabel]\<rparr>)"

definition handleFinalizerCleanup ::
    "(nat \<Rightarrow> int) \<Rightarrow> 'w Reconciler \<Rightarrow> Service \<Rightarrow> 'w rstate \<Rightarrow> (Result \<times> error option) \<times> 'w rstate" where
  "handleFinalizerCleanup ovf r service st =
     (let key = serviceKey service in
      if shouldGiveUpOnCleanup ovf key st then ((emptyResultR, None), st)
      else
        (case finalizeService r service st of
           (Some err, st1) \<Rightarrow>
             (let st2 = recordCleanupRetry key st1
              in ((emptyResultR\<lparr>RequeueAfter := calculateRetryInterval ovf key st2\<rparr>, Some err), st2))
         | (None, st1) \<Rightarrow>
             (let st2 = markServiceCleanup r key (clearCleanupRetries key st1) in
              case on_world (k_Update (rcClient r) (RemoveFinalizer service)) st2 of
                (Inl err, st3) \<Rightarrow> ((emptyResultR, Some err), st3)
              | (Inr _, st3) \<Rightarrow> ((emptyResultR, None), st3))))"

definition shouldAttemptCleanupForMissingService ::
    "'w Reconciler \<Rightarrow> string \<Rightarrow> string \<Rightarrow> 'w rstate \<Rightarrow> bool \<times> 'w rstate" where
  "shouldAttemptCleanupForMissingService r namespace name st =
     (let key = namespace @ ''/'' @ name; (recent, st1) = isRecentlyCleaned r key st in
      if recent then (False, st1)
      else
        (case on_world (r_ListAllPortForwards (rcRouter r)) st1 of
           (Inl err, st2) \<Rightarrow> (False, st2)
         | (Inr currentRules, st2) \<Rightarrow>
             if length (filter (\<lambda>rule. RuleBelongsToService (pfName rule) namespace name) currentRules) > 0
             then (True, st2)
             else (list_ex (\<lambda>(port, svc). svc = key) (GetUsedExternalPorts (usedPorts st2)), st2)))"

definition handleMissingServiceCleanup ::
    "'w Reconciler \<Rightarrow> string \<Rightarrow> string \<Rightarrow> 'w rstate \<Rightarrow> (Result \<times> error option) \<times> 'w rstate" where
  "handleMissingServiceCleanup r namespace name st =
     (case on_world (r_ListAllPortForwards (rcRouter r)) st of
        (Inl err, st1) \<Rightarrow> ((emptyResultR, Some err), st1)
      | (Inr currentRules, st1) \<Rightarrow>
          (let operations = cleanup_ops ''missing_service_race_condition'' namespace name currentRules in
           if length operations = 0 then ((emptyResultR, None), st1)
           else
             (case executeCleanupOperations (rcRouter r) operations st1 of
                ((result, Some err), st2) \<Rightarrow> ((emptyResultR, Some err), st2)
              | ((result, None), st2) \<Rightarrow>
                  ((emptyResultR, None), markServiceCleanup r (namespace @ ''/'' @ name) st2))))"

section \<open>Detecting changes\<close>

definition portConfigsMatch :: "PortForward list \<Rightarrow> PortConfig list \<Rightarrow> string \<Rightarrow> bool" where
  "portConfigsMatch currentRules desiredConfigs expectedIP =
     (if length currentRules \<noteq> length desiredConfigs then False
      else
        (let currentMap = gm_index exactKey currentRules [] in
         list_all (\<lambda>desired.
           (case gm_get currentMap (configKey desired) of
              None \<Rightarrow> False
            | Some current \<Rightarrow>
                if Fwd current \<noteq> expectedIP then False
                else if Enabled desired \<noteq> pfEnabled current then False
                else True)) desiredConfigs))"

definition fallbackToIPChangeDetection :: "PortForward list \<Rightarrow> string \<Rightarrow> ChangeContext \<Rightarrow> ChangeContext" where
  "fallbackToIPChangeDetection currentRules lbIP changeContext =
     (case compareIPsWithRouterState lbIP currentRules of (ipChanged, oldIP, newIP) \<Rightarrow>
        if ipChanged then changeContext\<lparr>IPChanged := True, OldIP := oldIP, NewIP := newIP\<rparr> else changeContext)"

definition analyzeDetailedChanges ::
    "PortForward list \<Rightarrow> PortConfig list \<Rightarrow> string \<Rightarrow> ChangeContext \<Rightarrow> ChangeContext" where
  "analyzeDetailedChanges currentRules desiredConfigs lbIP changeContext =
     (let ctx = fallbackToIPChangeDetection currentRules lbIP (changeContext\<lparr>IsInitialSync := False\<rparr>) in
      if length currentRules = 0 \<and> length desiredConfigs > 0 then ctx\<lparr>SpecChanged := True\<rparr>
      else if length currentRules > 0 \<and> length desiredConfigs = 0 then ctx\<lparr>SpecChanged := True\<rparr>
      else if length currentRules > 0 \<and> length desiredConfigs > 0 then ctx\<lparr>SpecChanged := True\<rparr>
      else ctx)"

definition detectChanges :: "Service \<Rightarrow> string \<Rightarrow> PortForward list \<Rightarrow> 'w rstate \<Rightarrow> ChangeContext \<times> 'w rstate" where
  "detectChanges service key allCurrentRules st =
     (let lbIP = GetLBIP service;
          currentRules = filter (\<lambda>rule. split_key_matches (pfName rule) (serviceKey service)) allCurrentRules;
          changeContext = newContext key (svcNamespace service) (svcName service)
      in case calculateDesiredState service st of
           (Inl err, st1) \<Rightarrow> (fallbackToIPChangeDetection currentRules lbIP changeContext, st1)
         | (Inr desiredConfigs, st1) \<Rightarrow>
             if portConfigsMatch currentRules desiredConfigs lbIP
             then (changeContext\<lparr>IsInitialSync := False\<rparr>, st1)
             else if length currentRules = 0 \<and> length desiredConfigs > 0
             then (changeContext\<lparr>SpecChanged := True\<rparr>, st1)
             else (analyzeDetailedChanges currentRules desiredConfigs lbIP changeContext, st1))"

definition PerformInitialReconciliationSync :: "'w Reconciler \<Rightarrow> 'w rstate \<Rightarrow> error option \<times> 'w rstate" where
  "PerformInitialReconciliationSync r st =
     (case on_world (r_ListAllPortForwards (rcRouter r)) st of
        (Inl err, st1) \<Rightarrow> (Some (ErrorString (''failed to verify router connectivity: '' @ Error err)), st1)
      | (Inr _, st1) \<Rightarrow> (None, st1))"

text \<open>
  \<open>SetupWithManager\<close>: the fields that the code initialises, then the registration of the controller under
  its name; \<open>complete\<close> stands for the builder's \<open>Complete\<close>.
\<close>

definition SetupWithManager ::
    "(string \<Rightarrow> ('w, unit) io) \<Rightarrow> 'w Reconciler \<Rightarrow> 'w rstate \<Rightarrow> error option \<times> 'w Reconciler \<times> 'w rstate" where
  "SetupWithManager complete r st =
     (let r1 = r\<lparr>rcEventPublisher := NewEventPublisher True, rcCleanupWindow := 2 * Second\<rparr>;
          st1 = st\<lparr>recentCleanups := [], cleanupRetryCount := []\<rparr>
      in case on_world (complete ''port-forward-controller'') st1 of
           (Inl err, st2) \<Rightarrow> (Some err, r1, st2)
         | (Inr _, st2) \<Rightarrow> (None, r1, st2))"

section \<open>Processing changes\<close>

definition shouldProcessService :: "Service \<Rightarrow> string \<Rightarrow> bool" where
  "shouldProcessService service lbIP =
     (case svcAnnotations service of
        None \<Rightarrow> False
      | Some annotations \<Rightarrow>
          if \<not> gm_has annotations FilterAnnotation then False
          else if lbIP = '''' then False
          else True)"

definition created_event :: "Service \<Rightarrow> PortConfig \<Rightarrow> bool \<Rightarrow> Event list \<Rightarrow> Event list" where
  "created_event service created recorder =
     PublishPortForwardCreatedEvent recorder service (GetPortNameByNumber service (FwdPort created))
       (port_pair created) (GetLBIP service) (DstIP created) (FwdPort created) (DstPort created)
       (Protocol created) ''RulesCreatedSuccessfully''"

definition updated_event :: "Service \<Rightarrow> PortConfig \<Rightarrow> bool \<Rightarrow> Event list \<Rightarrow> Event list" where
  "updated_event service updated recorder =
     PublishPortForwardUpdatedEvent recorder service (Name updated) (port_pair updated) (GetLBIP service)
       (DstIP updated) (DstPort updated) (Protocol updated) ''RulesUpdatedSuccessfully''"

definition failed_event :: "Service \<Rightarrow> error \<Rightarrow> bool \<Rightarrow> Event list \<Rightarrow> Event list" where
  "failed_event service failedErr recorder =
     PublishPortForwardFailedEvent recorder service '''' '''' '''' 0 '''' ''OperationFailed'' (Some failedErr)"

definition success_events :: "'w Reconciler \<Rightarrow> Service \<Rightarrow> OperationResult \<Rightarrow> 'w rstate \<Rightarrow> 'w rstate" where
  "success_events r service result st =
     (if length (Created result) > 0 then
        (let st1 = fold (\<lambda>config. publish r (created_event service config)) (Created result) st;
             st2 = fold (\<lambda>config. publish r (updated_event service config)) (Updated result) st1
         in fold (\<lambda>config. publish r (deleted_event service ''RulesDeletedSuccessfully'' config)) (Deleted result) st2)
      else st)"

text \<open>
  The handler changes the context it is given (\<open>PortForwardRules\<close>); the model returns it.
\<close>

definition processAllChanges ::
    "(string list \<Rightarrow> string list) \<Rightarrow> (string list \<Rightarrow> string list) \<Rightarrow> 'w Reconciler \<Rightarrow> Service \<Rightarrow> ChangeContext \<Rightarrow>
     PortForward list \<Rightarrow> 'w rstate \<Rightarrow> (PortOperation list \<times> ChangeContext \<times> error option) \<times> 'w rstate" where
  "processAllChanges itc itd r service changeContext currentRules st =
     (case calculateDesiredState service st of
        (Inl err, st1) \<Rightarrow> (([], changeContext, Some err), st1)
      | (Inr desiredConfigs, st1) \<Rightarrow>
          (let operations = calculateDelta itc itd currentRules desiredConfigs changeContext service in
           case executeOperations (rcRouter r) operations st1 of
             ((result, Some err), st2) \<Rightarrow>
               ((operations, changeContext, Some err),
                fold (\<lambda>failedErr. publish r (failed_event service failedErr)) (Failed result) st2)
           | ((result, None), st2) \<Rightarrow>
               (let successfulCount = length (Created result) + length (Updated result);
                    ctx = (if successfulCount > 0
                           then changeContext\<lparr>PortForwardRules := map port_pair desiredConfigs\<rparr> else changeContext)
                in ((operations, ctx, None), success_events r service result st2))))"

definition ownership_events :: "'w Reconciler \<Rightarrow> Service \<Rightarrow> PortOperation list \<Rightarrow> 'w rstate \<Rightarrow> 'w rstate" where
  "ownership_events r service operations st =
     fold (\<lambda>op st.
       if opReason op = ''port_conflict_take_ownership'' then
         publish r (\<lambda>recorder. PublishPortForwardTakenOwnershipEvent recorder service
           (case opExistingRule op of Some rule \<Rightarrow> pfName rule | None \<Rightarrow> '''')
           (Name (opConfig op)) (DstPort (opConfig op)) (Protocol (opConfig op))) st
       else st) operations st"

section \<open>Reconcile\<close>

text \<open>
  The loop that adds the finalizer: at most three attempts, the object re-read before each further
  one.  The list holds the attempts left.
\<close>

fun add_finalizer_loop ::
    "'w Reconciler \<Rightarrow> string \<Rightarrow> string \<Rightarrow> nat list \<Rightarrow> Service \<Rightarrow> 'w rstate \<Rightarrow> Service result \<times> 'w rstate" where
  "add_finalizer_loop r namespace name [] service st = (Inr service, st)"
| "add_finalizer_loop r namespace name (attempt # attempts) service st =
     (case (if attempt > 0 then on_world (k_Get (rcClient r) namespace name) st else (Inr service, st)) of
        (Inl err, st1) \<Rightarrow> (Inl err, st1)
      | (Inr service1, st1) \<Rightarrow>
          if attempt > 0 \<and> ContainsFinalizer service1 then (Inr service1, st1)
          else
            (let service2 = AddFinalizer service1 in
             case on_world (k_Update (rcClient r) service2) st1 of
               (Inl err, st2) \<Rightarrow>
                 if IsConflict err \<and> attempt < 2
                 then add_finalizer_loop r namespace name attempts service2 st2
                 else (Inl err, st2)
             | (Inr _, st2) \<Rightarrow> (Inr service2, st2)))"

definition add_finalizer ::
    "'w Reconciler \<Rightarrow> string \<Rightarrow> string \<Rightarrow> Service \<Rightarrow> 'w rstate \<Rightarrow> (Result \<times> error option) \<times> 'w rstate" where
  "add_finalizer r namespace name service st =
     (case add_finalizer_loop r namespace name [0, 1, 2] service st of
        (Inl err, st1) \<Rightarrow> ((emptyResultR, Some err), st1)
      | (Inr _, st1) \<Rightarrow>
          (case on_world (k_Get (rcClient r) namespace name) st1 of
             (Inl err, st2) \<Rightarrow> ((emptyResultR, Some err), st2)
           | (Inr _, st2) \<Rightarrow> ((emptyResultR\<lparr>Requeue := True\<rparr>, None), st2)))"

definition release_service ::
    "'w Reconciler \<Rightarrow> Service \<Rightarrow> 'w rstate \<Rightarrow> (Result \<times> error option) \<times> 'w rstate" where
  "release_service r service st =
     (case finalizeService r service st of (_, st1) \<Rightarrow>
        (case on_world (k_Update (rcClient r) (RemoveFinalizer service)) st1 of
           (Inl err, st2) \<Rightarrow> ((emptyResultR, Some err), st2)
         | (Inr _, st2) \<Rightarrow> ((emptyResultR, None), st2)))"

definition reconcile_rules ::
    "(string list \<Rightarrow> string list) \<Rightarrow> (string list \<Rightarrow> string list) \<Rightarrow> 'w Reconciler \<Rightarrow> string \<Rightarrow> Service \<Rightarrow>
     'w rstate \<Rightarrow> (Result \<times> error option) \<times> 'w rstate" where
  "reconcile_rules itc itd r key service st =
     (case on_world (r_ListAllPortForwards (rcRouter r)) st of
        (Inl err, st1) \<Rightarrow> ((emptyResultR, Some err), st1)
      | (Inr allCurrentRules, st1) \<Rightarrow>
          (let (changeContext, st2) = detectChanges service key allCurrentRules st1;
               currentRules = filter (\<lambda>rule. split_key_matches (pfName rule) key) allCurrentRules
           in if IsInitialSync changeContext then ((emptyResultR, None), st2)
              else if HasRelevantChanges changeContext then
                (case processAllChanges itc itd r service changeContext currentRules st2 of
                   ((operations, _, Some err), st3) \<Rightarrow> ((emptyResultR, Some err), st3)
                 | ((operations, _, None), st3) \<Rightarrow>
                     ((emptyResultR, None), ownership_events r service operations st3))
              else ((emptyResultR, None), st2)))"

definition Reconcile ::
    "(nat \<Rightarrow> int) \<Rightarrow> (string list \<Rightarrow> string list) \<Rightarrow> (string list \<Rightarrow> string list) \<Rightarrow> 'w Reconciler \<Rightarrow>
     string \<Rightarrow> string \<Rightarrow> 'w rstate \<Rightarrow> (Result \<times> error option) \<times> 'w rstate" where
  "Reconcile ovf itc itd r namespace name st =
     (let key = namespace @ ''/'' @ name; (recent, st1) = isRecentlyCleaned r key st in
      if recent then ((emptyResultR, None), st1)
      else
        (case on_world (k_Get (rcClient r) namespace name) st1 of
           (Inl err, st2) \<Rightarrow>
             if IsNotFound err then
               (let (attempt, st3) = shouldAttemptCleanupForMissingService r namespace name st2 in
                if attempt then handleMissingServiceCleanup r namespace name st3
                else ((emptyResultR, None), st3))
             else ((emptyResultR, Some err), st2)
         | (Inr service, st2) \<Rightarrow>
             if \<not> IsZeroTime (svcDeletionTimestamp service) then
               if ContainsFinalizer service then handleFinalizerCleanup ovf r service st2
               else ((emptyResultR, None), st2)
             else
               (let lbIP = GetLBIP service in
                if lbIP = '''' then ((emptyResultR, None), st2)
                else
                  (let shouldManage = shouldProcessService service lbIP in
                   if shouldManage \<and> \<not> ContainsFinalizer service then add_finalizer r namespace name service st2
                   else if \<not> shouldManage \<and> ContainsFinalizer service then release_service r service st2
                   else if \<not> shouldManage \<and> \<not> ContainsFinalizer service then ((emptyResultR, None), st2)
                   else reconcile_rules itc itd r key service st2))))"

end
