(* ===== verification/RuleTypes.thy ===== *)
theory RuleTypes
  imports Reconciler Config "HOL-Library.Word"
begin

text \<open>
  The custom resource \<open>PortForwardRule\<close> (pkg/api/v1alpha1/portforwardrule_types.go) and the client calls
  made on it.  A Go pointer field is an option; a time is a number of nanoseconds.  Of the object metadata
  the model has the fields that the program or the API server's optimistic locking reads.
  Fields that several Go structs share by name carry a prefix here.
\<close>

section \<open>The API group\<close>

text \<open>
  The group and version of the resource (pkg/api/v1alpha1/register.go).  \<open>add_known\<close> stands for the scheme builder,
  which registers types under a group and version.
\<close>

record GroupVersion =
  gvGroup :: string
  gvVersion :: string

definition SchemeGroupVersion :: GroupVersion where
  "SchemeGroupVersion = \<lparr>gvGroup = ''unifi-port-forward.fiskhe.st'', gvVersion = ''v1alpha1''\<rparr>"

definition registered_types :: "string list" where
  "registered_types = [''PortForwardRule'', ''PortForwardRuleList'']"

definition AddToScheme :: "(GroupVersion \<Rightarrow> string list \<Rightarrow> 's \<Rightarrow> 's result) \<Rightarrow> 's \<Rightarrow> 's result" where
  "AddToScheme add_known scheme = add_known SchemeGroupVersion registered_types scheme"

text \<open>The definition that the start-up looks for is the one of this group.\<close>

lemma crd_of_the_group: "PortForwardRulesCRDName = ''portforwardrules.'' @ gvGroup SchemeGroupVersion"
  by (simp add: PortForwardRulesCRDName_def SchemeGroupVersion_def)

section \<open>The resource\<close>

record ServiceReference =
  srName :: string
  srNamespace :: "string option"
  srPort :: string

record PortForwardRuleSpec =
  specExternalPort :: int
  specProtocol :: string
  specServiceRef :: "ServiceReference option"
  specDestinationIP :: "string option"
  specDestinationPort :: "int option"
  specEnabled :: bool
  specDescription :: string
  specSourceIPRestriction :: "string option"
  specInterface :: string
  specPriority :: int
  specConflictPolicy :: string
  specLogEnabled :: bool

definition PhasePending :: string where "PhasePending = ''Pending''"
definition PhaseActive :: string where "PhaseActive = ''Active''"
definition PhaseFailed :: string where "PhaseFailed = ''Failed''"
definition PhaseUnknown :: string where "PhaseUnknown = ''Unknown''"

record ServiceStatus =
  ssName :: string
  ssNamespace :: string
  ssLoadBalancerIP :: string
  ssServicePort :: "32 word"
  ssServicePortName :: string

record PortConflict =
  pcConflictingNamespace :: string
  pcConflictingResource :: string
  pcConflictType :: string
  pcDescription :: string
  pcSeverity :: string
  pcTimestamp :: "int option"

record ErrorInfo =
  eiCode :: string
  eiMessage :: string
  eiLastFailureTime :: "int option"
  eiRetryCount :: int

text \<open>\<open>metav1.Condition\<close>; its status is \<open>''True''\<close>, \<open>''False''\<close> or \<open>''Unknown''\<close>.\<close>

record Condition =
  condType :: string
  condStatus :: string
  condObservedGeneration :: int
  condLastTransitionTime :: int
  condReason :: string
  condMessage :: string

record PortForwardRuleStatus =
  stPhase :: string
  stObservedGeneration :: int
  stLastAppliedTime :: "int option"
  stRouterRuleID :: string
  stServiceStatus :: "ServiceStatus option"
  stConditions :: "Condition list"
  stConflicts :: "PortConflict list"
  stErrorInfo :: "ErrorInfo option"

record PortForwardRule =
  ruleNamespace :: string
  ruleName :: string
  ruleResourceVersion :: string
  ruleGeneration :: int
  ruleFinalizers :: "string list"
  ruleDeletionTimestamp :: "int option"
  ruleSpec :: PortForwardRuleSpec
  ruleStatus :: PortForwardRuleStatus

section \<open>The client\<close>

text \<open>
  The calls of the Kubernetes client on services (\<open>Kube\<close>) and on the custom resource.
\<close>

record 'w RuleClient = "'w Kube" +
  rk_GetRule :: "string \<Rightarrow> string \<Rightarrow> ('w, PortForwardRule) io"
  rk_UpdateRule :: "PortForwardRule \<Rightarrow> ('w, unit) io"
  rk_UpdateRuleStatus :: "PortForwardRule \<Rightarrow> ('w, unit) io"
  rk_ListRules :: "('w, PortForwardRule list) io"

end
