(* ===== verification/RuleValidation.thy ===== *)
theory RuleValidation
  imports RuleTypes GoNet
begin

text \<open>
  Validation of the custom resource (pkg/api/v1alpha1/portforwardrule_validation.go), with what it
  uses of \<open>fmt.Sscanf\<close>: the formats \<open>%d:%s\<close> and \<open>%d\<close>.  A field error is a value of
  \<open>FieldError\<close>, whose constructors are the functions of the package \<open>field\<close> that make it; a path is
  the list of its names.
\<close>

section \<open>fmt.Sscanf\<close>

text \<open>
  \<open>SkipSpace\<close> skips white space up to a newline, which is an error (\<open>None\<close>), as is the end of the input
  where a value is expected.
\<close>

definition skip_space :: "string \<Rightarrow> string option" where
  "skip_space s =
     (case strip_front (filter (\<lambda>e. e \<noteq> [CHR 0x0A]) space_runes) s of
        [] \<Rightarrow> None
      | c # cs \<Rightarrow> if c = CHR 0x0A then None else Some (c # cs))"

definition scan_int :: "string \<Rightarrow> (int \<times> string) option" where
  "scan_int s =
     (case skip_space s of
        None \<Rightarrow> None
      | Some s1 \<Rightarrow>
          (let neg = (hd s1 = CHR ''-'');
               s2 = (if hd s1 = CHR ''-'' \<or> hd s1 = CHR ''+'' then tl s1 else s1)
           in map_option (\<lambda>v. (v, dropWhile is_digit s2)) (atoi_unsigned neg (takeWhile is_digit s2))))"

fun word_token :: "string \<Rightarrow> string" where
  "word_token [] = []"
| "word_token (c # s) = (if list_ex (\<lambda>e. HasPrefix (c # s) e) space_runes then [] else c # word_token s)"

definition scan_word :: "string \<Rightarrow> string option" where
  "scan_word s = map_option word_token (skip_space s)"

definition parseServiceAnnotation :: "string \<Rightarrow> int \<times> string" where
  "parseServiceAnnotation annotation =
     (case scan_int annotation of
        None \<Rightarrow> (0, '''')
      | Some (port, rest) \<Rightarrow>
          (case rest of
             [] \<Rightarrow> (port, ''tcp'')
           | c # cs \<Rightarrow>
               if c = CHR '':'' then
                 (case scan_word cs of Some protocol \<Rightarrow> (port, protocol) | None \<Rightarrow> (port, ''tcp''))
               else (port, ''tcp'')))"

section \<open>Field errors\<close>

datatype BadValue = IntValue int | StrValue string

datatype FieldError =
    Invalid "string list" BadValue string
  | NotSupported "string list" string "string list"
  | Required "string list" string
  | Forbidden "string list" string

section \<open>Validation of one rule\<close>

definition dns_alnum :: "char \<Rightarrow> bool" where
  "dns_alnum c \<longleftrightarrow> is_digit c \<or> (97 \<le> (of_char c :: nat) \<and> (of_char c :: nat) \<le> 122)"

text \<open>The regular expression \<open>^[a-z0-9]([-a-z0-9]*[a-z0-9])?$\<close>.\<close>

definition isValidDNSName :: "string \<Rightarrow> bool" where
  "isValidDNSName name =
     (case name of
        [] \<Rightarrow> False
      | c # cs \<Rightarrow> dns_alnum c \<and>
          (cs = [] \<or> list_all (\<lambda>d. d = CHR ''-'' \<or> dns_alnum d) (butlast cs) \<and> dns_alnum (last cs)))"

definition contains :: "string list \<Rightarrow> string \<Rightarrow> bool" where
  "contains xs item = list_ex (\<lambda>s. s = item) xs"

definition validateServiceRef :: "ServiceReference \<Rightarrow> string list \<Rightarrow> FieldError list" where
  "validateServiceRef ref path =
     (if \<not> isValidDNSName (srName ref)
      then [Invalid (path @ [''name'']) (StrValue (srName ref)) ''service name must be a valid DNS name''] else []) @
     (case srNamespace ref of
        None \<Rightarrow> []
      | Some ns \<Rightarrow> if \<not> isValidDNSName ns
          then [Invalid (path @ [''namespace'']) (StrValue ns) ''namespace must be a valid DNS name''] else []) @
     (if srPort ref = '''' then [Required (path @ [''port'']) ''service port must be specified''] else [])"

definition validProtocols :: "string list" where
  "validProtocols = [''tcp'', ''udp'', ''both'']"

definition validPolicies :: "string list" where
  "validPolicies = [''warn'', ''error'', ''ignore'']"

definition validateSpec :: "PortForwardRule \<Rightarrow> FieldError list" where
  "validateSpec r =
     (let spec = ruleSpec r in
      (if specExternalPort spec < 1 \<or> specExternalPort spec > 65535
       then [Invalid [''spec'', ''externalPort''] (IntValue (specExternalPort spec))
               ''external port must be between 1 and 65535''] else []) @
      (if \<not> contains validProtocols (specProtocol spec)
       then [NotSupported [''spec'', ''protocol''] (specProtocol spec) validProtocols] else []) @
      (case specDestinationIP spec of
         None \<Rightarrow> []
       | Some ip \<Rightarrow> if \<not> ParseIP_ok ip
           then [Invalid [''spec'', ''destinationIP''] (StrValue ip) ''must be a valid IPv4 address''] else []) @
      (case specDestinationPort spec of
         None \<Rightarrow> []
       | Some port \<Rightarrow> if port < 1 \<or> port > 65535
           then [Invalid [''spec'', ''destinationPort''] (IntValue port)
                   ''destination port must be between 1 and 65535''] else []) @
      (case specSourceIPRestriction spec of
         None \<Rightarrow> []
       | Some ip \<Rightarrow> if ip \<noteq> '''' \<and> \<not> ParseIP_ok ip
           then [Invalid [''spec'', ''sourceIPRestriction''] (StrValue ip) ''must be a valid IPv4 address''] else []) @
      (if specPriority spec < 0 \<or> specPriority spec > 1000
       then [Invalid [''spec'', ''priority''] (IntValue (specPriority spec)) ''priority must be between 0 and 1000'']
       else []) @
      (if \<not> contains validPolicies (specConflictPolicy spec)
       then [NotSupported [''spec'', ''conflictPolicy''] (specConflictPolicy spec) validPolicies] else []) @
      (case specServiceRef spec of
         None \<Rightarrow> []
       | Some ref \<Rightarrow> validateServiceRef ref [''spec'', ''serviceRef'']))"

definition validateMutuallyExclusiveFields :: "PortForwardRule \<Rightarrow> FieldError list" where
  "validateMutuallyExclusiveFields r =
     (let spec = ruleSpec r;
          hasServiceRef = specServiceRef spec \<noteq> None;
          hasDestinationIP = specDestinationIP spec \<noteq> None in
      (if hasServiceRef \<and> hasDestinationIP
       then [Forbidden [''spec'', ''destinationIP''] ''destinationIP cannot be specified when serviceRef is specified'']
       else []) @
      (if \<not> hasServiceRef \<and> \<not> hasDestinationIP
       then [Required [''spec''] ''either serviceRef or destinationIP must be specified''] else []) @
      (if hasDestinationIP \<and> specDestinationPort spec = None
       then [Required [''spec'', ''destinationPort''] ''destinationPort is required when destinationIP is specified'']
       else []))"

definition ValidateCreate :: "PortForwardRule \<Rightarrow> FieldError list" where
  "ValidateCreate r = validateSpec r @ validateMutuallyExclusiveFields r"

definition ValidateUpdate :: "PortForwardRule \<Rightarrow> PortForwardRule \<Rightarrow> FieldError list" where
  "ValidateUpdate r old = validateSpec r @ validateMutuallyExclusiveFields r"

definition ValidateDelete :: "PortForwardRule \<Rightarrow> FieldError list" where
  "ValidateDelete r = []"

section \<open>Validation against the cluster\<close>

definition OldPortAnnotation :: string where
  "OldPortAnnotation = ''port-forwarder.unifi.com/external-port''"

definition protocols_overlap :: "string \<Rightarrow> string \<Rightarrow> bool" where
  "protocols_overlap p q \<longleftrightarrow> p = q \<or> p = ''both'' \<or> q = ''both''"

definition rule_conflict :: "PortForwardRule \<Rightarrow> PortForwardRule \<Rightarrow> FieldError list" where
  "rule_conflict r existingRule =
     (if specExternalPort (ruleSpec existingRule) = specExternalPort (ruleSpec r) \<and>
         protocols_overlap (specProtocol (ruleSpec existingRule)) (specProtocol (ruleSpec r)) \<and>
         ruleNamespace existingRule = ruleNamespace r
      then [Forbidden [''spec'', ''externalPort'']
              (''port '' @ Itoa (specExternalPort (ruleSpec r)) @ '' conflicts with existing rule '' @
               ruleName existingRule @ '' in same namespace'')]
      else [])"

definition service_conflict :: "PortForwardRule \<Rightarrow> Service \<Rightarrow> FieldError list" where
  "service_conflict r service =
     (case Option.bind (svcAnnotations service) (\<lambda>m. gm_get m OldPortAnnotation) of
        None \<Rightarrow> []
      | Some port \<Rightarrow>
          (let (servicePort, protocol) = parseServiceAnnotation port in
           if servicePort = specExternalPort (ruleSpec r) \<and>
              protocols_overlap protocol (specProtocol (ruleSpec r)) \<and> svcNamespace service = ruleNamespace r
           then [Forbidden [''spec'', ''externalPort'']
                   (''port '' @ Itoa (specExternalPort (ruleSpec r)) @ '' conflicts with existing Service annotation on '' @
                    svcNamespace service @ ''/'' @ svcName service)]
           else []))"

fun conflict_loop ::
    "PortForwardRule \<Rightarrow> ('w, 'e) RuleClient_scheme \<Rightarrow> PortForwardRule list \<Rightarrow> FieldError list \<Rightarrow> 'w \<Rightarrow> FieldError list \<times> 'w" where
  "conflict_loop r client [] allErrs w = (allErrs, w)"
| "conflict_loop r client (existingRule # rest) allErrs w =
     (if ruleNamespace existingRule = ruleNamespace r \<and> ruleName existingRule = ruleName r
      then conflict_loop r client rest allErrs w
      else
        (let allErrs = allErrs @ rule_conflict r existingRule in
         case k_ListServices client w of
           (Inl err, w1) \<Rightarrow> (allErrs, w1)
         | (Inr services, w1) \<Rightarrow>
             conflict_loop r client rest (allErrs @ concat (map (service_conflict r) services)) w1))"

definition ValidateCrossNamespacePortConflict ::
    "PortForwardRule \<Rightarrow> ('w, 'e) RuleClient_scheme option \<Rightarrow> 'w \<Rightarrow> FieldError list \<times> 'w" where
  "ValidateCrossNamespacePortConflict r client w =
     (case client of
        None \<Rightarrow> ([], w)
      | Some client \<Rightarrow>
          (case rk_ListRules client w of
             (Inl err, w1) \<Rightarrow> ([], w1)
           | (Inr ruleList, w1) \<Rightarrow> conflict_loop r client ruleList [] w1))"

definition ref_namespace :: "PortForwardRule \<Rightarrow> ServiceReference \<Rightarrow> string" where
  "ref_namespace r ref = (case srNamespace ref of None \<Rightarrow> ruleNamespace r | Some ns \<Rightarrow> ns)"

definition names_port :: "ServiceReference \<Rightarrow> ServicePort \<Rightarrow> bool" where
  "names_port ref port \<longleftrightarrow> spName port = srPort ref \<or> Itoa (spPort port) = srPort ref"

definition ValidateServiceExists ::
    "PortForwardRule \<Rightarrow> ('w, 'e) RuleClient_scheme option \<Rightarrow> 'w \<Rightarrow> FieldError list \<times> 'w" where
  "ValidateServiceExists r client w =
     (case (specServiceRef (ruleSpec r), client) of
        (Some ref, Some client) \<Rightarrow>
          (let namespace = ref_namespace r ref in
           case k_Get client namespace (srName ref) w of
             (Inl err, w1) \<Rightarrow>
               ([Invalid [''spec'', ''serviceRef''] (StrValue (srName ref))
                   (''service '' @ namespace @ ''/'' @ srName ref @ '' not found: '' @ Error err)], w1)
           | (Inr service, w1) \<Rightarrow>
               (if list_ex (names_port ref) (svcPorts service) then []
                else [Invalid [''spec'', ''serviceRef'', ''port''] (StrValue (srPort ref))
                        (''port '' @ srPort ref @ '' not found in service '' @ namespace @ ''/'' @ srName ref)], w1))
      | _ \<Rightarrow> ([], w))"

section \<open>Which rules are accepted\<close>

definition dns_label :: "string \<Rightarrow> bool" where
  "dns_label name \<longleftrightarrow> name \<noteq> [] \<and> (\<forall>c \<in> set name. c = CHR ''-'' \<or> dns_alnum c) \<and>
     hd name \<noteq> CHR ''-'' \<and> last name \<noteq> CHR ''-''"

lemma not_alnum_dash: "\<not> dns_alnum (CHR ''-'')"
  by (simp add: dns_alnum_def is_digit_def)

lemma isValidDNSName_iff: "isValidDNSName name \<longleftrightarrow> dns_label name"
proof (cases name)
  case (Cons c cs)
  show ?thesis
  proof (cases cs rule: rev_cases)
    case Nil
    with Cons show ?thesis using not_alnum_dash by (auto simp: isValidDNSName_def dns_label_def)
  next
    case (snoc ds d)
    with Cons show ?thesis using not_alnum_dash by (auto simp: isValidDNSName_def dns_label_def list_all_iff)
  qed
qed (simp add: isValidDNSName_def dns_label_def)

definition valid_ref :: "ServiceReference \<Rightarrow> bool" where
  "valid_ref ref \<longleftrightarrow> dns_label (srName ref) \<and> (\<forall>ns. srNamespace ref = Some ns \<longrightarrow> dns_label ns) \<and> srPort ref \<noteq> ''''"

text \<open>The destination is a service or a pair of address and port, not both and not neither.\<close>

definition valid_destination :: "PortForwardRuleSpec \<Rightarrow> bool" where
  "valid_destination spec \<longleftrightarrow>
     (\<exists>ref. specServiceRef spec = Some ref \<and> specDestinationIP spec = None \<and> valid_ref ref \<and>
        (\<forall>p. specDestinationPort spec = Some p \<longrightarrow> valid_port p)) \<or>
     (\<exists>ip p. specServiceRef spec = None \<and> specDestinationIP spec = Some ip \<and> ParseIP_ok ip \<and>
        specDestinationPort spec = Some p \<and> valid_port p)"

definition valid_spec :: "PortForwardRuleSpec \<Rightarrow> bool" where
  "valid_spec spec \<longleftrightarrow> valid_port (specExternalPort spec) \<and> specProtocol spec \<in> {''tcp'', ''udp'', ''both''} \<and>
     0 \<le> specPriority spec \<and> specPriority spec \<le> 1000 \<and> specConflictPolicy spec \<in> {''warn'', ''error'', ''ignore''} \<and>
     (\<forall>ip. specSourceIPRestriction spec = Some ip \<longrightarrow> ip = '''' \<or> ParseIP_ok ip) \<and> valid_destination spec"

lemma contains_iff [simp]: "contains xs x \<longleftrightarrow> x \<in> set xs"
  by (induction xs) (auto simp: contains_def)

lemma validateServiceRef_Nil: "validateServiceRef ref path = [] \<longleftrightarrow> valid_ref ref"
  by (auto simp: validateServiceRef_def valid_ref_def isValidDNSName_iff split: option.splits)

lemma ValidateCreate_Nil: "ValidateCreate r = [] \<longleftrightarrow> valid_spec (ruleSpec r)"
  by (auto simp: ValidateCreate_def validateSpec_def validateMutuallyExclusiveFields_def Let_def valid_spec_def
      valid_destination_def valid_port_def validProtocols_def validPolicies_def validateServiceRef_Nil split: option.split)

text \<open>
  C30: \<open>ValidateCreate\<close> reports no error exactly for the well-formed specifications: ports, priority,
  protocol and conflict policy in range, and exactly one destination, complete and well formed.  Updates are
  held to the same standard, and deletions are never refused.
\<close>

theorem validation_exact:
  "(ValidateCreate r = [] \<longleftrightarrow> valid_spec (ruleSpec r)) \<and> (ValidateUpdate r old = [] \<longleftrightarrow> valid_spec (ruleSpec r)) \<and>
   ValidateDelete r = []"
  using ValidateCreate_Nil [of r] by (simp add: ValidateUpdate_def ValidateCreate_def ValidateDelete_def)

section \<open>Conflicts with other rules and services\<close>

definition other_rule :: "PortForwardRule \<Rightarrow> PortForwardRule \<Rightarrow> bool" where
  "other_rule r q \<longleftrightarrow> (ruleNamespace q, ruleName q) \<noteq> (ruleNamespace r, ruleName r)"

definition rules_clash :: "PortForwardRule \<Rightarrow> PortForwardRule \<Rightarrow> bool" where
  "rules_clash r q \<longleftrightarrow> ruleNamespace q = ruleNamespace r \<and>
     specExternalPort (ruleSpec q) = specExternalPort (ruleSpec r) \<and>
     protocols_overlap (specProtocol (ruleSpec q)) (specProtocol (ruleSpec r))"

definition service_clash :: "PortForwardRule \<Rightarrow> Service \<Rightarrow> bool" where
  "service_clash r service \<longleftrightarrow> svcNamespace service = ruleNamespace r \<and>
     (\<exists>m text protocol. svcAnnotations service = Some m \<and> gm_get m OldPortAnnotation = Some text \<and>
        parseServiceAnnotation text = (specExternalPort (ruleSpec r), protocol) \<and>
        protocols_overlap protocol (specProtocol (ruleSpec r)))"

lemma rule_conflict_Nil: "rule_conflict r q = [] \<longleftrightarrow> \<not> rules_clash r q"
  by (auto simp: rule_conflict_def rules_clash_def)

lemma service_conflict_Nil: "service_conflict r s = [] \<longleftrightarrow> \<not> service_clash r s"
  by (cases "svcAnnotations s")
    (auto simp: service_conflict_def service_clash_def Let_def split: option.split prod.split)

lemma conflict_loop_Nil:
  assumes svcs: "\<And>w. fst (k_ListServices C w) = Inr (svcs w)" "\<And>w. svcs (snd (k_ListServices C w)) = svcs w"
  shows "fst (conflict_loop r C rs errs w) = [] \<longleftrightarrow>
    errs = [] \<and> (\<forall>q \<in> set rs. other_rule r q \<longrightarrow> \<not> rules_clash r q \<and> (\<forall>s \<in> set (svcs w). \<not> service_clash r s))"
proof (induction rs arbitrary: errs w)
  case (Cons q rs)
  obtain w1 where w1: "k_ListServices C w = (Inr (svcs w), w1)" "svcs w1 = svcs w"
    using svcs [of w] by (metis prod.collapse)
  show ?case
    by (auto simp: Cons.IH w1 Let_def other_rule_def rule_conflict_Nil service_conflict_Nil)
qed simp

text \<open>
  C31: the conflict check is one of the resource's own namespace.  When the API server lists the rules \<open>rs\<close> and the
  services \<open>svcs w\<close>, the check passes exactly when no other rule of the namespace has the same external port
  with an overlapping protocol and, provided there is any other rule at all, no service of the namespace claims
  the port in the old annotation.  Without another rule the services are never looked at.  Rules and services of
  other namespaces never conflict, although the check is documented as one across all namespaces and its
  caller expects warnings for them.
\<close>

theorem conflict_check_exact:
  assumes rs: "fst (rk_ListRules C w) = Inr rs" "svcs (snd (rk_ListRules C w)) = svcs w"
    and svcs: "\<And>w. fst (k_ListServices C w) = Inr (svcs w)" "\<And>w. svcs (snd (k_ListServices C w)) = svcs w"
  shows "fst (ValidateCrossNamespacePortConflict r (Some C) w) = [] \<longleftrightarrow>
    (\<forall>q \<in> set rs. other_rule r q \<longrightarrow> \<not> rules_clash r q) \<and>
    ((\<exists>q \<in> set rs. other_rule r q) \<longrightarrow> (\<forall>s \<in> set (svcs w). \<not> service_clash r s))"
proof -
  obtain w1 where "rk_ListRules C w = (Inr rs, w1)" "svcs w1 = svcs w" using rs by (metis prod.collapse)
  then show ?thesis
    using conflict_loop_Nil [where C = C and svcs = svcs and r = r and rs = rs and errs = "[]" and w = w1, OF svcs]
    by (auto simp: ValidateCrossNamespacePortConflict_def)
qed

end
