(* ===== verification/RuleController.thy ===== *)
theory RuleController
  imports RuleValidation
begin

text \<open>
  The reconciler of the custom resource (pkg/controller/portforwardrule_controller.go).

  Its state is the outside world (the router and the API server), the map \<open>activeReconciliations\<close> and
  the events handed to the recorder.  The Go code mutates the object it fetched; the model returns the
  mutated object.  \<open>rrFmt\<close> is the text that \<open>%v\<close> gives for a list of field errors (k8s.io/apimachinery),
  \<open>rrNow\<close> reads the clock.  Sleeping and logging have no counterpart.
\<close>

section \<open>State\<close>

record 'w RuleReconciler =
  rrClient :: "'w RuleClient"
  rrRouter :: "'w Router"
  rrNow :: "'w \<Rightarrow> int \<times> 'w"
  rrFmt :: "FieldError list \<Rightarrow> string"

record RuleEvent =
  reObject :: string
  reType :: string
  reReason :: string
  reMessage :: string

record 'w pstate =
  pWorld :: 'w
  activeReconciliations :: "(string, bool) gomap"
  ruleEvents :: "RuleEvent list"

definition on_pworld :: "('w \<Rightarrow> 'a \<times> 'w) \<Rightarrow> 'w pstate \<Rightarrow> 'a \<times> 'w pstate" where
  "on_pworld act st = (case act (pWorld st) of (res, w) \<Rightarrow> (res, st\<lparr>pWorld := w\<rparr>))"

definition rule_key :: "string \<Rightarrow> string \<Rightarrow> string" where
  "rule_key ns n = ns @ ''/'' @ n"

text \<open>Registration with the manager, under the builder's default name.\<close>

definition SetupRuleWithManager :: "(string \<Rightarrow> ('w, unit) io) \<Rightarrow> ('w, unit) io" where
  "SetupRuleWithManager complete w = complete ''portforwardrule'' w"

section \<open>Validation\<close>

definition find_forbidden :: "FieldError list \<Rightarrow> string option" where
  "find_forbidden errs =
     List.find (\<lambda>_. True) (concat (map (\<lambda>e. case e of Forbidden _ detail \<Rightarrow> [detail] | _ \<Rightarrow> []) errs))"

definition validateRule :: "'w RuleReconciler \<Rightarrow> PortForwardRule \<Rightarrow> 'w \<Rightarrow> error option \<times> 'w" where
  "validateRule r rule w =
     (let errs = ValidateCreate rule in
      if length errs > 0 then (Some (ErrorString (''validation failed: '' @ rrFmt r errs)), w)
      else
        (let (errs, w1) =
           (if specServiceRef (ruleSpec rule) \<noteq> None then ValidateServiceExists rule (Some (rrClient r)) w else ([], w))
         in if length errs > 0 then (Some (ErrorString (''service validation failed: '' @ rrFmt r errs)), w1)
            else
              (let (conflictErrs, w2) = ValidateCrossNamespacePortConflict rule (Some (rrClient r)) w1 in
               case find_forbidden conflictErrs of
                 Some detail \<Rightarrow> (Some (ErrorString (''port conflict: '' @ detail)), w2)
               | None \<Rightarrow> (None, w2))))"

section \<open>Applying a rule\<close>

definition getServiceDestination ::
    "'w RuleReconciler \<Rightarrow> PortForwardRule \<Rightarrow> ServiceReference \<Rightarrow> 'w \<Rightarrow> (string \<times> int) result \<times> 'w" where
  "getServiceDestination r rule ref w =
     (let namespace = ref_namespace rule ref in
      case k_Get (rrClient r) namespace (srName ref) w of
        (Inl err, w1) \<Rightarrow> (Inl (ErrorString (''failed to get service: '' @ Error err)), w1)
      | (Inr service, w1) \<Rightarrow>
          (let destIP = (if svcType service = ''LoadBalancer'' then
               (case List.find (\<lambda>ip. ip \<noteq> '''') (svcIngress service) of Some ip \<Rightarrow> ip | None \<Rightarrow> '''') else '''')
           in if destIP = '''' then
                (Inl (ErrorString (''service '' @ namespace @ ''/'' @ srName ref @ '' has no LoadBalancer IP'')), w1)
              else
                (let destPort = (case List.find (names_port ref) (svcPorts service) of
                     Some port \<Rightarrow> spPort port | None \<Rightarrow> 0)
                 in if destPort = 0 then
                      (Inl (ErrorString (''port '' @ srPort ref @ '' not found in service '' @ namespace @ ''/'' @ srName ref)), w1)
                    else (Inr (destIP, destPort), w1))))"

definition destination :: "'w RuleReconciler \<Rightarrow> PortForwardRule \<Rightarrow> 'w \<Rightarrow> (string \<times> int) result \<times> 'w" where
  "destination r rule w =
     (let wrap = (\<lambda>err. ErrorString (''failed to get destination: '' @ Error err)) in
      case specServiceRef (ruleSpec rule) of
        Some ref \<Rightarrow>
          (case getServiceDestination r rule ref w of (Inl err, w1) \<Rightarrow> (Inl (wrap err), w1) | (Inr d, w1) \<Rightarrow> (Inr d, w1))
      | None \<Rightarrow>
          (case (specDestinationIP (ruleSpec rule), specDestinationPort (ruleSpec rule)) of
             (Some ip, Some port) \<Rightarrow> (Inr (ip, port), w)
           | _ \<Rightarrow> (Inl (ErrorString ''invalid rule: neither serviceRef nor destinationIP specified''), w)))"

definition router_rule_name :: "PortForwardRule \<Rightarrow> string" where
  "router_rule_name rule =
     ruleNamespace rule @ ''/'' @ ruleName rule @ '':'' @ Itoa (specExternalPort (ruleSpec rule))"

definition router_rule :: "PortForwardRule \<Rightarrow> string \<Rightarrow> int \<Rightarrow> PortConfig" where
  "router_rule rule destIP destPort =
     (let spec = ruleSpec rule in
      \<lparr>Name = router_rule_name rule, Enabled = specEnabled spec, Interface = specInterface spec,
       DstPort = specExternalPort spec, FwdPort = destPort,
       SrcIP = (case specSourceIPRestriction spec of None \<Rightarrow> '''' | Some ip \<Rightarrow> ip),
       DstIP = destIP, Protocol = specProtocol spec\<rparr>)"

definition ErrPortForwardOverlaps :: error where
  "ErrPortForwardOverlaps = ErrorString ''PortForwardOverlaps: requires backoff''"

definition needsOwnership :: "PortForwardRule \<Rightarrow> PortConfig \<Rightarrow> PortForward \<Rightarrow> bool" where
  "needsOwnership rule routerRule existingRule =
     (if \<not> HasPrefix (pfName existingRule) (ruleNamespace rule @ ''/'' @ ruleName rule @ '':'') then True
      else if pfName existingRule \<noteq> Name routerRule then True
      else if Fwd existingRule \<noteq> DstIP routerRule then True
      else if pfEnabled existingRule \<noteq> Enabled routerRule then True
      else False)"

definition wrap_router_error :: "string \<Rightarrow> error \<Rightarrow> error" where
  "wrap_router_error what err =
     (if Contains (Error err) ''PortForwardOverlaps'' then ErrPortForwardOverlaps
      else ErrorString (what @ Error err))"

definition write_router_rule :: "'w RuleReconciler \<Rightarrow> PortForwardRule \<Rightarrow> PortConfig \<Rightarrow> ('w, unit) io" where
  "write_router_rule r rule routerRule w =
     (case r_CheckPort (rrRouter r) (specExternalPort (ruleSpec rule)) (specProtocol (ruleSpec rule)) w of
        (Inl err, w1) \<Rightarrow> (Inl (ErrorString (''failed to check existing router rule: '' @ Error err)), w1)
      | (Inr (Some existingRule), w1) \<Rightarrow>
          if needsOwnership rule routerRule existingRule then
            (case r_UpdatePort (rrRouter r) (specExternalPort (ruleSpec rule)) routerRule w1 of
               (Inl err, w2) \<Rightarrow>
                 (Inl (wrap_router_error ''failed to update router rule during ownership takeover: '' err), w2)
             | (Inr _, w2) \<Rightarrow> (Inr (), w2))
          else (Inr (), w1)
      | (Inr None, w1) \<Rightarrow>
          (case r_AddPort (rrRouter r) routerRule w1 of
             (Inl err, w2) \<Rightarrow> (Inl (wrap_router_error ''failed to create router rule: '' err), w2)
           | (Inr _, w2) \<Rightarrow> (Inr (), w2)))"

definition service_status :: "PortForwardRule \<Rightarrow> ServiceReference \<Rightarrow> string \<Rightarrow> int \<Rightarrow> ServiceStatus" where
  "service_status rule ref destIP destPort =
     \<lparr>ssName = srName ref, ssNamespace = ref_namespace rule ref, ssLoadBalancerIP = destIP,
      ssServicePort = word_of_int destPort, ssServicePortName = ''''\<rparr>"

definition applied_status :: "PortForwardRule \<Rightarrow> int \<Rightarrow> string \<Rightarrow> int \<Rightarrow> PortForwardRuleStatus" where
  "applied_status rule now destIP destPort =
     (let status = (ruleStatus rule)\<lparr>stRouterRuleID := router_rule_name rule, stLastAppliedTime := Some now,
            stObservedGeneration := ruleGeneration rule\<rparr>
      in case specServiceRef (ruleSpec rule) of
           None \<Rightarrow> status
         | Some ref \<Rightarrow> status\<lparr>stServiceStatus := Some (service_status rule ref destIP destPort)\<rparr>)"

definition rule_applied_event :: "PortForwardRule \<Rightarrow> RuleEvent" where
  "rule_applied_event rule =
     \<lparr>reObject = rule_key (ruleNamespace rule) (ruleName rule), reType = ''Normal'', reReason = ''RuleApplied'',
      reMessage = ''Port forwarding rule applied to router (ID: '' @ router_rule_name rule @ '')''\<rparr>"

definition reconcilePortForwardRule ::
    "'w RuleReconciler \<Rightarrow> PortForwardRule \<Rightarrow> 'w pstate \<Rightarrow> (error option \<times> PortForwardRule) \<times> 'w pstate" where
  "reconcilePortForwardRule r rule st =
     (case on_pworld (destination r rule) st of
        (Inl err, st1) \<Rightarrow> ((Some err, rule), st1)
      | (Inr (destIP, destPort), st1) \<Rightarrow>
          (case on_pworld (write_router_rule r rule (router_rule rule destIP destPort)) st1 of
             (Inl err, st2) \<Rightarrow> ((Some err, rule), st2)
           | (Inr _, st2) \<Rightarrow>
               (let (now, st3) = on_pworld (rrNow r) st2;
                    rule' = rule\<lparr>ruleStatus := applied_status rule now destIP destPort\<rparr>
                in ((None, rule'), st3\<lparr>ruleEvents := ruleEvents st3 @ [rule_applied_event rule]\<rparr>))))"

section \<open>Status\<close>

definition set_condition :: "string \<Rightarrow> string \<Rightarrow> string \<Rightarrow> int \<Rightarrow> Condition \<Rightarrow> Condition" where
  "set_condition status reason message now c =
     c\<lparr>condStatus := status, condReason := reason, condMessage := message, condLastTransitionTime := now\<rparr>"

fun update_conditions :: "string \<Rightarrow> string \<Rightarrow> string \<Rightarrow> int \<Rightarrow> Condition list \<Rightarrow> Condition list" where
  "update_conditions status reason message now [] =
     [\<lparr>condType = ''RuleReady'', condStatus = status, condObservedGeneration = 0, condLastTransitionTime = now,
       condReason = reason, condMessage = message\<rparr>]"
| "update_conditions status reason message now (c # cs) =
     (if condType c = ''RuleReady'' then set_condition status reason message now c # cs
      else c # update_conditions status reason message now cs)"

definition failed_info :: "PortForwardRuleStatus \<Rightarrow> string \<Rightarrow> int \<Rightarrow> ErrorInfo" where
  "failed_info status errorMsg now =
     \<lparr>eiCode = ''ReconciliationError'', eiMessage = errorMsg, eiLastFailureTime = Some now,
      eiRetryCount = (case stErrorInfo status of None \<Rightarrow> 0 | Some info \<Rightarrow> eiRetryCount info + 1)\<rparr>"

definition phase_status ::
    "'w RuleReconciler \<Rightarrow> string \<Rightarrow> string \<Rightarrow> PortForwardRuleStatus \<Rightarrow> 'w \<Rightarrow> PortForwardRuleStatus \<times> 'w" where
  "phase_status r phase errorMsg status w =
     (let active = (phase = PhaseActive);
          (now, w1) = rrNow r w;
          conditions = update_conditions (if active then ''True'' else ''False'')
            (if active then ''RuleApplied'' else ''Failed'')
            (if active then ''Port forwarding rule successfully applied'' else errorMsg) now (stConditions status);
          status1 = status\<lparr>stPhase := phase, stConditions := conditions\<rparr>
      in if phase = PhaseFailed then
           (let (now2, w2) = rrNow r w1 in (status1\<lparr>stErrorInfo := Some (failed_info status errorMsg now2)\<rparr>, w2))
         else (status1\<lparr>stErrorInfo := None\<rparr>, w1))"

definition maxAttempts :: nat where "maxAttempts = 3"

text \<open>
  The retry loop: \<open>attempts\<close> attempts are left, \<open>first\<close> marks the one that does not refresh the object.
\<close>

fun status_loop ::
    "'w RuleReconciler \<Rightarrow> string \<Rightarrow> string \<Rightarrow> nat \<Rightarrow> bool \<Rightarrow> PortForwardRule \<Rightarrow> 'w \<Rightarrow> 'w" where
  "status_loop r phase errorMsg 0 first rule w = w"
| "status_loop r phase errorMsg (Suc attempts) first rule w =
     (case (if first then (Inr rule, w) else rk_GetRule (rrClient r) (ruleNamespace rule) (ruleName rule) w) of
        (Inl getErr, w1) \<Rightarrow> w1
      | (Inr rule1, w1) \<Rightarrow>
          (let (status, w2) = phase_status r phase errorMsg (ruleStatus rule1) w1;
               rule2 = rule1\<lparr>ruleStatus := status\<rparr>
           in case rk_UpdateRuleStatus (rrClient r) rule2 w2 of
                (Inr _, w3) \<Rightarrow> w3
              | (Inl err, w3) \<Rightarrow>
                  if IsConflict err then status_loop r phase errorMsg attempts False rule2 w3 else w3))"

definition updateRuleStatusWithRetry ::
    "'w RuleReconciler \<Rightarrow> PortForwardRule \<Rightarrow> string \<Rightarrow> string \<Rightarrow> 'w pstate \<Rightarrow> 'w pstate" where
  "updateRuleStatusWithRetry r rule phase errorMsg st =
     st\<lparr>pWorld := status_loop r phase errorMsg maxAttempts True rule (pWorld st)\<rparr>"

section \<open>Deletion\<close>

definition deleteRouterRuleByID :: "'w RuleReconciler \<Rightarrow> PortForwardRule \<Rightarrow> 'w \<Rightarrow> error option \<times> 'w" where
  "deleteRouterRuleByID r rule w =
     (case r_CheckPort (rrRouter r) (specExternalPort (ruleSpec rule)) (specProtocol (ruleSpec rule)) w of
        (Inl err, w1) \<Rightarrow> (Some (ErrorString (''failed to find router rule for deletion: '' @ Error err)), w1)
      | (Inr None, w1) \<Rightarrow> (None, w1)
      | (Inr (Some pf), w1) \<Rightarrow>
          (case r_DeletePortForwardByID (rrRouter r) (ID pf) w1 of
             (Inl err, w2) \<Rightarrow> (Some err, w2)
           | (Inr _, w2) \<Rightarrow> (None, w2)))"

definition RemoveRuleFinalizer :: "PortForwardRule \<Rightarrow> PortForwardRule" where
  "RemoveRuleFinalizer rule = rule\<lparr>ruleFinalizers := filter (\<lambda>f. f \<noteq> FinalizerLabel) (ruleFinalizers rule)\<rparr>"

definition RuleContainsFinalizer :: "PortForwardRule \<Rightarrow> bool" where
  "RuleContainsFinalizer rule \<longleftrightarrow> FinalizerLabel \<in> set (ruleFinalizers rule)"

definition AddRuleFinalizer :: "PortForwardRule \<Rightarrow> PortForwardRule" where
  "AddRuleFinalizer rule =
     (if RuleContainsFinalizer rule then rule else rule\<lparr>ruleFinalizers := ruleFinalizers rule @ [FinalizerLabel]\<rparr>)"

definition handleRuleDeletion ::
    "'w RuleReconciler \<Rightarrow> string \<Rightarrow> string \<Rightarrow> 'w pstate \<Rightarrow> (Result \<times> error option) \<times> 'w pstate" where
  "handleRuleDeletion r ns n st =
     (case on_pworld (rk_GetRule (rrClient r) ns n) st of
        (Inl err, st1) \<Rightarrow> if IsNotFound err then ((emptyResultR, None), st1) else ((emptyResultR, Some err), st1)
      | (Inr rule, st1) \<Rightarrow>
          (case (if stRouterRuleID (ruleStatus rule) \<noteq> '''' then on_pworld (deleteRouterRuleByID r rule) st1
                 else (None, st1)) of
             (Some delErr, st2) \<Rightarrow>
               ((emptyResultR, Some (ErrorString (''router rule deletion failed: '' @ Error delErr))), st2)
           | (None, st2) \<Rightarrow>
               (case on_pworld (rk_UpdateRule (rrClient r) (RemoveRuleFinalizer rule)) st2 of
                  (Inl updErr, st3) \<Rightarrow> ((emptyResultR, Some updErr), st3)
                | (Inr _, st3) \<Rightarrow> ((emptyResultR, None), st3))))"

section \<open>Reconcile\<close>

definition after_apply ::
    "'w RuleReconciler \<Rightarrow> error option \<times> PortForwardRule \<Rightarrow> 'w pstate \<Rightarrow> (Result \<times> error option) \<times> 'w pstate" where
  "after_apply r res st =
     (case res of
        (Some err, rule) \<Rightarrow>
          if Error err = ''PortForwardOverlaps: requires backoff'' then
            ((emptyResultR\<lparr>RequeueAfter := 300 * Second\<rparr>, None),
             updateRuleStatusWithRetry r rule PhaseFailed ''Port forward overlap conflict'' st)
          else
            ((emptyResultR\<lparr>RequeueAfter := 60 * Second\<rparr>, None),
             updateRuleStatusWithRetry r rule PhaseFailed (Error err) st)
      | (None, rule) \<Rightarrow>
          ((emptyResultR\<lparr>RequeueAfter := 300 * Second\<rparr>, None),
           updateRuleStatusWithRetry r rule PhaseActive '''' st))"

text \<open>The body of \<open>Reconcile\<close>, which runs while the key is in \<open>activeReconciliations\<close>.\<close>

definition reconcile_rule_body ::
    "'w RuleReconciler \<Rightarrow> string \<Rightarrow> string \<Rightarrow> 'w pstate \<Rightarrow> (Result \<times> error option) \<times> 'w pstate" where
  "reconcile_rule_body r ns n st =
     (case on_pworld (rk_GetRule (rrClient r) ns n) st of
        (Inl err, st1) \<Rightarrow>
          if IsNotFound err then handleRuleDeletion r ns n st1 else ((emptyResultR, Some err), st1)
      | (Inr rule, st1) \<Rightarrow>
          if \<not> RuleContainsFinalizer rule then
            (case on_pworld (rk_UpdateRule (rrClient r) (AddRuleFinalizer rule)) st1 of
               (Inl err, st2) \<Rightarrow> ((emptyResultR, Some err), st2)
             | (Inr _, st2) \<Rightarrow> ((emptyResultR\<lparr>Requeue := True\<rparr>, None), st2))
          else if \<not> IsZeroTime (ruleDeletionTimestamp rule) then handleRuleDeletion r ns n st1
          else
            (case on_pworld (validateRule r rule) st1 of
               (Some err, st2) \<Rightarrow>
                 ((emptyResultR, Some err), updateRuleStatusWithRetry r rule PhaseFailed (Error err) st2)
             | (None, st2) \<Rightarrow> (case reconcilePortForwardRule r rule st2 of (res, st3) \<Rightarrow> after_apply r res st3)))"

text \<open>
  \<open>sync.Map.LoadOrStore(key, true)\<close>: whether the key was present, and the map afterwards.
\<close>

definition LoadOrStore :: "string \<Rightarrow> (string, bool) gomap \<Rightarrow> bool \<times> (string, bool) gomap" where
  "LoadOrStore key m = (if gm_has m key then (True, m) else (False, gm_set key True m))"

definition RuleReconcile ::
    "'w RuleReconciler \<Rightarrow> string \<Rightarrow> string \<Rightarrow> 'w pstate \<Rightarrow> (Result \<times> error option) \<times> 'w pstate" where
  "RuleReconcile r ns n st =
     (let resourceKey = rule_key ns n in
      case LoadOrStore resourceKey (activeReconciliations st) of
        (True, _) \<Rightarrow> ((emptyResultR\<lparr>RequeueAfter := 5 * Second\<rparr>, None), st)
      | (False, active) \<Rightarrow>
          (let (res, st1) = reconcile_rule_body r ns n (st\<lparr>activeReconciliations := active\<rparr>)
           in (res, st1\<lparr>activeReconciliations := gm_del resourceKey (activeReconciliations st1)\<rparr>)))"

end
