(* ===== verification/ReconcileEnv.thy ===== *)
theory ReconcileEnv
  imports Reconciler
begin

text \<open>
  The environment of the reconciler: a router that keeps its contract, and an API server and a clock
  whose calls leave the rules on the router alone.  \<open>ref_reconciler\<close> runs the reconciler on the
  UniFi router code over the in-memory gateway, next to an in-memory API server: the instance on which
  the interface is discharged and concrete runs are evaluated.
\<close>

section \<open>The interface\<close>

lemma on_world_eq: "on_world act st = (fst (act (world st)), st\<lparr>world := snd (act (world st))\<rparr>)"
  by (simp add: on_world_def split: prod.split)

lemma time_now_eq: "time_now r st = (fst (rcNow r (world st)), st\<lparr>world := snd (rcNow r (world st))\<rparr>)"
  by (simp add: time_now_def split: prod.split)

locale reconciler_env = router_contract "rcRouter r" rules
  for r :: "'w Reconciler" and rules :: "'w \<Rightarrow> PortForward list" +
  assumes get_frame: "mset (rules (snd (k_Get (rcClient r) ns n w))) = mset (rules w)"
    and update_frame: "mset (rules (snd (k_Update (rcClient r) svc w))) = mset (rules w)"
    and services_frame: "mset (rules (snd (k_ListServices (rcClient r) w))) = mset (rules w)"
    and now_frame: "mset (rules (snd (rcNow r w))) = mset (rules w)"
begin

lemma list_on_world:
  assumes "on_world (r_ListAllPortForwards (rcRouter r)) st = (Inr rs, st1)" "table_ok (rules (world st))"
  shows "set rs = set (rules (world st)) \<and> set (rules (world st1)) = set (rules (world st)) \<and>
    table_ok rs \<and> table_ok (rules (world st1))"
  using assms list_set [of "world st" rs] list_table_ok [of "world st" rs]
  by (auto simp: on_world_def split: prod.splits)

lemma same_rules:
  assumes "mset (rules w') = mset (rules w)"
  shows "set (rules w') = set (rules w)" "table_ok (rules w') = table_ok (rules w)"
  using assms mset_eq_setD table_ok_mset by metis+

lemma update_on_world: "set (rules (world (snd (on_world (k_Update (rcClient r) svc) st)))) = set (rules (world st))"
  using same_rules [OF update_frame] by (simp add: on_world_eq)

lemma get_on_world:
  "set (rules (world (snd (on_world (k_Get (rcClient r) ns n) st)))) = set (rules (world st))"
  "table_ok (rules (world (snd (on_world (k_Get (rcClient r) ns n) st)))) = table_ok (rules (world st))"
  using same_rules [OF get_frame] by (simp_all add: on_world_eq)

lemma now_world:
  "set (rules (world (snd (time_now r st)))) = set (rules (world st))"
  "table_ok (rules (world (snd (time_now r st)))) = table_ok (rules (world st))"
  using same_rules [OF now_frame] by (simp_all add: time_now_eq)

lemma mark_world: "set (rules (world (markServiceCleanup r key st))) = set (rules (world st))"
  using same_rules [OF now_frame] by (simp add: markServiceCleanup_def Let_def time_now_eq)

lemma recent_world:
  "set (rules (world (snd (isRecentlyCleaned r key st)))) = set (rules (world st))"
  "table_ok (rules (world (snd (isRecentlyCleaned r key st)))) = table_ok (rules (world st))"
  using same_rules [OF now_frame] by (simp_all add: isRecentlyCleaned_def Let_def time_now_eq split: option.split)

end

section \<open>An in-memory cluster\<close>

record cluster = gateway +
  cl_services :: "Service list"
  cl_clock :: int
  cl_conflicts :: "error list"

definition same_service :: "string \<Rightarrow> string \<Rightarrow> Service \<Rightarrow> bool" where
  "same_service ns n svc \<longleftrightarrow> svcNamespace svc = ns \<and> svcName svc = n"

text \<open>
  Updates replace the stored object; an object whose last finalizer goes while it is being deleted
  disappears.  The list of pending errors makes the next updates fail.
\<close>

definition ref_kube :: "'e cluster_scheme Kube" where
  "ref_kube =
     \<lparr>k_Get = (\<lambda>ns n c. (case List.find (same_service ns n) (cl_services c) of
         Some svc \<Rightarrow> (Inr svc, c)
       | None \<Rightarrow> (Inl (StatusError NotFound ''not found''), c))),
      k_Update = (\<lambda>svc c. (case cl_conflicts c of
         e # es \<Rightarrow> (Inl e, c\<lparr>cl_conflicts := es\<rparr>)
       | [] \<Rightarrow> (Inr (), c\<lparr>cl_services :=
           filter (\<lambda>s. svcDeletionTimestamp s = None \<or> svcFinalizers s \<noteq> [])
             (map (\<lambda>s. if same_service (svcNamespace svc) (svcName svc) s then svc else s) (cl_services c))\<rparr>))),
      k_ListServices = (\<lambda>c. (Inr (cl_services c), c))\<rparr>"

definition ref_reconciler :: "string \<Rightarrow> 'e cluster_scheme Reconciler" where
  "ref_reconciler site =
     \<lparr>rcClient = ref_kube, rcRouter = unifi_router (ref_router site), rcEventPublisher = Some True,
      rcCleanupWindow = 2 * Second, rcNow = (\<lambda>c. (cl_clock c, c))\<rparr>"

lemma ref_reconciler_simps [simp]:
  "rcClient (ref_reconciler site) = ref_kube" "rcRouter (ref_reconciler site) = unifi_router (ref_router site)"
  "rcEventPublisher (ref_reconciler site) = Some True" "rcCleanupWindow (ref_reconciler site) = 2 * Second"
  "rcNow (ref_reconciler site) c = (cl_clock c, c)"
  by (simp_all add: ref_reconciler_def)

interpretation refc: reconciler_env "ref_reconciler site" gw_rules
  unfolding reconciler_env_def reconciler_env_axioms_def ref_reconciler_simps
  using ref.router_contract_axioms by (auto simp: ref_kube_def split: option.split list.split)

section \<open>Example data\<close>

definition example_cluster :: "PortForward list \<Rightarrow> Service list \<Rightarrow> bool list \<Rightarrow> error list \<Rightarrow> cluster" where
  "example_cluster rs svcs faults conflicts =
     \<lparr>gw_rules = rs, gw_session = True, gw_faults = faults, cl_services = svcs, cl_clock = 1000, cl_conflicts = conflicts\<rparr>"

definition example_rstate :: "cluster \<Rightarrow> cluster rstate" where
  "example_rstate c = \<lparr>usedPorts = [], world = c, recentCleanups = [], cleanupRetryCount = [], events = []\<rparr>"

definition dying_service :: Service where
  "dying_service = (example_service ''8080:http'')\<lparr>svcFinalizers := [FinalizerLabel], svcDeletionTimestamp := Some 5\<rparr>"

definition live_service :: Service where
  "live_service = (example_service ''8080:http'')\<lparr>svcFinalizers := [FinalizerLabel],
     svcAnnotations := Some [(FilterAnnotation, ''8080:http'')]\<rparr>"

definition example_rules :: "PortForward list" where
  "example_rules = [example_rule ''a'' ''web/shop:old'' 9090 80, example_rule ''b'' ''other/svc:x'' 7000 70]"

lemmas cluster_eval = example_cluster_def example_rstate_def dying_service_def live_service_def example_rules_def
  example_service_def example_port_def ref_kube_def same_service_def on_world_def time_now_def

lemmas reconcile_eval = finalizeService_def executeCleanupOperations_def cleanup_ops_def cleanup_op_def
  RuleBelongsToService_def HasPrefix_def rule_config_def strToInt_def emptyResult_def UnmarkPortUsed_def
  rollbackCleanupOperations_def handleFinalizerCleanup_def handleMissingServiceCleanup_def Let_def
  markServiceCleanup_def cleanupOldEntries_def clearCleanupRetries_def emptyResultR_def serviceKey_def
  RemoveFinalizer_def recordCleanupRetry_def getCleanupRetryCount_def calculateRetryInterval_def

lemma example_rules_ok:
  "table_ok example_rules" "slot (example_rule i nm d f) = (if in_int64 d then Some (d, ''tcp'') else slot (example_rule i nm d f))"
  by (simp_all add: example_rules_def router_eval table_ok_def exclusive_def go_eval Atoi_Itoa)

end
