(* ===== verification/RuleEnv.thy ===== *)
theory RuleEnv
  imports RuleController ReconcileEnv
begin

text \<open>
  The environment of the PortForwardRule reconciler: a router that keeps its contract, and an API server
  and a clock whose calls leave the rules on the router alone.  \<open>ref_rule_reconciler\<close> is the
  instance over the UniFi router code and the in-memory gateway, with an in-memory store of
  PortForwardRules.
\<close>

section \<open>The interface\<close>

lemma on_pworld_eq: "on_pworld act st = (fst (act (pWorld st)), st\<lparr>pWorld := snd (act (pWorld st))\<rparr>)"
  by (simp add: on_pworld_def split: prod.split)

lemma on_pworldE:
  assumes "on_pworld act st = (res, st')"
  obtains w' where "act (pWorld st) = (res, w')" "st' = st\<lparr>pWorld := w'\<rparr>"
  using assms by (auto simp: on_pworld_def split: prod.splits)

locale rule_env = router_contract "rrRouter r" rules
  for r :: "'w RuleReconciler" and rules :: "'w \<Rightarrow> PortForward list" +
  assumes get_service_frame: "mset (rules (snd (k_Get (rrClient r) ns n w))) = mset (rules w)"
    and list_services_frame: "mset (rules (snd (k_ListServices (rrClient r) w))) = mset (rules w)"
    and get_rule_frame: "mset (rules (snd (rk_GetRule (rrClient r) ns n w))) = mset (rules w)"
    and update_rule_frame: "mset (rules (snd (rk_UpdateRule (rrClient r) rule w))) = mset (rules w)"
    and status_frame: "mset (rules (snd (rk_UpdateRuleStatus (rrClient r) rule w))) = mset (rules w)"
    and list_rules_frame: "mset (rules (snd (rk_ListRules (rrClient r) w))) = mset (rules w)"
    and rule_now_frame: "mset (rules (snd (rrNow r w))) = mset (rules w)"
begin

lemmas api_frames = get_service_frame list_services_frame get_rule_frame update_rule_frame status_frame
  list_rules_frame rule_now_frame

lemma service_exists_frame: "mset (rules (snd (ValidateServiceExists rule (Some (rrClient r)) w))) = mset (rules w)"
  using get_service_frame
  by (auto simp: ValidateServiceExists_def Let_def split: option.split prod.split sum.split)
    (metis snd_conv)+

lemma conflict_loop_frame: "mset (rules (snd (conflict_loop rule (rrClient r) qs errs w))) = mset (rules w)"
proof (induction qs arbitrary: errs w)
  case (Cons q qs)
  show ?case using list_services_frame [of w] Cons.IH
    by (auto simp: Let_def split: prod.split sum.split)
qed simp

lemma validate_frame: "mset (rules (snd (validateRule r rule w))) = mset (rules w)"
proof -
  have c: "mset (rules (snd (ValidateCrossNamespacePortConflict rule (Some (rrClient r)) w))) = mset (rules w)" for w
    using list_rules_frame [of w] conflict_loop_frame
    by (auto simp: ValidateCrossNamespacePortConflict_def split: prod.split sum.split)
  show ?thesis using c service_exists_frame [of rule w]
    by (auto simp: validateRule_def Let_def split: prod.split option.split)
      (metis snd_conv)+
qed

lemma destination_frame: "mset (rules (snd (destination r rule w))) = mset (rules w)"
  using get_service_frame
  by (auto simp: destination_def getServiceDestination_def Let_def split: option.split prod.split sum.split)
    (metis snd_conv)+

lemma phase_status_frame: "mset (rules (snd (phase_status r phase msg status w))) = mset (rules w)"
  using rule_now_frame by (auto simp: phase_status_def Let_def split: prod.split) (metis snd_conv)+

lemma status_loop_frame: "mset (rules (status_loop r phase msg k first rule w)) = mset (rules w)"
proof (induction k arbitrary: first rule w)
  case (Suc k)
  have g: "mset (rules (snd (if first then (Inr rule, w) else rk_GetRule (rrClient r) (ruleNamespace rule) (ruleName rule) w))) = mset (rules w)"
    using get_rule_frame by simp
  show ?case
    using g phase_status_frame status_frame Suc.IH
    by (auto split: prod.split sum.split simp: Let_def) (metis snd_conv)+
qed simp

lemma update_status_frame:
  "mset (rules (pWorld (updateRuleStatusWithRetry r rule phase msg st))) = mset (rules (pWorld st))"
  by (simp add: updateRuleStatusWithRetry_def status_loop_frame)

lemma same_ruleset:
  assumes "mset (rules w') = mset (rules w)"
  shows "set (rules w') = set (rules w)" "table_ok (rules w') = table_ok (rules w)"
  using assms mset_eq_setD table_ok_mset by metis+

end

section \<open>An in-memory store of rules\<close>

record rule_cluster = cluster +
  rl_rules :: "PortForwardRule list"
  rl_conflicts :: "error list"

definition same_rule :: "string \<Rightarrow> string \<Rightarrow> PortForwardRule \<Rightarrow> bool" where
  "same_rule ns n rule \<longleftrightarrow> ruleNamespace rule = ns \<and> ruleName rule = n"

definition store_rule :: "(PortForwardRule \<Rightarrow> PortForwardRule) \<Rightarrow> PortForwardRule \<Rightarrow> PortForwardRule list \<Rightarrow> PortForwardRule list" where
  "store_rule f rule rs =
     filter (\<lambda>q. ruleDeletionTimestamp q = None \<or> ruleFinalizers q \<noteq> [])
       (map (\<lambda>q. if same_rule (ruleNamespace rule) (ruleName rule) q then f q else q) rs)"

text \<open>
  The status is a subresource: an update of the object keeps the stored status, an update of the status
  changes nothing else.  Pending errors in \<open>rl_conflicts\<close> make the next status updates fail.
\<close>

definition ref_rule_client :: "rule_cluster RuleClient" where
  "ref_rule_client =
     \<lparr>k_Get = k_Get ref_kube, k_Update = k_Update ref_kube, k_ListServices = k_ListServices ref_kube,
      rk_GetRule = (\<lambda>ns n c. (case List.find (same_rule ns n) (rl_rules c) of
         Some rule \<Rightarrow> (Inr rule, c)
       | None \<Rightarrow> (Inl (StatusError NotFound ''not found''), c))),
      rk_UpdateRule = (\<lambda>rule c. (Inr (), c\<lparr>rl_rules :=
         store_rule (\<lambda>q. rule\<lparr>ruleStatus := ruleStatus q\<rparr>) rule (rl_rules c)\<rparr>)),
      rk_UpdateRuleStatus = (\<lambda>rule c. (case rl_conflicts c of
         e # es \<Rightarrow> (Inl e, c\<lparr>rl_conflicts := es\<rparr>)
       | [] \<Rightarrow> (Inr (), c\<lparr>rl_rules := store_rule (\<lambda>q. q\<lparr>ruleStatus := ruleStatus rule\<rparr>) rule (rl_rules c)\<rparr>))),
      rk_ListRules = (\<lambda>c. (Inr (rl_rules c), c))\<rparr>"

definition ref_rule_reconciler :: "string \<Rightarrow> rule_cluster RuleReconciler" where
  "ref_rule_reconciler site =
     \<lparr>rrClient = ref_rule_client, rrRouter = unifi_router (ref_router site), rrNow = (\<lambda>c. (cl_clock c, c)),
      rrFmt = (\<lambda>errs. ''invalid'')\<rparr>"

lemma ref_rule_reconciler_simps [simp]:
  "rrClient (ref_rule_reconciler site) = ref_rule_client"
  "rrRouter (ref_rule_reconciler site) = unifi_router (ref_router site)"
  "rrNow (ref_rule_reconciler site) c = (cl_clock c, c)"
  by (simp_all add: ref_rule_reconciler_def)

interpretation refr: rule_env "ref_rule_reconciler site" gw_rules
  unfolding rule_env_def rule_env_axioms_def ref_rule_reconciler_simps
  using ref.router_contract_axioms by (auto simp: ref_rule_client_def ref_kube_def split: option.split list.split)

section \<open>Example data\<close>

definition example_spec :: PortForwardRuleSpec where
  "example_spec =
     \<lparr>specExternalPort = 8080, specProtocol = ''tcp'', specServiceRef = None, specDestinationIP = Some ''10.0.0.7'',
      specDestinationPort = Some 80, specEnabled = True, specDescription = '''', specSourceIPRestriction = None,
      specInterface = ''wan'', specPriority = 100, specConflictPolicy = ''warn'', specLogEnabled = False\<rparr>"

definition blank_status :: PortForwardRuleStatus where
  "blank_status =
     \<lparr>stPhase = '''', stObservedGeneration = 0, stLastAppliedTime = None, stRouterRuleID = '''', stServiceStatus = None,
      stConditions = [], stConflicts = [], stErrorInfo = None\<rparr>"

definition example_pfr :: PortForwardRule where
  "example_pfr =
     \<lparr>ruleNamespace = ''shop'', ruleName = ''web'', ruleResourceVersion = ''1'', ruleGeneration = 1,
      ruleFinalizers = [FinalizerLabel], ruleDeletionTimestamp = None, ruleSpec = example_spec, ruleStatus = blank_status\<rparr>"

definition example_rule_cluster ::
    "PortForward list \<Rightarrow> Service list \<Rightarrow> PortForwardRule list \<Rightarrow> error list \<Rightarrow> rule_cluster" where
  "example_rule_cluster rs svcs pfrs conflicts =
     \<lparr>gw_rules = rs, gw_session = True, gw_faults = [], cl_services = svcs, cl_clock = 1000, cl_conflicts = [],
      rl_rules = pfrs, rl_conflicts = conflicts\<rparr>"

definition example_pstate :: "rule_cluster \<Rightarrow> rule_cluster pstate" where
  "example_pstate c = \<lparr>pWorld = c, activeReconciliations = [], ruleEvents = []\<rparr>"

lemmas rule_cluster_eval = example_spec_def blank_status_def example_pfr_def example_rule_cluster_def example_pstate_def
  ref_rule_client_def store_rule_def same_rule_def on_pworld_def

lemma maxAttempts_eq: "maxAttempts = Suc (Suc (Suc 0))"
  by (simp add: maxAttempts_def)

lemmas rule_eval = RuleReconcile_def LoadOrStore_def reconcile_rule_body_def validateRule_def ValidateCreate_def validateSpec_def
  validateMutuallyExclusiveFields_def validProtocols_def validPolicies_def Let_def rule_key_def RuleContainsFinalizer_def
  ParseIP_ok_def parseIPv4_def ipv4_field_def ValidateCrossNamespacePortConflict_def
  find_forbidden_def reconcilePortForwardRule_def destination_def write_router_rule_def router_rule_def router_rule_name_def
  applied_status_def rule_applied_event_def after_apply_def updateRuleStatusWithRetry_def maxAttempts_eq
  phase_status_def PhaseActive_def PhaseFailed_def emptyResultR_def needsOwnership_def HasPrefix_def
  handleRuleDeletion_def deleteRouterRuleByID_def RemoveRuleFinalizer_def IsZeroTime_def

end
