(* ===== verification/Cleanup.thy ===== *)
theory Cleanup
  imports ReconcileEnv
begin

text \<open>
  Clean-up of services (finalizeService, handleFinalizerCleanup, handleMissingServiceCleanup of
  pkg/controller/reconciler.go): which rules are removed, when the finalizer goes, and how often a
  failing clean-up is retried.
\<close>

section \<open>Frames\<close>

lemma publish_frame [simp]:
  "world (publish r f st) = world st" "usedPorts (publish r f st) = usedPorts st"
  "cleanupRetryCount (publish r f st) = cleanupRetryCount st" "recentCleanups (publish r f st) = recentCleanups st"
  by (simp_all add: publish_def split: option.split)

lemma fold_publish_frame [simp]:
  "world (fold (\<lambda>x. publish r (f x)) xs st) = world st"
  "usedPorts (fold (\<lambda>x. publish r (f x)) xs st) = usedPorts st"
  "cleanupRetryCount (fold (\<lambda>x. publish r (f x)) xs st) = cleanupRetryCount st"
  "recentCleanups (fold (\<lambda>x. publish r (f x)) xs st) = recentCleanups st"
  by (induction xs arbitrary: st) simp_all

lemma cleanup_loop_frame:
  assumes "cleanup_loop R ops completed result st = (res, st')"
  shows "cleanupRetryCount st' = cleanupRetryCount st \<and> recentCleanups st' = recentCleanups st"
  using assms
proof (induction ops arbitrary: completed result st)
  case (Cons op ops)
  then show ?case
    by (cases "r_RemovePort R (opConfig op) (world st)" rule: io_cases)
      (auto simp: rollbackCleanupOperations_def Let_def)
qed simp

lemma executeCleanup_frame:
  "executeCleanupOperations R ops st = (res, st') \<Longrightarrow>
     cleanupRetryCount st' = cleanupRetryCount st \<and> recentCleanups st' = recentCleanups st"
  by (auto simp: executeCleanupOperations_def split: option.splits dest: cleanup_loop_frame)

section \<open>Removed rules\<close>

lemma cleanup_ops_delete: "op \<in> set (cleanup_ops reason ns n rs) \<Longrightarrow> opType op = OpDelete"
  by (auto simp: cleanup_ops_def cleanup_op_def)

lemma cleanup_ops_loop: "executeCleanupOperations R (cleanup_ops reason ns n rs) st =
   cleanup_loop R (cleanup_ops reason ns n rs) [] emptyResult st"
  using cleanup_ops_delete find_SomeD by (fastforce simp: executeCleanupOperations_def split: option.split)

text \<open>The rules a clean-up of a service can address: those of the service have a numeric external port.\<close>

definition addressable :: "string \<Rightarrow> string \<Rightarrow> PortForward set \<Rightarrow> bool" where
  "addressable ns n S \<longleftrightarrow> (\<forall>rule \<in> S. RuleBelongsToService (pfName rule) ns n \<longrightarrow> slot rule \<noteq> None)"

lemma cleanup_op_slot: "slot rule \<noteq> None \<Longrightarrow> slot rule = Some (op_slot (cleanup_op reason rule))"
  by (auto simp: slot_def cleanup_op_def rule_config_def cslot_def strToInt_def)

lemma cleanup_set:
  assumes "exclusive S" "addressable ns n S" "set rs = S"
    and "S' = {rule \<in> S. \<forall>op \<in> set (cleanup_ops reason ns n rs). slot rule \<noteq> Some (op_slot op)}"
  shows "S' = {rule \<in> S. \<not> RuleBelongsToService (pfName rule) ns n}"
proof -
  have "(\<forall>op \<in> set (cleanup_ops reason ns n rs). slot rule \<noteq> Some (op_slot op)) \<longleftrightarrow>
      \<not> RuleBelongsToService (pfName rule) ns n" if "rule \<in> S" for rule
  proof
    assume no: "\<forall>op \<in> set (cleanup_ops reason ns n rs). slot rule \<noteq> Some (op_slot op)"
    show "\<not> RuleBelongsToService (pfName rule) ns n"
    proof
      assume "RuleBelongsToService (pfName rule) ns n"
      with that assms have "cleanup_op reason rule \<in> set (cleanup_ops reason ns n rs)" "slot rule \<noteq> None"
        by (auto simp: cleanup_ops_def addressable_def)
      with no cleanup_op_slot show False by blast
    qed
  next
    assume not: "\<not> RuleBelongsToService (pfName rule) ns n"
    show "\<forall>op \<in> set (cleanup_ops reason ns n rs). slot rule \<noteq> Some (op_slot op)"
    proof (intro ballI notI)
      fix op assume "op \<in> set (cleanup_ops reason ns n rs)" and same: "slot rule = Some (op_slot op)"
      then obtain q where q: "q \<in> S" "RuleBelongsToService (pfName q) ns n" "op = cleanup_op reason q"
        using assms(3) by (auto simp: cleanup_ops_def)
      with assms(2) cleanup_op_slot have "slot q = Some (op_slot op)" by (auto simp: addressable_def)
      with exclusiveD [OF assms(1) that q(1) same] q not show False by blast
    qed
  qed
  with assms(4) show ?thesis by blast
qed

context reconciler_env
begin

lemma cleanup_removes:
  assumes run: "executeCleanupOperations (rcRouter r) (cleanup_ops reason ns n rs) st = ((result, None), st')"
    and ok: "table_ok (rules (world st))" and rs: "set rs = set (rules (world st))"
    and adr: "addressable ns n (set (rules (world st)))"
  shows "set (rules (world st')) = {rule \<in> set (rules (world st)). \<not> RuleBelongsToService (pfName rule) ns n} \<and>
    table_ok (rules (world st'))"
proof -
  let ?ops = "cleanup_ops reason ns n rs"
  from cleanup_ok [OF run [unfolded cleanup_ops_loop] ok] cleanup_ops_delete
  have post: "table_ok (rules (world st'))" "ops_post ?ops (set (rules (world st))) (set (rules (world st')))" by auto
  from delete_ops_post [OF post(2)] cleanup_ops_delete
  have "set (rules (world st')) = {rule \<in> set (rules (world st)). \<forall>op \<in> set ?ops. slot rule \<noteq> Some (op_slot op)}"
    by blast
  from cleanup_set [OF table_ok_exclusive [OF ok] adr rs this] post show ?thesis by blast
qed

lemma finalizeService_ok:
  assumes run: "finalizeService r service st = (None, st')" and ok: "table_ok (rules (world st))"
    and adr: "addressable (svcNamespace service) (svcName service) (set (rules (world st)))"
  shows "set (rules (world st')) = {rule \<in> set (rules (world st)). \<not> belongs service rule} \<and> table_ok (rules (world st'))"
proof -
  from run obtain rs st1 result st2 where l: "on_world (r_ListAllPortForwards (rcRouter r)) st = (Inr rs, st1)"
    and c: "executeCleanupOperations (rcRouter r)
      (cleanup_ops ''service_deletion_finalizer'' (svcNamespace service) (svcName service) rs) st1 = ((result, None), st2)"
    and w: "world st' = world st2"
    by (auto simp: finalizeService_def split: prod.splits sum.splits option.splits)
  from list_on_world [OF l ok] cleanup_removes [OF c] adr w show ?thesis by (simp add: belongs_def)
qed

end

lemma finalizeService_retry_frame:
  "finalizeService r service st = (e, st') \<Longrightarrow>
     cleanupRetryCount st' = cleanupRetryCount st \<and> recentCleanups st' = recentCleanups st"
  by (auto simp: finalizeService_def on_world_eq split: prod.splits sum.splits option.splits dest!: executeCleanup_frame)

section \<open>The finalizer\<close>

lemma handleFinalizer_done:
  assumes "\<not> shouldGiveUpOnCleanup ovf (serviceKey service) st" "finalizeService r service st = (None, st1)"
  shows "handleFinalizerCleanup ovf r service st =
    (case on_world (k_Update (rcClient r) (RemoveFinalizer service))
        (markServiceCleanup r (serviceKey service) (clearCleanupRetries (serviceKey service) st1)) of
       (Inl err, st3) \<Rightarrow> ((emptyResultR, Some err), st3)
     | (Inr _, st3) \<Rightarrow> ((emptyResultR, None), st3))"
  using assms by (simp add: handleFinalizerCleanup_def Let_def)

lemma handleFinalizer_done_rules:
  assumes "reconciler_env r rules"
    and "\<not> shouldGiveUpOnCleanup ovf (serviceKey service) st" "finalizeService r service st = (None, st1)"
  shows "set (rules (world (snd (handleFinalizerCleanup ovf r service st)))) = set (rules (world st1))"
    "gm_get (cleanupRetryCount (snd (handleFinalizerCleanup ovf r service st))) (serviceKey service) = None"
proof -
  have last: "snd (handleFinalizerCleanup ovf r service st) = snd (on_world (k_Update (rcClient r) (RemoveFinalizer service))
      (markServiceCleanup r (serviceKey service) (clearCleanupRetries (serviceKey service) st1)))"
    by (simp add: handleFinalizer_done [OF assms(2,3)] split: prod.split sum.split)
  show "set (rules (world (snd (handleFinalizerCleanup ovf r service st)))) = set (rules (world st1))"
    unfolding last
    by (simp add: reconciler_env.update_on_world [OF assms(1)] reconciler_env.mark_world [OF assms(1)] clearCleanupRetries_def)
  show "gm_get (cleanupRetryCount (snd (handleFinalizerCleanup ovf r service st))) (serviceKey service) = None"
    unfolding last by (simp add: on_world_eq markServiceCleanup_def time_now_eq Let_def clearCleanupRetries_def)
qed

text \<open>
  C7: a service is released only when its rules are gone.  If \<open>handleFinalizerCleanup\<close> returns
  without error and has not given up, the router holds no rule of the service any more, every other
  rule is untouched, and the retry counter of the service is reset.
\<close>

theorem finalizer_cleanup_complete:
  assumes env: "reconciler_env r rules" and ok: "table_ok (rules (world st))"
    and adr: "addressable (svcNamespace service) (svcName service) (set (rules (world st)))"
    and go: "\<not> shouldGiveUpOnCleanup ovf (serviceKey service) st"
    and run: "handleFinalizerCleanup ovf r service st = ((res, None), st')"
  shows "set (rules (world st')) = {rule \<in> set (rules (world st)). \<not> belongs service rule} \<and>
    gm_get (cleanupRetryCount st') (serviceKey service) = None"
proof -
  from run go obtain st1 where f: "finalizeService r service st = (None, st1)"
    by (auto simp: handleFinalizerCleanup_def Let_def split: prod.splits option.splits)
  from handleFinalizer_done_rules [OF env go f] run reconciler_env.finalizeService_ok [OF env f ok adr]
  show ?thesis by simp
qed

text \<open>
  A failed clean-up keeps the finalizer.  If \<open>finalizeService\<close> fails, the handler returns that
  error, makes no further call to the API server (in particular the finalizer is not removed), counts
  the retry, and puts the interval of the new count into the result, which the queue ignores because of the error
  (RetryLoop).
\<close>

lemma finalizer_kept_on_failure:
  assumes "\<not> shouldGiveUpOnCleanup ovf (serviceKey service) st"
    and "finalizeService r service st = (Some err, st1)"
  shows "\<exists>st'. handleFinalizerCleanup ovf r service st =
      ((\<lparr>Requeue = False, RequeueAfter = backoff ovf (Suc (getCleanupRetryCount (serviceKey service) st))\<rparr>, Some err), st') \<and>
    world st' = world st1 \<and> recentCleanups st' = recentCleanups st \<and>
    getCleanupRetryCount (serviceKey service) st' = Suc (getCleanupRetryCount (serviceKey service) st)"
proof -
  let ?key = "serviceKey service"
  from finalizeService_retry_frame [OF assms(2)]
  have frame: "cleanupRetryCount st1 = cleanupRetryCount st" "recentCleanups st1 = recentCleanups st" by auto
  have count: "getCleanupRetryCount ?key (recordCleanupRetry ?key st1) = Suc (getCleanupRetryCount ?key st)"
    by (simp add: getCleanupRetryCount_def recordCleanupRetry_def frame)
  show ?thesis
    using assms frame count
    by (simp add: handleFinalizerCleanup_def Let_def calculateRetryInterval_def emptyResultR_def)
      (simp add: recordCleanupRetry_def)
qed

section \<open>Retries\<close>

lemma backoff_values:
  "backoff ovf 0 = 30 * Second" "backoff ovf 1 = 60 * Second" "backoff ovf 2 = 120 * Second"
  "backoff ovf 3 = 240 * Second" "backoff ovf 4 = 480 * Second" "backoff ovf 5 = 600 * Second"
  by (simp_all add: backoff_def CleanupRetryStartInterval_def CleanupRetryMaxInterval_def Second_def in_int64_def Let_def)

lemma give_up_iff: "shouldGiveUpOnCleanup ovf key st \<longleftrightarrow> getCleanupRetryCount key st \<ge> 5"
proof (cases "getCleanupRetryCount key st \<ge> 5")
  case False
  then consider "getCleanupRetryCount key st = 0" | "getCleanupRetryCount key st = 1" | "getCleanupRetryCount key st = 2"
    | "getCleanupRetryCount key st = 3" | "getCleanupRetryCount key st = 4" by linarith
  then show ?thesis
    by cases (simp_all add: shouldGiveUpOnCleanup_def MaxCleanupRetries_def upt_rec CleanupDeadline_def
        backoff_def CleanupRetryStartInterval_def CleanupRetryMaxInterval_def Second_def in_int64_def Let_def)
qed (simp add: shouldGiveUpOnCleanup_def MaxCleanupRetries_def)

text \<open>
  The retry schedule.  A clean-up is given up after exactly five failed attempts; the waits that the handler puts into
  its result after the first to the fifth failure are 60, 120, 240, 480 and 600 seconds, on every platform.  The
  two-hour deadline never decides: the waits within five retries add up to less.
\<close>

lemma retry_schedule:
  "(shouldGiveUpOnCleanup ovf key st \<longleftrightarrow> getCleanupRetryCount key st \<ge> 5) \<and>
   map (backoff ovf) [1, 2, 3, 4, 5] = [60 * Second, 120 * Second, 240 * Second, 480 * Second, 600 * Second]"
  by (simp add: give_up_iff backoff_values backoff_values(2) [unfolded One_nat_def])

lemma example_addressable: "addressable ''web'' ''shop'' (set example_rules)"
  by (simp add: addressable_def example_rules_def router_eval go_eval)

lemma example_belongs:
  "{rule \<in> set example_rules. \<not> belongs dying_service rule} = {example_rule ''b'' ''other/svc:x'' 7000 70}"
  by (auto simp: example_rules_def belongs_def RuleBelongsToService_def HasPrefix_def cluster_eval router_eval)

lemma example_no_retries: "\<not> shouldGiveUpOnCleanup ovf key (example_rstate c)"
  by (simp add: give_up_iff getCleanupRetryCount_def example_rstate_def)

theorem finalizer_cleanup_complete_witness:
  "\<exists>res st'. handleFinalizerCleanup (\<lambda>_. 0) (ref_reconciler ''default'') dying_service
       (example_rstate (example_cluster example_rules [dying_service] [] [])) = ((res, None), st') \<and>
     set (gw_rules (world st')) = {example_rule ''b'' ''other/svc:x'' 7000 70}"
proof -
  let ?st = "example_rstate (example_cluster example_rules [dying_service] [] [])"
  obtain res st' where
    run: "handleFinalizerCleanup (\<lambda>_. 0) (ref_reconciler ''default'') dying_service ?st = ((res, None), st')"
    by (simp add: handleFinalizerCleanup_def example_no_retries)
      (simp add: reconcile_eval router_eval cluster_eval go_eval)
  have st: "gw_rules (world ?st) = example_rules" "svcNamespace dying_service = ''web''" "svcName dying_service = ''shop''"
    by (simp_all add: cluster_eval)
  from finalizer_cleanup_complete [OF refc.reconciler_env_axioms _ _ example_no_retries run] run show ?thesis
    by (simp add: st example_rules_ok example_addressable example_belongs)
qed

lemma finalizer_kept_on_failure_example:
  "\<exists>res st'. handleFinalizerCleanup (\<lambda>_. 0) (ref_reconciler ''default'') dying_service
       (example_rstate (example_cluster example_rules [dying_service] [True] [])) =
     ((res, Some (ServerError 500 ''internal error'')), st') \<and>
     RequeueAfter res = 60 * Second \<and> cl_services (world st') = [dying_service]"
proof -
  let ?st = "example_rstate (example_cluster example_rules [dying_service] [True] [])"
  have f: "finalizeService (ref_reconciler ''default'') dying_service ?st =
    (Some (ServerError 500 ''internal error''), ?st\<lparr>world := example_cluster example_rules [dying_service] [] []\<rparr>)"
    by (simp add: reconcile_eval router_eval cluster_eval go_eval)
  from finalizer_kept_on_failure [OF example_no_retries f, of "\<lambda>_. 0"] show ?thesis
    by (auto simp: getCleanupRetryCount_def example_rstate_def backoff_values(2) [unfolded One_nat_def])
      (simp add: example_cluster_def)
qed

section \<open>The retry counter\<close>

text \<open>
  The life of a service under deletion: calls of the handler, in any order with anything else that
  changes the world, the port tracking or the events, and with clean-ups of other services.
\<close>

inductive deletion_step :: "(nat \<Rightarrow> int) \<Rightarrow> 'w Reconciler \<Rightarrow> 'w rstate \<Rightarrow> 'w rstate \<Rightarrow> bool"
  for ovf r where
  handler: "handleFinalizerCleanup ovf r service st = (out, st') \<Longrightarrow> deletion_step ovf r st st'"
| outside: "deletion_step ovf r st (st\<lparr>world := w, usedPorts := used, events := es\<rparr>)"

inductive_cases deletion_stepE: "deletion_step ovf r st st'"

lemma handler_retries:
  assumes "handleFinalizerCleanup ovf r service st = (out, st')" "getCleanupRetryCount key st \<le> 5"
  shows "getCleanupRetryCount key st' \<le> 5"
proof (cases "shouldGiveUpOnCleanup ovf (serviceKey service) st")
  case True
  with assms show ?thesis by (simp add: handleFinalizerCleanup_def)
next
  case False
  then have lt: "getCleanupRetryCount (serviceKey service) st < 5" by (simp add: give_up_iff)
  obtain e st1 where f: "finalizeService r service st = (e, st1)" by fastforce
  from finalizeService_retry_frame [OF f] have same: "cleanupRetryCount st1 = cleanupRetryCount st" by simp
  have "cleanupRetryCount st' =
     (case e of
        Some err \<Rightarrow> gm_set (serviceKey service) (Suc (getCleanupRetryCount (serviceKey service) st)) (cleanupRetryCount st)
      | None \<Rightarrow> gm_del (serviceKey service) (cleanupRetryCount st))"
    using assms(1) False f
    by (auto simp: handleFinalizerCleanup_def recordCleanupRetry_def getCleanupRetryCount_def same Let_def on_world_eq
        markServiceCleanup_def time_now_eq clearCleanupRetries_def split: option.splits sum.splits)
  with assms(2) lt show ?thesis by (auto simp: getCleanupRetryCount_def split: option.splits)
qed

text \<open>
  C40: no service is retried more than five times between two successful clean-ups.  In every sequence of
  handler calls for any services, interleaved with arbitrary changes of the router, the cluster and the
  port tracking, the retry counter of each service stays within the limit.
\<close>

theorem retries_bounded:
  assumes "(deletion_step ovf r)\<^sup>*\<^sup>* st st'" and "getCleanupRetryCount key st = 0"
  shows "getCleanupRetryCount key st' \<le> MaxCleanupRetries"
proof -
  have "getCleanupRetryCount key st' \<le> 5" using assms
  proof (induction rule: rtranclp_induct)
    case (step st1 st2)
    then show ?case by (auto elim!: deletion_stepE dest: handler_retries simp: getCleanupRetryCount_def)
  qed simp
  then show ?thesis by (simp add: MaxCleanupRetries_def)
qed

theorem retries_bounded_witness:
  "\<exists>st'. (deletion_step (\<lambda>_. 0) (ref_reconciler ''default''))\<^sup>*\<^sup>*
       (example_rstate (example_cluster example_rules [dying_service] [True] [])) st' \<and>
     getCleanupRetryCount ''web/shop'' st' = 1 \<and> getCleanupRetryCount ''web/shop'' st' \<le> MaxCleanupRetries"
proof -
  let ?st = "example_rstate (example_cluster example_rules [dying_service] [True] [])"
  obtain out st' where run: "handleFinalizerCleanup (\<lambda>_. 0) (ref_reconciler ''default'') dying_service ?st = (out, st')"
    and one: "getCleanupRetryCount ''web/shop'' st' = 1"
    by (simp add: handleFinalizerCleanup_def example_no_retries)
      (simp add: reconcile_eval router_eval cluster_eval go_eval)
  from run have steps: "(deletion_step (\<lambda>_. 0) (ref_reconciler ''default''))\<^sup>*\<^sup>* ?st st'"
    by (intro r_into_rtranclp) (rule deletion_step.handler)
  from retries_bounded [OF steps, of "''web/shop''"] steps one show ?thesis
    by (auto simp: getCleanupRetryCount_def example_rstate_def)
qed

section \<open>Missing services\<close>

text \<open>
  Clean-up after a lost deletion.  If the service object is gone and \<open>handleMissingServiceCleanup\<close>
  succeeds, the router holds no rule of that service and every other rule is untouched.
\<close>

lemma missing_service_cleanup_complete:
  assumes env: "reconciler_env r rules" and ok: "table_ok (rules (world st))"
    and adr: "addressable ns n (set (rules (world st)))"
    and run: "handleMissingServiceCleanup r ns n st = ((res, None), st')"
  shows "set (rules (world st')) = {rule \<in> set (rules (world st)). \<not> RuleBelongsToService (pfName rule) ns n}"
proof -
  from run obtain rs st1 where l: "on_world (r_ListAllPortForwards (rcRouter r)) st = (Inr rs, st1)"
    by (auto simp: handleMissingServiceCleanup_def split: prod.splits sum.splits)
  note st1 = reconciler_env.list_on_world [OF env l ok]
  let ?ops = "cleanup_ops ''missing_service_race_condition'' ns n rs"
  show ?thesis
  proof (cases "?ops = []")
    case True
    then have "\<forall>rule \<in> set rs. \<not> RuleBelongsToService (pfName rule) ns n"
      by (auto simp: cleanup_ops_def filter_empty_conv)
    moreover from True run l have "st' = st1" by (simp add: handleMissingServiceCleanup_def Let_def)
    ultimately show ?thesis using st1 by auto
  next
    case False
    with run l obtain result st2 where
      c: "executeCleanupOperations (rcRouter r) ?ops st1 = ((result, None), st2)"
      and w: "st' = markServiceCleanup r (ns @ ''/'' @ n) st2"
      by (auto simp: handleMissingServiceCleanup_def Let_def split: prod.splits option.splits)
    from reconciler_env.cleanup_removes [OF env c] st1 adr
    have "set (rules (world st2)) = {rule \<in> set (rules (world st)). \<not> RuleBelongsToService (pfName rule) ns n}" by simp
    then show ?thesis unfolding w by (simp add: reconciler_env.mark_world [OF env])
  qed
qed

theorem missing_service_cleanup_complete_witness:
  "\<exists>res st'. handleMissingServiceCleanup (ref_reconciler ''default'') ''web'' ''shop''
       (example_rstate (example_cluster example_rules [] [] [])) = ((res, None), st') \<and>
     example_rule ''a'' ''web/shop:old'' 9090 80 \<notin> set (gw_rules (world st'))"
proof -
  let ?st = "example_rstate (example_cluster example_rules [] [] [])"
  obtain res st' where
    run: "handleMissingServiceCleanup (ref_reconciler ''default'') ''web'' ''shop'' ?st = ((res, None), st')"
    by (simp add: reconcile_eval router_eval cluster_eval go_eval)
  have st: "gw_rules (world ?st) = example_rules" by (simp add: cluster_eval)
  from missing_service_cleanup_complete [OF refc.reconciler_env_axioms _ _ run] run show ?thesis
    by (simp add: st example_rules_ok example_addressable)
      (auto simp: RuleBelongsToService_def HasPrefix_def example_rule_def)
qed

section \<open>Duplicate events\<close>

text \<open>
  Within the window after a clean-up, a reconcile request for the service does nothing.  It returns
  success without asking the API server or the router anything: only the clock is read.
\<close>

lemma recently_cleaned_is_skipped:
  assumes "gm_get (recentCleanups st) (ns @ ''/'' @ n) = Some t"
    and "rcNow r (world st) = (now, w)" and "now - t < rcCleanupWindow r"
  shows "Reconcile ovf itc itd r ns n st = ((emptyResultR, None), st\<lparr>world := w\<rparr>)"
  using assms by (simp add: Reconcile_def isRecentlyCleaned_def time_now_def Let_def)

theorem recently_cleaned_is_skipped_witness:
  "Reconcile (\<lambda>_. 0) (\<lambda>ks. ks) (\<lambda>ks. ks) (ref_reconciler ''default'') ''web'' ''shop''
     ((example_rstate (example_cluster [] [] [] []))\<lparr>recentCleanups := [(''web/shop'', 999)]\<rparr>) =
   ((emptyResultR, None), (example_rstate (example_cluster [] [] [] []))\<lparr>recentCleanups := [(''web/shop'', 999)]\<rparr>)"
  using recently_cleaned_is_skipped [of "(example_rstate (example_cluster [] [] [] []))\<lparr>recentCleanups := [(''web/shop'', 999)]\<rparr>"
      "''web''" "''shop''" 999 "ref_reconciler ''default''" 1000 "example_cluster [] [] [] []" "\<lambda>_. 0" "\<lambda>ks. ks" "\<lambda>ks. ks"]
  by (simp add: cluster_eval Second_def)

text \<open>
  A failed removal of the finalizer is not retried within the window.  \<open>handleFinalizerCleanup\<close>
  records the clean-up before it updates the object.  If that update fails, the error is returned and
  the object keeps its finalizer, but the retry that the error causes, coming within the window,
  finds the record, reports success and leaves the finalizer in place.
\<close>

lemma failed_finalizer_removal_is_dropped:
  assumes go: "\<not> shouldGiveUpOnCleanup ovf (serviceKey service) st"
    and f: "finalizeService r service st = (None, st1)"
    and clock: "rcNow r (world st1) = (now, w1)" "rcNow r w1 = (now', w2)" "now' - now \<le> rcCleanupWindow r"
    and upd: "k_Update (rcClient r) (RemoveFinalizer service) w2 = (Inl err, w3)"
    and retry: "rcNow r w3 = (later, w4)" "later - now < rcCleanupWindow r"
  shows "\<exists>st2. handleFinalizerCleanup ovf r service st = ((emptyResultR, Some err), st2) \<and>
    Reconcile ovf itc itd r (svcNamespace service) (svcName service) st2 = ((emptyResultR, None), st2\<lparr>world := w4\<rparr>)"
proof -
  let ?key = "serviceKey service"
  let ?st2 = "(markServiceCleanup r ?key (clearCleanupRetries ?key st1))\<lparr>world := w3\<rparr>"
  have w: "world (markServiceCleanup r ?key (clearCleanupRetries ?key st1)) = w2"
    using clock by (simp add: markServiceCleanup_def time_now_def clearCleanupRetries_def)
  have run: "handleFinalizerCleanup ovf r service st = ((emptyResultR, Some err), ?st2)"
    using go f w upd by (simp add: handleFinalizerCleanup_def Let_def on_world_def)
  have "gm_get (cleanupOldEntries now' (rcCleanupWindow r) (gm_set ?key now m)) ?key = Some now" for m
    using clock(3) by (simp add: cleanupOldEntries_def map_of_filter_kept)
  then have "gm_get (recentCleanups ?st2) ?key = Some now"
    using clock by (simp add: markServiceCleanup_def time_now_def clearCleanupRetries_def)
  then have "Reconcile ovf itc itd r (svcNamespace service) (svcName service) ?st2 = ((emptyResultR, None), ?st2\<lparr>world := w4\<rparr>)"
    using retry by (simp add: Reconcile_def isRecentlyCleaned_def time_now_def Let_def serviceKey_def)
  with run show ?thesis by blast
qed

lemma failed_finalizer_removal_is_dropped_witness:
  "\<exists>st2 w. handleFinalizerCleanup (\<lambda>_. 0) (ref_reconciler ''default'') dying_service
       (example_rstate (example_cluster example_rules [dying_service] [] [StatusError Conflict ''conflict''])) =
       ((emptyResultR, Some (StatusError Conflict ''conflict'')), st2) \<and>
     Reconcile (\<lambda>_. 0) (\<lambda>ks. ks) (\<lambda>ks. ks) (ref_reconciler ''default'') ''web'' ''shop'' st2 =
       ((emptyResultR, None), st2\<lparr>world := w\<rparr>) \<and>
     cl_services w = [dying_service]"
proof -
  let ?st = "example_rstate (example_cluster example_rules [dying_service] [] [StatusError Conflict ''conflict''])"
  obtain st1 where f: "finalizeService (ref_reconciler ''default'') dying_service ?st = (None, st1)"
    and w: "cl_clock (world st1) = 1000" "cl_conflicts (world st1) = [StatusError Conflict ''conflict'']"
      "cl_services (world st1) = [dying_service]"
    by (simp add: reconcile_eval publish_def router_eval cluster_eval go_eval)
  have name: "svcNamespace dying_service = ''web''" "svcName dying_service = ''shop''" by (simp_all add: cluster_eval)
  have upd: "k_Update (rcClient (ref_reconciler ''default'')) (RemoveFinalizer dying_service) (world st1) =
    (Inl (StatusError Conflict ''conflict''), (world st1)\<lparr>cl_conflicts := []\<rparr>)"
    using w by (simp add: ref_kube_def)
  from failed_finalizer_removal_is_dropped [OF example_no_retries f, of 1000 "world st1" 1000 "world st1"
      "StatusError Conflict ''conflict''" "(world st1)\<lparr>cl_conflicts := []\<rparr>" 1000 "(world st1)\<lparr>cl_conflicts := []\<rparr>"
      "\<lambda>_. 0" "\<lambda>ks. ks" "\<lambda>ks. ks"] upd w name
  show ?thesis by (fastforce simp: Second_def)
qed

end
