(* ===== verification/ReconcileCorrect.thy ===== *)
theory ReconcileCorrect
  imports Cleanup
begin

text \<open>
  Correctness of \<open>Reconcile\<close> for a live, managed service: after a successful call the rules of the
  service on the router are those its annotation asks for, and no other rule has changed.
\<close>

section \<open>Services the API server admits\<close>

text \<open>
  Names are DNS labels, port numbers are valid, and the protocol is one of the three Kubernetes knows.
\<close>

definition service_ok :: "Service \<Rightarrow> bool" where
  "service_ok service \<longleftrightarrow>
     dns_name (svcNamespace service) \<and> dns_name (svcName service) \<and>
     (\<forall>port \<in> set (svcPorts service). valid_port (spPort port) \<and> spProtocol port \<in> {''TCP'', ''UDP'', ''SCTP''})"

lemma ToLower_protocol:
  "proto \<in> {''TCP'', ''UDP'', ''SCTP''} \<Longrightarrow> CHR ''-'' \<notin> set (ToLower proto)"
  by (auto simp: ToLower_def lower_char_def char_of_lower char_of_eq_iff)

lemma desired_config_ok:
  assumes "GetPortConfigs service lbIP key used = (Inr ds, used')" "service_ok service" "d \<in> set ds"
  shows "valid_port (DstPort d) \<and> valid_port (FwdPort d) \<and> DstIP d = lbIP \<and> CHR ''-'' \<notin> set (Protocol d) \<and>
    RuleBelongsToService (Name d) (svcNamespace service) (svcName service)"
proof -
  from assms(1) obtain ms where ms: "parsePortMappingAnnotation (get_annotation service key) = Inr ms"
    and ds: "ds = wanted service lbIP ms" by (rule GetPortConfigs_okE)
  with assms(3) obtain port m where pm: "port \<in> set (svcPorts service)" "m \<in> set ms"
    "d = port_config service lbIP port (external_port port m)" by (auto elim: wantedE)
  with assms(2) have "valid_port (spPort port)" "spProtocol port \<in> {''TCP'', ''UDP'', ''SCTP''}"
    by (auto simp: service_ok_def)
  with parsed_valid [OF ms pm(2)] pm(3) ToLower_protocol show ?thesis
    by (auto simp: port_config_def external_port_def belongs_iff rule_name_def)
qed

lemma GetPortConfigs_desired_ok:
  assumes "GetPortConfigs service lbIP key used = (Inr ds, used')" "service_ok service"
  shows "desired_ok service ds"
proof -
  from assms(1) have "distinct (map DstPort ds)" by (rule GetPortConfigs_okE)
  with desired_config_ok [OF assms] show ?thesis
    by (simp add: desired_ok_def plain_config_def valid_port_int64 valid_port_nonneg)
qed

lemma GetPortConfigs_same:
  assumes "GetPortConfigs service lbIP key used = (Inr ds, u)" "GetPortConfigs service lbIP key used' = (Inr ds', u')"
  shows "ds' = ds"
proof -
  from assms(1) obtain ms where "parsePortMappingAnnotation (get_annotation service key) = Inr ms"
    "ds = wanted service lbIP ms" by (rule GetPortConfigs_okE)
  moreover from assms(2) obtain ms' where "parsePortMappingAnnotation (get_annotation service key) = Inr ms'"
    "ds' = wanted service lbIP ms'" by (rule GetPortConfigs_okE)
  ultimately show ?thesis by simp
qed

lemma same_filter:
  "service_ok service \<Longrightarrow> split_key_matches (pfName rule) (serviceKey service) \<longleftrightarrow> belongs service rule"
  using split_key_matches_iff [of "serviceKey service" "pfName rule"] dns_name_chars
  by (auto simp: service_ok_def serviceKey_def belongs_def RuleBelongsToService_def)

section \<open>Served services\<close>

text \<open>
  A rule serves a configuration: same ports (as numbers), protocol, target address and enabled flag.
  The name after the service prefix may differ: \<open>portConfigsMatch\<close> does not compare it.
\<close>

definition serves :: "PortConfig \<Rightarrow> PortForward \<Rightarrow> bool" where
  "serves d rule \<longleftrightarrow>
     ParseIntField (pfDstPort rule) = DstPort d \<and> ParseIntField (pfFwdPort rule) = FwdPort d \<and>
     Proto rule = Protocol d \<and> Fwd rule = DstIP d \<and> pfEnabled rule = Enabled d"

definition served :: "Service \<Rightarrow> PortConfig list \<Rightarrow> PortForward set \<Rightarrow> PortForward set \<Rightarrow> bool" where
  "served service ds S S' \<longleftrightarrow>
     (\<forall>d \<in> set ds. \<exists>rule \<in> S'. belongs service rule \<and> serves d rule) \<and>
     (\<forall>rule \<in> S'. belongs service rule \<longrightarrow> (\<exists>d \<in> set ds. serves d rule)) \<and>
     (\<forall>rule. \<not> belongs service rule \<longrightarrow> (rule \<in> S' \<longleftrightarrow> rule \<in> S))"

text \<open>A service is settled when its rules on the gateway are exactly those its configurations ask for.\<close>

definition settled :: "Service \<Rightarrow> PortConfig list \<Rightarrow> PortForward set \<Rightarrow> bool" where
  "settled service ds S \<longleftrightarrow>
     (\<forall>d \<in> set ds. \<exists>rule \<in> S. belongs service rule \<and> serves d rule) \<and>
     (\<forall>rule \<in> S. belongs service rule \<longrightarrow> (\<exists>d \<in> set ds. serves d rule))"

lemma served_settled: "served service ds S S' \<Longrightarrow> settled service ds S'"
  by (simp add: served_def settled_def)

lemma ParseIntField_Itoa: "valid_port p \<Longrightarrow> ParseIntField (Itoa p) = p"
  by (simp add: ParseIntField_def Atoi_Itoa valid_port_int64) (simp add: valid_port_def)

lemma ParseIntField_range: "in_int64 (ParseIntField s)" "0 \<le> ParseIntField s"
  using Atoi_in_int64 [of s] by (auto simp: ParseIntField_def in_int64_def split: option.split)

lemma matches_serves:
  "rule_matches d rule \<Longrightarrow> valid_port (DstPort d) \<Longrightarrow> valid_port (FwdPort d) \<Longrightarrow> serves d rule"
  by (simp add: rule_matches_def serves_def ParseIntField_Itoa)

lemma converged_served:
  assumes conv: "converged rule_matches service ds S S'" and get: "GetPortConfigs service lbIP key used = (Inr ds, used')"
    and svc: "service_ok service"
  shows "served service ds S S'"
proof -
  have ok: "valid_port (DstPort d) \<and> valid_port (FwdPort d)" if "d \<in> set ds" for d
    using desired_config_ok [OF get svc that] by blast
  have "\<exists>rule \<in> S'. belongs service rule \<and> serves d rule" if d: "d \<in> set ds" for d
  proof -
    from conv d obtain rule where "rule \<in> S'" "rule_matches d rule" by (auto simp: converged_def)
    moreover from this desired_config_ok [OF get svc d] have "belongs service rule"
      by (simp add: belongs_def rule_matches_def)
    ultimately show ?thesis using matches_serves ok [OF d] by blast
  qed
  moreover have "\<exists>d \<in> set ds. serves d rule" if "rule \<in> S'" "belongs service rule" for rule
    using that conv matches_serves ok unfolding converged_def by blast
  ultimately show ?thesis using conv by (auto simp: served_def converged_def)
qed

lemma exactKey_serves:
  assumes "exactKey rule = configKey d" "plain_config d"
  shows "ParseIntField (pfDstPort rule) = DstPort d \<and> ParseIntField (pfFwdPort rule) = FwdPort d \<and> Proto rule = Protocol d"
proof -
  from assms key3_inj [OF assms(1) [unfolded exactKey_def configKey_def]] Itoa_nonneg_chars
  have "Itoa (ParseIntField (pfDstPort rule)) = Itoa (DstPort d)" "Itoa (ParseIntField (pfFwdPort rule)) = Itoa (FwdPort d)"
    "Proto rule = Protocol d" by (auto simp: plain_config_def)
  with assms(2) ParseIntField_range Itoa_inj show ?thesis by (auto simp: plain_config_def)
qed

text \<open>When \<open>portConfigsMatch\<close> says so, rules and configurations correspond one to one.\<close>

lemma portConfigsMatch_serves:
  assumes m: "portConfigsMatch cur ds lbIP" and ds: "desired_ok service ds" and ip: "\<forall>d \<in> set ds. DstIP d = lbIP"
  shows "(\<forall>d \<in> set ds. \<exists>rule \<in> set cur. serves d rule) \<and> (\<forall>rule \<in> set cur. \<exists>d \<in> set ds. serves d rule)"
proof -
  let ?M = "gm_index exactKey cur []"
  have len: "length cur = length ds" using m by (simp add: portConfigsMatch_def split: if_splits)
  have get: "\<exists>rule. gm_get ?M (configKey d) = Some rule \<and> rule \<in> set cur \<and> exactKey rule = configKey d \<and> serves d rule"
    if d: "d \<in> set ds" for d
  proof -
    from m d obtain rule where g: "gm_get ?M (configKey d) = Some rule" "Fwd rule = lbIP" "Enabled d = pfEnabled rule"
      by (auto simp: portConfigsMatch_def Let_def list_all_iff split: if_splits option.splits)
    from gm_get_index_SomeD [OF g(1)] have "rule \<in> set cur" "exactKey rule = configKey d" by auto
    with g exactKey_serves [of rule d] ds d ip show ?thesis by (auto simp: serves_def desired_ok_def)
  qed
  define f where "f = (\<lambda>d. the (gm_get ?M (configKey d)))"
  have f: "f d \<in> set cur \<and> exactKey (f d) = configKey d \<and> serves d (f d)" if "d \<in> set ds" for d
    using get [OF that] by (auto simp: f_def)
  have "inj_on f (set ds)"
  proof (rule inj_onI)
    fix d e assume de: "d \<in> set ds" "e \<in> set ds" "f d = f e"
    then have "configKey d = configKey e" using f by metis
    moreover have "plain_config d" "plain_config e" using de ds by (simp_all add: desired_ok_def)
    ultimately have "DstPort d = DstPort e" by (rule configKey_inj)
    with de desired_same_slot [OF ds] show "d = e" by blast
  qed
  then have "card (f ` set ds) = card (set ds)" by (rule card_image)
  also have "\<dots> = length ds" using ds by (simp add: desired_ok_def distinct_map distinct_card)
  finally have "card (set cur) \<le> card (f ` set ds)" using len card_length [of cur] by simp
  moreover have "f ` set ds \<subseteq> set cur" using f by auto
  ultimately have "set cur = f ` set ds" using card_seteq [of "set cur" "f ` set ds"] by simp
  then show ?thesis using f by auto
qed

section \<open>Frames\<close>

lemma success_events_frame [simp]:
  "world (success_events r service result st) = world st"
  "usedPorts (success_events r service result st) = usedPorts st"
  by (simp_all add: success_events_def Let_def)

lemma success_events_cleanups [simp]: "recentCleanups (success_events r service result st) = recentCleanups st"
proof -
  have [simp]: "recentCleanups (fold (\<lambda>config. publish r (f config)) cs st) = recentCleanups st" for f and cs :: "PortConfig list" and st
    by (induction cs arbitrary: st) (simp_all add: publish_def split: option.split)
  show ?thesis by (simp add: success_events_def Let_def)
qed

lemma ownership_events_frame [simp]: "world (ownership_events r service ops st) = world st"
  unfolding ownership_events_def by (induction ops arbitrary: st) simp_all

lemma ownership_events_none:
  "\<forall>op \<in> set ops. opReason op \<noteq> ''port_conflict_take_ownership'' \<Longrightarrow> ownership_events r service ops st = st"
  unfolding ownership_events_def by (induction ops arbitrary: st) simp_all

section \<open>Convergence\<close>

lemma detectChanges_cases:
  assumes "calculateDesiredState service st = (Inr ds, st1)"
  shows "(portConfigsMatch (filter (\<lambda>rule. split_key_matches (pfName rule) (serviceKey service)) rs) ds (GetLBIP service) \<and>
      detectChanges service key rs st = (newContext key (svcNamespace service) (svcName service), st1)) \<or>
    (\<exists>ctx. detectChanges service key rs st = (ctx, st1) \<and> HasRelevantChanges ctx \<and> \<not> IsInitialSync ctx)"
proof -
  let ?cur = "filter (\<lambda>rule. split_key_matches (pfName rule) (serviceKey service)) rs"
  let ?ctx = "newContext key (svcNamespace service) (svcName service)"
  show ?thesis
  proof (cases "portConfigsMatch ?cur ds (GetLBIP service)")
    case True
    with assms show ?thesis by (simp add: detectChanges_def Let_def newContext_def)
  next
    case False
    then have "?cur \<noteq> [] \<or> ds \<noteq> []" by (auto simp: portConfigsMatch_def)
    with False assms show ?thesis
      by (auto simp: detectChanges_def Let_def newContext_def HasRelevantChanges_def analyzeDetailedChanges_def
          fallbackToIPChangeDetection_def split: prod.splits)
  qed
qed

context reconciler_env
begin

lemma processAllChanges_ok:
  assumes run: "processAllChanges itc itd r service ctx cur st = ((ops, ctx', None), st')"
    and it: "iter_order itc" "iter_order itd" and svc: "service_ok service"
    and ok: "table_ok (rules (world st))"
    and cur: "set cur = {rule \<in> set (rules (world st)). belongs service rule}"
    and plain: "\<forall>rule \<in> set cur. plain_rule rule"
  shows "\<exists>ds used'. GetPortConfigs service (GetLBIP service) FilterAnnotation (usedPorts st) = (Inr ds, used') \<and>
    converged rule_matches service ds (set (rules (world st))) (set (rules (world st'))) \<and> table_ok (rules (world st'))"
proof -
  from run obtain ds st1 where d: "calculateDesiredState service st = (Inr ds, st1)"
    by (auto simp: processAllChanges_def Let_def split: prod.splits sum.splits)
  then obtain used' where g: "GetPortConfigs service (GetLBIP service) FilterAnnotation (usedPorts st) = (Inr ds, used')"
    and st1: "st1 = st\<lparr>usedPorts := used'\<rparr>"
    by (auto simp: calculateDesiredState_def Let_def split: prod.splits sum.splits if_splits)
  from run d obtain result st2 where
    x: "executeOperations (rcRouter r) (calculateDelta itc itd cur ds ctx service) st1 = ((result, None), st2)"
    and w: "world st' = world st2"
    by (auto simp: processAllChanges_def Let_def split: prod.splits sum.splits option.splits)
  from execute_delta_converges [OF router_contract_axioms it _ _ plain GetPortConfigs_desired_ok [OF g svc] x] st1 ok cur
  have "converged rule_matches service ds (set (rules (world st))) (set (rules (world st2))) \<and> table_ok (rules (world st2))" by simp
  with g w show ?thesis by auto
qed

lemma reconcile_rules_sound:
  assumes run: "reconcile_rules itc itd r (serviceKey service) service st = ((res, None), st')"
    and it: "iter_order itc" "iter_order itd" and svc: "service_ok service" and ip: "GetLBIP service \<noteq> ''''"
    and ok: "table_ok (rules (world st))"
    and plain: "\<forall>rule \<in> set (rules (world st)). belongs service rule \<longrightarrow> plain_rule rule"
    and g: "GetPortConfigs service (GetLBIP service) FilterAnnotation (usedPorts st) = (Inr ds, used')"
  shows "served service ds (set (rules (world st))) (set (rules (world st'))) \<and> table_ok (rules (world st'))"
proof -
  from run obtain rs st1 where l: "on_world (r_ListAllPortForwards (rcRouter r)) st = (Inr rs, st1)"
    by (auto simp: reconcile_rules_def split: prod.splits sum.splits)
  note st1 = list_on_world [OF l ok]
  from l have used: "usedPorts st1 = usedPorts st" by (auto simp: on_world_eq)
  let ?cur = "filter (\<lambda>rule. split_key_matches (pfName rule) (serviceKey service)) rs"
  have cur: "set ?cur = {rule \<in> set (rules (world st)). belongs service rule}"
    using st1 same_filter [OF svc] by auto
  define st2 where "st2 = st1\<lparr>usedPorts := used'\<rparr>"
  have d: "calculateDesiredState service st1 = (Inr ds, st2)"
    using g ip used by (simp add: calculateDesiredState_def Let_def st2_def)
  from detectChanges_cases [OF d, of rs "serviceKey service"] show ?thesis
  proof (elim disjE conjE exE)
    assume m: "portConfigsMatch ?cur ds (GetLBIP service)"
      and c: "detectChanges service (serviceKey service) rs st1 =
        (newContext (serviceKey service) (svcNamespace service) (svcName service), st2)"
    from run l c have "st' = st2" by (simp add: reconcile_rules_def Let_def newContext_def HasRelevantChanges_def)
    then have same: "set (rules (world st')) = set (rules (world st))" "table_ok (rules (world st'))"
      using st1 by (simp_all add: st2_def)
    from portConfigsMatch_serves [OF m GetPortConfigs_desired_ok [OF g svc]] desired_config_ok [OF g svc]
    have "(\<forall>d \<in> set ds. \<exists>rule \<in> set ?cur. serves d rule) \<and> (\<forall>rule \<in> set ?cur. \<exists>d \<in> set ds. serves d rule)" by blast
    with cur same show ?thesis unfolding served_def by blast
  next
    fix ctx assume c: "detectChanges service (serviceKey service) rs st1 = (ctx, st2)"
      and "HasRelevantChanges ctx" "\<not> IsInitialSync ctx"
    with run l obtain ops ctx' st3 where
      p: "processAllChanges itc itd r service ctx ?cur st2 = ((ops, ctx', None), st3)"
      and w: "world st' = world st3"
      by (auto simp: reconcile_rules_def Let_def split: prod.splits option.splits)
    have r2: "set (rules (world st2)) = set (rules (world st))" "table_ok (rules (world st2))"
      using st1 by (simp_all add: st2_def)
    from processAllChanges_ok [OF p it svc r2(2)] cur plain r2 obtain ds' used'' where
      g': "GetPortConfigs service (GetLBIP service) FilterAnnotation (usedPorts st2) = (Inr ds', used'')"
      and "converged rule_matches service ds' (set (rules (world st2))) (set (rules (world st3)))"
      and "table_ok (rules (world st3))" by auto
    with GetPortConfigs_same [OF g g'] converged_served [OF _ g svc] w r2 show ?thesis by simp
  qed
qed

lemmas reconcile_rules_ok = conjunct1 [OF reconcile_rules_sound]

end

text \<open>Requests for a live, managed service with the finalizer arrive at \<open>reconcile_rules\<close>.\<close>

lemma Reconcile_managed:
  assumes "k_Get (rcClient r) ns n (world st) = (Inr service, w1)" "svcNamespace service = ns" "svcName service = n"
    and "IsZeroTime (svcDeletionTimestamp service)" "ContainsFinalizer service" "GetLBIP service \<noteq> ''''"
    and "hasPortForwardAnnotation service" "gm_get (recentCleanups st) (ns @ ''/'' @ n) = None"
  shows "Reconcile ovf itc itd r ns n st = reconcile_rules itc itd r (serviceKey service) service (st\<lparr>world := w1\<rparr>)"
proof -
  have "ns @ ''/'' @ n = serviceKey service" using assms by (simp add: serviceKey_def)
  moreover have "shouldProcessService service (GetLBIP service)"
    using assms by (auto simp: shouldProcessService_def hasPortForwardAnnotation_def split: option.splits)
  ultimately show ?thesis using assms by (simp add: Reconcile_def isRecentlyCleaned_def on_world_def Let_def)
qed

text \<open>
  A service under management: the API server knows it, it is live, has an address, the annotation and the
  finalizer, it was not cleaned up a moment ago, and \<open>GetPortConfigs\<close> accepts its annotation.
\<close>

definition managed :: "'w Reconciler \<Rightarrow> ('w \<Rightarrow> PortForward list) \<Rightarrow> 'w rstate \<Rightarrow> Service \<Rightarrow> PortConfig list \<Rightarrow> bool" where
  "managed r rules st service ds \<longleftrightarrow>
     (\<exists>w1. k_Get (rcClient r) (svcNamespace service) (svcName service) (world st) = (Inr service, w1)) \<and>
     service_ok service \<and> IsZeroTime (svcDeletionTimestamp service) \<and> ContainsFinalizer service \<and>
     GetLBIP service \<noteq> '''' \<and> hasPortForwardAnnotation service \<and>
     gm_get (recentCleanups st) (serviceKey service) = None \<and>
     (\<forall>rule \<in> set (rules (world st)). belongs service rule \<longrightarrow> plain_rule rule) \<and>
     (\<exists>used'. GetPortConfigs service (GetLBIP service) FilterAnnotation (usedPorts st) = (Inr ds, used'))"

lemma managed_Reconcile:
  assumes "managed r rules st service ds"
  obtains w1 where "k_Get (rcClient r) (svcNamespace service) (svcName service) (world st) = (Inr service, w1)"
    "Reconcile ovf itc itd r (svcNamespace service) (svcName service) st =
       reconcile_rules itc itd r (serviceKey service) service (st\<lparr>world := w1\<rparr>)"
proof -
  from assms obtain w1 where g: "k_Get (rcClient r) (svcNamespace service) (svcName service) (world st) = (Inr service, w1)"
    by (auto simp: managed_def)
  from Reconcile_managed [OF g refl refl, of ovf itc itd] assms that [OF g] show thesis
    by (simp add: managed_def serviceKey_def)
qed
lemma Reconcile_served:
  assumes env: "reconciler_env r rules" and it: "iter_order itc" "iter_order itd"
    and ok: "table_ok (rules (world st))" and m: "managed r rules st service ds"
    and run: "Reconcile ovf itc itd r (svcNamespace service) (svcName service) st = ((res, None), st')"
  shows "served service ds (set (rules (world st))) (set (rules (world st'))) \<and> table_ok (rules (world st'))"
proof -
  obtain w1 used' where get: "k_Get (rcClient r) (svcNamespace service) (svcName service) (world st) = (Inr service, w1)"
    and g: "GetPortConfigs service (GetLBIP service) FilterAnnotation (usedPorts st) = (Inr ds, used')"
    using m by (auto simp: managed_def)
  define st2 where "st2 = st\<lparr>world := w1\<rparr>"
  have same: "set (rules (world st2)) = set (rules (world st))" "table_ok (rules (world st2))"
    using reconciler_env.get_on_world [OF env, of "svcNamespace service" "svcName service" st] get ok
    by (auto simp: on_world_def st2_def)
  have "reconcile_rules itc itd r (serviceKey service) service st2 = ((res, None), st')"
    using run Reconcile_managed [OF get refl refl] m by (simp add: st2_def managed_def serviceKey_def)
  from reconciler_env.reconcile_rules_sound [OF env this it _ _ same(2)] m g same show ?thesis
    by (simp add: st2_def managed_def)
qed

text \<open>
  C1: reconciliation reaches the desired state.  For a live service with a load balancer address, the
  annotation and the finalizer, whose annotation \<open>GetPortConfigs\<close> accepts: if \<open>Reconcile\<close> returns
  without error, every port forward the annotation asks for is served by a rule of the service on the
  router, the router has no other rule of the service, and the rules of everyone else are exactly
  those that were there before.
\<close>

theorem reconcile_converges:
  assumes env: "reconciler_env r rules" and it: "iter_order itc" "iter_order itd"
    and ok: "table_ok (rules (world st))"
    and get: "k_Get (rcClient r) ns n (world st) = (Inr service, w1)"
    and name: "svcNamespace service = ns" "svcName service = n"
    and svc: "service_ok service" "IsZeroTime (svcDeletionTimestamp service)" "ContainsFinalizer service"
      "GetLBIP service \<noteq> ''''" "hasPortForwardAnnotation service"
    and fresh: "gm_get (recentCleanups st) (ns @ ''/'' @ n) = None"
    and plain: "\<forall>rule \<in> set (rules (world st)). belongs service rule \<longrightarrow> plain_rule rule"
    and g: "GetPortConfigs service (GetLBIP service) FilterAnnotation (usedPorts st) = (Inr ds, used')"
    and run: "Reconcile ovf itc itd r ns n st = ((res, None), st')"
  shows "served service ds (set (rules (world st))) (set (rules (world st')))"
proof -
  have "managed r rules st service ds"
    using get name svc fresh plain g by (auto simp: managed_def serviceKey_def)
  from Reconcile_served [OF env it ok this] run name show ?thesis by simp
qed

section \<open>A concrete reconciliation\<close>

lemma live_sel:
  "svcNamespace live_service = ''web''" "svcName live_service = ''shop''" "GetLBIP live_service = ''10.0.0.5''"
  "svcDeletionTimestamp live_service = None" "ContainsFinalizer live_service" "hasPortForwardAnnotation live_service"
  "shouldProcessService live_service ''10.0.0.5''" "serviceKey live_service = ''web/shop''"
  by (simp_all add: live_service_def example_service_def GetLBIP_def ContainsFinalizer_def hasPortForwardAnnotation_def
      shouldProcessService_def serviceKey_def)

lemma live_ok: "service_ok live_service"
  by (simp add: service_ok_def live_service_def example_service_def example_port_def dns_name_def dns_char_def valid_port_def)

lemma live_configs:
  "gm_get used 8080 = None \<or> gm_get used 8080 = Some ''web/shop'' \<Longrightarrow>
   GetPortConfigs live_service ''10.0.0.5'' FilterAnnotation used = (Inr ex_ds, gm_set 8080 ''web/shop'' used)"
  by (auto simp: live_service_def service_eval go_eval FilterAnnotation_def example_config_def ex_ds_def char_of_lower)

abbreviation live_state :: "bool list \<Rightarrow> cluster rstate" where
  "live_state faults \<equiv> example_rstate (example_cluster example_rules [live_service] faults [])"

lemma live_reconcile:
  "Reconcile ovf itc itd (ref_reconciler ''default'') ''web'' ''shop'' (live_state faults) =
     reconcile_rules itc itd (ref_reconciler ''default'') ''web/shop'' live_service (live_state faults)"
  by (simp add: Reconcile_def isRecentlyCleaned_def Let_def IsZeroTime_def on_world_def example_rstate_def
      example_cluster_def ref_kube_def same_service_def live_sel)

lemma live_desired:
  "calculateDesiredState live_service (live_state faults) = (Inr ex_ds, (live_state faults)\<lparr>usedPorts := [(8080, ''web/shop'')]\<rparr>)"
  "calculateDesiredState live_service ((live_state faults)\<lparr>usedPorts := [(8080, ''web/shop'')]\<rparr>) =
     (Inr ex_ds, (live_state faults)\<lparr>usedPorts := [(8080, ''web/shop'')]\<rparr>)"
  by (simp_all add: calculateDesiredState_def live_sel live_configs example_rstate_def)

lemma live_filter: "filter (\<lambda>rule. split_key_matches (pfName rule) ''web/shop'') example_rules = ex_cur"
  by (simp add: example_rules_def example_rule_def split_key_matches_iff HasPrefix_def ex_cur_def)

abbreviation live_context :: ChangeContext where
  "live_context \<equiv> (newContext ''web/shop'' ''web'' ''shop'')\<lparr>SpecChanged := True\<rparr>"

lemma live_changes:
  "detectChanges live_service ''web/shop'' example_rules (live_state faults) =
     (live_context, (live_state faults)\<lparr>usedPorts := [(8080, ''web/shop'')]\<rparr>)"
proof -
  have "\<not> portConfigsMatch ex_cur ex_ds ''10.0.0.5''"
    by (simp add: portConfigsMatch_def ex_eval exactKey_def configKey_def key3_def ParseIntField_def example_rule_def
        example_config_def go_eval)
  then show ?thesis
    unfolding detectChanges_def Let_def live_desired live_sel live_filter
    by (simp add: ex_eval analyzeDetailedChanges_def fallbackToIPChangeDetection_def compareIPsWithRouterState_def
        example_rule_def)
qed

lemma live_delta:
  "calculateDelta (\<lambda>ks. ks) rev ex_cur ex_ds live_context live_service =
     [delete_op (example_rule ''a'' ''web/shop:old'' 9090 80),
      \<lparr>opType = OpCreate, opConfig = example_config ''web/shop:http'' 8080 80, opExistingRule = None,
        opReason = ''port_not_yet_exists''\<rparr>]"
  by (simp add: delta_eval ex_eval go_eval live_sel)

lemma live_run:
  "\<exists>res st'. Reconcile (\<lambda>_. 0) (\<lambda>ks. ks) rev (ref_reconciler ''default'') ''web'' ''shop'' (live_state []) = ((res, None), st')"
proof -
  let ?r = "ref_reconciler ''default'' :: cluster Reconciler"
  have l: "on_world (r_ListAllPortForwards (rcRouter ?r)) (live_state []) = (Inr example_rules, live_state [])"
    by (simp add: on_world_def router_eval example_rstate_def example_cluster_def)
  have "\<exists>result st'. executeOperations (rcRouter ?r) (calculateDelta (\<lambda>ks. ks) rev ex_cur ex_ds live_context live_service)
      ((live_state [])\<lparr>usedPorts := [(8080, ''web/shop'')]\<rparr>) = ((result, None), st')"
    unfolding live_delta
    by (simp add: delete_op_def rule_config_def strToInt_def exec_eval router_eval example_rstate_def
        example_cluster_def example_rules_def go_eval)
  then have "\<exists>ops ctx st'. processAllChanges (\<lambda>ks. ks) rev ?r live_service live_context ex_cur
      ((live_state [])\<lparr>usedPorts := [(8080, ''web/shop'')]\<rparr>) = ((ops, ctx, None), st')"
    by (auto simp: processAllChanges_def live_desired Let_def)
  moreover have "HasRelevantChanges live_context" "\<not> IsInitialSync live_context"
    by (simp_all add: HasRelevantChanges_def newContext_def)
  ultimately show ?thesis unfolding live_reconcile reconcile_rules_def l by (auto simp: live_changes live_filter Let_def)
qed

theorem reconcile_converges_witness:
  "\<exists>res st'. Reconcile (\<lambda>_. 0) (\<lambda>ks. ks) rev (ref_reconciler ''default'') ''web'' ''shop'' (live_state []) = ((res, None), st') \<and>
     served live_service ex_ds (set example_rules) (set (gw_rules (world st')))"
proof -
  from live_run obtain res st' where
    run: "Reconcile (\<lambda>_. 0) (\<lambda>ks. ks) rev (ref_reconciler ''default'') ''web'' ''shop'' (live_state []) = ((res, None), st')" by blast
  have "served live_service ex_ds (set (gw_rules (world (live_state [])))) (set (gw_rules (world st')))"
  proof (rule reconcile_converges [OF refc.reconciler_env_axioms iter_order_id iter_order_rev _ _ _ _ live_ok _ _ _ _ _ _ _ run])
    show "table_ok (gw_rules (world (live_state [])))"
      by (simp add: example_rstate_def example_cluster_def example_rules_ok)
    show "k_Get (rcClient (ref_reconciler ''default'')) ''web'' ''shop'' (world (live_state [])) = (Inr live_service, world (live_state []))"
      by (simp add: ref_kube_def same_service_def live_sel example_rstate_def example_cluster_def)
    show "GetPortConfigs live_service (GetLBIP live_service) FilterAnnotation (usedPorts (live_state [])) = (Inr ex_ds, gm_set 8080 ''web/shop'' [])"
      by (simp only: live_sel) (simp add: live_configs example_rstate_def)
  qed (auto simp: live_sel IsZeroTime_def example_rstate_def example_cluster_def example_rules_def plain_rule_def
      example_rule_def go_eval)
  with run show ?thesis by (auto simp: example_rstate_def example_cluster_def)
qed

section \<open>The finalizer comes first\<close>

lemma add_finalizer_loop_mset:
  assumes env: "reconciler_env r rules"
  shows "mset (rules (world (snd (add_finalizer_loop r ns n attempts service st)))) = mset (rules (world st))"
proof (induction attempts arbitrary: service st)
  case (Cons attempt attempts)
  obtain res1 st1 where g: "(if attempt > 0 then on_world (k_Get (rcClient r) ns n) st else (Inr service, st)) = (res1, st1)"
    by fastforce
  have same1: "mset (rules (world st1)) = mset (rules (world st))"
    using g reconciler_env.get_frame [OF env, of ns n "world st"] by (auto simp: on_world_eq split: if_splits)
  show ?case
  proof (cases res1)
    case (Inl err)
    with g same1 show ?thesis by simp
  next
    case (Inr service1)
    obtain res2 st2 where u: "on_world (k_Update (rcClient r) (AddFinalizer service1)) st1 = (res2, st2)" by fastforce
    have "mset (rules (world st2)) = mset (rules (world st1))"
      using reconciler_env.update_frame [OF env, of "AddFinalizer service1" "world st1"] u by (auto simp: on_world_eq)
    with Inr g u same1 Cons.IH [of "AddFinalizer service1" st2] show ?thesis by (cases res2) (auto simp: Let_def)
  qed
qed simp

lemma add_finalizer_mset:
  assumes env: "reconciler_env r rules"
  shows "mset (rules (world (snd (add_finalizer r ns n service st)))) = mset (rules (world st))"
proof -
  obtain res st1 where l: "add_finalizer_loop r ns n [0, 1, 2] service st = (res, st1)" by fastforce
  with add_finalizer_loop_mset [OF env, of ns n "[0, 1, 2]" service st]
  have "mset (rules (world st1)) = mset (rules (world st))" by simp
  with l reconciler_env.get_frame [OF env, of ns n "world st1"] show ?thesis
    unfolding add_finalizer_def
    by (cases res) (auto simp: on_world_eq split: sum.splits simp del: add_finalizer_loop.simps)
qed

text \<open>
  C22: no rule is written for a service before it carries the finalizer.  A reconciliation of a live
  service without the finalizer leaves the rules on the router as they are, whatever it returns: it
  adds the finalizer and asks to be called again, or does nothing.
\<close>

theorem finalizer_before_rules:
  assumes env: "reconciler_env r rules"
    and get: "fst (k_Get (rcClient r) ns n (world (snd (isRecentlyCleaned r (ns @ ''/'' @ n) st)))) = Inr service"
    and fin: "\<not> ContainsFinalizer service"
    and run: "Reconcile ovf itc itd r ns n st = (out, st')"
  shows "set (rules (world st')) = set (rules (world st))"
proof -
  obtain recent st1 where rc: "isRecentlyCleaned r (ns @ ''/'' @ n) st = (recent, st1)" by fastforce
  then have same1: "set (rules (world st1)) = set (rules (world st))"
    using reconciler_env.recent_world(1) [OF env, of "ns @ ''/'' @ n" st] by simp
  obtain st2 where g: "on_world (k_Get (rcClient r) ns n) st1 = (Inr service, st2)"
    using get rc by (auto simp: on_world_eq)
  with reconciler_env.get_on_world(1) [OF env, of ns n st1] same1
  have same2: "set (rules (world st2)) = set (rules (world st))" by simp
  have add: "set (rules (world (snd (add_finalizer r ns n service st2)))) = set (rules (world st2))"
    by (rule mset_eq_setD [OF add_finalizer_mset [OF env]])
  show ?thesis
  proof (cases recent)
    case True
    with run rc same1 show ?thesis by (simp add: Reconcile_def Let_def)
  next
    case False
    consider "st' = st2" | "st' = snd (add_finalizer r ns n service st2)"
      using run rc False g fin by (auto simp: Reconcile_def Let_def split: if_splits)
    then show ?thesis using same2 add by cases simp_all
  qed
qed

theorem finalizer_before_rules_witness:
  "\<exists>out st'. Reconcile (\<lambda>_. 0) (\<lambda>ks. ks) rev (ref_reconciler ''default'') ''web'' ''shop''
       (example_rstate (example_cluster example_rules [live_service\<lparr>svcFinalizers := []\<rparr>] [] [])) = (out, st') \<and>
     set (gw_rules (world st')) = set example_rules"
proof -
  let ?st = "example_rstate (example_cluster example_rules [live_service\<lparr>svcFinalizers := []\<rparr>] [] [])"
  obtain out st' where run:
    "Reconcile (\<lambda>_. 0) (\<lambda>ks. ks) rev (ref_reconciler ''default'') ''web'' ''shop'' ?st = (out, st')" by fastforce
  have "set (gw_rules (world st')) = set (gw_rules (world ?st))"
  proof (rule finalizer_before_rules [OF refc.reconciler_env_axioms _ _ run])
    show "fst (k_Get (rcClient (ref_reconciler ''default'')) ''web'' ''shop''
        (world (snd (isRecentlyCleaned (ref_reconciler ''default'') (''web'' @ ''/'' @ ''shop'') ?st)))) =
      Inr (live_service\<lparr>svcFinalizers := []\<rparr>)"
      by (simp add: isRecentlyCleaned_def example_rstate_def example_cluster_def ref_kube_def same_service_def live_sel)
  qed (simp add: ContainsFinalizer_def)
  with run show ?thesis by (simp add: example_rstate_def example_cluster_def)
qed

section \<open>Deviations\<close>

lemma delta_reasons:
  "op \<in> set (calculateDelta itc itd cur ds ctx service) \<Longrightarrow>
   opReason op \<in> {''ownership_takeover'', ''port_no_longer_desired'', ''port_not_yet_exists'',
     ''configuration_mismatch_safe'', ''configuration_mismatch_delete'', ''configuration_mismatch_create''}"
  by (auto simp: calculateDelta_def Let_def validateConflictOperations_def detectPortConflicts_def delete_op_def
      desired_ops_def map_filter_Some_set in_case_option split: if_splits option.splits)

text \<open>
  The event that announces an ownership takeover is never published.  Reconcile publishes it for
  operations with the reason port_conflict_take_ownership, but no operation that \<open>calculateDelta\<close>
  produces carries that reason, whatever the rules, the service and the iteration orders.
\<close>

lemma ownership_event_never_published:
  "ownership_events r service (calculateDelta itc itd cur ds ctx service') st = st"
  using delta_reasons by (intro ownership_events_none) fastforce

lemma freed_None:
  "op \<in> set ops \<Longrightarrow> opType op = OpDelete \<Longrightarrow> gm_get (freed ops used) (DstPort (opConfig op)) = None"
proof (induction ops arbitrary: used)
  case (Cons o' ops)
  have mono: "gm_get used p = None \<Longrightarrow> gm_get (freed os used) p = None" for os used p
    unfolding freed_def
  proof (induction os arbitrary: used)
    case (Cons o'' os)
    then show ?case by (cases "opType o''") (simp_all add: unmark_op_def tracker.owner_unmark)
  qed simp
  from Cons show ?case
  proof (cases "o' = op")
    case True
    with Cons.prems mono [of "unmark_op op used" "DstPort (opConfig op)" ops] show ?thesis
      by (simp add: freed_def unmark_op_def tracker.owner_unmark)
  qed (simp add: freed_def)
qed simp

text \<open>
  A change of the target port loses the claim on the external port.  When a rule of the service has
  to be replaced by one with the same external port and another forward port, a successful
  \<open>processAllChanges\<close> deletes the old rule and thereby releases the external port, and creating the new
  rule does not claim it again: the port is in use on the router, but free for another service to claim.
\<close>

lemma changed_target_port_loses_claim:
  assumes it: "iter_order itc" "iter_order itd" and svc: "service_ok service"
    and cur: "current_ok service cur" "rule \<in> set cur" "slot rule = Some (p, ToLower proto)"
    and ds: "GetPortConfigs service (GetLBIP service) FilterAnnotation (usedPorts st) = (Inr ds, used')"
    and desired: "p \<in> DstPort ` set ds" and changed: "ruleKey rule \<notin> configKey ` set ds"
    and run: "processAllChanges itc itd r service ctx cur st = ((ops, ctx', None), st')"
  shows "gm_get (usedPorts st') p = None"
proof -
  from ds run obtain st1 result st2 where
    st1: "calculateDesiredState service st = (Inr ds, st1)" and
    x: "executeOperations (rcRouter r) (calculateDelta itc itd cur ds ctx service) st1 = ((result, None), st2)" and
    u: "usedPorts st' = usedPorts st2"
    by (auto simp: processAllChanges_def calculateDesiredState_def Let_def split: prod.splits sum.splits option.splits if_splits)
  obtain dels adds where delta: "calculateDelta itc itd cur ds ctx service = dels @ adds"
    and "set dels = delta_del cur ds" "set adds = delta_add ctx cur ds" "distinct dels" "distinct adds"
    by (rule calculateDelta_split [OF it cur(1) GetPortConfigs_desired_ok [OF ds svc]])
  with cur changed have del: "delete_op rule \<in> set (calculateDelta itc itd cur ds ctx service)"
    by (auto simp: delta_del_iff)
  have port: "DstPort (opConfig (delete_op rule)) = p" "opType (delete_op rule) = OpDelete"
    using cur(3) by (auto simp: slot_def delete_op_def rule_config_def strToInt_def)
  from x exec_outcome [of "rcRouter r" _ "[]" st1 result None st2]
  have "usedPorts st2 = freed (calculateDelta itc itd cur ds ctx service) (usedPorts st1)"
    by (simp add: executeOperations_def report_Nil)
  with u freed_None [OF del port(2)] port(1) show ?thesis by simp
qed

abbreviation retarget_state :: "cluster rstate" where
  "retarget_state \<equiv> example_rstate (example_cluster [example_rule ''a'' ''web/shop:http'' 8080 81] [live_service] [] [])"

lemma retarget_run:
  "\<exists>ops ctx' st'. processAllChanges (\<lambda>ks. ks) rev (ref_reconciler ''default'') live_service live_context
     [example_rule ''a'' ''web/shop:http'' 8080 81] retarget_state = ((ops, ctx', None), st')"
proof -
  have d: "calculateDesiredState live_service retarget_state = (Inr ex_ds, retarget_state\<lparr>usedPorts := [(8080, ''web/shop'')]\<rparr>)"
    by (simp add: calculateDesiredState_def live_sel live_configs example_rstate_def)
  have c: "calculateDelta (\<lambda>ks. ks) rev [example_rule ''a'' ''web/shop:http'' 8080 81] ex_ds live_context live_service =
     [delete_op (example_rule ''a'' ''web/shop:http'' 8080 81),
      \<lparr>opType = OpCreate, opConfig = example_config ''web/shop:http'' 8080 80, opExistingRule = None,
        opReason = ''port_not_yet_exists''\<rparr>]"
    by (simp add: delta_eval ex_eval go_eval live_sel)
  have "\<exists>result st'. executeOperations (rcRouter (ref_reconciler ''default''))
      (calculateDelta (\<lambda>ks. ks) rev [example_rule ''a'' ''web/shop:http'' 8080 81] ex_ds live_context live_service)
      (retarget_state\<lparr>usedPorts := [(8080, ''web/shop'')]\<rparr>) = ((result, None), st')"
    unfolding c
    by (simp add: delete_op_def rule_config_def strToInt_def exec_eval router_eval example_rstate_def
        example_cluster_def go_eval)
  then show ?thesis by (auto simp: processAllChanges_def d Let_def)
qed

lemma changed_target_port_loses_claim_witness:
  "\<exists>ops ctx' st'. processAllChanges (\<lambda>ks. ks) rev (ref_reconciler ''default'') live_service live_context
       [example_rule ''a'' ''web/shop:http'' 8080 81] retarget_state = ((ops, ctx', None), st') \<and>
     gm_get (usedPorts st') 8080 = None"
proof -
  let ?rule = "example_rule ''a'' ''web/shop:http'' 8080 81"
  from retarget_run obtain ops ctx' st' where
    run: "processAllChanges (\<lambda>ks. ks) rev (ref_reconciler ''default'') live_service live_context [?rule] retarget_state =
      ((ops, ctx', None), st')" by blast
  have "gm_get (usedPorts st') 8080 = None"
  proof (rule changed_target_port_loses_claim [OF iter_order_id iter_order_rev live_ok _ _ _ _ _ _ run])
    show "current_ok live_service [?rule]"
      by (simp add: current_ok_def exclusive_def plain_rule_def belongs_def RuleBelongsToService_def HasPrefix_def
          live_sel example_rule_def go_eval)
    show "slot ?rule = Some (8080, ToLower ''tcp'')" by (simp add: router_eval go_eval)
    show "GetPortConfigs live_service (GetLBIP live_service) FilterAnnotation (usedPorts retarget_state) =
      (Inr ex_ds, gm_set 8080 ''web/shop'' [])"
      by (simp only: live_sel) (simp add: live_configs example_rstate_def)
  qed (simp_all add: ex_ds_def example_config_def configKey_def ruleKey_def key3_def example_rule_def go_eval)
  with run show ?thesis by blast
qed

end
