(* ===== verification/Periodic.thy ===== *)
theory Periodic
  imports ReconcileCorrect
begin

text \<open>
  The periodic reconciler (pkg/controller/periodic_reconciler.go): a full comparison of all managed
  services with the router at start-up and at every tick, and the correction of what differs.  It
  shares the client, the router and the event publisher of the service reconciler, and its execution
  code.
\<close>

section \<open>The reconciler\<close>

text \<open>
  The client, the router and the event publisher are those of a service reconciler, \<open>prParts\<close>; the
  component's own are the interval, the stop channel (closed or not), the ticker (\<open>None\<close> before
  \<open>Start\<close>, then whether it runs) and the number of runs that \<open>Stop\<close> waits for.
\<close>

record 'w PeriodicReconciler =
  prParts :: "'w Reconciler"
  prInterval :: int
  prStopClosed :: bool
  prTicker :: "bool option"
  prActive :: nat

definition NewPeriodicReconciler :: "'w Reconciler \<Rightarrow> int \<Rightarrow> 'w PeriodicReconciler" where
  "NewPeriodicReconciler parts syncInterval =
     \<lparr>prParts = parts, prInterval = syncInterval, prStopClosed = False, prTicker = None, prActive = 0\<rparr>"

text \<open>
  The start of \<open>Start\<close>: \<open>time.NewTicker\<close> panics unless the interval is positive.
\<close>

definition start_ticker :: "'w PeriodicReconciler \<Rightarrow> 'w PeriodicReconciler outcome" where
  "start_ticker p = (if prInterval p > 0 then Return (p\<lparr>prTicker := Some True\<rparr>) else Panic)"

text \<open>
  \<open>Stop\<close>: closing a closed channel panics.  The model has no result while \<open>Wait\<close> blocks: \<open>None\<close>.
\<close>

definition Stop :: "'w PeriodicReconciler \<Rightarrow> 'w PeriodicReconciler outcome option" where
  "Stop p =
     (if prStopClosed p then Some Panic
      else
        (let p1 = p\<lparr>prStopClosed := True\<rparr>;
             p2 = (if prTicker p1 \<noteq> None then p1\<lparr>prTicker := Some False\<rparr> else p1)
         in if prActive p2 = 0 then Some (Return p2) else None))"

text \<open>
  No code of the program adds to the wait group, so the first \<open>Stop\<close> of a reconciler returns, and leaves the
  stop channel closed; a second one panics.
\<close>

lemma first_stop_returns:
  assumes "start_ticker (NewPeriodicReconciler parts interval) = Return p"
  shows "Stop p = Some (Return (p\<lparr>prStopClosed := True, prTicker := Some False\<rparr>))"
  using assms by (auto simp: Stop_def start_ticker_def NewPeriodicReconciler_def Let_def split: if_splits)

lemma second_stop_panics: "Stop p = Some (Return p') \<Longrightarrow> Stop p' = Some Panic"
  by (auto simp: Stop_def Let_def split: if_splits)

section \<open>Correcting a service\<close>

definition wrong_update :: "RuleMismatch \<Rightarrow> PortOperation" where
  "wrong_update wrongRule =
     \<lparr>opType = OpUpdate, opConfig = rmDesired wrongRule, opExistingRule = Some (rmCurrent wrongRule),
      opReason = ''drift_wrong_rule_safe''\<rparr>"

definition wrong_delete :: "RuleMismatch \<Rightarrow> PortOperation" where
  "wrong_delete wrongRule =
     \<lparr>opType = OpDelete, opConfig = rule_config ParseIntField (rmCurrent wrongRule),
      opExistingRule = Some (rmCurrent wrongRule), opReason = ''drift_wrong_rule_delete''\<rparr>"

definition wrong_create :: "RuleMismatch \<Rightarrow> PortOperation" where
  "wrong_create wrongRule =
     \<lparr>opType = OpCreate, opConfig = rmDesired wrongRule, opExistingRule = None, opReason = ''drift_wrong_rule_create''\<rparr>"

definition extra_delete :: "PortForward \<Rightarrow> PortOperation" where
  "extra_delete extraRule =
     \<lparr>opType = OpDelete, opConfig = rule_config ParseIntField extraRule, opExistingRule = Some extraRule,
      opReason = ''drift_extra_rule''\<rparr>"

definition missing_create :: "PortConfig \<Rightarrow> PortOperation" where
  "missing_create missingRule =
     \<lparr>opType = OpCreate, opConfig = missingRule, opExistingRule = None, opReason = ''drift_missing_rule''\<rparr>"

definition drift_operations :: "DriftAnalysis \<Rightarrow> PortOperation list" where
  "drift_operations analysis =
     (let safe = (\<lambda>wrongRule. isSafeUpdate (rmMismatchType wrongRule));
          operations = map (\<lambda>wrongRule. if safe wrongRule then wrong_update wrongRule else wrong_delete wrongRule) (WrongRules analysis);
          createOperations = map wrong_create (filter (\<lambda>wrongRule. \<not> safe wrongRule) (WrongRules analysis))
      in operations @ map extra_delete (ExtraRules analysis) @ createOperations @ map missing_create (MissingRules analysis))"

text \<open>The operations run on a temporary service reconciler with the same client and router.\<close>

definition periodic_executeOperations ::
    "'w Router \<Rightarrow> PortOperation list \<Rightarrow> ('w, 'e) cstate_scheme \<Rightarrow>
     (OperationResult \<times> error option) \<times> ('w, 'e) cstate_scheme" where
  [simp]: "periodic_executeOperations R operations st = executeOperations R operations st"

definition correctServiceDrift :: "'w Router \<Rightarrow> DriftAnalysis \<Rightarrow> ('w, 'e) cstate_scheme \<Rightarrow> error option \<times> ('w, 'e) cstate_scheme" where
  "correctServiceDrift R analysis st =
     (case periodic_executeOperations R (drift_operations analysis) st of
        ((result, Some err), st1) \<Rightarrow>
          (Some (ErrorString (''failed to execute drift correction operations: '' @ Error err)), st1)
      | ((result, None), st1) \<Rightarrow>
          if length (Failed result) > 0
          then (Some (ErrorString (Itoa (int (length (Failed result))) @ '' operations failed during drift correction'')), st1)
          else (None, st1))"

section \<open>A full reconciliation\<close>

definition shouldManageService :: "Service \<Rightarrow> bool" where
  "shouldManageService service =
     (case svcAnnotations service of
        None \<Rightarrow> False
      | Some annotations \<Rightarrow>
          if \<not> gm_has annotations FilterAnnotation then False
          else GetLBIP service \<noteq> '''')"

definition getAllManagedServices :: "'w Reconciler \<Rightarrow> 'w rstate \<Rightarrow> Service list result \<times> 'w rstate" where
  "getAllManagedServices r st =
     (case on_world (k_ListServices (rcClient r)) st of
        (Inl err, st1) \<Rightarrow> (Inl (ErrorString (''failed to list services: '' @ Error err)), st1)
      | (Inr services, st1) \<Rightarrow> (Inr (filter shouldManageService services), st1))"

definition correct_analysis :: "'w Reconciler \<Rightarrow> DriftAnalysis \<Rightarrow> 'w rstate \<Rightarrow> 'w rstate" where
  "correct_analysis r analysis st =
     (if HasDrift analysis then
        (let service = daService analysis;
             st1 = publish r (\<lambda>recorder. PublishDriftDetectedEvent recorder service analysis) st
         in case correctServiceDrift (rcRouter r) analysis st1 of
              (Some err, st2) \<Rightarrow>
                publish r (\<lambda>recorder. PublishServicePeriodicReconciliationCompletedEvent recorder service True 0 1)
                  (publish r (\<lambda>recorder. PublishDriftCorrectionFailedEvent recorder service analysis err) st2)
            | (None, st2) \<Rightarrow>
                (let rulesCorrected = length (MissingRules analysis) + length (WrongRules analysis) + length (ExtraRules analysis)
                 in publish r (\<lambda>recorder. PublishServicePeriodicReconciliationCompletedEvent recorder service True
                        (int rulesCorrected) 0)
                      (publish r (\<lambda>recorder. PublishDriftCorrectedEvent recorder service analysis) st2)))
      else st)"

definition performFullReconciliation ::
    "(string list \<Rightarrow> string list) \<Rightarrow> (string list \<Rightarrow> string list) \<Rightarrow> 'w Reconciler \<Rightarrow> 'w rstate \<Rightarrow> error option \<times> 'w rstate" where
  "performFullReconciliation itd itc r st =
     (case on_world (r_ListAllPortForwards (rcRouter r)) st of
        (Inl err, st1) \<Rightarrow> (Some (ErrorString (''failed to list router rules: '' @ Error err)), st1)
      | (Inr allRouterRules, st1) \<Rightarrow>
          (case getAllManagedServices r st1 of
             (Inl err, st2) \<Rightarrow> (Some (ErrorString (''failed to get managed services: '' @ Error err)), st2)
           | (Inr managedServices, st2) \<Rightarrow>
               (case AnalyzeAllServicesDrift itd itc managedServices allRouterRules (usedPorts st2) of
                  (Inl err, used) \<Rightarrow>
                    (Some (ErrorString (''failed to analyze drift: '' @ Error err)), st2\<lparr>usedPorts := used\<rparr>)
                | (Inr driftAnalyses, used) \<Rightarrow>
                    (None, fold (correct_analysis r) driftAnalyses (st2\<lparr>usedPorts := used\<rparr>)))))"

definition performInitialReconciliation ::
    "(string list \<Rightarrow> string list) \<Rightarrow> (string list \<Rightarrow> string list) \<Rightarrow> 'w Reconciler \<Rightarrow> 'w rstate \<Rightarrow> error option \<times> 'w rstate" where
  "performInitialReconciliation itd itc r st = performFullReconciliation itd itc r (snd (time_now r st))"

definition performPeriodicReconciliation ::
    "(string list \<Rightarrow> string list) \<Rightarrow> (string list \<Rightarrow> string list) \<Rightarrow> 'w Reconciler \<Rightarrow> 'w rstate \<Rightarrow> error option \<times> 'w rstate" where
  "performPeriodicReconciliation itd itc r st = performFullReconciliation itd itc r (snd (time_now r st))"

section \<open>The loop\<close>

text \<open>
  What the \<open>select\<close> of \<open>Start\<close> receives, in the order in which it does.  Between two signals
  other goroutines may change the state; \<open>other\<close> stands for them.  The outcome is \<open>None\<close> while the loop
  is waiting and the value of \<open>Start\<close> once it has returned.  A failed cycle is logged, and the loop
  goes on.
\<close>

datatype signal = CtxDone | StopCh | Tick

fun periodic_loop ::
    "(string list \<Rightarrow> string list) \<Rightarrow> (string list \<Rightarrow> string list) \<Rightarrow> 'w Reconciler \<Rightarrow> (nat \<Rightarrow> 'w rstate \<Rightarrow> 'w rstate) \<Rightarrow>
     signal list \<Rightarrow> 'w rstate \<Rightarrow> error option option \<times> 'w rstate" where
  "periodic_loop itd itc r other [] st = (None, st)"
| "periodic_loop itd itc r other (s # signals) st =
     (let st1 = other (length signals) st in
      case s of
        CtxDone \<Rightarrow> (Some (Some (ErrorString ''context canceled'')), st1)
      | StopCh \<Rightarrow> (Some None, st1)
      | Tick \<Rightarrow> periodic_loop itd itc r other signals (snd (performPeriodicReconciliation itd itc r st1)))"

text \<open>\<open>Start\<close> after it made its ticker; which ticks come is part of \<open>signals\<close>.\<close>

definition Start ::
    "(string list \<Rightarrow> string list) \<Rightarrow> (string list \<Rightarrow> string list) \<Rightarrow> 'w Reconciler \<Rightarrow> (nat \<Rightarrow> 'w rstate \<Rightarrow> 'w rstate) \<Rightarrow>
     signal list \<Rightarrow> 'w rstate \<Rightarrow> error option option \<times> 'w rstate" where
  "Start itd itc r other signals st =
     periodic_loop itd itc r other signals (snd (performInitialReconciliation itd itc r st))"

end
