(* ===== verification/DriftCorrect.thy ===== *)
theory DriftCorrect
  imports Periodic
begin

text \<open>
  Correctness of drift detection and correction: no drift is reported exactly for services that are in
  sync; a correction that succeeds leaves the service in sync; and a correction can only succeed when
  no rule has to be rewritten in place.
\<close>

section \<open>The matching loop\<close>

definition wrong_of :: "string \<Rightarrow> PortConfig \<Rightarrow> PortForward \<Rightarrow> RuleMismatch list" where
  "wrong_of name d er =
     (let m = ownership_mismatch name er d in
      if m \<noteq> '''' then [\<lparr>rmCurrent = er, rmDesired = d, rmMismatchType = m\<rparr>] else [])"

definition candidates ::
    "(string, PortForward) gomap \<Rightarrow> (string, PortForward list) gomap \<Rightarrow> PortConfig \<Rightarrow> PortForward list" where
  "candidates E G d =
     (case gm_get E (configKey d) of
        Some er \<Rightarrow> [er]
      | None \<Rightarrow> (case gm_get G (dstPortOnlyKey (DstPort d) (Protocol d)) of Some l \<Rightarrow> l | None \<Rightarrow> []))"

definition analysed :: "DriftAnalysis \<Rightarrow> RuleMismatch list \<Rightarrow> DriftAnalysis \<times> (string, bool) gomap \<Rightarrow> bool" where
  "analysed a ws s \<longleftrightarrow>
     fst s = a\<lparr>WrongRules := ws, HasDrift := (ws \<noteq> [])\<rparr> \<and>
     (\<forall>i. gm_get (snd s) i = Some True \<longleftrightarrow> i \<noteq> '''' \<and> (\<exists>m \<in> set ws. ID (rmCurrent m) = i))"

lemma analysed_claim:
  assumes "analysed a ws s"
  shows "analysed a (ws @ wrong_of (daServiceName a) d er) (claim_rule d er s)"
proof -
  obtain b P where s: "s = (b, P)" by fastforce
  with assms have b: "b = a\<lparr>WrongRules := ws, HasDrift := (ws \<noteq> [])\<rparr>"
    and P: "gm_get P i = Some True \<longleftrightarrow> i \<noteq> '''' \<and> (\<exists>m \<in> set ws. ID (rmCurrent m) = i)" for i
    by (auto simp: analysed_def)
  have "daServiceName b = daServiceName a" by (simp add: b)
  then show ?thesis
    unfolding s analysed_def claim_rule_def wrong_of_def Let_def
    by (auto simp: b P split: if_splits)
qed

lemma analysed_fold:
  "analysed a ws s \<Longrightarrow> analysed a (ws @ concat (map (wrong_of (daServiceName a) d) es)) (fold (claim_rule d) es s)"
proof (induction es arbitrary: ws s)
  case (Cons er es)
  from Cons.IH [OF analysed_claim [OF Cons.prems]] show ?case by simp
qed simp

lemma match_desired_candidates: "match_desired E G d s = fold (claim_rule d) (candidates E G d) s"
  by (simp add: match_desired_def candidates_def split: option.split)

lemma analysed_match:
  "analysed a ws s \<Longrightarrow>
   analysed a (ws @ concat (map (\<lambda>d. concat (map (wrong_of (daServiceName a) d) (candidates E G d))) ds))
     (fold (match_desired E G) ds s)"
proof (induction ds arbitrary: ws s)
  case (Cons d ds)
  from Cons.IH [OF analysed_fold [OF Cons.prems, of d "candidates E G d"]] show ?case
    by (simp add: match_desired_candidates)
qed simp

lemma group_rules_get:
  "gm_get (group_rules key rs m) k =
     (let new = filter (\<lambda>r. key r = k) rs in
      if new = [] then gm_get m k else Some ((case gm_get m k of None \<Rightarrow> [] | Some l \<Rightarrow> l) @ new))"
proof (induction rs arbitrary: m)
  case (Cons r rs)
  then show ?case by (auto simp: Let_def split: option.splits)
qed (simp add: Let_def)

section \<open>Candidates\<close>

lemma parse_slot:
  "ParseIntField (pfDstPort r) = p \<Longrightarrow> 0 < p \<Longrightarrow> slot r = Some (p, ToLower (Proto r))"
  by (auto simp: ParseIntField_def slot_def split: if_splits option.splits)

lemma exactKey_slot:
  "exactKey r = configKey d \<Longrightarrow> plain_config d \<Longrightarrow> 0 < DstPort d \<Longrightarrow> slot r = Some (cslot d)"
  using exactKey_serves [of r d] parse_slot [of r "DstPort d"] by (simp add: cslot_def)

lemma dstPortOnlyKey_inj:
  assumes "dstPortOnlyKey p a = dstPortOnlyKey q b" "0 \<le> p" "0 \<le> q" "in_int64 p" "in_int64 q"
  shows "p = q \<and> a = b"
  using append_sep_eq [of "Itoa p" "CHR ''-''" a "Itoa q" b] assms Itoa_nonneg_chars Itoa_inj
  by (auto simp: dstPortOnlyKey_def)

definition exact_map :: "PortForward list \<Rightarrow> (string, PortForward) gomap" where
  "exact_map rs = gm_index exactKey rs []"

definition dst_map :: "PortForward list \<Rightarrow> (string, PortForward list) gomap" where
  "dst_map rs = group_rules (\<lambda>r. dstPortOnlyKey (ParseIntField (pfDstPort r)) (Proto r)) rs []"

lemma candidate_slot:
  assumes "er \<in> set (candidates (exact_map rs) (dst_map rs) d)" "plain_config d" "0 < DstPort d"
  shows "er \<in> set rs \<and> slot er = Some (cslot d)"
proof (cases "gm_get (exact_map rs) (configKey d)")
  case (Some r)
  then have "r \<in> set rs" "exactKey r = configKey d" by (auto simp: exact_map_def dest: gm_get_index_SomeD)
  with Some assms exactKey_slot show ?thesis by (auto simp: candidates_def)
next
  case None
  with assms(1) have er: "er \<in> set rs"
    "dstPortOnlyKey (ParseIntField (pfDstPort er)) (Proto er) = dstPortOnlyKey (DstPort d) (Protocol d)"
    by (auto simp: candidates_def dst_map_def group_rules_get Let_def split: if_splits option.splits)
  with dstPortOnlyKey_inj [OF er(2)] assms(2) ParseIntField_range
  have "ParseIntField (pfDstPort er) = DstPort d" "Proto er = Protocol d" by (auto simp: plain_config_def)
  with er parse_slot [of er "DstPort d"] assms(3) show ?thesis by (simp add: cslot_def)
qed

lemma candidate_exact:
  assumes "exclusive (set rs)" "r \<in> set rs" "exactKey r = configKey d" "plain_config d" "0 < DstPort d"
  shows "candidates (exact_map rs) (dst_map rs) d = [r]"
proof -
  have "gm_get (exact_map rs) (configKey d) \<noteq> None"
    using gm_get_index_dom [of exactKey rs "[]" "configKey d"] assms(2,3) by (metis exact_map_def imageI)
  then obtain q where q: "gm_get (exact_map rs) (configKey d) = Some q" by blast
  then have "q \<in> set rs" "exactKey q = configKey d" by (auto simp: exact_map_def dest: gm_get_index_SomeD)
  with exclusiveD [OF assms(1)] assms exactKey_slot have "q = r" by metis
  with q show ?thesis by (simp add: candidates_def)
qed

section \<open>The analysis\<close>

text \<open>What \<open>analyzeServiceDrift\<close> puts into its result, as sets.\<close>

definition wrongs :: "Service \<Rightarrow> PortForward list \<Rightarrow> PortConfig list \<Rightarrow> RuleMismatch list" where
  "wrongs service rs ds =
     concat (map (\<lambda>d. concat (map (wrong_of (serviceKey service) d) (candidates (exact_map rs) (dst_map rs) d))) ds)"

definition unprocessed :: "Service \<Rightarrow> PortForward list \<Rightarrow> PortConfig list \<Rightarrow> PortForward set" where
  "unprocessed service rs ds =
     {r \<in> set rs. belongs service r \<and> \<not> (ID r \<noteq> '''' \<and> (\<exists>m \<in> set (wrongs service rs ds). ID (rmCurrent m) = ID r))}"

lemma belongs_prefix: "HasPrefix (pfName r) (serviceKey service @ '':'') \<longleftrightarrow> belongs service r"
  by (simp add: belongs_def RuleBelongsToService_def serviceKey_def)

definition drift_facts ::
    "Service \<Rightarrow> PortForward list \<Rightarrow> PortConfig list \<Rightarrow> PortForward list \<Rightarrow> DriftAnalysis \<Rightarrow> bool" where
  "drift_facts service rs ds U a \<longleftrightarrow>
     DesiredRules a = ds \<and> WrongRules a = wrongs service rs ds \<and> daService a = service \<and>
     set U = unprocessed service rs ds \<and>
     (\<forall>d. d \<in> set (MissingRules a) \<longleftrightarrow> d \<in> set ds \<and> configKey d \<notin> exactKey ` set U) \<and>
     (\<forall>r. r \<in> set (ExtraRules a) \<longleftrightarrow> (\<exists>k. gm_get (gm_index exactKey U []) k = Some r \<and> k \<notin> configKey ` set ds)) \<and>
     (HasDrift a \<longleftrightarrow> WrongRules a \<noteq> [] \<or> MissingRules a \<noteq> [] \<or> ExtraRules a \<noteq> []) \<and> distinct (MissingRules a)"

lemma drift_factsD:
  assumes "drift_facts service rs ds U a"
  shows df_desired: "DesiredRules a = ds" and df_wrong: "WrongRules a = wrongs service rs ds"
    and df_service: "daService a = service" and df_U: "set U = unprocessed service rs ds"
    and df_missing: "d \<in> set (MissingRules a) \<longleftrightarrow> d \<in> set ds \<and> configKey d \<notin> exactKey ` set U"
    and df_extra: "r \<in> set (ExtraRules a) \<longleftrightarrow> (\<exists>k. gm_get (gm_index exactKey U []) k = Some r \<and> k \<notin> configKey ` set ds)"
    and df_drift: "HasDrift a \<longleftrightarrow> WrongRules a \<noteq> [] \<or> MissingRules a \<noteq> [] \<or> ExtraRules a \<noteq> []"
    and df_distinct: "distinct (MissingRules a)"
  using assms unfolding drift_facts_def by blast+

lemma df_no_extra:
  assumes "drift_facts service rs ds U a"
  shows "ExtraRules a = [] \<longleftrightarrow> exactKey ` set U \<subseteq> configKey ` set ds"
proof -
  have "ExtraRules a = [] \<longleftrightarrow> (\<forall>r. r \<notin> set (ExtraRules a))" by (cases "ExtraRules a") auto
  also have "\<dots> \<longleftrightarrow> (\<forall>k. gm_get (gm_index exactKey U []) k \<noteq> None \<longrightarrow> k \<in> configKey ` set ds)"
    unfolding df_extra [OF assms] by auto
  finally show ?thesis by (auto simp: gm_get_index_dom)
qed

lemma df_no_missing:
  assumes "drift_facts service rs ds U a"
  shows "MissingRules a = [] \<longleftrightarrow> configKey ` set ds \<subseteq> exactKey ` set U"
proof -
  have "MissingRules a = [] \<longleftrightarrow> (\<forall>d. d \<notin> set (MissingRules a))" by (cases "MissingRules a") auto
  then show ?thesis unfolding df_missing [OF assms] by auto
qed

lemma analysis_fields:
  assumes run: "analyzeServiceDrift itd itc service rs used = (Inr a, used')"
    and it: "iter_order itd" "iter_order itc" and svc: "service_ok service"
  shows "\<exists>ds U. GetPortConfigs service (GetLBIP service) FilterAnnotation used = (Inr ds, used') \<and>
    GetLBIP service \<noteq> '''' \<and> drift_facts service rs ds U a"
proof -
  from run obtain ds where g: "GetPortConfigs service (GetLBIP service) FilterAnnotation used = (Inr ds, used')"
    and ip: "GetLBIP service \<noteq> ''''" and c: "calculateDesiredRulesForService service used = (Inr ds, used')"
    by (auto simp: analyzeServiceDrift_def calculateDesiredRulesForService_def Let_def split: prod.splits sum.splits if_splits)
  define a0 where "a0 = (newAnalysis service)\<lparr>DesiredRules := ds,
    CurrentRules := filter (\<lambda>rule. HasPrefix (pfName rule) (serviceKey service @ '':'')) rs\<rparr>"
  obtain a1 P where f: "findMatchingRulesByPortAndProtocol a0 rs = (a1, P)" by fastforce
  have a: "a = analyzeDesiredVsCurrent itd itc a1 P"
    using run c f by (simp add: analyzeServiceDrift_def Let_def a0_def)
  have "analysed a0 [] (a0, [])" by (simp add: analysed_def a0_def newAnalysis_def)
  from analysed_match [OF this, of "exact_map rs" "dst_map rs" ds] f
  have an: "analysed a0 (wrongs service rs ds) (a1, P)"
    by (simp add: findMatchingRulesByPortAndProtocol_def Let_def exact_map_def dst_map_def wrongs_def a0_def newAnalysis_def)
  then have a1: "a1 = a0\<lparr>WrongRules := wrongs service rs ds, HasDrift := (wrongs service rs ds \<noteq> [])\<rparr>"
    and P: "gm_get P i = Some True \<longleftrightarrow> i \<noteq> '''' \<and> (\<exists>m \<in> set (wrongs service rs ds). ID (rmCurrent m) = i)" for i
    by (auto simp: analysed_def)
  define U where "U = filter (\<lambda>rule. \<not> (ID rule \<noteq> '''' \<and> gm_get P (ID rule) = Some True)) (CurrentRules a1)"
  have U: "set U = unprocessed service rs ds"
    by (auto simp: U_def a1 a0_def unprocessed_def P belongs_prefix)
  have d1: "DesiredRules a1 = ds" by (simp add: a1 a0_def)
  let ?D = "gm_index configKey ds []" and ?C = "gm_index exactKey U []"
  let ?missing = "concat (map (\<lambda>k. case gm_get ?D k of None \<Rightarrow> [] | Some d \<Rightarrow> if \<not> gm_has ?C k then [d] else []) (itd (map fst ?D)))"
  let ?extra = "concat (map (\<lambda>k. case gm_get ?C k of None \<Rightarrow> [] | Some r \<Rightarrow> if \<not> gm_has ?D k then [r] else []) (itc (map fst ?C)))"
  have fields: "DesiredRules a = ds" "WrongRules a = wrongs service rs ds" "daService a = service"
    "MissingRules a = ?missing" "ExtraRules a = ?extra"
    "HasDrift a \<longleftrightarrow> WrongRules a \<noteq> [] \<or> MissingRules a \<noteq> [] \<or> ExtraRules a \<noteq> []"
    unfolding a analyzeDesiredVsCurrent_def Let_def U_def [symmetric] d1
    by (simp_all add: a1 a0_def newAnalysis_def U_def [symmetric])
  note dok = GetPortConfigs_desired_ok [OF g svc]
  have "d \<in> set (MissingRules a) \<longleftrightarrow> d \<in> set ds \<and> configKey d \<notin> exactKey ` set U" for d
    unfolding fields(4) range_loop_set [OF it(1)] desired_get [OF dok] by (auto simp: gm_get_index_dom)
  moreover have "r \<in> set (ExtraRules a) \<longleftrightarrow> (\<exists>k. gm_get ?C k = Some r \<and> k \<notin> configKey ` set ds)" for r
    unfolding fields(5) range_loop_set [OF it(2)] by (auto simp: gm_get_index_dom split: if_splits)
  moreover have "distinct (MissingRules a)"
    unfolding fields(4)
  proof (rule distinct_loop)
    show "distinct (itd (map fst ?D))" using it(1) gm_wf_index [of "[]" configKey ds] by (simp add: gm_wf_def)
  next
    fix k k' d
    assume "d \<in> set (case gm_get ?D k of None \<Rightarrow> [] | Some d \<Rightarrow> if \<not> gm_has ?C k then [d] else [])"
      and "d \<in> set (case gm_get ?D k' of None \<Rightarrow> [] | Some d \<Rightarrow> if \<not> gm_has ?C k' then [d] else [])"
    then show "k = k'" unfolding in_case_option desired_get [OF dok] by (auto split: if_splits)
  qed (simp split: option.split)
  ultimately have "drift_facts service rs ds U a" using fields(1,2,3,6) U by (simp add: drift_facts_def)
  with g ip show ?thesis by blast
qed

section \<open>Detection\<close>

text \<open>A rule is in order for a configuration: right name, ports, protocol, target and enabled flag.\<close>

definition in_order :: "PortConfig \<Rightarrow> PortForward \<Rightarrow> bool" where
  "in_order d r \<longleftrightarrow> pfName r = Name d \<and> serves d r"

lemma no_ownership_mismatch:
  assumes "exactKey r = configKey d" "plain_config d" "RuleBelongsToService (Name d) (svcNamespace service) (svcName service)"
  shows "ownership_mismatch (serviceKey service) r d = '''' \<longleftrightarrow> in_order d r"
  using exactKey_serves [OF assms(1,2)] assms(3)
  by (auto simp: ownership_mismatch_def in_order_def serves_def RuleBelongsToService_def serviceKey_def)

lemma in_order_exactKey: "in_order d r \<Longrightarrow> exactKey r = configKey d"
  by (simp add: in_order_def serves_def exactKey_def configKey_def)

lemma desired_plain:
  assumes "GetPortConfigs service (GetLBIP service) FilterAnnotation used = (Inr ds, used')" "service_ok service" "d \<in> set ds"
  shows "plain_config d" "0 < DstPort d" "in_int64 (DstPort d)"
    "RuleBelongsToService (Name d) (svcNamespace service) (svcName service)"
  using desired_config_ok [OF assms] by (auto simp: plain_config_def valid_port_def in_int64_def)

lemma wrongs_empty_iff:
  "wrongs service rs ds = [] \<longleftrightarrow>
     (\<forall>d \<in> set ds. \<forall>er \<in> set (candidates (exact_map rs) (dst_map rs) d). ownership_mismatch (serviceKey service) er d = '''')"
  by (auto simp: wrongs_def wrong_of_def Let_def)

lemma wrongs_iff:
  "m \<in> set (wrongs service rs ds) \<longleftrightarrow>
     (\<exists>d \<in> set ds. \<exists>er \<in> set (candidates (exact_map rs) (dst_map rs) d). ownership_mismatch (serviceKey service) er d \<noteq> '''' \<and>
        m = \<lparr>rmCurrent = er, rmDesired = d, rmMismatchType = ownership_mismatch (serviceKey service) er d\<rparr>)"
  by (force simp: wrongs_def wrong_of_def Let_def)

text \<open>
  C15: drift is reported exactly when a service is out of sync.  On a router without overlapping rules,
  \<open>analyzeServiceDrift\<close> reports no drift if and only if every desired port forward has a rule in order
  and every rule of the service is in order for one of them.
\<close>

theorem drift_detection_exact:
  assumes run: "analyzeServiceDrift itd itc service rs used = (Inr a, used')"
    and it: "iter_order itd" "iter_order itc" and svc: "service_ok service" and tab: "table_ok rs"
  shows "\<not> HasDrift a \<longleftrightarrow>
    (\<forall>d \<in> set (DesiredRules a). \<exists>r \<in> set rs. in_order d r) \<and>
    (\<forall>r \<in> set rs. belongs service r \<longrightarrow> (\<exists>d \<in> set (DesiredRules a). in_order d r))"
proof -
  from analysis_fields [OF run it svc] obtain ds U where
    g: "GetPortConfigs service (GetLBIP service) FilterAnnotation used = (Inr ds, used')"
    and f: "drift_facts service rs ds U a" by blast
  note cfg = desired_plain(1,2,4) [OF g svc]
  have ex: "exclusive (set rs)" using tab by (rule table_ok_exclusive)
  have ord: "ownership_mismatch (serviceKey service) r d = '''' \<longleftrightarrow> in_order d r"
    if "d \<in> set ds" "exactKey r = configKey d" for d r
    using no_ownership_mismatch [OF that(2) cfg(1,3)] that(1) by blast
  have cand: "candidates (exact_map rs) (dst_map rs) d = [r]" if "d \<in> set ds" "r \<in> set rs" "exactKey r = configKey d" for d r
    using candidate_exact [OF ex that(2,3)] cfg that(1) by blast
  have bel: "in_order d r \<Longrightarrow> d \<in> set ds \<Longrightarrow> belongs service r" for d r
    using cfg(3) by (simp add: in_order_def belongs_def)
  note extra = df_no_extra [OF f] and missing = df_no_missing [OF f]
  show ?thesis
  proof
    assume "\<not> HasDrift a"
    then have none: "wrongs service rs ds = []" "exactKey ` set U = configKey ` set ds"
      using df_wrong [OF f] df_drift [OF f] extra missing by auto
    then have U: "set U = {r \<in> set rs. belongs service r}" by (simp add: df_U [OF f] unprocessed_def)
    have pair: "in_order d r" if "d \<in> set ds" "r \<in> set U" "exactKey r = configKey d" for d r
      using none(1) cand [of d r] ord [of d r] that U unfolding wrongs_empty_iff by auto
    show "(\<forall>d \<in> set (DesiredRules a). \<exists>r \<in> set rs. in_order d r) \<and>
      (\<forall>r \<in> set rs. belongs service r \<longrightarrow> (\<exists>d \<in> set (DesiredRules a). in_order d r))"
      unfolding df_desired [OF f] using pair none(2) U by (auto simp: set_eq_iff image_iff) metis+
  next
    assume sync: "(\<forall>d \<in> set (DesiredRules a). \<exists>r \<in> set rs. in_order d r) \<and>
      (\<forall>r \<in> set rs. belongs service r \<longrightarrow> (\<exists>d \<in> set (DesiredRules a). in_order d r))"
    have none: "wrongs service rs ds = []"
      unfolding wrongs_empty_iff using sync cand ord in_order_exactKey df_desired [OF f] by fastforce
    then have U: "set U = {r \<in> set rs. belongs service r}" by (simp add: df_U [OF f] unprocessed_def)
    have "exactKey ` set U = configKey ` set ds"
      using sync in_order_exactKey bel unfolding U df_desired [OF f] by (auto simp: image_iff) metis+
    with none extra missing show "\<not> HasDrift a" by (simp add: df_wrong [OF f] df_drift [OF f])
  qed
qed

section \<open>Correction\<close>

lemma mismatch_kinds: "ownership_mismatch n er d \<in> {'''', ''ownership'', ''name'', ''ip'', ''enabled''}"
  by (simp add: ownership_mismatch_def)

lemma mismatch_safe: "m \<in> set (wrongs service rs ds) \<Longrightarrow> isSafeUpdate (rmMismatchType m)"
  using mismatch_kinds unfolding wrongs_iff isSafeUpdate_def by fastforce

lemma drift_operations_eq:
  assumes "drift_facts service rs ds U a"
  shows "drift_operations a = map wrong_update (WrongRules a) @ map extra_delete (ExtraRules a) @ map missing_create (MissingRules a)"
proof -
  have "\<forall>m \<in> set (WrongRules a). isSafeUpdate (rmMismatchType m)" using mismatch_safe df_wrong [OF assms] by metis
  then show ?thesis by (simp add: drift_operations_def Let_def)
qed

lemma extra_in_U: "drift_facts service rs ds U a \<Longrightarrow> r \<in> set (ExtraRules a) \<Longrightarrow> r \<in> set U \<and> exactKey r \<notin> configKey ` set ds"
  using df_extra gm_get_index_SomeD by fastforce



lemma extra_delete_positive:
  "0 < fst (op_slot (extra_delete r)) \<Longrightarrow> slot r = Some (op_slot (extra_delete r))"
  using parse_slot [of r "ParseIntField (pfDstPort r)"] by (simp add: extra_delete_def rule_config_def cslot_def)

lemma drift_wf:
  assumes f: "drift_facts service rs ds U a" and ds: "\<forall>d \<in> set ds. in_int64 (DstPort d)" and op: "op \<in> set (drift_operations a)"
  shows "in_int64 (DstPort (opConfig op))"
proof -
  from op consider m where "m \<in> set (WrongRules a)" "op = wrong_update m" | r where "op = extra_delete r"
    | d where "d \<in> set (MissingRules a)" "op = missing_create d"
    unfolding drift_operations_eq [OF f] by auto
  then show ?thesis
  proof cases
    case 1
    then show ?thesis using ds by (auto simp: df_wrong [OF f] wrongs_iff wrong_update_def)
  next
    case 2
    then show ?thesis using ParseIntField_range by (simp add: extra_delete_def rule_config_def)
  next
    case 3
    then show ?thesis using ds by (auto simp: df_missing [OF f] missing_create_def)
  qed
qed

text \<open>
  A rule that has to be rewritten is not counted as present, so its configuration is also missing.
\<close>

lemma wrong_is_missing:
  assumes f: "drift_facts service rs ds U a" and tab: "table_ok rs" and m: "m \<in> set (WrongRules a)"
    and cfg: "\<forall>d \<in> set ds. plain_config d \<and> 0 < DstPort d"
  shows "rmDesired m \<in> set (MissingRules a) \<and> rmCurrent m \<in> set rs \<and> slot (rmCurrent m) = Some (cslot (rmDesired m))"
proof -
  from m obtain d er where d: "d \<in> set ds" and er: "er \<in> set (candidates (exact_map rs) (dst_map rs) d)"
    and me: "rmCurrent m = er" "rmDesired m = d" by (auto simp: df_wrong [OF f] wrongs_iff)
  note s = candidate_slot [OF er] and ex = table_ok_exclusive [OF tab]
  have "configKey d \<notin> exactKey ` set U"
  proof
    assume "configKey d \<in> exactKey ` set U"
    then obtain q where q: "q \<in> set U" "exactKey q = configKey d" by auto
    then have "q \<in> set rs" by (simp add: df_U [OF f] unprocessed_def)
    with exclusiveD [OF ex] s exactKey_slot [OF q(2)] cfg d have "q = er" by blast
    with q \<open>q \<in> set rs\<close> m me tab show False
      by (auto simp: df_U [OF f] unprocessed_def df_wrong [OF f] table_ok_def image_iff)
  qed
  with d s cfg me show ?thesis by (simp add: df_missing [OF f])
qed

lemma correctServiceDrift_None:
  assumes "correctServiceDrift R a st = (None, st')"
  shows "\<exists>result. executeOperations R (drift_operations a) st = ((result, None), st')"
  using assms by (auto simp: correctServiceDrift_def split: prod.splits option.splits if_splits)

text \<open>
  The setting of a correction: an analysis of the rules that are on the router.
\<close>

definition drift_setting ::
    "'w Router \<Rightarrow> ('w \<Rightarrow> PortForward list) \<Rightarrow> ('w, 'e) cstate_scheme \<Rightarrow> Service \<Rightarrow> PortForward list \<Rightarrow> PortConfig list \<Rightarrow>
     PortForward list \<Rightarrow> DriftAnalysis \<Rightarrow> bool" where
  "drift_setting R rules st service rs ds U a \<longleftrightarrow>
     router_contract R rules \<and> table_ok (rules (world st)) \<and> table_ok rs \<and> set rs = set (rules (world st)) \<and>
     desired_ok service ds \<and> (\<forall>d \<in> set ds. plain_config d \<and> 0 < DstPort d \<and> in_int64 (DstPort d)) \<and>
     drift_facts service rs ds U a"

lemma drift_setting_configs:
  "drift_setting R rules st service rs ds U a \<Longrightarrow> DesiredRules a = ds"
  by (simp add: drift_setting_def drift_facts_def)

lemma drift_settingI:
  assumes "router_contract R rules" "table_ok (rules (world st))" "iter_order itd" "iter_order itc" "service_ok service"
    and "analyzeServiceDrift itd itc service rs used = (Inr a, used')" "mset rs = mset (rules (world st))"
  shows "\<exists>ds U. drift_setting R rules st service rs ds U a"
proof -
  from analysis_fields [OF assms(6,3,4,5)] obtain ds U where
    g: "GetPortConfigs service (GetLBIP service) FilterAnnotation used = (Inr ds, used')"
    and f: "drift_facts service rs ds U a" by blast
  have "table_ok rs" "set rs = set (rules (world st))" using assms table_ok_mset mset_eq_setD by metis+
  with assms(1,2,5) f desired_plain [OF g] GetPortConfigs_desired_ok [OF g] show ?thesis
    unfolding drift_setting_def by blast
qed

lemma drift_settingD:
  assumes "drift_setting R rules st service rs ds U a"
  shows ds_R: "router_contract R rules" and ds_tab: "table_ok (rules (world st))" and ds_rs: "table_ok rs"
    and ds_set: "set rs = set (rules (world st))" and ds_ok: "desired_ok service ds"
    and ds_cfg: "\<forall>d \<in> set ds. plain_config d \<and> 0 < DstPort d \<and> in_int64 (DstPort d)"
    and ds_facts: "drift_facts service rs ds U a"
  using assms unfolding drift_setting_def by blast+

lemma drift_run:
  assumes s: "drift_setting R rules st service rs ds U a" and run: "correctServiceDrift R a st = (None, st')"
  shows "ops_post (drift_operations a) (set rs) (set (rules (world st'))) \<and> table_ok (rules (world st'))"
  using correctServiceDrift_None [OF run] router_contract.exec_ok [OF ds_R [OF s] _ ds_tab [OF s]]
  unfolding ds_set [OF s] executeOperations_def by blast

lemma no_delete_on_wrong:
  assumes f: "drift_facts service rs ds U a" and rs: "table_ok rs" and m: "m \<in> set (WrongRules a)"
    and er: "rmCurrent m \<in> set rs" "slot (rmCurrent m) = Some s" "0 < fst s"
    and op: "op \<in> set (drift_operations a)" "op_slot op = s"
  shows "opType op \<noteq> OpDelete"
proof
  assume "opType op = OpDelete"
  with op obtain r where r: "r \<in> set (ExtraRules a)" "op = extra_delete r"
    unfolding drift_operations_eq [OF f] by (auto simp: wrong_update_def missing_create_def)
  with op er(3) extra_delete_positive have "slot r = Some s" by blast
  moreover from extra_in_U [OF f r(1)] have "r \<in> set rs" "r \<in> unprocessed service rs ds"
    by (auto simp: df_U [OF f] unprocessed_def)
  ultimately have "r = rmCurrent m" using exclusiveD [OF table_ok_exclusive [OF rs]] er by blast
  with \<open>r \<in> unprocessed service rs ds\<close> \<open>r \<in> set rs\<close> m rs show False
    by (auto simp: unprocessed_def df_wrong [OF f] table_ok_def image_iff)
qed

lemma corrected_nothing_wrong:
  assumes s: "drift_setting R rules st service rs ds U a" and run: "correctServiceDrift R a st = (None, st')"
  shows "WrongRules a = []"
proof (rule ccontr)
  note f = ds_facts [OF s] and rs = ds_rs [OF s] and cfg = ds_cfg [OF s]
  assume "WrongRules a \<noteq> []"
  then obtain m where m: "m \<in> set (WrongRules a)" by (cases "WrongRules a") auto
  from wrong_is_missing [OF f rs m] cfg
  have mm: "rmDesired m \<in> set (MissingRules a)" "rmCurrent m \<in> set rs" "slot (rmCurrent m) = Some (cslot (rmDesired m))"
    by auto
  from mm(1) cfg have "0 < fst (cslot (rmDesired m))" by (auto simp: df_missing [OF f] cslot_def)
  with no_delete_on_wrong [OF f rs m mm(2,3)] ops_post_occupied [OF conjunct1 [OF drift_run [OF s run]]] drift_wf [OF f] cfg mm(2,3)
  have "\<forall>op \<in> set (drift_operations a). \<not> (op_slot op = cslot (rmDesired m) \<and> opType op = OpCreate)" by blast
  moreover have "missing_create (rmDesired m) \<in> set (drift_operations a)"
    using mm(1) by (simp add: drift_operations_eq [OF f])
  ultimately show False by (auto simp: missing_create_def)
qed

text \<open>
  A drift that needs a rule to be rewritten is never corrected.  When the analysis finds a rule with the
  wrong name, target or enabled flag, or a foreign rule on a desired port, it schedules an update of
  that rule and, for the same port, the creation of a new one.  A router that refuses two rules on one
  port then fails the creation, so \<open>correctServiceDrift\<close> reports an error.
\<close>

lemma rewriting_drift_never_corrected:
  assumes R: "router_contract R rules" and tab: "table_ok (rules (world st))"
    and it: "iter_order itd" "iter_order itc" and svc: "service_ok service"
    and run: "analyzeServiceDrift itd itc service rs used = (Inr a, used')" "mset rs = mset (rules (world st))"
    and wrong: "WrongRules a \<noteq> []"
  shows "\<exists>err st'. correctServiceDrift R a st = (Some err, st')"
proof (rule ccontr)
  assume "\<not> ?thesis"
  then obtain st' where "correctServiceDrift R a st = (None, st')" by (metis option.exhaust surj_pair)
  with drift_settingI [OF R tab it svc run] corrected_nothing_wrong wrong show False by blast
qed

lemma exactKey_same_slot:
  assumes eq: "exactKey r = exactKey q" and pos: "0 < ParseIntField (pfDstPort r)"
  shows "slot r = slot q"
proof -
  have nodash: "CHR ''-'' \<notin> set (Itoa (ParseIntField s))" for s using Itoa_nonneg_chars ParseIntField_range by blast
  from eq have 0: "Itoa (ParseIntField (pfDstPort r)) @ CHR ''-'' # (Itoa (ParseIntField (pfFwdPort r)) @ CHR ''-'' # Proto r) =
      Itoa (ParseIntField (pfDstPort q)) @ CHR ''-'' # (Itoa (ParseIntField (pfFwdPort q)) @ CHR ''-'' # Proto q)"
    by (simp add: exactKey_def key3_def)
  from append_sep_eq [OF 0 nodash nodash]
  have 1: "Itoa (ParseIntField (pfDstPort r)) = Itoa (ParseIntField (pfDstPort q))"
    and 2: "Itoa (ParseIntField (pfFwdPort r)) @ CHR ''-'' # Proto r = Itoa (ParseIntField (pfFwdPort q)) @ CHR ''-'' # Proto q"
    by blast+
  from append_sep_eq [OF 2 nodash nodash] have "Proto r = Proto q" by simp
  moreover from 1 Itoa_inj ParseIntField_range have "ParseIntField (pfDstPort q) = ParseIntField (pfDstPort r)" by metis
  ultimately show ?thesis using parse_slot [OF _ pos] parse_slot [of q] pos by simp
qed

lemma ParseIntField_plain: "0 \<le> i \<Longrightarrow> in_int64 i \<Longrightarrow> ParseIntField (Itoa i) = i"
  by (simp add: ParseIntField_def Atoi_Itoa)

lemma realises_in_order: "realises d r \<Longrightarrow> plain_config d \<Longrightarrow> in_order d r"
  by (simp add: realises_def in_order_def serves_def plain_config_def ParseIntField_plain)

lemma drift_plan_ok:
  assumes s: "drift_setting R rules st service rs ds U a" and none: "WrongRules a = []"
    and pos: "\<forall>r \<in> set rs. belongs service r \<longrightarrow> 0 < ParseIntField (pfDstPort r)"
  shows "plan_ok exactKey in_order (filter (belongs service) rs) ds (map extra_delete (ExtraRules a)) (map missing_create (MissingRules a))"
proof -
  note f = ds_facts [OF s] and cfg = ds_cfg [OF s] and ok = ds_ok [OF s] and ex = table_ok_exclusive [OF ds_rs [OF s]]
  have U: "set U = set (filter (belongs service) rs)" using none by (simp add: df_U [OF f] unprocessed_def df_wrong [OF f])
  have ops: "drift_operations a = map extra_delete (ExtraRules a) @ map missing_create (MissingRules a)"
    by (simp add: drift_operations_eq [OF f] none)
  have del: "slot r = Some (op_slot (extra_delete r))" if "r \<in> set U" for r
    using extra_delete_positive [of r] pos that U by (simp add: extra_delete_def rule_config_def cslot_def)
  have stale: "\<exists>op \<in> set (map extra_delete (ExtraRules a)). slot r = Some (op_slot op)"
    if r: "r \<in> set U" "exactKey r \<notin> configKey ` set ds" for r
  proof -
    from r(1) gm_get_index_dom [of exactKey U "[]" "exactKey r"] obtain q where
      q: "gm_get (gm_index exactKey U []) (exactKey r) = Some q" by auto
    then have "q \<in> set U" "exactKey q = exactKey r" by (auto dest: gm_get_index_SomeD)
    moreover from this exactKey_same_slot [of r q] pos r U have "slot r = slot q" by simp
    moreover have "q \<in> set (ExtraRules a)" using q r(2) df_extra [OF f] by blast
    ultimately show ?thesis using del by auto
  qed
  have good: "in_order d r" if "r \<in> set U" "d \<in> set ds" "exactKey r = configKey d" for r d
  proof -
    have "candidates (exact_map rs) (dst_map rs) d = [r]" using candidate_exact [OF ex] that cfg U by simp
    with none that(2) have "ownership_mismatch (serviceKey service) r d = ''''"
      unfolding df_wrong [OF f] wrongs_empty_iff by auto
    with no_ownership_mismatch [OF that(3)] that(2) cfg ok show ?thesis by (auto simp: desired_ok_def)
  qed
  have 1: "\<forall>d \<in> set ds. \<forall>r. realises d r \<longrightarrow> in_order d r" using cfg by (simp add: realises_in_order)
  have 2: "\<forall>op \<in> set (map extra_delete (ExtraRules a) @ map missing_create (MissingRules a)). in_int64 (DstPort (opConfig op))"
    using drift_wf [OF f] cfg ops by metis
  have 3: "\<forall>op \<in> set (map extra_delete (ExtraRules a)). opType op = OpDelete \<and>
      (\<exists>r \<in> set U. exactKey r \<notin> configKey ` set ds \<and> slot r = Some (op_slot op))"
    using extra_in_U [OF f] del by (force simp: extra_delete_def)
  have 4: "\<forall>op \<in> set (map missing_create (MissingRules a)). opConfig op \<in> set ds \<and> opType op = OpCreate"
    using df_missing [OF f] by (simp add: missing_create_def)
  have 5: "\<forall>d \<in> set ds. configKey d \<notin> exactKey ` set U \<longrightarrow> (\<exists>op \<in> set (map missing_create (MissingRules a)). opConfig op = d)"
    using df_missing [OF f] by (simp add: missing_create_def)
  have 6: "\<forall>r \<in> set U. \<forall>d \<in> set ds. exactKey r = configKey d \<longrightarrow> slot r = Some (cslot d)"
    using exactKey_slot cfg by blast
  show ?thesis
    unfolding plan_ok_def U [symmetric] by (intro conjI 1 2 3 5 6) (use stale good 4 in blast)+
qed

text \<open>
  C18: a correction that succeeds puts the service in order.  If the external ports of the service's rules
  are numbers above zero and \<open>correctServiceDrift\<close> reports no error, then afterwards every desired
  port forward has a rule with the right name, ports, protocol, target and flag, every rule of the service is
  such a rule, and no other rule has changed.
\<close>

theorem drift_correction_converges:
  assumes R: "router_contract R rules" and tab: "table_ok (rules (world st))"
    and it: "iter_order itd" "iter_order itc" and svc: "service_ok service"
    and run: "analyzeServiceDrift itd itc service rs used = (Inr a, used')" "mset rs = mset (rules (world st))"
    and pos: "\<forall>r \<in> set rs. belongs service r \<longrightarrow> 0 < ParseIntField (pfDstPort r)"
    and ok: "correctServiceDrift R a st = (None, st')"
  shows "converged in_order service (DesiredRules a) (set (rules (world st))) (set (rules (world st'))) \<and> table_ok (rules (world st'))"
proof -
  from drift_settingI [OF R tab it svc run] obtain ds U where s: "drift_setting R rules st service rs ds U a" by blast
  note f = ds_facts [OF s] and none = corrected_nothing_wrong [OF s ok] and r = drift_run [OF s ok]
  have "plan_run exactKey in_order service ds (filter (belongs service) rs) (map extra_delete (ExtraRules a))
      (map missing_create (MissingRules a)) (set rs) (set (rules (world st')))"
    using drift_plan_ok [OF s none pos] ds_ok [OF s] table_ok_exclusive [OF ds_rs [OF s]] r
    by (auto simp: plan_run_def drift_operations_eq [OF f] none)
  from plan_run_converges [OF this] r show ?thesis by (simp add: df_desired [OF f] ds_set [OF s])
qed

section \<open>Concrete runs\<close>

lemmas drift_eval = analyzeServiceDrift_def calculateDesiredRulesForService_def newAnalysis_def
  findMatchingRulesByPortAndProtocol_def match_desired_def claim_rule_def ownership_mismatch_def
  analyzeDesiredVsCurrent_def exactKey_def configKey_def dstPortOnlyKey_def ParseIntField_def key3_def
  live_sel live_configs example_rule_def ex_ds_def example_config_def HasPrefix_def go_eval

text \<open>A service with a missing and an extra rule, and one whose rule points to an old address.\<close>

definition live_analysis :: DriftAnalysis where
  "live_analysis =
     \<lparr>daServiceName = ''web/shop'', daService = live_service, DesiredRules = ex_ds, CurrentRules = ex_cur,
      MissingRules = ex_ds, WrongRules = [], ExtraRules = ex_cur, HasDrift = True\<rparr>"

definition stale_rule :: PortForward where
  "stale_rule = (example_rule ''a'' ''web/shop:http'' 8080 80)\<lparr>Fwd := ''10.0.0.9''\<rparr>"

definition stale_analysis :: DriftAnalysis where
  "stale_analysis =
     \<lparr>daServiceName = ''web/shop'', daService = live_service, DesiredRules = ex_ds, CurrentRules = [stale_rule],
      MissingRules = ex_ds,
      WrongRules = [\<lparr>rmCurrent = stale_rule, rmDesired = example_config ''web/shop:http'' 8080 80, rmMismatchType = ''ip''\<rparr>],
      ExtraRules = [], HasDrift = True\<rparr>"

lemma live_analysis_run:
  "analyzeServiceDrift (\<lambda>ks. ks) rev live_service example_rules [] = (Inr live_analysis, [(8080, ''web/shop'')])"
  by (simp add: drift_eval live_analysis_def example_rules_def ex_cur_def)

lemma stale_analysis_run:
  "analyzeServiceDrift (\<lambda>ks. ks) rev live_service [stale_rule] [] = (Inr stale_analysis, [(8080, ''web/shop'')])"
  by (simp add: drift_eval stale_analysis_def stale_rule_def)

lemma stale_ok: "table_ok [stale_rule]"
  by (simp add: stale_rule_def example_rule_def table_ok_def exclusive_def)

lemma live_drift_run:
  "\<exists>st'. correctServiceDrift (unifi_router (ref_router ''default'')) live_analysis (example_state example_rules []) = (None, st')"
  by (simp add: correctServiceDrift_def drift_operations_def live_analysis_def ex_cur_def ex_ds_def extra_delete_def
      missing_create_def rule_config_def example_rules_def exec_eval router_eval ParseIntField_def go_eval)

lemma example_positive: "r \<in> set example_rules \<Longrightarrow> 0 < ParseIntField (pfDstPort r)"
  by (auto simp: example_rules_def example_rule_def ParseIntField_def go_eval)

theorem drift_detection_exact_witness:
  "HasDrift live_analysis \<and> \<not> (\<forall>d \<in> set ex_ds. \<exists>r \<in> set example_rules. in_order d r)"
proof -
  have "\<not> \<not> HasDrift live_analysis" by (simp add: live_analysis_def)
  then show ?thesis
    using drift_detection_exact [OF live_analysis_run iter_order_id iter_order_rev live_ok example_rules_ok(1)]
    by (auto simp: live_analysis_def in_order_def example_rules_def ex_ds_def example_rule_def example_config_def)
qed

theorem rewriting_drift_never_corrected_witness:
  "\<exists>err st'. correctServiceDrift (unifi_router (ref_router ''default'')) stale_analysis (example_state [stale_rule] []) = (Some err, st')"
  by (rule rewriting_drift_never_corrected [OF ref.router_contract_axioms _ iter_order_id iter_order_rev live_ok stale_analysis_run])
    (simp_all add: example_state_def example_gateway_def stale_ok stale_analysis_def)

theorem drift_correction_converges_witness:
  "\<exists>st'. correctServiceDrift (unifi_router (ref_router ''default'')) live_analysis (example_state example_rules []) = (None, st') \<and>
     converged in_order live_service ex_ds (set example_rules) (set (gw_rules (world st')))"
proof -
  from live_drift_run obtain st' where
    run: "correctServiceDrift (unifi_router (ref_router ''default'')) live_analysis (example_state example_rules []) = (None, st')"
    by blast
  have "converged in_order live_service (DesiredRules live_analysis) (set (gw_rules (world (example_state example_rules []))))
      (set (gw_rules (world st'))) \<and> table_ok (gw_rules (world st'))"
    by (rule drift_correction_converges [OF ref.router_contract_axioms _ iter_order_id iter_order_rev live_ok live_analysis_run _ _ run])
      (simp_all add: example_state_def example_gateway_def example_rules_ok example_positive)
  with run show ?thesis by (auto simp: example_state_def example_gateway_def live_analysis_def)
qed

end
