(* ===== verification/Progress.thy ===== *)
theory Progress
  imports DriftCorrect
begin

text \<open>
  Progress: on a router in service and an API server that answers, the planned operations succeed.  With
  the convergence results this gives total correctness: the reconciler and the clean-up do reach
  their goal, not only when they happen to report success.
\<close>

section \<open>Operation lists that run through\<close>

text \<open>
  Whether a list of operations runs through depends on the occupied slots alone: a creation needs a free
  slot, an update an occupied one.
\<close>

fun runnable :: "(PortConfig \<Rightarrow> bool) \<Rightarrow> PortOperation list \<Rightarrow> (int \<times> string) set \<Rightarrow> bool" where
  "runnable A [] T \<longleftrightarrow> True"
| "runnable A (op # ops) T \<longleftrightarrow>
     in_int64 (DstPort (opConfig op)) \<and>
     (case opType op of
        OpCreate \<Rightarrow> A (opConfig op) \<and> DstIP (opConfig op) \<noteq> '''' \<and> op_slot op \<notin> T \<and> runnable A ops (insert (op_slot op) T)
      | OpUpdate \<Rightarrow> A (opConfig op) \<and> op_slot op \<in> T \<and> runnable A ops T
      | OpDelete \<Rightarrow> runnable A ops (T - {op_slot op}))"

definition occupied :: "PortForward set \<Rightarrow> (int \<times> string) set" where
  "occupied S = {s. \<exists>r \<in> S. slot r = Some s}"

lemma occupied_iff: "s \<in> occupied S \<longleftrightarrow> Some s \<in> slot ` S"
  by (force simp: occupied_def)

lemma occupied_def2: "occupied S = {s. Some s \<in> slot ` S}"
  using occupied_iff by blast

lemma occupied_post:
  assumes "op_post op S S'" "in_int64 (DstPort (opConfig op))"
  shows "occupied S' = (case opType op of OpCreate \<Rightarrow> insert (op_slot op) (occupied S)
    | OpUpdate \<Rightarrow> occupied S | OpDelete \<Rightarrow> occupied S - {op_slot op})"
proof (cases "opType op")
  case OpCreate
  with assms show ?thesis by (auto simp: op_post_def occupied_def slot_realises)
next
  case OpUpdate
  with assms(1) obtain old new where o: "old \<in> S" "slot old = Some (op_slot op)" "realises (opConfig op) new"
    "S' = insert new (S - {old})" by (auto simp: op_post_def)
  with assms(2) have "slot new = slot old" by (simp add: slot_realises)
  with o(1,4) have "slot ` S' = slot ` S" by (metis image_insert insert_Diff)
  with OpUpdate show ?thesis by (simp add: occupied_def2)
next
  case OpDelete
  with assms show ?thesis by (auto simp: op_post_def occupied_def)
qed

lemma runnable_deletes:
  assumes "\<forall>op \<in> set dels. opType op = OpDelete \<and> in_int64 (DstPort (opConfig op))"
  shows "runnable A (dels @ ops) T \<longleftrightarrow> runnable A ops (T - op_slot ` set dels)"
  using assms by (induction dels arbitrary: T) (auto simp: set_diff_eq Diff_insert [symmetric] Diff_Diff_Int)

lemma runnable_adds:
  assumes "distinct (map op_slot adds)" "\<forall>op \<in> set adds. in_int64 (DstPort (opConfig op)) \<and> A (opConfig op) \<and>
      DstIP (opConfig op) \<noteq> '''' \<and> (opType op = OpCreate \<and> op_slot op \<notin> T \<or> opType op = OpUpdate \<and> op_slot op \<in> T)"
  shows "runnable A adds T"
  using assms
proof (induction adds arbitrary: T)
  case (Cons op adds)
  have "op_slot q \<noteq> op_slot op" if "q \<in> set adds" for q using Cons.prems(1) that by (auto simp: image_iff)
  with Cons.prems(2) have "runnable A adds (insert (op_slot op) T)" "runnable A adds T"
    using Cons.prems(1) by (auto intro!: Cons.IH)
  with Cons.prems(2) show ?case by (auto split: OperationType.split)
qed simp

context router_up
begin

lemma run_op_up:
  assumes "up w" "table_ok (rules w)" "runnable accepted (op # ops) (occupied (set (rules w)))"
  shows "\<exists>w'. run_op R op w = (Inr (), w') \<and> up w' \<and> table_ok (rules w') \<and> runnable accepted ops (occupied (set (rules w')))"
proof -
  have "\<exists>w'. run_op R op w = (Inr (), w') \<and> up w'"
    using assms add_up [of w "opConfig op"] update_up [of w "opConfig op"] remove_up [of w "opConfig op"]
    by (auto simp: run_op_def occupied_iff split: OperationType.splits)
  then obtain w' where w': "run_op R op w = (Inr (), w')" "up w'" by blast
  from run_op_ok [OF w'(1) assms(2)] occupied_post assms(3) w' show ?thesis
    by (auto split: OperationType.splits)
qed

lemma exec_up:
  assumes "up (world st)" "table_ok (rules (world st))" "runnable accepted ops (occupied (set (rules (world st))))"
  shows "\<exists>result' st'. exec_loop R ops completed result st = ((result', None), st') \<and> up (world st')"
  using assms
proof (induction ops arbitrary: completed result st)
  case (Cons op ops)
  from run_op_up [OF Cons.prems] obtain w' where
    "run_op R op (world st) = (Inr (), w')" "up w'" "table_ok (rules w')" "runnable accepted ops (occupied (set (rules w')))" by blast
  with Cons.IH [of "st\<lparr>usedPorts := unmark_op op (usedPorts st), world := w'\<rparr>"] show ?case by simp
qed simp

lemma cleanup_up:
  assumes "up (world st)" "table_ok (rules (world st))" "\<forall>op \<in> set ops. opType op = OpDelete"
  shows "\<exists>result' st'. cleanup_loop R ops completed result st = ((result', None), st') \<and> up (world st')"
  using assms
proof (induction ops arbitrary: completed result st)
  case (Cons op ops)
  from remove_up [OF Cons.prems(1,2)] obtain w' where w': "r_RemovePort R (opConfig op) (world st) = (Inr (), w')" "up w'" by blast
  with remove_ok [OF Cons.prems(2)] have "table_ok (rules w')" by blast
  with w' Cons.IH [of "st\<lparr>usedPorts := UnmarkPortUsed (DstPort (opConfig op)) (usedPorts st), world := w'\<rparr>"] Cons.prems(3)
  show ?case by simp
qed simp

end

section \<open>Plans run through\<close>

text \<open>No rule of anyone else sits on a slot the service asks for.\<close>

definition unclaimed :: "Service \<Rightarrow> PortConfig list \<Rightarrow> PortForward set \<Rightarrow> bool" where
  "unclaimed service ds S \<longleftrightarrow> (\<forall>r \<in> S. \<not> belongs service r \<longrightarrow> slot r \<notin> Some ` cslot ` set ds)"

lemma plan_runnable:
  assumes plan: "plan_ok key good cur ds dels adds" and S: "exclusive S" "set cur = {r \<in> S. belongs service r}"
    and ds: "desired_ok service ds" and free: "unclaimed service ds S"
    and acc: "\<forall>d \<in> set ds. A d \<and> DstIP d \<noteq> ''''"
    and new: "\<forall>op \<in> set adds. opType op = OpCreate \<longrightarrow> configKey (opConfig op) \<notin> key ` set cur"
    and dist: "distinct (map op_slot adds)"
  shows "runnable A (dels @ adds) (occupied S)"
proof -
  have del: "\<exists>r \<in> set cur. key r \<notin> configKey ` set ds \<and> slot r = Some s" if "s \<in> op_slot ` set dels" for s
    using po_del [OF plan] that by blast
  have "opType op = OpCreate \<and> op_slot op \<notin> occupied S - op_slot ` set dels \<or>
      opType op = OpUpdate \<and> op_slot op \<in> occupied S - op_slot ` set dels" if op: "op \<in> set adds" for op
  proof (cases "opType op = OpCreate")
    case True
    have "op_slot op \<in> op_slot ` set dels" if occ: "r \<in> S" "slot r = Some (op_slot op)" for r
    proof -
      have d: "opConfig op \<in> set ds" using po_add [OF plan op] by blast
      with free occ have r: "r \<in> set cur" unfolding S(2) unclaimed_def by auto
      have "key r \<notin> configKey ` set ds"
      proof
        assume "key r \<in> configKey ` set ds"
        then obtain e where e: "e \<in> set ds" "key r = configKey e" by blast
        with po_key [OF plan r] occ have "DstPort e = DstPort (opConfig op)" by (auto simp: cslot_def)
        with desired_same_slot [OF ds] d e have "key r = configKey (opConfig op)" by metis
        with new op True r show False by (metis imageI)
      qed
      from po_stale [OF plan r this] occ show ?thesis by auto
    qed
    with True show ?thesis by (auto simp: occupied_def)
  next
    case False
    with po_add [OF plan op] obtain r where r: "opConfig op \<in> set ds" "opType op = OpUpdate" "r \<in> set cur"
      "key r = configKey (opConfig op)" by auto
    with po_key [OF plan] have s: "slot r = Some (op_slot op)" by blast
    have "op_slot op \<notin> op_slot ` set dels"
    proof
      assume "op_slot op \<in> op_slot ` set dels"
      with del obtain q where q: "q \<in> set cur" "key q \<notin> configKey ` set ds" "slot q = Some (op_slot op)" by blast
      with exclusiveD [OF S(1) _ _ _ s, of q] r S(2) show False by auto
    qed
    with r s S(2) show ?thesis by (auto simp: occupied_def)
  qed
  then have "runnable A adds (occupied S - op_slot ` set dels)"
    using po_wf [OF plan] po_add [OF plan] acc by (intro runnable_adds [OF dist]) auto
  then show ?thesis using po_del [OF plan] po_wf [OF plan] by (subst runnable_deletes) auto
qed

lemma delta_add_form:
  assumes "op \<in> delta_add ctx cur ds"
  shows "case opExistingRule op of
      None \<Rightarrow> op = \<lparr>opType = OpCreate, opConfig = opConfig op, opExistingRule = None, opReason = ''port_not_yet_exists''\<rparr> \<and>
        configKey (opConfig op) \<notin> ruleKey ` set cur
    | Some r \<Rightarrow> op = \<lparr>opType = OpUpdate, opConfig = opConfig op, opExistingRule = Some r, opReason = ''configuration_mismatch_safe''\<rparr> \<and>
        r \<in> set cur \<and> ruleKey r = configKey (opConfig op)"
  using assms by (auto simp: delta_add_def)

lemma delta_adds_slots:
  assumes "current_ok service cur" "desired_ok service ds"
  shows "inj_on op_slot (delta_add ctx cur ds)"
proof (rule inj_onI)
  fix p q assume pq: "p \<in> delta_add ctx cur ds" "q \<in> delta_add ctx cur ds" "op_slot p = op_slot q"
  then have "opConfig p \<in> set ds" "opConfig q \<in> set ds" "DstPort (opConfig p) = DstPort (opConfig q)"
    by (auto simp: cslot_def elim!: delta_add_cases)
  with desired_same_slot [OF assms(2)] have "opConfig p = opConfig q" by blast
  moreover have "r = r'" if "r \<in> set cur" "r' \<in> set cur" "ruleKey r = ruleKey r'" for r r'
    using key_same_rule [OF _ that(1,2) _ that(3)] assms(1) that by (auto simp: current_ok_def)
  moreover have "opExistingRule p = opExistingRule q"
  proof (cases "opExistingRule p")
    case None
    with delta_add_form [OF pq(1)] have "configKey (opConfig p) \<notin> ruleKey ` set cur" by simp
    with None calculation(1) delta_add_form [OF pq(2)] show ?thesis by (cases "opExistingRule q") (auto, metis imageI)
  next
    case (Some r)
    with delta_add_form [OF pq(1)] have "r \<in> set cur" "ruleKey r = configKey (opConfig p)" by simp_all
    with Some calculation delta_add_form [OF pq(2)] show ?thesis by (cases "opExistingRule q") (auto, metis imageI)
  qed
  ultimately show "p = q" using delta_add_form [OF pq(1)] delta_add_form [OF pq(2)] by (cases "opExistingRule q") simp_all
qed

lemma delta_runnable:
  assumes it: "iter_order itc" "iter_order itd" and S: "exclusive S" "set cur = {r \<in> S. belongs service r}"
    and plain: "\<forall>r \<in> set cur. plain_rule r" and ds: "desired_ok service ds" and free: "unclaimed service ds S"
    and acc: "\<forall>d \<in> set ds. A d \<and> DstIP d \<noteq> ''''"
  shows "runnable A (calculateDelta itc itd cur ds ctx service) (occupied S)"
proof -
  have cur: "current_ok service cur" using S plain by (auto simp: current_ok_def exclusive_def)
  obtain dels adds where split: "calculateDelta itc itd cur ds ctx service = dels @ adds"
    "set dels = delta_del cur ds" "set adds = delta_add ctx cur ds" "distinct dels" "distinct adds"
    by (rule calculateDelta_split [OF it cur ds])
  have "distinct (map op_slot adds)" using split(5) delta_adds_slots [OF cur ds] by (simp add: distinct_map split(3))
  moreover have "\<forall>op \<in> set adds. opType op = OpCreate \<longrightarrow> configKey (opConfig op) \<notin> ruleKey ` set cur"
    by (auto simp: split(3) elim: delta_add_cases)
  ultimately show ?thesis
    unfolding split(1) using plan_runnable [OF delta_plan_ok [OF plain ds split(2,3)] S ds free acc] by blast
qed

section \<open>The environment in service\<close>

text \<open>
  Next to the router, an API server that answers: reading and the clock keep the environment in service,
  and updates of objects succeed.
\<close>

locale reconciler_up = reconciler_env r rules + router_up "rcRouter r" rules up accepted
  for r :: "'w Reconciler" and rules :: "'w \<Rightarrow> PortForward list" and up :: "'w \<Rightarrow> bool" and accepted :: "PortConfig \<Rightarrow> bool" +
  assumes get_up: "up w \<Longrightarrow> up (snd (k_Get (rcClient r) ns n w))"
    and now_up: "up w \<Longrightarrow> up (snd (rcNow r w))"
    and update_obj_up: "up w \<Longrightarrow> \<exists>w'. k_Update (rcClient r) svc w = (Inr (), w') \<and> up w'"
begin

lemma execute_delta_up:
  assumes "up (world st)" "table_ok (rules (world st))" "iter_order itc" "iter_order itd"
    and "set cur = {rule \<in> set (rules (world st)). belongs service rule}" "\<forall>rule \<in> set cur. plain_rule rule"
    and "desired_ok service ds" "unclaimed service ds (set (rules (world st)))" "\<forall>d \<in> set ds. accepted d \<and> DstIP d \<noteq> ''''"
  shows "\<exists>result st'. executeOperations (rcRouter r) (calculateDelta itc itd cur ds ctx service) st = ((result, None), st') \<and> up (world st')"
  unfolding executeOperations_def
  using exec_up [OF assms(1,2) delta_runnable [OF assms(3,4) table_ok_exclusive [OF assms(2)] assms(5-9)]] by blast

lemma processAllChanges_up:
  assumes up: "up (world st)" "table_ok (rules (world st))" and it: "iter_order itc" "iter_order itd"
    and cur: "set cur = {rule \<in> set (rules (world st)). belongs service rule}" "\<forall>rule \<in> set cur. plain_rule rule"
    and g: "GetPortConfigs service (GetLBIP service) FilterAnnotation (usedPorts st) = (Inr ds, used')"
    and svc: "service_ok service" "GetLBIP service \<noteq> ''''"
    and free: "unclaimed service ds (set (rules (world st)))" and acc: "\<forall>d \<in> set ds. accepted d"
  shows "\<exists>ops ctx' st'. processAllChanges itc itd r service ctx cur st = ((ops, ctx', None), st') \<and> up (world st')"
proof -
  define st1 where "st1 = st\<lparr>usedPorts := used'\<rparr>"
  have d: "calculateDesiredState service st = (Inr ds, st1)"
    using g svc by (simp add: calculateDesiredState_def Let_def st1_def)
  have "\<forall>d \<in> set ds. accepted d \<and> DstIP d \<noteq> ''''" using acc desired_config_ok [OF g svc(1)] svc(2) by auto
  with execute_delta_up [of st1 itc itd cur service ds ctx] up it cur GetPortConfigs_desired_ok [OF g svc(1)] free
  obtain result st2 where
    x: "executeOperations (rcRouter r) (calculateDelta itc itd cur ds ctx service) st1 = ((result, None), st2)" "up (world st2)"
    by (auto simp: st1_def)
  then show ?thesis unfolding processAllChanges_def d by (simp add: Let_def)
qed

lemma reconcile_rules_up:
  assumes up: "up (world st)" "table_ok (rules (world st))" and it: "iter_order itc" "iter_order itd"
    and plain: "\<forall>rule \<in> set (rules (world st)). belongs service rule \<longrightarrow> plain_rule rule"
    and g: "GetPortConfigs service (GetLBIP service) FilterAnnotation (usedPorts st) = (Inr ds, used')"
    and svc: "service_ok service" "GetLBIP service \<noteq> ''''"
    and free: "unclaimed service ds (set (rules (world st)))" and acc: "\<forall>d \<in> set ds. accepted d"
  shows "\<exists>st'. reconcile_rules itc itd r (serviceKey service) service st = ((emptyResultR, None), st') \<and> up (world st')"
proof -
  from list_up [OF up(1)] obtain rs w1 where "r_ListAllPortForwards (rcRouter r) (world st) = (Inr rs, w1)" "up w1" by blast
  then obtain st1 where l: "on_world (r_ListAllPortForwards (rcRouter r)) st = (Inr rs, st1)" "up (world st1)"
    "usedPorts st1 = usedPorts st" by (simp add: on_world_eq)
  note st1 = list_on_world [OF l(1) up(2)]
  let ?cur = "filter (\<lambda>rule. split_key_matches (pfName rule) (serviceKey service)) rs"
  define st2 where "st2 = st1\<lparr>usedPorts := used'\<rparr>"
  have w2: "world st2 = world st1" by (simp add: st2_def)
  have d: "calculateDesiredState service st1 = (Inr ds, st2)"
    using g svc l(3) by (simp add: calculateDesiredState_def Let_def st2_def)
  obtain used'' where g2: "GetPortConfigs service (GetLBIP service) FilterAnnotation (usedPorts st2) = (Inr ds, used'')"
    using GetPortConfigs_again [OF g] by (auto simp: st2_def)
  have cur: "set ?cur = {rule \<in> set (rules (world st2)). belongs service rule}"
    using st1 same_filter [OF svc(1)] w2 by auto
  have p: "\<exists>ops ctx' st'. processAllChanges itc itd r service ctx ?cur st2 = ((ops, ctx', None), st') \<and> up (world st')" for ctx
    by (rule processAllChanges_up [OF _ _ it cur _ g2 svc _ acc]) (use l(2) st1 w2 plain free cur in auto)
  from detectChanges_cases [OF d, of rs "serviceKey service"] show ?thesis
  proof (elim disjE conjE exE)
    assume "detectChanges service (serviceKey service) rs st1 =
        (newContext (serviceKey service) (svcNamespace service) (svcName service), st2)"
    with l w2 show ?thesis by (simp add: reconcile_rules_def Let_def newContext_def HasRelevantChanges_def)
  next
    fix ctx assume "detectChanges service (serviceKey service) rs st1 = (ctx, st2)"
      and "HasRelevantChanges ctx" "\<not> IsInitialSync ctx"
    with l p [of ctx] show ?thesis by (auto simp: reconcile_rules_def Let_def)
  qed
qed

lemma finalizeService_up:
  assumes "up (world st)" "table_ok (rules (world st))"
  shows "\<exists>st'. finalizeService r service st = (None, st') \<and> up (world st')"
proof -
  from list_up [OF assms(1)] obtain rs w1 where l: "r_ListAllPortForwards (rcRouter r) (world st) = (Inr rs, w1)" "up w1" by blast
  with list_table_ok [OF l(1) assms(2)] have tab: "table_ok (rules w1)" by blast
  let ?ops = "cleanup_ops ''service_deletion_finalizer'' (svcNamespace service) (svcName service) rs"
  have del: "\<forall>op \<in> set ?ops. opType op = OpDelete" by (auto simp: cleanup_ops_def cleanup_op_def)
  then have none: "List.find (\<lambda>op. opType op \<noteq> OpDelete) ?ops = None" by (simp add: find_None_iff)
  from cleanup_up [of "st\<lparr>world := w1\<rparr>" ?ops "[]" emptyResult] l tab del obtain result st1 where
    "cleanup_loop (rcRouter r) ?ops [] emptyResult (st\<lparr>world := w1\<rparr>) = ((result, None), st1)" "up (world st1)" by auto
  with l none show ?thesis by (simp add: finalizeService_def on_world_eq executeCleanupOperations_def)
qed

end

definition cluster_up :: "'e cluster_scheme \<Rightarrow> bool" where
  "cluster_up c \<longleftrightarrow> gw_up c \<and> cl_conflicts c = []"

interpretation refu: unifi_client_up "ref_router site" gw_rules cluster_up "\<lambda>_. True"
  by unfold_locales
    (auto simp: ref_router_def ref_client_def gw_call_def gw_fault_def gw_tick_def gw_up_def cluster_up_def
       slot_taken_def Let_def)

interpretation refc: reconciler_up "ref_reconciler site" gw_rules cluster_up "\<lambda>_. True"
  unfolding reconciler_up_def reconciler_up_axioms_def ref_reconciler_simps
  using refu.router_up_axioms refc.reconciler_env_axioms
  by (auto simp: ref_kube_def cluster_up_def gw_up_def split: option.split)

section \<open>Total correctness\<close>

text \<open>
  C3: reconciliation succeeds.  If the router and the API server are in service, the gateway accepts the
  port forwards that the annotation of a managed service asks for, and no rule of anyone else is on their
  ports, then \<open>Reconcile\<close> returns without an error and without asking to be called again, and the
  router serves exactly the desired port forwards.
\<close>

theorem reconcile_succeeds:
  assumes env: "reconciler_up r rules up accepted" and it: "iter_order itc" "iter_order itd"
    and st: "up (world st)" "table_ok (rules (world st))"
    and get: "k_Get (rcClient r) ns n (world st) = (Inr service, w1)"
    and name: "svcNamespace service = ns" "svcName service = n"
    and svc: "service_ok service" "IsZeroTime (svcDeletionTimestamp service)" "ContainsFinalizer service"
      "GetLBIP service \<noteq> ''''" "hasPortForwardAnnotation service"
    and fresh: "gm_get (recentCleanups st) (ns @ ''/'' @ n) = None"
    and plain: "\<forall>rule \<in> set (rules (world st)). belongs service rule \<longrightarrow> plain_rule rule"
    and g: "GetPortConfigs service (GetLBIP service) FilterAnnotation (usedPorts st) = (Inr ds, used')"
    and free: "unclaimed service ds (set (rules (world st)))" and acc: "\<forall>d \<in> set ds. accepted d"
  shows "\<exists>st'. Reconcile ovf itc itd r ns n st = ((emptyResultR, None), st') \<and> up (world st') \<and>
    served service ds (set (rules (world st))) (set (rules (world st')))"
proof -
  have env': "reconciler_env r rules" using env by (simp add: reconciler_up_def)
  define st2 where "st2 = st\<lparr>world := w1\<rparr>"
  have st2: "set (rules (world st2)) = set (rules (world st))" "table_ok (rules (world st2))" "up (world st2)"
    "usedPorts st2 = usedPorts st"
    using reconciler_env.get_on_world [OF env', of ns n st] get st reconciler_up.get_up [OF env st(1), of ns n]
    by (auto simp: on_world_def st2_def)
  have g2: "GetPortConfigs service (GetLBIP service) FilterAnnotation (usedPorts st2) = (Inr ds, used')" by (simp add: g st2(4))
  obtain st' where run: "reconcile_rules itc itd r (serviceKey service) service st2 = ((emptyResultR, None), st')" "up (world st')"
    using reconciler_up.reconcile_rules_up [OF env st2(3,2) it _ g2 svc(1,4) _ acc] plain free st2(1) by auto
  have "served service ds (set (rules (world st2))) (set (rules (world st')))"
    by (rule reconciler_env.reconcile_rules_ok [OF env' run(1) it svc(1,4) st2(2) _ g2]) (use plain st2(1) in auto)
  with run Reconcile_managed [OF get name svc(2-5) fresh] st2 show ?thesis by (simp add: st2_def)
qed

text \<open>
  C10: deletion is never blocked while the environment is in service.  Unless the retries are used up, the
  handler then removes every rule of the service, takes the finalizer off and returns without an error.
\<close>

theorem finalizer_cleanup_succeeds:
  assumes env: "reconciler_up r rules up accepted" and st: "up (world st)" "table_ok (rules (world st))"
    and adr: "addressable (svcNamespace service) (svcName service) (set (rules (world st)))"
    and go: "\<not> shouldGiveUpOnCleanup ovf (serviceKey service) st"
  shows "\<exists>st' w w'. handleFinalizerCleanup ovf r service st = ((emptyResultR, None), st') \<and>
    k_Update (rcClient r) (RemoveFinalizer service) w = (Inr (), w') \<and> world st' = w' \<and>
    set (rules (world st')) = {rule \<in> set (rules (world st)). \<not> belongs service rule}"
proof -
  have env': "reconciler_env r rules" using env by (simp add: reconciler_up_def)
  obtain st1 where f: "finalizeService r service st = (None, st1)" "up (world st1)"
    using reconciler_up.finalizeService_up [OF env st] by blast
  define st2 where "st2 = markServiceCleanup r (serviceKey service) (clearCleanupRetries (serviceKey service) st1)"
  have "up (world st2)"
    using reconciler_up.now_up [OF env] f(2)
    by (simp add: st2_def markServiceCleanup_def Let_def time_now_eq clearCleanupRetries_def)
  from reconciler_up.update_obj_up [OF env this, of "RemoveFinalizer service"] obtain w' where
    u: "k_Update (rcClient r) (RemoveFinalizer service) (world st2) = (Inr (), w')" by blast
  have "handleFinalizerCleanup ovf r service st = ((emptyResultR, None), st2\<lparr>world := w'\<rparr>)"
    using u by (simp add: handleFinalizer_done [OF go f(1)] on_world_eq flip: st2_def)
  with u handleFinalizer_done_rules(1) [OF env' go f(1)] reconciler_env.finalizeService_ok [OF env' f(1) st(2) adr]
  show ?thesis by fastforce
qed

theorem reconcile_succeeds_witness:
  "\<exists>st'. Reconcile (\<lambda>_. 0) (\<lambda>ks. ks) rev (ref_reconciler ''default'') ''web'' ''shop'' (live_state []) = ((emptyResultR, None), st') \<and>
     served live_service ex_ds (set example_rules) (set (gw_rules (world st')))"
proof -
  have w: "gw_rules (world (live_state [])) = example_rules" by (simp add: example_rstate_def example_cluster_def)
  have "\<exists>st'. Reconcile (\<lambda>_. 0) (\<lambda>ks. ks) rev (ref_reconciler ''default'') ''web'' ''shop'' (live_state []) = ((emptyResultR, None), st') \<and>
      cluster_up (world st') \<and> served live_service ex_ds (set (gw_rules (world (live_state [])))) (set (gw_rules (world st')))"
  proof (rule reconcile_succeeds [OF refc.reconciler_up_axioms iter_order_id iter_order_rev _ _ _ _ _ live_ok])
    show "k_Get (rcClient (ref_reconciler ''default'')) ''web'' ''shop'' (world (live_state [])) = (Inr live_service, world (live_state []))"
      by (simp add: ref_kube_def same_service_def live_sel example_rstate_def example_cluster_def)
    show "GetPortConfigs live_service (GetLBIP live_service) FilterAnnotation (usedPorts (live_state [])) = (Inr ex_ds, gm_set 8080 ''web/shop'' [])"
      by (simp only: live_sel) (simp add: live_configs example_rstate_def)
    show "unclaimed live_service ex_ds (set (gw_rules (world (live_state []))))"
      unfolding w by (auto simp: unclaimed_def example_rules_def ex_ds_def example_rule_def example_config_def belongs_def
          RuleBelongsToService_def HasPrefix_def live_sel slot_def cslot_def ToLower_def lower_char_def go_eval)
    show "\<forall>rule \<in> set (gw_rules (world (live_state []))). belongs live_service rule \<longrightarrow> plain_rule rule"
      unfolding w by (auto simp: example_rules_def plain_rule_def example_rule_def go_eval)
  qed (simp_all add: w example_rules_ok cluster_up_def gw_up_def live_sel IsZeroTime_def, simp_all add: example_rstate_def example_cluster_def)
  then show ?thesis by (auto simp: w)
qed

theorem finalizer_cleanup_succeeds_witness:
  "\<exists>st'. handleFinalizerCleanup (\<lambda>_. 0) (ref_reconciler ''default'') dying_service
       (example_rstate (example_cluster example_rules [dying_service] [] [])) = ((emptyResultR, None), st') \<and>
     set (gw_rules (world st')) = {example_rule ''b'' ''other/svc:x'' 7000 70}"
proof -
  let ?st = "example_rstate (example_cluster example_rules [dying_service] [] [])"
  have st: "gw_rules (world ?st) = example_rules" "svcNamespace dying_service = ''web''" "svcName dying_service = ''shop''"
    "cluster_up (world ?st)"
    by (simp_all add: cluster_eval cluster_up_def gw_up_def)
  have "table_ok (gw_rules (world ?st))"
    "addressable (svcNamespace dying_service) (svcName dying_service) (set (gw_rules (world ?st)))"
    by (simp_all add: st example_rules_ok example_addressable)
  from finalizer_cleanup_succeeds [OF refc.reconciler_up_axioms st(4) this example_no_retries] show ?thesis
    unfolding st(1) example_belongs by blast
qed

section \<open>Stability\<close>

text \<open>
  \<open>portConfigsMatch\<close> recognises a served service: together with \<open>portConfigsMatch_serves\<close>, the shortcut
  of \<open>detectChanges\<close> decides exactly whether anything is to be done.
\<close>

lemma serves_exactKey: "serves d rule \<Longrightarrow> exactKey rule = configKey d"
  by (simp add: serves_def exactKey_def configKey_def)

lemma serves_slot: "serves d rule \<Longrightarrow> 0 < DstPort d \<Longrightarrow> slot rule = Some (cslot d)"
  by (auto simp: serves_def ParseIntField_def slot_def cslot_def split: option.splits if_splits)

lemma portConfigsMatch_complete:
  assumes S: "exclusive (set cur)" "distinct cur" and ds: "desired_ok service ds" "\<forall>d \<in> set ds. 0 < DstPort d \<and> DstIP d = lbIP"
    and all: "\<forall>d \<in> set ds. \<exists>rule \<in> set cur. serves d rule" "\<forall>rule \<in> set cur. \<exists>d \<in> set ds. serves d rule"
  shows "portConfigsMatch cur ds lbIP"
proof -
  have one: "rule = rule'" if "d \<in> set ds" "rule \<in> set cur" "rule' \<in> set cur" "serves d rule" "serves d rule'" for d rule rule'
    using exclusiveD [OF S(1) that(2,3)] serves_slot that ds(2) by blast
  have same: "d = e" if "d \<in> set ds" "e \<in> set ds" "serves d rule" "serves e rule" for d e rule
    using desired_same_slot [OF ds(1) that(1,2)] that(3,4) by (simp add: serves_def)
  from all(1) obtain f where f: "\<And>d. d \<in> set ds \<Longrightarrow> f d \<in> set cur \<and> serves d (f d)" by metis
  have "inj_on f (set ds)" using f same by (metis inj_onI)
  moreover have "f ` set ds = set cur" using f all(2) one by (auto simp: image_iff) metis
  ultimately have "card (set cur) = card (set ds)" using card_image by metis
  moreover have "distinct ds" using ds(1) by (auto simp: desired_ok_def distinct_map)
  ultimately have len: "length cur = length ds" using S(2) by (simp add: distinct_card)
  have get: "gm_get (gm_index exactKey cur []) (configKey d) = Some (f d)" if d: "d \<in> set ds" for d
  proof -
    have "q = f d" if q: "q \<in> set cur" "exactKey q = exactKey (f d)" for q
    proof -
      from all(2) q(1) obtain e where e: "e \<in> set ds" "serves e q" by blast
      with q serves_exactKey f d have "configKey e = configKey d" by metis
      with configKey_inj desired_same_slot [OF ds(1)] e d ds(1) have "e = d" by (metis desired_ok_def)
      with one [OF d q(1)] f [OF d] e show ?thesis by blast
    qed
    then have "gm_get (gm_index exactKey cur []) (exactKey (f d)) = Some (f d)" using f [OF d] by (intro gm_get_index_inj) auto
    with f [OF d] serves_exactKey show ?thesis by metis
  qed
  show ?thesis
    unfolding portConfigsMatch_def Let_def exactKey_def [symmetric]
    using len get f ds(2) by (auto simp: list_all_iff serves_def configKey_def)
qed

text \<open>
  C12: a served service is left alone.  When the router serves exactly the desired port forwards of a managed
  service, as after a successful reconciliation, the next \<open>Reconcile\<close> only reads: it gets the object and
  lists the rules, and calls neither the router nor the API server again, whatever these calls return.
\<close>

theorem reconcile_stable:
  assumes env: "reconciler_env r rules" and ok: "table_ok (rules (world st))"
    and get: "k_Get (rcClient r) ns n (world st) = (Inr service, w1)"
    and name: "svcNamespace service = ns" "svcName service = n"
    and svc: "service_ok service" "IsZeroTime (svcDeletionTimestamp service)" "ContainsFinalizer service"
      "GetLBIP service \<noteq> ''''" "hasPortForwardAnnotation service"
    and fresh: "gm_get (recentCleanups st) (ns @ ''/'' @ n) = None"
    and g: "GetPortConfigs service (GetLBIP service) FilterAnnotation (usedPorts st) = (Inr ds, used')"
    and served: "served service ds S (set (rules (world st)))"
    and run: "Reconcile ovf itc itd r ns n st = (out, st')"
  shows "world st' = snd (r_ListAllPortForwards (rcRouter r) w1)"
proof -
  define st2 where "st2 = st\<lparr>world := w1\<rparr>"
  have st2: "set (rules (world st2)) = set (rules (world st))" "table_ok (rules (world st2))" "usedPorts st2 = usedPorts st"
    using reconciler_env.get_on_world [OF env, of ns n st] get ok by (auto simp: on_world_def st2_def)
  have run2: "reconcile_rules itc itd r (serviceKey service) service st2 = (out, st')"
    using run Reconcile_managed [OF get name svc(2-5) fresh] by (simp add: st2_def)
  show ?thesis
  proof (cases "on_world (r_ListAllPortForwards (rcRouter r)) st2" rule: io_cases)
    case (Err e st3)
    with run2 show ?thesis by (auto simp: reconcile_rules_def on_world_eq st2_def)
  next
    case (Ok rs st3)
    from reconciler_env.list_on_world [OF env Ok st2(2)] have rs: "set rs = set (rules (world st))" "table_ok rs"
      using st2 by auto
    from Ok have st3: "world st3 = snd (r_ListAllPortForwards (rcRouter r) w1)" "usedPorts st3 = usedPorts st"
      by (auto simp: on_world_eq st2_def)
    let ?cur = "filter (\<lambda>rule. split_key_matches (pfName rule) (serviceKey service)) rs"
    have cur: "set ?cur = {rule \<in> set (rules (world st)). belongs service rule}" using rs same_filter [OF svc(1)] by auto
    have "exclusive (set ?cur)" "distinct ?cur"
      using table_ok_exclusive [OF rs(2)] table_ok_distinct [OF rs(2)] by (auto simp: exclusive_def)
    then have m: "portConfigsMatch ?cur ds (GetLBIP service)"
      using served cur desired_plain [OF g svc(1)] desired_config_ok [OF g svc(1)]
      by (intro portConfigsMatch_complete [OF _ _ GetPortConfigs_desired_ok [OF g svc(1)]]) (auto simp: served_def)
    have d: "calculateDesiredState service st3 = (Inr ds, st3\<lparr>usedPorts := used'\<rparr>)"
      using g svc(4) st3 by (simp add: calculateDesiredState_def Let_def)
    have c: "detectChanges service (serviceKey service) rs st3 =
        (newContext (serviceKey service) (svcNamespace service) (svcName service), st3\<lparr>usedPorts := used'\<rparr>)"
      using m d by (simp add: detectChanges_def Let_def newContext_def)
    show ?thesis using run2 Ok c st3 by (auto simp: reconcile_rules_def Let_def newContext_def HasRelevantChanges_def)
  qed
qed

definition served_state :: "cluster rstate" where
  "served_state = example_rstate (example_cluster [example_rule ''a'' ''web/shop:http'' 8080 80] [live_service] [] [])"

theorem reconcile_stable_witness:
  "world (snd (Reconcile (\<lambda>_. 0) (\<lambda>ks. ks) rev (ref_reconciler ''default'') ''web'' ''shop'' served_state)) = world served_state"
proof -
  have w: "gw_rules (world served_state) = [example_rule ''a'' ''web/shop:http'' 8080 80]"
    by (simp add: served_state_def example_rstate_def example_cluster_def)
  obtain out st' where
    run: "Reconcile (\<lambda>_. 0) (\<lambda>ks. ks) rev (ref_reconciler ''default'') ''web'' ''shop'' served_state = (out, st')" by fastforce
  have "world st' = snd (r_ListAllPortForwards (rcRouter (ref_reconciler ''default'')) (world served_state))"
  proof (rule reconcile_stable [OF refc.reconciler_env_axioms _ _ _ _ live_ok _ _ _ _ _ _ _ run])
    show "table_ok (gw_rules (world served_state))" unfolding w by (simp add: table_ok_def exclusive_def example_rule_def)
    show "k_Get (rcClient (ref_reconciler ''default'')) ''web'' ''shop'' (world served_state) = (Inr live_service, world served_state)"
      by (simp add: served_state_def ref_kube_def same_service_def live_sel example_rstate_def example_cluster_def)
    show "GetPortConfigs live_service (GetLBIP live_service) FilterAnnotation (usedPorts served_state) = (Inr ex_ds, gm_set 8080 ''web/shop'' [])"
      by (simp only: live_sel) (simp add: live_configs served_state_def example_rstate_def)
    show "served live_service ex_ds (set (gw_rules (world served_state))) (set (gw_rules (world served_state)))"
      unfolding w by (simp add: served_def serves_def ex_ds_def example_rule_def example_config_def belongs_def
          RuleBelongsToService_def HasPrefix_def live_sel ParseIntField_def go_eval)
  qed (simp_all add: live_sel IsZeroTime_def, simp_all add: served_state_def example_rstate_def)
  then show ?thesis
    using run by (simp add: served_state_def example_rstate_def example_cluster_def ListAllPortForwards_def withAuthRetry_def gw_eval)
qed

section \<open>Drift corrections that succeed\<close>

text \<open>
  C14: which drift is corrected.  On a router in service that accepts the desired port forwards, with no rule of
  anyone else on their ports, \<open>correctServiceDrift\<close> succeeds exactly when no rule has to be rewritten:
  missing and extra rules are repaired, a rule with a wrong name, target or flag never is.
\<close>

theorem drift_correction_succeeds_iff:
  assumes R: "router_up R rules up accepted" and st: "up (world st)" "table_ok (rules (world st))"
    and it: "iter_order itd" "iter_order itc" and svc: "service_ok service"
    and run: "analyzeServiceDrift itd itc service rs used = (Inr a, used')" "mset rs = mset (rules (world st))"
    and pos: "\<forall>r \<in> set rs. belongs service r \<longrightarrow> 0 < ParseIntField (pfDstPort r)"
    and free: "unclaimed service (DesiredRules a) (set rs)"
    and acc: "\<forall>d \<in> set (DesiredRules a). accepted d \<and> DstIP d \<noteq> ''''"
  shows "(\<exists>st'. correctServiceDrift R a st = (None, st')) \<longleftrightarrow> WrongRules a = []"
proof -
  have R': "router_contract R rules" using R by (simp add: router_up_def)
  from drift_settingI [OF R' st(2) it svc run] obtain ds U where s: "drift_setting R rules st service rs ds U a" by blast
  note f = ds_facts [OF s] and set = ds_set [OF s] and ds = drift_setting_configs [OF s]
  show ?thesis
  proof
    assume "\<exists>st'. correctServiceDrift R a st = (None, st')"
    with corrected_nothing_wrong [OF s] show "WrongRules a = []" by blast
  next
    assume none: "WrongRules a = []"
    have "inj_on op_slot (missing_create ` set (MissingRules a))"
      using desired_same_slot [OF ds_ok [OF s]] df_missing [OF f]
      by (intro inj_onI) (auto simp: missing_create_def cslot_def)
    moreover have "inj missing_create" by (auto simp: inj_def missing_create_def)
    ultimately have dist: "distinct (map op_slot (map missing_create (MissingRules a)))"
      using df_distinct [OF f] by (auto simp: distinct_map inj_on_def)
    have "\<forall>r \<in> set U. r \<in> set rs \<and> belongs service r"
      by (simp add: df_U [OF f] unprocessed_def)
    moreover have "set U = set (filter (belongs service) rs)" using none by (simp add: df_U [OF f] unprocessed_def df_wrong [OF f])
    ultimately have new: "\<forall>op \<in> set (map missing_create (MissingRules a)). opType op = OpCreate \<longrightarrow>
        configKey (opConfig op) \<notin> exactKey ` set (filter (belongs service) rs)"
      using df_missing [OF f] by (simp add: missing_create_def)
    have "runnable accepted (map extra_delete (ExtraRules a) @ map missing_create (MissingRules a)) (occupied (set rs))"
      by (rule plan_runnable [OF drift_plan_ok [OF s none pos] table_ok_exclusive [OF ds_rs [OF s]] _ ds_ok [OF s] _ _ new dist])
        (use free acc ds in auto)
    then have "runnable accepted (drift_operations a) (occupied (set (rules (world st))))"
      by (simp add: drift_operations_eq [OF f] none flip: set)
    from router_up.exec_up [OF R st this] obtain result st' where
      x: "executeOperations R (drift_operations a) st = ((result, None), st')"
      unfolding executeOperations_def by blast
    then have "result = report (drift_operations a)"
      using exec_outcome [of R "drift_operations a" "[]" st] by (auto simp: executeOperations_def report_Nil)
    then have "Failed result = []" by (simp add: report_def)
    with x show "\<exists>st'. correctServiceDrift R a st = (None, st')" by (simp add: correctServiceDrift_def)
  qed
qed

theorem drift_correction_succeeds_iff_witness:
  "\<exists>st'. correctServiceDrift (unifi_router (ref_router ''default'')) live_analysis (example_state example_rules []) = (None, st')"
proof -
  have w: "gw_rules (world (example_state example_rules [])) = example_rules" "gw_up (world (example_state example_rules []))"
    by (simp_all add: example_state_def example_gateway_def gw_up_def)
  have "(\<exists>st'. correctServiceDrift (unifi_router (ref_router ''default'')) live_analysis (example_state example_rules []) = (None, st')) \<longleftrightarrow>
      WrongRules live_analysis = []"
  proof (rule drift_correction_succeeds_iff [OF ref.router_up_axioms w(2) _ iter_order_id iter_order_rev live_ok live_analysis_run])
    show "unclaimed live_service (DesiredRules live_analysis) (set example_rules)"
      by (auto simp: live_analysis_def unclaimed_def example_rules_def ex_ds_def example_rule_def example_config_def belongs_def
          RuleBelongsToService_def HasPrefix_def live_sel slot_def cslot_def ToLower_def lower_char_def go_eval)
  qed (auto simp: w example_rules_ok example_positive live_analysis_def ex_ds_def example_config_def)
  then show ?thesis by (simp add: live_analysis_def)
qed

end
