(* ===== verification/RuleCorrect.thy ===== *)
theory RuleCorrect
  imports RuleEnv Progress
begin

text \<open>
  What the PortForwardRule reconciler guarantees: which rule a successful reconciliation
  leaves on the router.
\<close>

section \<open>Writing the router rule\<close>

text \<open>
  What a successful call leaves on the router: one rule on the slot, with the name, the target address and
  the flag of the resource; it either carries out the whole configuration or was there before.  Rules on
  other slots are untouched.
\<close>

definition rule_slot :: "PortForwardRule \<Rightarrow> int \<times> string" where
  "rule_slot rule = (specExternalPort (ruleSpec rule), ToLower (specProtocol (ruleSpec rule)))"

definition applied :: "PortForwardRule \<Rightarrow> string \<Rightarrow> int \<Rightarrow> PortForward set \<Rightarrow> PortForward set \<Rightarrow> bool" where
  "applied rule ip port old new \<longleftrightarrow>
     (\<exists>x \<in> new. slot x = Some (rule_slot rule) \<and> pfName x = router_rule_name rule \<and> Fwd x = ip \<and>
        pfEnabled x = specEnabled (ruleSpec rule) \<and> (x \<in> old \<or> realises (router_rule rule ip port) x) \<and>
        new - {x} = {y \<in> old. slot y \<noteq> Some (rule_slot rule)})"

lemma router_rule_simps [simp]:
  "Name (router_rule rule ip port) = router_rule_name rule" "DstIP (router_rule rule ip port) = ip"
  "Enabled (router_rule rule ip port) = specEnabled (ruleSpec rule)"
  "DstPort (router_rule rule ip port) = specExternalPort (ruleSpec rule)"
  "Protocol (router_rule rule ip port) = specProtocol (ruleSpec rule)"
  "cslot (router_rule rule ip port) = rule_slot rule"
  by (simp_all add: router_rule_def Let_def cslot_def rule_slot_def)

lemma slot_others:
  "table_ok rs \<Longrightarrow> old \<in> set rs \<Longrightarrow> slot old = Some s \<Longrightarrow> {y \<in> set rs. slot y \<noteq> Some s} = set rs - {old}"
  using exclusiveD [OF table_ok_exclusive] by blast

lemma applied_kept:
  assumes "x \<in> old" "slot x = Some (rule_slot rule)" "pfName x = router_rule_name rule" "Fwd x = ip"
    "pfEnabled x = specEnabled (ruleSpec rule)" "old - {x} = {y \<in> old. slot y \<noteq> Some (rule_slot rule)}"
  shows "applied rule ip port old old"
  unfolding applied_def using assms by (intro bexI [of _ x]) simp_all

lemma applied_written:
  assumes "realises (router_rule rule ip port) x" "in_int64 (specExternalPort (ruleSpec rule))" "x \<in> new"
    "new - {x} = {y \<in> old. slot y \<noteq> Some (rule_slot rule)}"
  shows "applied rule ip port old new"
  unfolding applied_def using assms slot_realises [OF assms(1)]
  by (intro bexI [of _ x]) (simp_all add: realises_def)

context rule_env
begin

lemma write_router_rule_ok:
  assumes run: "write_router_rule r rule (router_rule rule ip port) w = (Inr (), w')"
    and ok: "table_ok (rules w)" and int: "in_int64 (specExternalPort (ruleSpec rule))"
  shows "applied rule ip port (set (rules w)) (set (rules w')) \<and> table_ok (rules w')"
proof -
  let ?c = "router_rule rule ip port"
  obtain res w1 where ck: "r_CheckPort (rrRouter r) (specExternalPort (ruleSpec rule)) (specProtocol (ruleSpec rule)) w = (Inr res, w1)"
    using run by (auto simp: write_router_rule_def split: prod.splits sum.splits)
  show ?thesis
  proof (cases res)
    case None
    note absent = check_absent [OF ck [unfolded None]]
    note w1 = same_ruleset [OF conjunct2 [OF absent]]
    have "r_AddPort (rrRouter r) ?c w1 = (Inr (), w')"
      using run ck None by (auto simp: write_router_rule_def split: prod.splits sum.splits)
    with add_ok [of w1 ?c w'] w1 ok obtain x where x: "table_ok (rules w')" "realises ?c x" "x \<notin> set (rules w)"
      "set (rules w') = insert x (set (rules w))" by auto
    have "slot y \<noteq> Some (rule_slot rule)" if "y \<in> set (rules w)" for y
      using conjunct1 [OF absent] imageI [OF that, of slot] by (auto simp: rule_slot_def)
    then have "set (rules w') - {x} = {y \<in> set (rules w). slot y \<noteq> Some (rule_slot rule)}" using x by auto
    with x applied_written [OF x(2) int] show ?thesis by simp
  next
    case (Some old)
    note found = check_found [OF ck [unfolded Some]]
    have w1: "set (rules w1) = set (rules w)" "table_ok (rules w1) = table_ok (rules w)"
      using same_ruleset [of w1 w] found by simp_all
    have s: "slot old = Some (rule_slot rule)" "old \<in> set (rules w)" using found by (auto simp: rule_slot_def)
    show ?thesis
    proof (cases "needsOwnership rule ?c old")
      case True
      then have "r_UpdatePort (rrRouter r) (specExternalPort (ruleSpec rule)) ?c w1 = (Inr (), w')"
        using run ck Some by (auto simp: write_router_rule_def split: prod.splits sum.splits)
      from update_ok [OF _ this] w1 ok obtain old' new where u: "table_ok (rules w')" "old' \<in> set (rules w)"
        "slot old' = Some (rule_slot rule)" "realises ?c new" "set (rules w') = insert new (set (rules w) - {old'})"
        by (auto simp: rule_slot_def)
      have "old' = old" using exclusiveD [OF table_ok_exclusive [OF ok] u(2) s(2) u(3) s(1)] .
      moreover have "slot new = Some (rule_slot rule)" using slot_realises [OF u(4)] int by simp
      ultimately have "set (rules w') - {new} = {y \<in> set (rules w). slot y \<noteq> Some (rule_slot rule)}"
        using slot_others [OF ok s(2) s(1)] u(5) by auto
      with u applied_written [OF u(4) int] show ?thesis by simp
    next
      case False
      then have "w' = w1" using run ck Some by (auto simp: write_router_rule_def)
      moreover have "pfName old = router_rule_name rule" "Fwd old = ip" "pfEnabled old = specEnabled (ruleSpec rule)"
        using False by (auto simp: needsOwnership_def split: if_splits)
      ultimately show ?thesis
        using applied_kept [OF s(2) s(1)] slot_others [OF ok s(2) s(1)] w1 ok by simp
    qed
  qed
qed

lemma reconcilePortForwardRule_ok:
  assumes run: "reconcilePortForwardRule r rule st = ((None, rule'), st')"
    and ok: "table_ok (rules (pWorld st))" and int: "in_int64 (specExternalPort (ruleSpec rule))"
  shows "\<exists>ip port w1. destination r rule (pWorld st) = (Inr (ip, port), w1) \<and>
    applied rule ip port (set (rules (pWorld st))) (set (rules (pWorld st'))) \<and>
    stRouterRuleID (ruleStatus rule') = router_rule_name rule \<and>
    ruleEvents st' = ruleEvents st @ [rule_applied_event rule] \<and> activeReconciliations st' = activeReconciliations st"
proof -
  obtain ip port w1 where d: "destination r rule (pWorld st) = (Inr (ip, port), w1)"
    using run by (auto simp: reconcilePortForwardRule_def on_pworld_def split: prod.splits sum.splits)
  obtain w2 where w: "write_router_rule r rule (router_rule rule ip port) w1 = (Inr (), w2)"
    using run d by (auto simp: reconcilePortForwardRule_def on_pworld_def split: prod.splits sum.splits)
  have w1: "set (rules w1) = set (rules (pWorld st))" "table_ok (rules w1)"
    using same_ruleset [OF destination_frame [of rule "pWorld st"]] d ok by simp_all
  obtain now w3 where n: "rrNow r w2 = (now, w3)" by force
  have w3: "set (rules w3) = set (rules w2)" using same_ruleset(1) [OF rule_now_frame [of w2]] n by simp
  have st': "st' = st\<lparr>pWorld := w3, ruleEvents := ruleEvents st @ [rule_applied_event rule]\<rparr>"
    "rule' = rule\<lparr>ruleStatus := applied_status rule now ip port\<rparr>"
    using run d w n by (auto simp: reconcilePortForwardRule_def on_pworld_def Let_def)
  have "stRouterRuleID (applied_status rule now ip port) = router_rule_name rule"
    by (simp add: applied_status_def Let_def split: option.split)
  moreover have "applied rule ip port (set (rules (pWorld st))) (set (rules w3))"
    using write_router_rule_ok [OF w w1(2) int] w1(1) w3 by simp
  ultimately show ?thesis using d st' by (intro exI [of _ ip] exI [of _ port] exI [of _ w1]) simp
qed

lemma reconcilePortForwardRule_err:
  assumes "reconcilePortForwardRule r rule st = ((Some err, rule'), st')"
  shows "ruleEvents st' = ruleEvents st \<and> activeReconciliations st' = activeReconciliations st"
  using assms by (auto simp: reconcilePortForwardRule_def on_pworld_def Let_def split: prod.splits sum.splits)

lemma handleRuleDeletion_events:
  "ruleEvents (snd (handleRuleDeletion r ns n st)) = ruleEvents st \<and>
   activeReconciliations (snd (handleRuleDeletion r ns n st)) = activeReconciliations st"
  by (auto simp: handleRuleDeletion_def on_pworld_def Let_def split: prod.splits sum.splits option.splits)

lemma validateRule_ok: "validateRule r rule w = (None, w') \<Longrightarrow> valid_spec (ruleSpec rule)"
  by (auto simp: validateRule_def Let_def ValidateCreate_Nil split: if_splits)

lemma after_apply_frame:
  "after_apply r res st = (out, st') \<Longrightarrow>
   set (rules (pWorld st')) = set (rules (pWorld st)) \<and> ruleEvents st' = ruleEvents st"
  using same_ruleset(1) [OF update_status_frame]
  by (auto simp: after_apply_def updateRuleStatusWithRetry_def split: prod.splits option.splits if_splits)

lemma reconcile_rule_body_applied:
  assumes run: "reconcile_rule_body r ns n st = (out, st')" and ok: "table_ok (rules (pWorld st))"
    and ev: "ruleEvents st' \<noteq> ruleEvents st"
  shows "\<exists>rule w1 w2 ip port w3. rk_GetRule (rrClient r) ns n (pWorld st) = (Inr rule, w1) \<and>
    RuleContainsFinalizer rule \<and> IsZeroTime (ruleDeletionTimestamp rule) \<and> validateRule r rule w1 = (None, w2) \<and>
    destination r rule w2 = (Inr (ip, port), w3) \<and> ruleEvents st' = ruleEvents st @ [rule_applied_event rule] \<and>
    applied rule ip port (set (rules (pWorld st))) (set (rules (pWorld st')))"
proof -
  obtain got w1 where g: "rk_GetRule (rrClient r) ns n (pWorld st) = (got, w1)" by force
  obtain rule where rule: "got = Inr rule"
    using run g ev handleRuleDeletion_events [of ns n "st\<lparr>pWorld := w1\<rparr>"]
    by (cases got) (auto simp: reconcile_rule_body_def on_pworld_def split: if_splits)
  have fin: "RuleContainsFinalizer rule" "IsZeroTime (ruleDeletionTimestamp rule)"
    using run g ev rule handleRuleDeletion_events [of ns n "st\<lparr>pWorld := w1\<rparr>"]
    by (auto simp: reconcile_rule_body_def on_pworld_def split: if_splits prod.splits sum.splits)
  obtain v w2 where v: "validateRule r rule w1 = (v, w2)" by force
  have vn: "v = None"
    using run g ev rule fin v
    by (cases v) (auto simp: reconcile_rule_body_def on_pworld_def updateRuleStatusWithRetry_def)
  have w: "set (rules w2) = set (rules (pWorld st))" "table_ok (rules w2)"
    using same_ruleset [OF get_rule_frame [of ns n "pWorld st"]] same_ruleset [OF validate_frame [of rule w1]] g v ok by auto
  obtain res st3 where a: "reconcilePortForwardRule r rule (st\<lparr>pWorld := w2\<rparr>) = (res, st3)" by (rule prod.exhaust)
  have out: "after_apply r res st3 = (out, st')"
    using run g rule fin v vn a by (simp add: reconcile_rule_body_def on_pworld_def)
  note f = after_apply_frame [OF out]
  obtain e rule' where res: "res = (e, rule')" by force
  have e: "e = None" using reconcilePortForwardRule_err [of rule "st\<lparr>pWorld := w2\<rparr>" _ rule' st3] a res f ev by (cases e) auto
  have "in_int64 (specExternalPort (ruleSpec rule))"
    using validateRule_ok [OF v [unfolded vn]] valid_port_int64 by (simp add: valid_spec_def)
  from reconcilePortForwardRule_ok [OF a [unfolded res e] _ this] w obtain ip port w3 where
    "destination r rule w2 = (Inr (ip, port), w3)" "applied rule ip port (set (rules (pWorld st))) (set (rules (pWorld st3)))"
    "ruleEvents st3 = ruleEvents st @ [rule_applied_event rule]" by auto
  with g rule fin v vn f show ?thesis by auto
qed

end

text \<open>
  C25: what a recorded \<open>RuleApplied\<close> event means.  The reconciliation that records it fetched a resource
  that carries the finalizer, is not being deleted, has a well-formed specification and a destination; the
  router has, on the port and protocol of the resource, a rule with its name, its target address and its flag,
  and every rule on another slot is as before.
\<close>

theorem rule_applied_event_sound:
  assumes env: "rule_env r rules" and run: "RuleReconcile r ns n st = (out, st')"
    and ok: "table_ok (rules (pWorld st))" and ev: "ruleEvents st' \<noteq> ruleEvents st"
  shows "\<exists>rule w1 w2 ip port w3. rk_GetRule (rrClient r) ns n (pWorld st) = (Inr rule, w1) \<and>
    RuleContainsFinalizer rule \<and> IsZeroTime (ruleDeletionTimestamp rule) \<and> valid_spec (ruleSpec rule) \<and>
    destination r rule w2 = (Inr (ip, port), w3) \<and> ruleEvents st' = ruleEvents st @ [rule_applied_event rule] \<and>
    applied rule ip port (set (rules (pWorld st))) (set (rules (pWorld st')))"
proof -
  let ?st = "st\<lparr>activeReconciliations := gm_set (rule_key ns n) True (activeReconciliations st)\<rparr>"
  obtain st1 where b: "reconcile_rule_body r ns n ?st = (out, st1)"
    "st' = st1\<lparr>activeReconciliations := gm_del (rule_key ns n) (activeReconciliations st1)\<rparr>"
    using run ev by (auto simp: RuleReconcile_def LoadOrStore_def Let_def split: if_splits prod.splits)
  from rule_env.reconcile_rule_body_applied [OF env b(1)] ok ev b(2) show ?thesis
    using rule_env.validateRule_ok [OF env] by simp blast
qed
end
