(* ===== verification/RuleLifecycle.thy ===== *)
theory RuleLifecycle
  imports RuleCorrect
begin

text \<open>
  Deletion of a PortForwardRule, its status updates, the guard against concurrent reconciliations of one
  resource, and progress.  Concrete runs over the in-memory gateway close the theory.
\<close>

section \<open>Deletion\<close>

context rule_env
begin

lemma deleteRouterRuleByID_ok:
  assumes run: "deleteRouterRuleByID r rule w = (None, w')" and ok: "table_ok (rules w)"
  shows "set (rules w') = {x \<in> set (rules w). slot x \<noteq> Some (rule_slot rule)} \<and> table_ok (rules w')"
proof -
  obtain res w1 where ck: "r_CheckPort (rrRouter r) (specExternalPort (ruleSpec rule)) (specProtocol (ruleSpec rule)) w = (Inr res, w1)"
    using run by (auto simp: deleteRouterRuleByID_def split: prod.splits sum.splits)
  show ?thesis
  proof (cases res)
    case None
    note absent = check_absent [OF ck [unfolded None]]
    have "slot y \<noteq> Some (rule_slot rule)" if "y \<in> set (rules w)" for y
      using conjunct1 [OF absent] imageI [OF that, of slot] by (auto simp: rule_slot_def)
    moreover have "w' = w1" using run ck None by (simp add: deleteRouterRuleByID_def)
    ultimately show ?thesis using same_ruleset [OF conjunct2 [OF absent]] ok by auto
  next
    case (Some pf)
    note found = check_found [OF ck [unfolded Some]]
    have w1: "set (rules w1) = set (rules w)" "table_ok (rules w1)"
      using same_ruleset [of w1 w] found ok by simp_all
    have d: "r_DeletePortForwardByID (rrRouter r) (ID pf) w1 = (Inr (), w')"
      using run ck Some by (auto simp: deleteRouterRuleByID_def split: prod.splits sum.splits)
    have "{x \<in> set (rules w). ID x \<noteq> ID pf} = set (rules w) - {pf}"
      using table_ok_ID_inj [OF ok] found by blast
    moreover have "{x \<in> set (rules w). slot x \<noteq> Some (rule_slot rule)} = set (rules w) - {pf}"
      using slot_others [OF ok, of pf] found by (auto simp: rule_slot_def)
    ultimately show ?thesis using delete_ok [OF w1(2) d] w1(1) by auto
  qed
qed

end

text \<open>
  C26: the finalizer goes after the router rule.  When \<open>handleRuleDeletion\<close> returns without an error for
  a resource whose router rule was recorded, the router rule on its port and protocol was removed first, the
  finalizer was taken off in that state, and no other rule has changed.
\<close>

theorem rule_deletion_complete:
  assumes env: "rule_env r rules" and ok: "table_ok (rules (pWorld st))"
    and get: "rk_GetRule (rrClient r) ns n (pWorld st) = (Inr rule, w1)"
    and id: "stRouterRuleID (ruleStatus rule) \<noteq> ''''"
    and run: "handleRuleDeletion r ns n st = ((res, None), st')"
  shows "\<exists>w2. rk_UpdateRule (rrClient r) (RemoveRuleFinalizer rule) w2 = (Inr (), pWorld st') \<and>
    set (rules w2) = {x \<in> set (rules (pWorld st)). slot x \<noteq> Some (rule_slot rule)} \<and>
    set (rules (pWorld st')) = set (rules w2)"
proof -
  obtain w2 where del: "deleteRouterRuleByID r rule w1 = (None, w2)"
    and upd: "rk_UpdateRule (rrClient r) (RemoveRuleFinalizer rule) w2 = (Inr (), pWorld st')"
    using run get id by (auto simp: handleRuleDeletion_def on_pworld_def split: prod.splits sum.splits option.splits)
  have "set (rules w1) = set (rules (pWorld st))" "table_ok (rules w1)"
    using rule_env.same_ruleset [OF env rule_env.get_rule_frame [OF env, of ns n "pWorld st"]] get ok by simp_all
  with rule_env.deleteRouterRuleByID_ok [OF env del]
    rule_env.same_ruleset(1) [OF env rule_env.update_rule_frame [OF env, of "RemoveRuleFinalizer rule" w2]] upd
  show ?thesis by auto
qed

text \<open>
  A failed removal keeps the finalizer.  When the router call of \<open>handleRuleDeletion\<close> fails, the
  handler reports the failure and stops there: it does not write the resource.
\<close>

lemma rule_deletion_failure_keeps_finalizer:
  assumes "rk_GetRule (rrClient r) ns n (pWorld st) = (Inr rule, w1)" "stRouterRuleID (ruleStatus rule) \<noteq> ''''"
    and "deleteRouterRuleByID r rule w1 = (Some delErr, w2)"
  shows "handleRuleDeletion r ns n st =
    ((emptyResultR, Some (ErrorString (''router rule deletion failed: '' @ Error delErr))), st\<lparr>pWorld := w2\<rparr>)"
  using assms by (simp add: handleRuleDeletion_def on_pworld_def)

section \<open>Status updates\<close>

text \<open>
  A store that answers status updates of one resource: while \<open>I\<close> holds the resource is there and can be
  refreshed, and the only error is a conflict, of which \<open>left w\<close> are still to come.
\<close>

locale status_store =
  fixes r :: "'w RuleReconciler" and ns n :: string and I :: "'w \<Rightarrow> bool" and left :: "'w \<Rightarrow> nat"
  assumes refresh: "I w \<Longrightarrow> \<exists>q w'. rk_GetRule (rrClient r) ns n w = (Inr q, w') \<and>
      ruleNamespace q = ns \<and> ruleName q = n \<and> I w' \<and> left w' = left w"
    and tick: "I w \<Longrightarrow> I (snd (rrNow r w)) \<and> left (snd (rrNow r w)) = left w"
    and conflict: "I w \<Longrightarrow> ruleNamespace q = ns \<Longrightarrow> ruleName q = n \<Longrightarrow>
      rk_UpdateRuleStatus (rrClient r) q w = (Inl e, w') \<Longrightarrow> IsConflict e \<and> I w' \<and> left w' < left w"
begin

lemma phase_status_store:
  assumes "I w" "phase_status r phase msg status w = (status', w')"
  shows "I w' \<and> left w' = left w \<and> stPhase status' = phase"
  using assms(2) tick [OF assms(1)] tick [of "snd (rrNow r w)"]
  by (auto simp: phase_status_def Let_def split: prod.splits if_splits)

lemma status_loop_writes:
  assumes "I w" "left w < k" "ruleNamespace rule = ns" "ruleName rule = n"
  shows "\<exists>q w2. rk_UpdateRuleStatus (rrClient r) q w2 = (Inr (), status_loop r phase msg k first rule w) \<and>
    ruleNamespace q = ns \<and> ruleName q = n \<and> stPhase (ruleStatus q) = phase"
  using assms
proof (induction k arbitrary: first rule w)
  case (Suc k)
  obtain rule1 w1 where g: "(if first then (Inr rule, w) else rk_GetRule (rrClient r) (ruleNamespace rule) (ruleName rule) w) = (Inr rule1, w1)"
    "ruleNamespace rule1 = ns" "ruleName rule1 = n" "I w1" "left w1 = left w"
    using Suc.prems refresh [OF Suc.prems(1)] by (cases first) auto
  obtain status w2 where p: "phase_status r phase msg (ruleStatus rule1) w1 = (status, w2)" by (rule prod.exhaust)
  note s = phase_status_store [OF g(4) p]
  let ?q = "rule1\<lparr>ruleStatus := status\<rparr>"
  obtain res w3 where u: "rk_UpdateRuleStatus (rrClient r) ?q w2 = (res, w3)" by (rule prod.exhaust)
  show ?case
  proof (cases res)
    case (Inl e)
    with u s g conflict [of w2 ?q e w3] have c: "IsConflict e" "I w3" "left w3 < left w" by auto
    with Suc.prems(2) have "left w3 < k" by simp
    from Suc.IH [OF c(2) this, of ?q False] g c(1) p u Inl show ?thesis by simp
  next
    case (Inr x)
    with g p u s show ?thesis by (intro exI [of _ ?q] exI [of _ w2]) simp
  qed
qed simp

end

definition rule_stored :: "string \<Rightarrow> string \<Rightarrow> rule_cluster \<Rightarrow> bool" where
  "rule_stored ns n c \<longleftrightarrow> (\<exists>q \<in> set (rl_rules c). same_rule ns n q) \<and> list_all IsConflict (rl_conflicts c)"

lemma find_same_rule: "\<exists>q \<in> set qs. P q \<Longrightarrow> \<exists>q. List.find P qs = Some q \<and> P q"
  by (metis find_None_iff find_SomeD not_None_eq)

interpretation refs: status_store "ref_rule_reconciler site" ns n "rule_stored ns n" "\<lambda>c. length (rl_conflicts c)"
proof
  fix w :: rule_cluster assume "rule_stored ns n w"
  then have "\<exists>q \<in> set (rl_rules w). same_rule ns n q" by (simp add: rule_stored_def)
  from find_same_rule [OF this] obtain q where "List.find (same_rule ns n) (rl_rules w) = Some q" "same_rule ns n q"
    by (elim exE conjE)
  with \<open>rule_stored ns n w\<close> show "\<exists>q w'. rk_GetRule (rrClient (ref_rule_reconciler site)) ns n w = (Inr q, w') \<and>
      ruleNamespace q = ns \<and> ruleName q = n \<and> rule_stored ns n w' \<and> length (rl_conflicts w') = length (rl_conflicts w)"
    by (simp add: ref_rule_client_def same_rule_def)
next
  fix w w' :: rule_cluster and q e
  assume "rule_stored ns n w" "rk_UpdateRuleStatus (rrClient (ref_rule_reconciler site)) q w = (Inl e, w')"
  then show "IsConflict e \<and> rule_stored ns n w' \<and> length (rl_conflicts w') < length (rl_conflicts w)"
    by (cases "rl_conflicts w") (auto simp: ref_rule_client_def rule_stored_def)
qed (simp_all add: ref_rule_client_def)

text \<open>
  C28: status updates get through.  While the resource exists and fewer than three conflicts are to come,
  \<open>updateRuleStatusWithRetry\<close> ends with a successful status update that carries the given phase.
\<close>

theorem status_update_persists:
  assumes store: "status_store r ns n I left" and st: "I (pWorld st)" "left (pWorld st) < 3"
    and name: "ruleNamespace rule = ns" "ruleName rule = n"
  shows "\<exists>q w. rk_UpdateRuleStatus (rrClient r) q w = (Inr (), pWorld (updateRuleStatusWithRetry r rule phase msg st)) \<and>
    ruleNamespace q = ns \<and> ruleName q = n \<and> stPhase (ruleStatus q) = phase"
  using status_store.status_loop_writes [OF store st(1) _ name, of maxAttempts phase msg True] st(2)
  by (simp add: updateRuleStatusWithRetry_def maxAttempts_def)

section \<open>One reconciliation per resource\<close>

text \<open>
  Several workers call \<open>Reconcile\<close> at once, and share the state.  \<open>LoadOrStore\<close> and \<open>Delete\<close> of the \<open>sync.Map\<close> are
  atomic: a worker whose key is present returns, the others are inside the body until their deferred \<open>Delete\<close>.  While
  they are inside, they work on the outside world and hand events to the recorder; so does everybody else.  Beside
  the state stand the keys of the workers inside the body.
\<close>

inductive worker_step :: "'w pstate \<times> string list \<Rightarrow> 'w pstate \<times> string list \<Rightarrow> bool" where
  skip: "LoadOrStore key (activeReconciliations st) = (True, m) \<Longrightarrow> worker_step (st, running) (st, running)"
| enter: "LoadOrStore key (activeReconciliations st) = (False, m) \<Longrightarrow>
     worker_step (st, running) (st\<lparr>activeReconciliations := m\<rparr>, key # running)"
| work: "worker_step (st, running) (st\<lparr>pWorld := w, ruleEvents := es\<rparr>, running)"
| leave: "key \<in> set running \<Longrightarrow>
     worker_step (st, running) (st\<lparr>activeReconciliations := gm_del key (activeReconciliations st)\<rparr>, remove1 key running)"

inductive_cases worker_stepE: "worker_step (st, running) s"

definition workers_ok :: "'w pstate \<times> string list \<Rightarrow> bool" where
  "workers_ok s \<longleftrightarrow>
     (case s of (st, running) \<Rightarrow> distinct running \<and> (\<forall>key. gm_has (activeReconciliations st) key \<longleftrightarrow> key \<in> set running))"

lemma worker_step_ok: "worker_step s s' \<Longrightarrow> workers_ok s \<Longrightarrow> workers_ok s'"
  by (induction rule: worker_step.induct) (auto simp: workers_ok_def LoadOrStore_def split: if_splits)

lemma reachable_workers_ok:
  assumes "worker_step\<^sup>*\<^sup>* (st0, []) s" "activeReconciliations st0 = []"
  shows "workers_ok s"
proof -
  have "workers_ok (st0, [])" using assms(2) by (simp add: workers_ok_def)
  with assms(1) show ?thesis by (induction rule: rtranclp_induct) (auto intro: worker_step_ok)
qed

text \<open>The body leaves the map alone, so the part of \<open>Reconcile\<close> between \<open>LoadOrStore\<close> and \<open>Delete\<close> is work.\<close>

lemma after_apply_active: "activeReconciliations (snd (after_apply r res st)) = activeReconciliations st"
  by (cases res) (auto simp: after_apply_def updateRuleStatusWithRetry_def split: option.split)

lemma reconcilePortForwardRule_active:
  "activeReconciliations (snd (reconcilePortForwardRule r rule st)) = activeReconciliations st"
  by (auto simp: reconcilePortForwardRule_def on_pworld_def Let_def split: prod.split sum.split)

lemma handleRuleDeletion_active: "activeReconciliations (snd (handleRuleDeletion r ns n st)) = activeReconciliations st"
  by (auto simp: handleRuleDeletion_def on_pworld_def Let_def split: prod.splits sum.splits option.splits)

lemma body_active: "activeReconciliations (snd (reconcile_rule_body r ns n st)) = activeReconciliations st"
proof -
  have applied: "activeReconciliations s' = activeReconciliations s" if "reconcilePortForwardRule r rule s = (res, s')" for rule s res s'
    using that reconcilePortForwardRule_active [of r rule s] by simp
  show ?thesis
    unfolding reconcile_rule_body_def
    by (auto simp: on_pworld_def handleRuleDeletion_active after_apply_active updateRuleStatusWithRetry_def dest!: applied
        simp del: split_paired_All split: prod.split sum.split option.split)
qed

lemma body_work:
  "worker_step (st, running) (snd (reconcile_rule_body r ns n st), running)"
proof -
  let ?st = "snd (reconcile_rule_body r ns n st)"
  have "?st = st\<lparr>pWorld := pWorld ?st, ruleEvents := ruleEvents ?st\<rparr>" using body_active [of r ns n st] by simp
  then show ?thesis by (metis worker_step.work)
qed

text \<open>A call whose key is present, and a call whose key is absent, in terms of the steps.\<close>

lemma RuleReconcile_busy:
  "gm_has (activeReconciliations st) (rule_key ns n) \<Longrightarrow>
   RuleReconcile r ns n st = ((emptyResultR\<lparr>RequeueAfter := 5 * Second\<rparr>, None), st)"
  by (simp add: RuleReconcile_def LoadOrStore_def)

lemma RuleReconcile_idle:
  assumes "\<not> gm_has (activeReconciliations st) (rule_key ns n)"
    and "reconcile_rule_body r ns n (st\<lparr>activeReconciliations := gm_set (rule_key ns n) True (activeReconciliations st)\<rparr>) = (out, st1)"
  shows "RuleReconcile r ns n st = (out, st1\<lparr>activeReconciliations := activeReconciliations st\<rparr>)"
proof -
  have "gm_del k (gm_set k v m) = m" if "\<not> gm_has m k" for k v and m :: "(string, bool) gomap"
    using that by (induction m) (auto simp: delete_id split: if_splits)
  with assms body_active [of r ns n "st\<lparr>activeReconciliations := gm_set (rule_key ns n) True (activeReconciliations st)\<rparr>"]
  show ?thesis by (simp add: RuleReconcile_def LoadOrStore_def Let_def)
qed

text \<open>
  C29: mutual exclusion.  Workers enter, work and leave in any order, starting with an empty map.  In every state
  they reach, no two workers are inside the body for the same resource, and the keys in the map are those of the
  workers inside.  A call of \<open>Reconcile\<close> for a resource that has a worker inside changes nothing and asks to be
  called again in five seconds; a call for any other resource runs the body with its key in the map, leaves the
  map as it found it, and is itself a sequence of the steps: enter, work, leave.
\<close>

theorem reconciles_exclude_each_other:
  assumes reach: "worker_step\<^sup>*\<^sup>* (st0, []) (st, running)" and start: "activeReconciliations st0 = []"
  shows "distinct running \<and> (\<forall>key. gm_has (activeReconciliations st) key \<longleftrightarrow> key \<in> set running) \<and>
    (if rule_key ns n \<in> set running
     then RuleReconcile r ns n st = ((emptyResultR\<lparr>RequeueAfter := 5 * Second\<rparr>, None), st)
     else \<exists>st1 out st2 st3.
       worker_step (st, running) (st1, rule_key ns n # running) \<and> gm_has (activeReconciliations st1) (rule_key ns n) \<and>
       reconcile_rule_body r ns n st1 = (out, st2) \<and> worker_step (st1, rule_key ns n # running) (st2, rule_key ns n # running) \<and>
       worker_step (st2, rule_key ns n # running) (st3, running) \<and>
       RuleReconcile r ns n st = (out, st3) \<and> activeReconciliations st3 = activeReconciliations st)"
proof -
  let ?key = "rule_key ns n"
  from reachable_workers_ok [OF assms]
  have ok: "distinct running" "\<forall>key. gm_has (activeReconciliations st) key \<longleftrightarrow> key \<in> set running"
    by (simp_all add: workers_ok_def)
  show ?thesis
  proof (cases "?key \<in> set running")
    case True
    with ok have "gm_has (activeReconciliations st) ?key" by blast
    from RuleReconcile_busy [OF this] ok True show ?thesis by simp
  next
    case False
    with ok have idle: "\<not> gm_has (activeReconciliations st) ?key" by blast
    let ?m = "gm_set ?key True (activeReconciliations st)"
    let ?st1 = "st\<lparr>activeReconciliations := ?m\<rparr>"
    obtain out st2 where body: "reconcile_rule_body r ns n ?st1 = (out, st2)" by fastforce
    let ?st3 = "st2\<lparr>activeReconciliations := gm_del ?key (activeReconciliations st2)\<rparr>"
    have load: "LoadOrStore ?key (activeReconciliations st) = (False, ?m)" using idle by (simp add: LoadOrStore_def)
    then have enter: "worker_step (st, running) (?st1, ?key # running)" by (rule worker_step.enter)
    have work: "worker_step (?st1, ?key # running) (st2, ?key # running)"
      using body_work [of ?st1 "?key # running" r ns n] body by simp
    have leave: "worker_step (st2, ?key # running) (?st3, running)"
      using worker_step.leave [of ?key "?key # running" st2] by simp
    have run: "RuleReconcile r ns n st = (out, ?st3)" using load body by (simp add: RuleReconcile_def Let_def)
    with RuleReconcile_idle [OF idle body] have "activeReconciliations ?st3 = activeReconciliations st"
      by (metis Pair_inject pstate.select_convs(2) pstate.surjective pstate.update_convs(2))
    with ok False enter work leave run body show ?thesis by (intro conjI) (simp_all, fastforce)
  qed
qed

section \<open>Progress\<close>

text \<open>
  Applying a rule succeeds.  For a well-formed resource with a destination, on a router in service that
  accepts the configuration, \<open>reconcilePortForwardRule\<close> returns without an error.
\<close>

lemma rule_apply_succeeds:
  assumes R: "router_up (rrRouter r) rules up accepted" and ok: "table_ok (rules w1)" "up w1"
    and spec: "valid_spec (ruleSpec rule)" and d: "destination r rule (pWorld st) = (Inr (ip, port), w1)"
    and acc: "accepted (router_rule rule ip port)" "ip \<noteq> ''''"
  shows "\<exists>rule' st'. reconcilePortForwardRule r rule st = ((None, rule'), st')"
proof -
  let ?c = "router_rule rule ip port"
  have R': "router_contract (rrRouter r) rules" using R by (simp add: router_up_def)
  have p: "in_int64 (specExternalPort (ruleSpec rule))" using spec valid_port_int64 by (simp add: valid_spec_def)
  obtain x w2 where ck: "r_CheckPort (rrRouter r) (specExternalPort (ruleSpec rule)) (specProtocol (ruleSpec rule)) w1 = (Inr x, w2)"
    "up w2" using router_up.probe_up [OF R ok(2)] by blast
  have "\<exists>w3. write_router_rule r rule ?c w1 = (Inr (), w3)"
  proof (cases x)
    case None
    note a = router_contract.check_absent [OF R' ck(1) [unfolded None]]
    have "set (rules w2) = set (rules w1)" "table_ok (rules w2)"
      using a ok(1) mset_eq_setD [of "rules w2" "rules w1"] table_ok_mset [of "rules w2" "rules w1"] by auto
    with a router_up.add_up [OF R ck(2) _ acc(1)] acc(2) p obtain w3 where "r_AddPort (rrRouter r) ?c w2 = (Inr (), w3)"
      by (auto simp: rule_slot_def)
    with ck None show ?thesis by (simp add: write_router_rule_def)
  next
    case (Some old)
    note f = router_contract.check_found [OF R' ck(1) [unfolded Some]]
    have w2: "set (rules w2) = set (rules w1)" "table_ok (rules w2)"
      using f ok(1) mset_eq_setD [of "rules w2" "rules w1"] table_ok_mset [of "rules w2" "rules w1"] by auto
    have "Some (cslot ?c) \<in> slot ` set (rules w2)"
      using f w2 by (auto simp: rule_slot_def intro!: image_eqI [of _ slot old])
    with router_up.update_up [OF R ck(2) w2(2) acc(1)] p obtain w3 where
      "r_UpdatePort (rrRouter r) (specExternalPort (ruleSpec rule)) ?c w2 = (Inr (), w3)" by auto
    with ck Some show ?thesis by (auto simp: write_router_rule_def)
  qed
  with d show ?thesis by (auto simp: reconcilePortForwardRule_def on_pworld_def Let_def split: prod.split)
qed

section \<open>A recorded rule that is forgotten\<close>

text \<open>
  A store with optimistic concurrency, for one resource.  \<open>stored w\<close> is the version it has, \<open>stale w\<close> says that the
  version a controller has in hand is outdated, so that its next status update is refused with a conflict.  The
  status is a subresource: writing it changes nothing else, and a write that is refused changes nothing.
\<close>

locale rule_store = rule_env r rules
  for r :: "'w RuleReconciler" and rules :: "'w \<Rightarrow> PortForward list" +
  fixes ns n :: string and stored :: "'w \<Rightarrow> PortForwardRule option" and stale :: "'w \<Rightarrow> bool"
  assumes stored_name: "stored w = Some q \<Longrightarrow> ruleNamespace q = ns \<and> ruleName q = n"
    and stored_get: "stored w = Some q \<Longrightarrow> \<exists>w'. rk_GetRule (rrClient r) ns n w = (Inr q, w') \<and> stored w' = Some q"
    and stored_now: "stored (snd (rrNow r w)) = stored w" "stale (snd (rrNow r w)) = stale w"
    and stored_stale: "stale w \<Longrightarrow> rk_UpdateRuleStatus (rrClient r) q w = (res, w') \<Longrightarrow> \<exists>e. res = Inl e \<and> IsConflict e"
    and stored_refused: "rk_UpdateRuleStatus (rrClient r) q w = (Inl e, w') \<Longrightarrow> stored w' = stored w"
    and stored_write: "rk_UpdateRuleStatus (rrClient r) q w = (Inr (), w') \<Longrightarrow> ruleNamespace q = ns \<Longrightarrow> ruleName q = n \<Longrightarrow>
      stored w = Some p \<Longrightarrow> ruleDeletionTimestamp p = None \<Longrightarrow> stored w' = Some (p\<lparr>ruleStatus := ruleStatus q\<rparr>)"

text \<open>A resource that is managed and alive, but records no router rule.\<close>

definition unrecorded :: "PortForwardRule \<Rightarrow> bool" where
  "unrecorded q \<longleftrightarrow> RuleContainsFinalizer q \<and> ruleDeletionTimestamp q = None \<and> stRouterRuleID (ruleStatus q) = ''''"

lemma phase_status_ID: "stRouterRuleID (fst (phase_status r phase msg status w)) = stRouterRuleID status"
  by (simp add: phase_status_def Let_def split: prod.split)

context rule_store
begin

lemma phase_status_stored: "stored (snd (phase_status r phase msg status w)) = stored w \<and> stale (snd (phase_status r phase msg status w)) = stale w"
  using stored_now [of w] stored_now [of "snd (rrNow r w)"] by (auto simp: phase_status_def Let_def split: prod.split)

lemma refreshed_status_unrecorded:
  assumes "stored w = Some p" "unrecorded p" "ruleNamespace rule = ns" "ruleName rule = n"
  shows "\<exists>q. stored (status_loop r phase msg k False rule w) = Some q \<and> unrecorded q"
  using assms
proof (induction k arbitrary: rule w p)
  case (Suc k)
  from stored_get [OF Suc.prems(1)] obtain w1 where g: "rk_GetRule (rrClient r) ns n w = (Inr p, w1)" "stored w1 = Some p" by blast
  obtain status w2 where ph: "phase_status r phase msg (ruleStatus p) w1 = (status, w2)" by fastforce
  have w2: "stored w2 = Some p" "stRouterRuleID status = ''''"
    using phase_status_stored [of phase msg "ruleStatus p" w1] phase_status_ID [of r phase msg "ruleStatus p" w1] ph g Suc.prems(2)
    by (simp_all add: unrecorded_def)
  let ?q = "p\<lparr>ruleStatus := status\<rparr>"
  have name: "ruleNamespace ?q = ns" "ruleName ?q = n" using stored_name [OF Suc.prems(1)] by simp_all
  obtain res w3 where u: "rk_UpdateRuleStatus (rrClient r) ?q w2 = (res, w3)" by fastforce
  show ?case
  proof (cases res)
    case (Inl e)
    with u stored_refused w2 have w3: "stored w3 = Some p" by metis
    show ?thesis
      using Suc.IH [OF w3 Suc.prems(2) name] w3 Suc.prems g ph u Inl by simp
  next
    case (Inr x)
    with u stored_write [OF _ name w2(1)] Suc.prems(2) have "stored w3 = Some ?q" by (simp add: unrecorded_def)
    with Suc.prems g ph u Inr w2(2) show ?thesis by (simp add: unrecorded_def RuleContainsFinalizer_def)
  qed
qed simp

lemma stale_status_unrecorded:
  assumes p: "stored (pWorld st) = Some p" "unrecorded p" and stale: "stale (pWorld st)"
    and name: "ruleNamespace rule = ns" "ruleName rule = n"
  shows "\<exists>q. stored (pWorld (updateRuleStatusWithRetry r rule phase msg st)) = Some q \<and> unrecorded q"
proof -
  obtain status w2 where ph: "phase_status r phase msg (ruleStatus rule) (pWorld st) = (status, w2)" by fastforce
  have w2: "stored w2 = Some p" "stale w2"
    using phase_status_stored [of phase msg "ruleStatus rule" "pWorld st"] ph p stale by simp_all
  let ?q = "rule\<lparr>ruleStatus := status\<rparr>"
  obtain res w3 where u: "rk_UpdateRuleStatus (rrClient r) ?q w2 = (res, w3)" by fastforce
  from stored_stale [OF w2(2) u] obtain e where e: "res = Inl e" "IsConflict e" by blast
  with u stored_refused w2(1) have "stored w3 = Some p" by metis
  from refreshed_status_unrecorded [OF this p(2), of ?q phase msg "Suc (Suc 0)"] name ph u e show ?thesis
    by (simp add: updateRuleStatusWithRetry_def maxAttempts_eq del: status_loop.simps(2))
      (simp add: status_loop.simps(2) [of r phase msg "Suc (Suc 0)" True])
qed

text \<open>A reconciliation that meets such a conflict.\<close>

lemma stale_reconcile:
  assumes idle: "\<not> gm_has (activeReconciliations st) (rule_key ns n)"
    and get: "stored (pWorld st) = Some rule" "rk_GetRule (rrClient r) ns n (pWorld st) = (Inr rule, w1)"
    and alive: "RuleContainsFinalizer rule" "ruleDeletionTimestamp rule = None"
    and valid: "validateRule r rule w1 = (None, w2)"
    and app: "reconcilePortForwardRule r rule
      (st\<lparr>activeReconciliations := gm_set (rule_key ns n) True (activeReconciliations st), pWorld := w2\<rparr>) = ((None, rule'), st3)"
    and conflict: "stored (pWorld st3) = Some p" "unrecorded p" "stale (pWorld st3)"
  shows "\<exists>st' q. RuleReconcile r ns n st = ((emptyResultR\<lparr>RequeueAfter := 300 * Second\<rparr>, None), st') \<and>
    stored (pWorld st') = Some q \<and> unrecorded q \<and> mset (rules (pWorld st')) = mset (rules (pWorld st3))"
proof -
  let ?st4 = "updateRuleStatusWithRetry r rule' PhaseActive '''' st3"
  have "ruleNamespace rule' = ns" "ruleName rule' = n"
    using app stored_name [OF get(1)] by (auto simp: reconcilePortForwardRule_def on_pworld_def Let_def split: prod.splits sum.splits)
  from stale_status_unrecorded [OF conflict this] obtain q where "stored (pWorld ?st4) = Some q" "unrecorded q" by blast
  moreover have "reconcile_rule_body r ns n (st\<lparr>activeReconciliations := gm_set (rule_key ns n) True (activeReconciliations st)\<rparr>) =
      ((emptyResultR\<lparr>RequeueAfter := 300 * Second\<rparr>, None), ?st4)"
    using get(2) alive valid app by (simp add: reconcile_rule_body_def on_pworld_def IsZeroTime_def after_apply_def)
  ultimately show ?thesis using RuleReconcile_idle [OF idle] update_status_frame by fastforce
qed

text \<open>Deleting such a resource only takes the finalizer off.\<close>

lemma unrecorded_deletion:
  assumes stored: "stored (pWorld st) = Some q" and fin: "RuleContainsFinalizer q" "\<not> IsZeroTime (ruleDeletionTimestamp q)"
    and id: "stRouterRuleID (ruleStatus q) = ''''" and idle: "\<not> gm_has (activeReconciliations st) (rule_key ns n)"
  shows "\<exists>w. mset (rules w) = mset (rules (pWorld st)) \<and>
    pWorld (snd (RuleReconcile r ns n st)) = snd (rk_UpdateRule (rrClient r) (RemoveRuleFinalizer q) w)"
proof -
  from stored_get [OF stored] obtain w1 where w1: "rk_GetRule (rrClient r) ns n (pWorld st) = (Inr q, w1)" "stored w1 = Some q" by blast
  from stored_get [OF w1(2)] obtain w2 where w2: "rk_GetRule (rrClient r) ns n w1 = (Inr q, w2)" by blast
  have "mset (rules w2) = mset (rules (pWorld st))"
    using get_rule_frame [of ns n "pWorld st"] get_rule_frame [of ns n w1] w1 w2 by simp
  moreover obtain res w3 where "rk_UpdateRule (rrClient r) (RemoveRuleFinalizer q) w2 = (res, w3)" by fastforce
  ultimately show ?thesis
    using w1 w2 fin id idle
    by (intro exI [of _ w2]) (simp add: RuleReconcile_def LoadOrStore_def reconcile_rule_body_def handleRuleDeletion_def on_pworld_def Let_def
        split: sum.split)
qed

end

text \<open>
  C27: a conflict on the status update loses the identifier of the router rule.  A reconciliation of a resource (with
  finalizer, not under deletion, valid) has put its rule on the router; meanwhile somebody has changed the
  resource, so that its status update is refused with a conflict, and the stored version does not record the
  rule yet, as on the first reconciliation.  The refreshed object replaces the one that \<open>reconcilePortForwardRule\<close>
  completed, so \<open>Reconcile\<close> returns without an error and leaves a stored resource without \<open>RouterRuleID\<close>,
  whatever happens to the later attempts, while the rule is on the router.  When that resource is deleted, the
  reconciliation takes the finalizer off and leaves all rules where they are.  No other reconciliation of the
  resource runs, the router has no two rules on one slot, and the router, the API server and the store keep
  their contracts (\<open>rule_store\<close>).
\<close>

theorem status_conflict_leaks_rule:
  assumes store: "rule_store r rules ns n stored stale" and ok: "table_ok (rules (pWorld st))"
    and idle: "\<not> gm_has (activeReconciliations st) (rule_key ns n)"
    and get: "stored (pWorld st) = Some rule" "rk_GetRule (rrClient r) ns n (pWorld st) = (Inr rule, w1)"
    and alive: "RuleContainsFinalizer rule" "ruleDeletionTimestamp rule = None"
    and valid: "validateRule r rule w1 = (None, w2)"
    and app: "reconcilePortForwardRule r rule
      (st\<lparr>activeReconciliations := gm_set (rule_key ns n) True (activeReconciliations st), pWorld := w2\<rparr>) = ((None, rule'), st3)"
    and conflict: "stored (pWorld st3) = Some p" "unrecorded p" "stale (pWorld st3)"
  shows "\<exists>st' q. RuleReconcile r ns n st = ((emptyResultR\<lparr>RequeueAfter := 300 * Second\<rparr>, None), st') \<and>
    stored (pWorld st') = Some q \<and> stRouterRuleID (ruleStatus q) = '''' \<and>
    (\<exists>x \<in> set (rules (pWorld st')). slot x = Some (rule_slot rule) \<and> pfName x = router_rule_name rule) \<and>
    (\<forall>dying t. stored (pWorld dying) = Some (q\<lparr>ruleDeletionTimestamp := Some t\<rparr>) \<and> t \<noteq> 0 \<and>
       \<not> gm_has (activeReconciliations dying) (rule_key ns n) \<longrightarrow>
       (\<exists>w. mset (rules w) = mset (rules (pWorld dying)) \<and> pWorld (snd (RuleReconcile r ns n dying)) =
          snd (rk_UpdateRule (rrClient r) (RemoveRuleFinalizer (q\<lparr>ruleDeletionTimestamp := Some t\<rparr>)) w)) \<and>
       mset (rules (pWorld (snd (RuleReconcile r ns n dying)))) = mset (rules (pWorld dying)))"
proof -
  have env: "rule_env r rules" using store by (simp add: rule_store_def)
  have "set (rules w2) = set (rules (pWorld st)) \<and> table_ok (rules w2)"
    using rule_env.same_ruleset [OF env rule_env.get_rule_frame [OF env, of ns n "pWorld st"]]
      rule_env.same_ruleset [OF env rule_env.validate_frame [OF env, of rule w1]] get(2) valid ok by simp
  moreover have "in_int64 (specExternalPort (ruleSpec rule))"
    using rule_env.validateRule_ok [OF env valid] valid_port_int64 by (simp add: valid_spec_def)
  ultimately obtain ip port where ap: "applied rule ip port (set (rules w2)) (set (rules (pWorld st3)))"
    using rule_env.reconcilePortForwardRule_ok [OF env app] by auto
  from rule_store.stale_reconcile [OF store idle get alive valid app conflict] obtain st' q where
    run: "RuleReconcile r ns n st = ((emptyResultR\<lparr>RequeueAfter := 300 * Second\<rparr>, None), st')"
    and q: "stored (pWorld st') = Some q" "unrecorded q" and same: "mset (rules (pWorld st')) = mset (rules (pWorld st3))" by blast
  have there: "\<exists>x \<in> set (rules (pWorld st')). slot x = Some (rule_slot rule) \<and> pfName x = router_rule_name rule"
    using ap rule_env.same_ruleset(1) [OF env same] by (auto simp: applied_def)
  have del: "(\<exists>w. mset (rules w) = mset (rules (pWorld dying)) \<and> pWorld (snd (RuleReconcile r ns n dying)) =
          snd (rk_UpdateRule (rrClient r) (RemoveRuleFinalizer (q\<lparr>ruleDeletionTimestamp := Some t\<rparr>)) w)) \<and>
       mset (rules (pWorld (snd (RuleReconcile r ns n dying)))) = mset (rules (pWorld dying))"
    if d: "stored (pWorld dying) = Some (q\<lparr>ruleDeletionTimestamp := Some t\<rparr>)" "t \<noteq> 0"
      "\<not> gm_has (activeReconciliations dying) (rule_key ns n)" for dying t
    using rule_store.unrecorded_deletion [OF store d(1) _ _ _ d(3)] rule_env.update_rule_frame [OF env] q(2) d(2)
    by (fastforce simp: unrecorded_def RuleContainsFinalizer_def IsZeroTime_def)
  show ?thesis
    by (intro exI [of _ st'] exI [of _ q]) (use run q there del in \<open>auto simp: unrecorded_def\<close>)
qed

text \<open>The in-memory store: a pending conflict is an outdated version.\<close>

definition conflict_pending :: "rule_cluster \<Rightarrow> bool" where
  "conflict_pending c \<longleftrightarrow> (case rl_conflicts c of [] \<Rightarrow> False | e # es \<Rightarrow> IsConflict e)"

lemma find_store_rule:
  assumes "List.find (same_rule ns n) qs = Some p" "ruleDeletionTimestamp p = None" "ruleNamespace rule = ns" "ruleName rule = n"
  shows "List.find (same_rule ns n) (store_rule (\<lambda>q. q\<lparr>ruleStatus := status\<rparr>) rule qs) = Some (p\<lparr>ruleStatus := status\<rparr>)"
  using assms by (induction qs) (auto simp: store_rule_def same_rule_def split: if_splits)

interpretation rstore: rule_store "ref_rule_reconciler site" gw_rules ns n "\<lambda>c. List.find (same_rule ns n) (rl_rules c)" conflict_pending
proof
  show "List.find (same_rule ns n) (rl_rules w) = Some q \<Longrightarrow> ruleNamespace q = ns \<and> ruleName q = n" for w :: rule_cluster and q
    by (auto simp: find_Some_iff same_rule_def)
qed (auto simp: ref_rule_client_def conflict_pending_def find_store_rule split: list.splits)

text \<open>The reconciliation of a new resource whose first status update meets a conflict, and its deletion after that.\<close>

definition conflicting_start :: "rule_cluster pstate" where
  "conflicting_start = example_pstate (example_rule_cluster [] [] [example_pfr] [StatusError Conflict ''modified''])"

definition conflicting_run :: "rule_cluster pstate" where
  "conflicting_run = snd (RuleReconcile (ref_rule_reconciler ''default'') ''shop'' ''web'' conflicting_start)"

definition delete_resource :: "rule_cluster \<Rightarrow> rule_cluster" where
  "delete_resource c = c\<lparr>rl_rules := map (\<lambda>q. q\<lparr>ruleDeletionTimestamp := Some 5\<rparr>) (rl_rules c)\<rparr>"

definition deletion_run :: "rule_cluster pstate" where
  "deletion_run = snd (RuleReconcile (ref_rule_reconciler ''default'') ''shop'' ''web''
     (conflicting_run\<lparr>pWorld := delete_resource (pWorld conflicting_run)\<rparr>))"

lemma conflicting_deletion_run:
  "map (\<lambda>q. (stPhase (ruleStatus q), stRouterRuleID (ruleStatus q))) (rl_rules (pWorld conflicting_run)) = [(PhaseActive, '''')] \<and>
   map pfName (gw_rules (pWorld conflicting_run)) = [''shop/web:8080''] \<and>
   rl_rules (pWorld deletion_run) = [] \<and> map pfName (gw_rules (pWorld deletion_run)) = [''shop/web:8080'']"
  by (simp add: deletion_run_def delete_resource_def conflicting_run_def conflicting_start_def rule_eval rule_cluster_eval go_eval router_eval
      del: ipv6_groups.simps)

lemma status_conflict_leaks_rule_witness:
  "\<exists>st' q. RuleReconcile (ref_rule_reconciler ''default'') ''shop'' ''web'' conflicting_start =
      ((emptyResultR\<lparr>RequeueAfter := 300 * Second\<rparr>, None), st') \<and>
    List.find (same_rule ''shop'' ''web'') (rl_rules (pWorld st')) = Some q \<and> stRouterRuleID (ruleStatus q) = '''' \<and>
    (\<exists>x \<in> set (gw_rules (pWorld st')). pfName x = ''shop/web:8080'')"
proof -
  let ?r = "ref_rule_reconciler ''default''" and ?w = "pWorld conflicting_start"
  let ?st = "conflicting_start\<lparr>activeReconciliations := gm_set (rule_key ''shop'' ''web'') True (activeReconciliations conflicting_start), pWorld := ?w\<rparr>"
  have start: "table_ok (gw_rules ?w)" "\<not> gm_has (activeReconciliations conflicting_start) (rule_key ''shop'' ''web'')"
    "List.find (same_rule ''shop'' ''web'') (rl_rules ?w) = Some example_pfr"
    "rk_GetRule (rrClient ?r) ''shop'' ''web'' ?w = (Inr example_pfr, ?w)"
    "RuleContainsFinalizer example_pfr" "ruleDeletionTimestamp example_pfr = None" "unrecorded example_pfr"
    by (simp_all add: conflicting_start_def rule_cluster_eval RuleContainsFinalizer_def table_ok_def exclusive_def unrecorded_def)
  have valid: "validateRule ?r example_pfr ?w = (None, ?w)"
    by (simp add: conflicting_start_def rule_eval rule_cluster_eval go_eval del: ipv6_groups.simps)
  have "\<exists>rule' st3. reconcilePortForwardRule ?r example_pfr ?st = ((None, rule'), st3) \<and>
      List.find (same_rule ''shop'' ''web'') (rl_rules (pWorld st3)) = Some example_pfr \<and> conflict_pending (pWorld st3)"
    by (simp add: conflicting_start_def conflict_pending_def rule_eval rule_cluster_eval go_eval router_eval del: ipv6_groups.simps)
  then obtain rule' st3 where app: "reconcilePortForwardRule ?r example_pfr ?st = ((None, rule'), st3)"
    "List.find (same_rule ''shop'' ''web'') (rl_rules (pWorld st3)) = Some example_pfr" "conflict_pending (pWorld st3)" by blast
  have id: "router_rule_name example_pfr = ''shop/web:8080''" by (simp add: rule_eval rule_cluster_eval go_eval)
  from status_conflict_leaks_rule [OF rstore.rule_store_axioms start(1-6) valid app(1,2) start(7) app(3)] show ?thesis
    unfolding id by blast
qed

section \<open>Witnesses\<close>

definition fresh_run :: "rule_cluster pstate" where
  "fresh_run = example_pstate (example_rule_cluster [example_rule ''b'' ''other/svc:x'' 7000 70] [] [example_pfr] [])"

lemma fresh_rules_ok: "table_ok (gw_rules (pWorld fresh_run))"
  by (simp add: fresh_run_def rule_cluster_eval table_ok_def exclusive_def router_eval)

lemmas rule_run_eval = rule_eval rule_cluster_eval go_eval router_eval

lemma rule_applied_event_sound_witness:
  "\<exists>out st'. RuleReconcile (ref_rule_reconciler ''default'') ''shop'' ''web'' fresh_run = (out, st') \<and>
    ruleEvents st' = [rule_applied_event example_pfr] \<and>
    applied example_pfr ''10.0.0.7'' 80 (set (gw_rules (pWorld fresh_run))) (set (gw_rules (pWorld st')))"
proof -
  let ?r = "ref_rule_reconciler ''default''"
  obtain out st' where run: "RuleReconcile ?r ''shop'' ''web'' fresh_run = (out, st')" by (rule prod.exhaust)
  have ev: "ruleEvents (snd (RuleReconcile ?r ''shop'' ''web'' fresh_run)) = [rule_applied_event example_pfr]" "ruleEvents fresh_run = []"
    by (simp_all add: fresh_run_def rule_run_eval del: ipv6_groups.simps)
  have g: "rk_GetRule ref_rule_client ''shop'' ''web'' (pWorld fresh_run) = (Inr example_pfr, pWorld fresh_run)"
    by (simp add: fresh_run_def rule_run_eval)
  have d: "destination ?r example_pfr w = (Inr (''10.0.0.7'', 80), w)" for w
    by (simp add: destination_def Let_def example_pfr_def example_spec_def)
  from rule_applied_event_sound [OF refr.rule_env_axioms run fresh_rules_ok] ev run show ?thesis
    by (auto simp: g d)
qed

definition deleting_pfr :: PortForwardRule where
  "deleting_pfr = example_pfr\<lparr>ruleDeletionTimestamp := Some 5, ruleStatus := blank_status\<lparr>stRouterRuleID := ''shop/web:8080''\<rparr>\<rparr>"

definition deleting_run :: "rule_cluster pstate" where
  "deleting_run = example_pstate (example_rule_cluster
     [example_rule ''a'' ''shop/web:8080'' 8080 80, example_rule ''b'' ''other/svc:x'' 7000 70] [] [deleting_pfr] [])"

lemma rule_deletion_complete_witness:
  "\<exists>st'. handleRuleDeletion (ref_rule_reconciler ''default'') ''shop'' ''web'' deleting_run = ((emptyResultR, None), st') \<and>
    rl_rules (pWorld st') = [] \<and>
    set (gw_rules (pWorld st')) = {x \<in> set (gw_rules (pWorld deleting_run)). slot x \<noteq> Some (rule_slot deleting_pfr)}"
proof -
  let ?r = "ref_rule_reconciler ''default''"
  obtain res e st' where run: "handleRuleDeletion ?r ''shop'' ''web'' deleting_run = ((res, e), st')" by (metis prod.exhaust)
  have e: "fst (handleRuleDeletion ?r ''shop'' ''web'' deleting_run) = (emptyResultR, None)"
    "rl_rules (pWorld (snd (handleRuleDeletion ?r ''shop'' ''web'' deleting_run))) = []"
    by (simp_all add: deleting_run_def deleting_pfr_def rule_run_eval)
  have g: "rk_GetRule (rrClient ?r) ''shop'' ''web'' (pWorld deleting_run) = (Inr deleting_pfr, pWorld deleting_run)"
    by (simp add: deleting_run_def deleting_pfr_def rule_run_eval)
  have ok: "table_ok (gw_rules (pWorld deleting_run))"
    by (simp add: deleting_run_def rule_cluster_eval table_ok_def exclusive_def router_eval go_eval)
  have "stRouterRuleID (ruleStatus deleting_pfr) \<noteq> ''''" by (simp add: deleting_pfr_def)
  from rule_deletion_complete [OF refr.rule_env_axioms ok g this, of res st'] run e show ?thesis by auto
qed

lemma status_update_persists_witness:
  "\<exists>q w. rk_UpdateRuleStatus (rrClient (ref_rule_reconciler ''default'')) q w =
      (Inr (), pWorld (updateRuleStatusWithRetry (ref_rule_reconciler ''default'') example_pfr PhaseActive ''''
        (example_pstate (example_rule_cluster [] [] [example_pfr] [StatusError Conflict ''a'', StatusError Conflict ''b''])))) \<and>
    stPhase (ruleStatus q) = PhaseActive"
  using status_update_persists [where r = "ref_rule_reconciler ''default''", OF refs.status_store_axioms, where ns = "''shop''" and n = "''web''" and rule = example_pfr
      and phase = PhaseActive and msg = "''''"
      and st = "example_pstate (example_rule_cluster [] [] [example_pfr] [StatusError Conflict ''a'', StatusError Conflict ''b''])"]
  by (auto simp: rule_stored_def rule_cluster_eval)

lemma reconciles_exclude_each_other_witness:
  "\<exists>st. worker_step\<^sup>*\<^sup>* (fresh_run, []) (st, [''shop/web'']) \<and>
     RuleReconcile (ref_rule_reconciler ''default'') ''shop'' ''web'' st = ((emptyResultR\<lparr>RequeueAfter := 5 * Second\<rparr>, None), st) \<and>
     (\<exists>out st3. RuleReconcile (ref_rule_reconciler ''default'') ''shop'' ''api'' st = (out, st3) \<and>
        activeReconciliations st3 = activeReconciliations st)"
proof -
  let ?st = "fresh_run\<lparr>activeReconciliations := [(''shop/web'', True)]\<rparr>"
  have start: "activeReconciliations fresh_run = []" by (simp add: fresh_run_def example_pstate_def)
  then have "LoadOrStore ''shop/web'' (activeReconciliations fresh_run) = (False, [(''shop/web'', True)])"
    by (simp add: LoadOrStore_def)
  from r_into_rtranclp [of worker_step, OF worker_step.enter [OF this]]
  have reach: "worker_step\<^sup>*\<^sup>* (fresh_run, []) (?st, [''shop/web''])" .
  have "rule_key ''shop'' ''web'' = ''shop/web''" "rule_key ''shop'' ''api'' = ''shop/api''" by (simp_all add: rule_key_def)
  with reconciles_exclude_each_other [OF reach start, of "''shop''" "''web''" "ref_rule_reconciler ''default''"]
    reconciles_exclude_each_other [OF reach start, of "''shop''" "''api''" "ref_rule_reconciler ''default''"] reach
  show ?thesis by (intro exI [of _ ?st]) auto
qed

lemma rule_apply_succeeds_witness:
  "\<exists>rule' st'. reconcilePortForwardRule (ref_rule_reconciler ''default'') example_pfr fresh_run = ((None, rule'), st')"
proof -
  have "ValidateCreate example_pfr = []" by (simp add: rule_run_eval del: ipv6_groups.simps)
  then have "valid_spec (ruleSpec example_pfr)" by (simp only: ValidateCreate_Nil)
  then show ?thesis
    using rule_apply_succeeds [where r = "ref_rule_reconciler ''default''", unfolded ref_rule_reconciler_simps,
        OF ref.router_up_axioms fresh_rules_ok, of example_pfr fresh_run "''10.0.0.7''" 80]
    by (simp add: fresh_run_def rule_cluster_eval gw_up_def destination_def Let_def)
qed

lemma conflict_check_exact_witness:
  "fst (ValidateCrossNamespacePortConflict example_pfr (Some ref_rule_client)
      (example_rule_cluster [] [] [example_pfr, example_pfr\<lparr>ruleName := ''api''\<rparr>] [])) \<noteq> []"
proof -
  let ?w = "example_rule_cluster [] [] [example_pfr, example_pfr\<lparr>ruleName := ''api''\<rparr>] []"
  have "rules_clash example_pfr (example_pfr\<lparr>ruleName := ''api''\<rparr>)" "other_rule example_pfr (example_pfr\<lparr>ruleName := ''api''\<rparr>)"
    by (simp_all add: rules_clash_def other_rule_def example_pfr_def protocols_overlap_def)
  then show ?thesis
    using conflict_check_exact [of ref_rule_client ?w "rl_rules ?w" cl_services example_pfr]
    by (auto simp: ref_rule_client_def ref_kube_def example_rule_cluster_def)
qed

end
