(* ===== verification/TestClock.thy ===== *)
theory TestClock
  imports Prelude
begin

text \<open>
  The clock double of the tests (testutils/mock_test_clock.go): a settable time with one-shot timers.  Times and
  durations count nanoseconds.  A callback is a value of type \<open>'c\<close>; moving the clock returns the callbacks
  it starts (\<open>go timer.callback()\<close>), in the order of the timers.
\<close>

record 'c MockTimer =
  tmTarget :: int
  tmCallback :: "'c option"
  tmFired :: bool

record 'c MockClock =
  ckNow :: int
  ckTimers :: "'c MockTimer list"

definition NewMockClock :: "int \<Rightarrow> 'c MockClock" where
  "NewMockClock start = \<lparr>ckNow = start, ckTimers = []\<rparr>"

definition ck_Now :: "'c MockClock \<Rightarrow> int" where
  "ck_Now c = ckNow c"

definition expired :: "int \<Rightarrow> 'c MockTimer \<Rightarrow> bool" where
  "expired now timer \<longleftrightarrow> \<not> tmFired timer \<and> now > tmTarget timer"

text \<open>The loop over the timers: the started callbacks and the timers afterwards.\<close>

fun trigger_loop :: "int \<Rightarrow> 'c MockTimer list \<Rightarrow> 'c list \<times> 'c MockTimer list" where
  "trigger_loop now [] = ([], [])"
| "trigger_loop now (timer # timers) =
     (let (started, rest) = trigger_loop now timers in
      if expired now timer
      then ((case tmCallback timer of Some callback \<Rightarrow> callback # started | None \<Rightarrow> started),
            timer\<lparr>tmFired := True\<rparr> # rest)
      else (started, timer # rest))"

definition SetTime :: "int \<Rightarrow> 'c MockClock \<Rightarrow> 'c list \<times> 'c MockClock" where
  "SetTime t c = (case trigger_loop t (ckTimers c) of (started, timers) \<Rightarrow> (started, c\<lparr>ckNow := t, ckTimers := timers\<rparr>))"

definition Advance :: "int \<Rightarrow> 'c MockClock \<Rightarrow> 'c list \<times> 'c MockClock" where
  "Advance d c =
     (let now = ckNow c + d in
      case trigger_loop now (ckTimers c) of (started, timers) \<Rightarrow> (started, c\<lparr>ckNow := now, ckTimers := timers\<rparr>))"

definition NewTimer :: "int \<Rightarrow> 'c option \<Rightarrow> 'c MockClock \<Rightarrow> 'c MockTimer \<times> 'c MockClock" where
  "NewTimer d callback c =
     (let timer = \<lparr>tmTarget = ckNow c + d, tmCallback = callback, tmFired = False\<rparr>
      in (timer, c\<lparr>ckTimers := ckTimers c @ [timer]\<rparr>))"

definition ck_Sleep :: "int \<Rightarrow> 'c MockClock \<Rightarrow> 'c list \<times> 'c MockClock" where
  "ck_Sleep d c = Advance d c"

section \<open>Each timer fires once, after its time\<close>

text \<open>The callbacks of the timers that have fired.\<close>

definition fired_callbacks :: "'c MockTimer list \<Rightarrow> 'c list" where
  "fired_callbacks timers = List.map_filter tmCallback (filter tmFired timers)"

lemma trigger_loop_spec:
  "snd (trigger_loop now timers) = map (\<lambda>t. if expired now t then t\<lparr>tmFired := True\<rparr> else t) timers"
  "fst (trigger_loop now timers) = List.map_filter tmCallback (filter (expired now) timers)"
  by (induction timers) (auto simp: map_filter_simps split: prod.split option.split)

lemma trigger_loop_account:
  "mset (fired_callbacks (snd (trigger_loop now timers))) =
   mset (fired_callbacks timers) + mset (fst (trigger_loop now timers))"
  unfolding trigger_loop_spec fired_callbacks_def
  by (induction timers) (auto simp: map_filter_simps expired_def split: option.split)

datatype 'c ClockCall = CallAdvance int | CallSetTime int | CallSleep int | CallTimer int "'c option"

fun clock_call :: "'c ClockCall \<Rightarrow> 'c MockClock \<Rightarrow> 'c list \<times> 'c MockClock" where
  "clock_call (CallAdvance d) c = Advance d c"
| "clock_call (CallSetTime t) c = SetTime t c"
| "clock_call (CallSleep d) c = ck_Sleep d c"
| "clock_call (CallTimer d callback) c = ([], snd (NewTimer d callback c))"

fun clock_run :: "'c ClockCall list \<Rightarrow> 'c MockClock \<Rightarrow> 'c list \<times> 'c MockClock" where
  "clock_run [] c = ([], c)"
| "clock_run (call # calls) c =
     (let (started, c1) = clock_call call c; (later, c2) = clock_run calls c1 in (started @ later, c2))"

lemma clock_call_account:
  "mset (fired_callbacks (ckTimers (snd (clock_call call c)))) =
   mset (fired_callbacks (ckTimers c)) + mset (fst (clock_call call c))"
  by (cases call)
    (simp_all add: Advance_def SetTime_def ck_Sleep_def NewTimer_def Let_def split_beta trigger_loop_account,
     simp add: fired_callbacks_def map_filter_simps)

text \<open>
  However the clock is moved, also backwards, the callbacks that were started are those of the timers that have
  fired, each counted once: no timer starts its callback twice.
\<close>

lemma timers_fire_once:
  "clock_run calls (NewMockClock start) = (started, c) \<Longrightarrow> mset started = mset (fired_callbacks (ckTimers c))"
proof -
  have "mset (fired_callbacks (ckTimers c)) = mset (fired_callbacks (ckTimers b)) + mset started"
    if "clock_run calls b = (started, c)" for b :: "'a MockClock"
    using that
  proof (induction calls arbitrary: b started)
    case (Cons call calls)
    obtain s1 b1 where 1: "clock_call call b = (s1, b1)" by (rule prod.exhaust)
    obtain s2 where 2: "clock_run calls b1 = (s2, c)" and s: "started = s1 @ s2"
      using Cons.prems 1 by (auto split: prod.splits)
    from Cons.IH [OF 2] clock_call_account [of call b] 1 s show ?case by simp
  qed simp
  then show "clock_run calls (NewMockClock start) = (started, c) \<Longrightarrow> ?thesis"
    by (simp add: NewMockClock_def fired_callbacks_def map_filter_simps)
qed

text \<open>A timer is not due at its target, only after it: advancing by exactly the duration starts nothing.\<close>

lemma timer_waits_beyond_target:
  assumes "0 \<le> e" "0 \<le> d"
  shows "fst (Advance e (snd (NewTimer d (Some f) (NewMockClock t)))) = (if e > d then [f] else [])"
  by (simp add: Advance_def NewTimer_def NewMockClock_def expired_def Let_def)

end
