(* ===== verification/ErrorLimiter.thy ===== *)
theory ErrorLimiter
  imports Reconciler TestClock
begin

text \<open>
  The error rate limiter (pkg/controller/error_rate_limiter.go): per service, when an error was last
  logged and how long the next one has to wait.  Every method runs under the mutex, so each is one step on
  the map of entries; the time the provider returns is an argument.  \<open>md5\<close> stands for
  \<open>fmt.Sprintf("%x", md5.Sum(...))\<close>: nothing below depends on which function it is.  Times are
  nanoseconds since 1970; \<open>zeroTime\<close> is Go's zero time (1 January of the year 1).
\<close>

section \<open>State\<close>

record ErrorEntry =
  lastError :: "error option"
  lastErrorTime :: int
  lastLogTime :: int
  errorCount :: int
  currentBackoffIndex :: int
  nextBackoffIndex :: int
  errorHash :: string

type_synonym errorEntries = "(string, ErrorEntry) gomap"

definition zeroTime :: int where "zeroTime = - 62135596800 * Second"

definition backoffSchedule :: "int list" where
  "backoffSchedule = [0, 1 * Minute, 5 * Minute, 15 * Minute, 60 * Minute]"

text \<open>\<open>time.Time.Sub\<close> saturates at the ends of the 64-bit range.\<close>

definition time_Sub :: "int \<Rightarrow> int \<Rightarrow> int" where
  "time_Sub t u = max (- (2 ^ 63)) (min (2 ^ 63 - 1) (t - u))"

definition getBackoffDuration :: "int \<Rightarrow> int" where
  "getBackoffDuration index =
     (if index < 0 then 0
      else if index \<ge> int (length backoffSchedule) then backoffSchedule ! (length backoffSchedule - 1)
      else backoffSchedule ! nat index)"

definition hashError :: "(string \<Rightarrow> string) \<Rightarrow> error option \<Rightarrow> string" where
  "hashError md5 err = (case err of None \<Rightarrow> '''' | Some e \<Rightarrow> md5 (Error e))"

text \<open>The text of a remaining time, \<open>%v\<close> of a \<open>time.Duration\<close>, is \<open>fmt_duration\<close>.\<close>

definition rate_limited :: "(int \<Rightarrow> string) \<Rightarrow> int \<Rightarrow> string" where
  "rate_limited fmt_duration d = ''rate limited (next log in '' @ fmt_duration d @ '')''"

text \<open>
  The limiter: its entries, its schedule, its ticker (\<open>None\<close> without one, else whether it runs) and where
  it gets the time from: the system, or the clock of testutils/mock_test_clock.go.
\<close>

datatype TimeProvider = RealTimeProvider | TestTimeProvider "unit MockClock"

definition provider_Now :: "int \<Rightarrow> TimeProvider \<Rightarrow> int" where
  "provider_Now system tp = (case tp of RealTimeProvider \<Rightarrow> system | TestTimeProvider clock \<Rightarrow> ck_Now clock)"

record ErrorRateLimiter =
  erlEntries :: errorEntries
  erlSchedule :: "int list"
  erlCleanupTicker :: "bool option"
  erlTimeProvider :: TimeProvider

definition NewErrorRateLimiter :: ErrorRateLimiter where
  "NewErrorRateLimiter =
     \<lparr>erlEntries = [], erlSchedule = backoffSchedule, erlCleanupTicker = Some True, erlTimeProvider = RealTimeProvider\<rparr>"

definition NewErrorRateLimiterWithTime :: "TimeProvider \<Rightarrow> ErrorRateLimiter" where
  "NewErrorRateLimiterWithTime timeProvider =
     (let erl = \<lparr>erlEntries = [], erlSchedule = backoffSchedule, erlCleanupTicker = None, erlTimeProvider = timeProvider\<rparr>
      in if timeProvider = RealTimeProvider then erl\<lparr>erlCleanupTicker := Some True\<rparr> else erl)"

definition StopLimiter :: "ErrorRateLimiter \<Rightarrow> ErrorRateLimiter" where
  "StopLimiter e = (if erlCleanupTicker e \<noteq> None then e\<lparr>erlCleanupTicker := Some False\<rparr> else e)"

text \<open>Both constructors agree on the system time; a limiter on a test clock never cleans up by itself.\<close>

lemma limiter_constructors:
  "NewErrorRateLimiterWithTime RealTimeProvider = NewErrorRateLimiter"
  "erlCleanupTicker (StopLimiter (NewErrorRateLimiterWithTime (TestTimeProvider clock))) = None"
  by (simp_all add: NewErrorRateLimiterWithTime_def NewErrorRateLimiter_def StopLimiter_def)

section \<open>Logging\<close>

definition first_entry :: "(string \<Rightarrow> string) \<Rightarrow> int \<Rightarrow> error option \<Rightarrow> ErrorEntry" where
  "first_entry md5 now err =
     \<lparr>lastError = err, lastErrorTime = now, lastLogTime = now, errorCount = 1, currentBackoffIndex = 1,
      nextBackoffIndex = 2, errorHash = hashError md5 err\<rparr>"

definition advance :: "int \<Rightarrow> int" where
  "advance index = (if index < int (length backoffSchedule) - 1 then index + 1 else index)"

definition advance_indices :: "ErrorEntry \<Rightarrow> ErrorEntry" where
  "advance_indices entry =
     entry\<lparr>currentBackoffIndex := advance (currentBackoffIndex entry), nextBackoffIndex := advance (nextBackoffIndex entry)\<rparr>"

definition logged_entry :: "int \<Rightarrow> error option \<Rightarrow> ErrorEntry \<Rightarrow> ErrorEntry" where
  "logged_entry now err entry =
     advance_indices (entry\<lparr>lastError := err, lastErrorTime := now, lastLogTime := now\<rparr>)"

definition ShouldLogError ::
    "(string \<Rightarrow> string) \<Rightarrow> (int \<Rightarrow> string) \<Rightarrow> int \<Rightarrow> string \<Rightarrow> error option \<Rightarrow> errorEntries \<Rightarrow> (bool \<times> string) \<times> errorEntries" where
  "ShouldLogError md5 fmt_duration now key err entries =
     (case gm_get entries key of
        None \<Rightarrow> ((True, ''''), gm_set key (first_entry md5 now err) entries)
      | Some entry \<Rightarrow>
          if errorHash entry \<noteq> hashError md5 err then
            ((True, ''new error type''), gm_set key (first_entry md5 now err) entries)
          else
            (let entry = entry\<lparr>errorCount := errorCount entry + 1\<rparr>;
                 timeSinceLastLog = time_Sub now (lastLogTime entry);
                 backoffDuration = getBackoffDuration (currentBackoffIndex entry)
             in if timeSinceLastLog \<ge> backoffDuration then
                  ((True, ''''), gm_set key (logged_entry now err entry) entries)
                else ((False, rate_limited fmt_duration (backoffDuration - timeSinceLastLog)), gm_set key entry entries)))"

definition FilterErrorForReconcile ::
    "(string \<Rightarrow> string) \<Rightarrow> (int \<Rightarrow> string) \<Rightarrow> int \<Rightarrow> string \<Rightarrow> error option \<Rightarrow> errorEntries \<Rightarrow>
     (bool \<times> Result \<times> string) \<times> errorEntries" where
  "FilterErrorForReconcile md5 fmt_duration now key err entries =
     (case gm_get entries key of
        None \<Rightarrow> ((True, emptyResultR, ''''), gm_set key (first_entry md5 now err) entries)
      | Some entry \<Rightarrow>
          if errorHash entry \<noteq> hashError md5 err then
            ((True, emptyResultR, ''new error type''), gm_set key (first_entry md5 now err) entries)
          else
            (let entry = entry\<lparr>errorCount := errorCount entry + 1\<rparr>;
                 timeSinceLastLog = time_Sub now (lastLogTime entry);
                 backoffDuration = getBackoffDuration (nextBackoffIndex entry)
             in if timeSinceLastLog \<ge> backoffDuration then
                  ((True, emptyResultR, ''''), gm_set key (logged_entry now err entry) entries)
                else
                  ((False, emptyResultR\<lparr>RequeueAfter := backoffDuration\<rparr>,
                    rate_limited fmt_duration (backoffDuration - timeSinceLastLog)),
                   gm_set key (advance_indices entry) entries)))"

text \<open>
  On a test clock: after a first error the same error is logged again exactly when the clock was advanced by
  a minute or more.
\<close>

lemma logged_again_after_a_minute:
  assumes first: "ShouldLogError md5 fmt_duration (provider_Now s (TestTimeProvider clock)) key err [] = (first, m)"
    and second: "ShouldLogError md5 fmt_duration (provider_Now s (TestTimeProvider (snd (Advance d clock)))) key err m =
      ((logged, msg), m')"
  shows "logged \<longleftrightarrow> d \<ge> 1 * Minute"
proof -
  have now: "ckNow (snd (Advance d clock)) = ckNow clock + d"
    by (simp add: Advance_def Let_def split: prod.split)
  have m: "m = [(key, first_entry md5 (ckNow clock) err)]"
    using first by (simp add: ShouldLogError_def provider_Now_def ck_Now_def)
  show ?thesis
    using second
    by (auto simp: m ShouldLogError_def first_entry_def provider_Now_def ck_Now_def now Let_def time_Sub_def
        getBackoffDuration_def backoffSchedule_def Minute_def Second_def split: if_splits)
qed

section \<open>Resetting and reading\<close>

definition ResetService :: "string \<Rightarrow> errorEntries \<Rightarrow> errorEntries" where
  "ResetService key entries = gm_del key entries"

definition ResetServiceOnErrorChange ::
    "(string \<Rightarrow> string) \<Rightarrow> int \<Rightarrow> string \<Rightarrow> error option \<Rightarrow> errorEntries \<Rightarrow> bool \<times> errorEntries" where
  "ResetServiceOnErrorChange md5 now key newError entries =
     (case gm_get entries key of
        None \<Rightarrow> (False, entries)
      | Some entry \<Rightarrow>
          if errorHash entry \<noteq> hashError md5 newError then
            (True, gm_set key
               \<lparr>lastError = newError, lastErrorTime = now, lastLogTime = zeroTime, errorCount = 1,
                currentBackoffIndex = 0, nextBackoffIndex = 1, errorHash = hashError md5 newError\<rparr> entries)
          else (False, entries))"

definition GetBackoffIndex :: "string \<Rightarrow> errorEntries \<Rightarrow> int" where
  "GetBackoffIndex key entries =
     (case gm_get entries key of Some entry \<Rightarrow> currentBackoffIndex entry | None \<Rightarrow> 0)"

definition GetNextBackoffIndex :: "string \<Rightarrow> errorEntries \<Rightarrow> int" where
  "GetNextBackoffIndex key entries =
     (case gm_get entries key of Some entry \<Rightarrow> nextBackoffIndex entry | None \<Rightarrow> 0)"

definition GetErrorCount :: "string \<Rightarrow> errorEntries \<Rightarrow> int" where
  "GetErrorCount key entries =
     (case gm_get entries key of Some entry \<Rightarrow> errorCount entry | None \<Rightarrow> 0)"

definition getNextBackoffDuration :: "string \<Rightarrow> errorEntries \<Rightarrow> int" where
  "getNextBackoffDuration key entries =
     (case gm_get entries key of
        Some entry \<Rightarrow> getBackoffDuration (nextBackoffIndex entry)
      | None \<Rightarrow> 1 * Minute)"

definition cleanup :: "int \<Rightarrow> errorEntries \<Rightarrow> errorEntries" where
  "cleanup now entries =
     (let cutoff = now - 24 * 60 * Minute in filter (\<lambda>(key, entry). \<not> lastErrorTime entry < cutoff) entries)"

section \<open>Service keys\<close>

definition has_both_parts :: "string \<Rightarrow> bool" where
  "has_both_parts s =
     (case SplitN s (CHR ''/'') 2 of [a, b] \<Rightarrow> a \<noteq> '''' \<and> b \<noteq> '''' | _ \<Rightarrow> False)"

definition extractServiceKeyFromConfig :: "PortConfig \<Rightarrow> string" where
  "extractServiceKeyFromConfig config =
     (let parts = SplitN (Name config) (CHR '':'') 2 in
      if length parts = 0 then ''''
      else if length parts = 1 then (if \<not> has_both_parts (parts ! 0) then '''' else parts ! 0)
      else if \<not> has_both_parts (parts ! 0) then '''' else parts ! 0)"

section \<open>The invariant\<close>

text \<open>
  Both indices stay inside the schedule and the second is one ahead of the first, up to the last level.
\<close>

definition entry_ok :: "ErrorEntry \<Rightarrow> bool" where
  "entry_ok entry \<longleftrightarrow> 0 \<le> currentBackoffIndex entry \<and> currentBackoffIndex entry \<le> 4 \<and>
     nextBackoffIndex entry = min 4 (currentBackoffIndex entry + 1) \<and> 1 \<le> errorCount entry"

definition entries_ok :: "errorEntries \<Rightarrow> bool" where
  "entries_ok entries \<longleftrightarrow> gm_wf entries \<and> (\<forall>k entry. gm_get entries k = Some entry \<longrightarrow> entry_ok entry)"

lemma advance_eq: "0 \<le> i \<Longrightarrow> i \<le> 4 \<Longrightarrow> advance i = min 4 (i + 1)"
  by (auto simp: advance_def backoffSchedule_def)

lemma first_entry_ok: "entry_ok (first_entry md5 now err)"
  by (simp add: entry_ok_def first_entry_def)

lemma advance_indices_ok: "entry_ok entry \<Longrightarrow> entry_ok (advance_indices entry)"
  by (auto simp: entry_ok_def advance_indices_def advance_eq)

lemma logged_entry_ok: "entry_ok entry \<Longrightarrow> entry_ok (logged_entry now err entry)"
  unfolding logged_entry_def by (rule advance_indices_ok) (simp add: entry_ok_def)

lemma count_ok: "entry_ok entry \<Longrightarrow> entry_ok (entry\<lparr>errorCount := errorCount entry + 1\<rparr>)"
  by (simp add: entry_ok_def)

lemma entries_ok_set: "entries_ok m \<Longrightarrow> entry_ok entry \<Longrightarrow> entries_ok (gm_set k entry m)"
  by (simp add: entries_ok_def)

lemma entries_ok_get: "entries_ok m \<Longrightarrow> gm_get m k = Some entry \<Longrightarrow> entry_ok entry"
  by (auto simp: entries_ok_def)

lemma gm_get_filter: "gm_wf m \<Longrightarrow> gm_get (filter P m) k = Some v \<Longrightarrow> gm_get m k = Some v \<and> P (k, v)"
  using map_of_SomeD [of "filter P m" k v] by (simp add: gm_wf_def)

lemma gm_get_filter_eq: "gm_wf m \<Longrightarrow> gm_get m k = Some v \<Longrightarrow> gm_get (filter P m) k = (if P (k, v) then Some v else None)"
proof (induction m)
  case (Cons e m)
  have "k \<notin> fst ` set (filter P m)" if "fst e = k" using Cons.prems(1) that by (auto simp: gm_wf_def)
  then have "gm_get (filter P m) k = None" if "fst e = k" using that map_of_eq_None_iff by metis
  with Cons show ?case by (auto simp: gm_wf_def split: if_splits)
qed simp

lemma entries_ok_cleanup: "entries_ok m \<Longrightarrow> entries_ok (cleanup now m)"
  unfolding entries_ok_def cleanup_def Let_def
  by (auto simp: gm_wf_def distinct_map_filter dest!: gm_get_filter [unfolded gm_wf_def, rotated])

lemmas entries_ok_intros = entries_ok_set first_entry_ok logged_entry_ok advance_indices_ok count_ok

text \<open>The calls of the limiter, in any order, by any number of workers.\<close>

datatype limiter_call =
    ShouldLogCall string "error option"
  | FilterCall string "error option"
  | ResetCall string
  | ResetOnChangeCall string "error option"
  | CleanupCall

fun limiter_step ::
    "(string \<Rightarrow> string) \<Rightarrow> (int \<Rightarrow> string) \<Rightarrow> int \<times> limiter_call \<Rightarrow> errorEntries \<Rightarrow> errorEntries" where
  "limiter_step md5 fmt_duration (now, ShouldLogCall key err) m = snd (ShouldLogError md5 fmt_duration now key err m)"
| "limiter_step md5 fmt_duration (now, FilterCall key err) m = snd (FilterErrorForReconcile md5 fmt_duration now key err m)"
| "limiter_step md5 fmt_duration (now, ResetCall key) m = ResetService key m"
| "limiter_step md5 fmt_duration (now, ResetOnChangeCall key err) m = snd (ResetServiceOnErrorChange md5 now key err m)"
| "limiter_step md5 fmt_duration (now, CleanupCall) m = cleanup now m"

lemma limiter_step_ok: "entries_ok m \<Longrightarrow> entries_ok (limiter_step md5 fmt_duration call m)"
proof (induction md5 fmt_duration call m rule: limiter_step.induct)
  case (1 md5 fmt_duration now key err m)
  then show ?case
    by (auto simp: ShouldLogError_def Let_def intro!: entries_ok_intros dest: entries_ok_get split: option.split)
next
  case (2 md5 fmt_duration now key err m)
  then show ?case
    by (auto simp: FilterErrorForReconcile_def Let_def intro!: entries_ok_intros dest: entries_ok_get split: option.split)
next
  case (3 md5 fmt_duration now key m)
  then show ?case by (auto simp: ResetService_def entries_ok_def)
next
  case (4 md5 fmt_duration now key err m)
  then show ?case
    by (auto simp: ResetServiceOnErrorChange_def intro!: entries_ok_set split: option.split) (simp add: entry_ok_def)
next
  case (5 md5 fmt_duration now m)
  then show ?case by (simp add: entries_ok_cleanup)
qed

text \<open>
  The limiter's state.  Whatever calls are made, in whatever order and at whatever times, the indices of
  every entry address the schedule and the next one is one ahead, so no look-up is out of range and the
  waits are those of the schedule.
\<close>

lemma limiter_indices_in_range:
  "gm_get (fold (limiter_step md5 fmt_duration) calls []) key = Some entry \<Longrightarrow>
   0 \<le> currentBackoffIndex entry \<and> currentBackoffIndex entry < int (length backoffSchedule) \<and>
   nextBackoffIndex entry = min (int (length backoffSchedule) - 1) (currentBackoffIndex entry + 1)"
proof -
  have "entries_ok m \<Longrightarrow> entries_ok (fold (limiter_step md5 fmt_duration) calls m)" for m
    by (induction calls arbitrary: m) (simp_all add: limiter_step_ok)
  moreover have "entries_ok []" by (simp add: entries_ok_def)
  ultimately have "entries_ok (fold (limiter_step md5 fmt_duration) calls [])" .
  then show "gm_get (fold (limiter_step md5 fmt_duration) calls []) key = Some entry \<Longrightarrow> ?thesis"
    using entries_ok_get [of "fold (limiter_step md5 fmt_duration) calls []" key entry]
    by (simp add: entry_ok_def backoffSchedule_def)
qed

section \<open>Spacing of the log\<close>

text \<open>
  \<open>log_times\<close> lists when \<open>ShouldLogError\<close> says to log for one service, in a run of calls of the limiter.
  \<open>spaced i prev ts\<close>: the first of the times is at least the wait of level \<open>i\<close> after \<open>prev\<close>, and the rest is spaced
  from the next level on, or, after a silence of more than 24 hours, from level 1 again.
\<close>

definition says_log :: "(string \<Rightarrow> string) \<Rightarrow> (int \<Rightarrow> string) \<Rightarrow> string \<Rightarrow> int \<times> limiter_call \<Rightarrow> errorEntries \<Rightarrow> bool" where
  "says_log md5 fmt_duration key call m =
     (case snd call of
        ShouldLogCall k err \<Rightarrow> k = key \<and> fst (fst (ShouldLogError md5 fmt_duration (fst call) k err m))
      | _ \<Rightarrow> False)"

fun log_times ::
    "(string \<Rightarrow> string) \<Rightarrow> (int \<Rightarrow> string) \<Rightarrow> string \<Rightarrow> (int \<times> limiter_call) list \<Rightarrow> errorEntries \<Rightarrow> int list" where
  "log_times md5 fmt_duration key [] m = []"
| "log_times md5 fmt_duration key (call # calls) m =
     (if says_log md5 fmt_duration key call m then [fst call] else []) @
     log_times md5 fmt_duration key calls (limiter_step md5 fmt_duration call m)"

abbreviation day :: int where
  "day \<equiv> 24 * 60 * Minute"

fun spaced :: "int \<Rightarrow> int \<Rightarrow> int list \<Rightarrow> bool" where
  "spaced i prev [] = True"
| "spaced i prev (t # ts) =
     (time_Sub t prev \<ge> getBackoffDuration i \<and>
      (spaced (min 4 (i + 1)) t ts \<or> time_Sub t prev > day \<and> spaced 1 t ts))"

text \<open>
  The calls for one service that repeat one error: its \<open>ShouldLogError\<close> and \<open>ResetServiceOnErrorChange\<close> calls carry
  it, and there is no \<open>ResetService\<close> and no \<open>FilterErrorForReconcile\<close>.  Calls for other services and clean-ups are free.
\<close>

definition repeats :: "(string \<Rightarrow> string) \<Rightarrow> string \<Rightarrow> string \<Rightarrow> limiter_call \<Rightarrow> bool" where
  "repeats md5 key h call =
     (case call of
        ShouldLogCall k err \<Rightarrow> k = key \<longrightarrow> hashError md5 err = h
      | ResetOnChangeCall k err \<Rightarrow> k = key \<longrightarrow> hashError md5 err = h
      | ResetCall k \<Rightarrow> k \<noteq> key
      | FilterCall k err \<Rightarrow> k \<noteq> key
      | CleanupCall \<Rightarrow> True)"

definition logs_key :: "string \<Rightarrow> limiter_call \<Rightarrow> bool" where
  "logs_key key call = (case call of ShouldLogCall k err \<Rightarrow> k = key | _ \<Rightarrow> False)"

text \<open>What a call that is not a \<open>ShouldLogError\<close> for the service does to its entry: nothing, or it drops an old one.\<close>

lemma entry_kept:
  assumes "repeats md5 key h (snd call)" "\<not> logs_key key (snd call)" "gm_get m key = Some entry" "errorHash entry = h" "gm_wf m"
  shows "gm_get (limiter_step md5 fmt_duration call m) key = Some entry \<or>
    gm_get (limiter_step md5 fmt_duration call m) key = None \<and> lastErrorTime entry + day < fst call"
proof (cases "snd call")
  case CleanupCall
  then show ?thesis
    using gm_get_filter_eq [OF assms(5,3)] by (cases call) (simp add: cleanup_def Let_def)
next
  case (ShouldLogCall k err)
  with assms show ?thesis
    by (cases call) (auto simp: logs_key_def ShouldLogError_def Let_def split: option.split)
next
  case (FilterCall k err)
  with assms show ?thesis
    by (cases call) (auto simp: repeats_def FilterErrorForReconcile_def Let_def split: option.split)
next
  case (ResetCall k)
  with assms show ?thesis by (cases call) (auto simp: repeats_def ResetService_def)
next
  case (ResetOnChangeCall k err)
  with assms show ?thesis
    by (cases call) (auto simp: repeats_def ResetServiceOnErrorChange_def split: option.split)
qed

lemma entry_absent:
  assumes "repeats md5 key h (snd call)" "\<not> logs_key key (snd call)" "gm_get m key = None" "gm_wf m"
  shows "gm_get (limiter_step md5 fmt_duration call m) key = None"
proof (cases "snd call")
  case CleanupCall
  moreover have "gm_get (filter P m) key = None" for P
    using assms(3,4) gm_get_filter [of m P key] by (cases "gm_get (filter P m) key") auto
  ultimately show ?thesis by (cases call) (simp add: cleanup_def Let_def)
qed (use assms in \<open>cases call, auto simp: repeats_def logs_key_def ShouldLogError_def FilterErrorForReconcile_def ResetService_def
      ResetServiceOnErrorChange_def Let_def split: option.split\<close>)+

lemma says_log_key: "says_log md5 fmt_duration key call m \<Longrightarrow> logs_key key (snd call)"
  by (auto simp: says_log_def logs_key_def split: limiter_call.splits)

lemma wait_at_most_day: "getBackoffDuration i \<le> day"
  by (auto simp: getBackoffDuration_def backoffSchedule_def Minute_def Second_def nth_Cons split: nat.split)

lemma after_a_day: "p + day < t \<Longrightarrow> day < time_Sub t p"
  by (simp add: time_Sub_def Minute_def Second_def)

text \<open>
  The state of the service in the limiter: its entry was logged at \<open>p\<close> and waits at level \<open>i\<close>; or it was cleaned up, and
  the calls that are left come more than a day after \<open>p\<close>.
\<close>

definition waits :: "string \<Rightarrow> string \<Rightarrow> int \<Rightarrow> int \<Rightarrow> errorEntries \<Rightarrow> (int \<times> limiter_call) list \<Rightarrow> bool" where
  "waits key h i p m calls \<longleftrightarrow>
     (case gm_get m key of
        Some entry \<Rightarrow> errorHash entry = h \<and> currentBackoffIndex entry = i \<and> lastLogTime entry = p \<and> lastErrorTime entry = p
      | None \<Rightarrow> \<forall>call \<in> set calls. p + day < fst call)"

lemma waits_other:
  assumes "waits key h i p m (call # calls)" "repeats md5 key h (snd call)" "\<not> logs_key key (snd call)" "entries_ok m"
    and "sorted (map fst (call # calls))"
  shows "waits key h i p (limiter_step md5 fmt_duration call m) calls"
proof (cases "gm_get m key")
  case None
  with entry_absent [OF assms(2,3) None] assms show ?thesis by (auto simp: waits_def entries_ok_def)
next
  case (Some entry)
  with assms(1) have e: "errorHash entry = h" "lastErrorTime entry = p" by (simp_all add: waits_def)
  have "\<forall>c \<in> set calls. fst call \<le> fst c" using assms(5) by auto
  moreover have "gm_wf m" using assms(4) by (simp add: entries_ok_def)
  ultimately show ?thesis
    using entry_kept [OF assms(2,3) Some e(1), of fmt_duration] assms(1) Some e(2) by (fastforce simp: waits_def)
qed

lemma log_times_spaced:
  assumes "waits key h i p m calls" "\<forall>call \<in> set calls. repeats md5 key h (snd call)" "entries_ok m" "sorted (map fst calls)"
  shows "spaced i p (log_times md5 fmt_duration key calls m)"
  using assms
proof (induction calls arbitrary: m i p)
  case (Cons call calls)
  let ?m = "limiter_step md5 fmt_duration call m"
  have ok: "entries_ok ?m" by (rule limiter_step_ok [OF Cons.prems(3)])
  have rest: "\<forall>call \<in> set calls. repeats md5 key h (snd call)" "sorted (map fst calls)" using Cons.prems(2,4) by simp_all
  show ?case
  proof (cases "logs_key key (snd call)")
    case False
    with Cons.IH [OF waits_other [OF Cons.prems(1) _ False Cons.prems(3,4)] rest(1) ok rest(2)] Cons.prems(2) says_log_key
    show ?thesis by fastforce
  next
    case True
    then obtain now err where call: "call = (now, ShouldLogCall key err)"
      by (cases call) (auto simp: logs_key_def split: limiter_call.splits)
    have h: "hashError md5 err = h" using Cons.prems(2) call by (simp add: repeats_def)
    show ?thesis
    proof (cases "gm_get m key")
      case None
      then have log: "says_log md5 fmt_duration key call m" and m: "gm_get ?m key = Some (first_entry md5 now err)"
        by (simp_all add: call says_log_def ShouldLogError_def)
      have "day < time_Sub now p" using Cons.prems(1) None call after_a_day by (simp add: waits_def)
      moreover have "spaced 1 now (log_times md5 fmt_duration key calls ?m)"
        by (rule Cons.IH [OF _ rest(1) ok rest(2)]) (simp add: waits_def m first_entry_def h)
      ultimately show ?thesis using log wait_at_most_day [of i] by (simp add: call)
    next
      case (Some entry)
      have e: "errorHash entry = h" "currentBackoffIndex entry = i" "lastLogTime entry = p" "lastErrorTime entry = p"
        using Cons.prems(1) Some by (simp_all add: waits_def)
      have i: "0 \<le> i" "i \<le> 4" using entries_ok_get [OF Cons.prems(3) Some] e(2) by (auto simp: entry_ok_def)
      let ?e = "entry\<lparr>errorCount := errorCount entry + 1\<rparr>"
      show ?thesis
      proof (cases "time_Sub now p \<ge> getBackoffDuration i")
        case late: True
        then have log: "says_log md5 fmt_duration key call m" and m: "gm_get ?m key = Some (logged_entry now err ?e)"
          using Some e h by (simp_all add: call says_log_def ShouldLogError_def Let_def)
        have "spaced (min 4 (i + 1)) now (log_times md5 fmt_duration key calls ?m)"
          by (rule Cons.IH [OF _ rest(1) ok rest(2)])
            (simp add: waits_def m logged_entry_def advance_indices_def advance_eq [OF i] e)
        with log late show ?thesis by (simp add: call)
      next
        case early: False
        then have log: "\<not> says_log md5 fmt_duration key call m" and m: "gm_get ?m key = Some ?e"
          using Some e h by (simp_all add: call says_log_def ShouldLogError_def Let_def)
        have "spaced i p (log_times md5 fmt_duration key calls ?m)"
          by (rule Cons.IH [OF _ rest(1) ok rest(2)]) (simp add: waits_def m e)
        with log show ?thesis by simp
      qed
    qed
  qed
qed simp

text \<open>
  C33: how often one error is logged.  In a chronological run of calls of a new limiter, in which every
  \<open>ShouldLogError\<close> and \<open>ResetServiceOnErrorChange\<close> for one service carries the same error and the service is neither
  reset nor filtered, with any calls for other services and clean-ups at any times, that service's first error is
  logged at once, and each later log is at least the wait of the current level after the one before:
  1, 5, 15, 60, 60, \<dots> minutes.  A level is reached from the one before it, except after a silence of more than 24
  hours, when a clean-up may have dropped the entry and the levels start again with 1 minute.
\<close>

theorem repeated_error_logs_spaced:
  assumes same: "\<forall>call \<in> set calls. repeats md5 key h (snd call)" and chron: "sorted (map fst calls)"
    and logs: "log_times md5 fmt_duration key calls [] = t # ts"
  shows "spaced 1 t ts \<and> t = fst (hd (filter (\<lambda>call. logs_key key (snd call)) calls))"
proof -
  have run: "gm_get m key = None \<Longrightarrow> entries_ok m \<Longrightarrow> log_times md5 fmt_duration key calls m = t # ts \<Longrightarrow> ?thesis" for m
    using same chron
  proof (induction calls arbitrary: m)
    case (Cons call calls)
    let ?m = "limiter_step md5 fmt_duration call m"
    have ok: "entries_ok ?m" by (rule limiter_step_ok [OF Cons.prems(2)])
    show ?case
    proof (cases "logs_key key (snd call)")
      case False
      have none: "gm_get ?m key = None"
        using entry_absent [of md5 key h call m fmt_duration] False Cons.prems(1,2,4) by (simp add: entries_ok_def)
      have l: "log_times md5 fmt_duration key calls ?m = t # ts"
        using Cons.prems(3) False says_log_key by (fastforce split: if_splits)
      have "spaced 1 t ts \<and> t = fst (hd (filter (\<lambda>call. logs_key key (snd call)) calls))"
        by (rule Cons.IH [OF none ok l]) (use Cons.prems(4,5) in simp_all)
      with False show ?thesis by auto
    next
      case True
      then obtain now err where call: "call = (now, ShouldLogCall key err)"
        by (cases call) (auto simp: logs_key_def split: limiter_call.splits)
      then have f: "says_log md5 fmt_duration key call m" "gm_get ?m key = Some (first_entry md5 now err)" "hashError md5 err = h"
        using Cons.prems(1,4) by (simp_all add: says_log_def ShouldLogError_def repeats_def)
      have "log_times md5 fmt_duration key (call # calls) m = now # log_times md5 fmt_duration key calls ?m"
        using f(1) call by simp
      with Cons.prems(3) have "t = now \<and> ts = log_times md5 fmt_duration key calls ?m" by auto
      moreover have "spaced 1 now (log_times md5 fmt_duration key calls ?m)"
        by (rule log_times_spaced [where h = h]) (use f Cons.prems(4,5) ok in \<open>simp_all add: waits_def first_entry_def\<close>)
      ultimately show ?thesis using True by (simp add: call)
    qed
  qed simp
  show ?thesis by (rule run [of "[]"]) (simp_all add: logs entries_ok_def)
qed

text \<open>
  What \<open>FilterErrorForReconcile\<close> does with a repeated error.  The first error of a service is returned; the same
  error within the next five minutes is suppressed with a requeue after five minutes, although the entry is at
  the level of one minute, and the suppression itself raises both levels.
\<close>

lemma repeated_error_waits_five_minutes:
  assumes "gm_get m key = None" and "time_Sub t2 t1 < 5 * Minute"
  shows "\<exists>m1 m2 reason. FilterErrorForReconcile md5 fmt_duration t1 key err m = ((True, emptyResultR, ''''), m1) \<and>
    GetBackoffIndex key m1 = 1 \<and>
    FilterErrorForReconcile md5 fmt_duration t2 key err m1 = ((False, emptyResultR\<lparr>RequeueAfter := 5 * Minute\<rparr>, reason), m2) \<and>
    GetBackoffIndex key m2 = 2 \<and> getNextBackoffDuration key m2 = 15 * Minute"
  using assms
  by (auto simp: FilterErrorForReconcile_def first_entry_def Let_def getBackoffDuration_def backoffSchedule_def
      GetBackoffIndex_def getNextBackoffDuration_def advance_indices_def advance_def)

text \<open>The service key is read back from the names that the controller generates.\<close>

lemma extract_generated_key:
  assumes "CHR '':'' \<notin> set ns" "CHR '':'' \<notin> set n" "CHR ''/'' \<notin> set ns" "ns \<noteq> ''''" "n \<noteq> ''''"
  shows "extractServiceKeyFromConfig (c\<lparr>Name := ns @ ''/'' @ n @ '':'' @ p\<rparr>) = ns @ ''/'' @ n"
proof -
  have "SplitN ((ns @ ''/'' @ n) @ CHR '':'' # p) (CHR '':'') (Suc (Suc 0)) = [ns @ ''/'' @ n, p]"
    using assms by (subst SplitN_append) auto
  moreover have "SplitN (ns @ CHR ''/'' # n) (CHR ''/'') (Suc (Suc 0)) = [ns, n]"
    using assms by (subst SplitN_append) auto
  ultimately show ?thesis using assms by (simp add: extractServiceKeyFromConfig_def has_both_parts_def numeral_2_eq_2)
qed

section \<open>Witnesses\<close>

lemma limiter_indices_in_range_witness:
  "\<exists>entry. gm_get (fold (limiter_step (\<lambda>s. s) (\<lambda>d. '''')) [(0, ShouldLogCall ''a/b'' None), (9, FilterCall ''a/b'' None)] [])
      ''a/b'' = Some entry \<and> currentBackoffIndex entry < int (length backoffSchedule)"
proof -
  let ?m = "fold (limiter_step (\<lambda>s. s) (\<lambda>d. '''')) [(0, ShouldLogCall ''a/b'' None), (9, FilterCall ''a/b'' None)] []"
  have "gm_get ?m ''a/b'' \<noteq> None"
    by (simp add: ShouldLogError_def FilterErrorForReconcile_def first_entry_def Let_def hashError_def)
  then obtain entry where "gm_get ?m ''a/b'' = Some entry" by blast
  with limiter_indices_in_range [OF this] show ?thesis by blast
qed

text \<open>Two logs two minutes apart, a clean-up two days later, and two more logs a minute apart: the levels start again.\<close>

definition example_calls :: "(int \<times> limiter_call) list" where
  "example_calls =
     [(0, ShouldLogCall ''a/b'' None), (1, FilterCall ''c/d'' None), (2 * Minute, ShouldLogCall ''a/b'' None),
      (3 * Minute, ShouldLogCall ''a/b'' None), (2 * day, CleanupCall), (2 * day + Minute, ShouldLogCall ''a/b'' None),
      (2 * day + 2 * Minute, ShouldLogCall ''a/b'' None)]"

lemma repeated_error_logs_spaced_witness:
  "\<exists>ts. log_times (\<lambda>s. s) (\<lambda>d. '''') ''a/b'' example_calls [] = 0 # ts \<and>
     ts = [2 * Minute, 2 * day + Minute, 2 * day + 2 * Minute] \<and> spaced 1 0 ts"
proof -
  have l: "log_times (\<lambda>s. s) (\<lambda>d. '''') ''a/b'' example_calls [] = 0 # [2 * Minute, 2 * day + Minute, 2 * day + 2 * Minute]"
    by (simp add: example_calls_def says_log_def ShouldLogError_def FilterErrorForReconcile_def cleanup_def first_entry_def
        logged_entry_def advance_indices_def advance_def Let_def hashError_def time_Sub_def getBackoffDuration_def
        backoffSchedule_def Minute_def Second_def)
  have "\<forall>call \<in> set example_calls. repeats (\<lambda>s. s) ''a/b'' '''' (snd call)" "sorted (map fst example_calls)"
    by (simp_all add: example_calls_def repeats_def hashError_def Minute_def Second_def)
  from repeated_error_logs_spaced [OF this l] l show ?thesis by simp
qed

lemma repeated_error_waits_five_minutes_witness:
  "\<exists>m1 m2 reason. FilterErrorForReconcile (\<lambda>s. s) (\<lambda>d. '''') 0 ''a/b'' None [] = ((True, emptyResultR, ''''), m1) \<and>
    FilterErrorForReconcile (\<lambda>s. s) (\<lambda>d. '''') (2 * Minute) ''a/b'' None m1 =
      ((False, emptyResultR\<lparr>RequeueAfter := 5 * Minute\<rparr>, reason), m2)"
  using repeated_error_waits_five_minutes [of "[]" "''a/b''" "2 * Minute" 0 "\<lambda>s. s" "\<lambda>d. ''''" None]
  by (simp add: time_Sub_def Minute_def Second_def) blast

end
