(* ===== verification/CommandLine.thy ===== *)
theory CommandLine
  imports Config UnifiRouter
begin

text \<open>
  The command line (main.go) as far as it computes: the configuration that a command starts with, the port
  mappings of the clean command, and the cleaner (cmd/cleaner/cleaner.go).

  The persistent flags are bound to the fields of the global \<open>cfg\<close> with \<open>StringVarP\<close> and
  \<open>BoolVarP\<close> (vendor/github.com/spf13/pflag): the flag's default and then its given value are stored in the
  field, and \<open>GetString\<close> reads the field.  The file system and the decoders of JSON and YAML are arguments.
\<close>

section \<open>The configuration of a command\<close>

record Flags =
  flRouterIP :: "string option"
  flUsername :: "string option"
  flPassword :: "string option"
  flSite :: "string option"
  flAPIKey :: "string option"
  flDebug :: "bool option"

text \<open>\<open>init\<close>: binding a flag stores its default in the field.\<close>

definition bound_flags :: Config where
  "bound_flags = emptyConfig
     \<lparr>RouterIP := ''192.168.1.1'', Username := ''admin'', Password := '''', Site := ''default'', APIKey := '''', Debug := False\<rparr>"

definition given :: "'a option \<Rightarrow> 'a \<Rightarrow> 'a" where
  "given flag current = (case flag of Some v \<Rightarrow> v | None \<Rightarrow> current)"

definition parse_flags :: "Flags \<Rightarrow> Config \<Rightarrow> Config" where
  "parse_flags fl cfg = cfg
     \<lparr>RouterIP := given (flRouterIP fl) (RouterIP cfg), Username := given (flUsername fl) (Username cfg),
      Password := given (flPassword fl) (Password cfg), Site := given (flSite fl) (Site cfg),
      APIKey := given (flAPIKey fl) (APIKey cfg), Debug := given (flDebug fl) (Debug cfg)\<rparr>"

text \<open>The overrides: for a changed flag the field is set to what \<open>GetString\<close> reads, the field itself.\<close>

definition override_flags :: "Flags \<Rightarrow> Config \<Rightarrow> Config" where
  "override_flags fl cfg =
     (let cfg = (if flRouterIP fl \<noteq> None then cfg\<lparr>RouterIP := RouterIP cfg\<rparr> else cfg);
          cfg = (if flUsername fl \<noteq> None then cfg\<lparr>Username := Username cfg\<rparr> else cfg);
          cfg = (if flPassword fl \<noteq> None then cfg\<lparr>Password := Password cfg\<rparr> else cfg);
          cfg = (if flSite fl \<noteq> None then cfg\<lparr>Site := Site cfg\<rparr> else cfg);
          cfg = (if flAPIKey fl \<noteq> None then cfg\<lparr>APIKey := APIKey cfg\<rparr> else cfg)
      in if flDebug fl \<noteq> None then cfg\<lparr>Debug := Debug cfg\<rparr> else cfg)"

definition PersistentPreRunE ::
    "(string \<Rightarrow> int result) \<Rightarrow> (string \<Rightarrow> string) \<Rightarrow> Flags \<Rightarrow> Config result" where
  "PersistentPreRunE ParseDuration env fl =
     (case Load ParseDuration env (parse_flags fl bound_flags) of
        Inl err \<Rightarrow> Inl err
      | Inr cfg1 \<Rightarrow>
          (let cfg2 = override_flags fl cfg1 in
           case Validate cfg2 of Inl err \<Rightarrow> Inl err | Inr _ \<Rightarrow> Inr cfg2))"

section \<open>Port mappings of the clean command\<close>

fun parse_pairs :: "string list \<Rightarrow> (string, string) gomap \<Rightarrow> (string, string) gomap result" where
  "parse_pairs [] portMaps = Inr portMaps"
| "parse_pairs (pair # pairs) portMaps =
     (case Split (TrimSpace pair) (CHR '':'') of
        [p, i] \<Rightarrow>
          (let port = TrimSpace p; ip = TrimSpace i in
           if Atoi port = None then Inl (ErrorString (''invalid port number: '' @ port))
           else if \<not> ParseIP_ok ip then Inl (ErrorString (''invalid IP address: '' @ ip))
           else parse_pairs pairs (gm_set port ip portMaps))
      | _ \<Rightarrow> Inl (ErrorString (''invalid mapping format: '' @ pair @ '' (expected format: '' @ [CHR 0x27] @ ''port:ip'' @
               [CHR 0x27] @ '')'')))"

definition parsePortMappingsString :: "string \<Rightarrow> (string, string) gomap result" where
  "parsePortMappingsString mappingsStr =
     (if mappingsStr = '''' then Inl (ErrorString ''port mappings cannot be empty'')
      else parse_pairs (Split mappingsStr (CHR '','')) [])"

text \<open>
  The file system: the current directory, whether a path is a regular file, its content; and the decoders,
  which give the list of external port and destination address (\<open>''''\<close> for an absent field).
\<close>

record FileSystem =
  fs_Getwd :: "string result"
  fs_Stat :: "string \<Rightarrow> bool result"
  fs_ReadFile :: "string \<Rightarrow> string result"

definition HasSuffix :: "string \<Rightarrow> string \<Rightarrow> bool" where
  "HasSuffix s t \<longleftrightarrow> HasPrefix (rev s) (rev t)"


fun file_mappings :: "(string \<times> string) list \<Rightarrow> (string, string) gomap \<Rightarrow> (string, string) gomap result" where
  "file_mappings [] portMaps = Inr portMaps"
| "file_mappings ((port, ip) # mappings) portMaps =
     (if Atoi port = None then Inl (ErrorString (''invalid port number: '' @ port))
      else if \<not> ParseIP_ok ip then Inl (ErrorString (''invalid IP address: '' @ ip))
      else file_mappings mappings (gm_set port ip portMaps))"

text \<open>The path checks: the absolute path of the file that is going to be read.\<close>

definition checked_path :: "FileSystem \<Rightarrow> string \<Rightarrow> string result" where
  "checked_path fs filename =
     (if filename = '''' then Inl (ErrorString ''filename cannot be empty'')
      else if Contains (path_Clean filename) ''..'' then Inl (ErrorString (''path traversal not allowed: '' @ filename))
      else (case fs_Getwd fs of
          Inl err \<Rightarrow> Inl (wrap ''failed to get current directory'' err)
        | Inr cwd \<Rightarrow>
            (let absPath = path_Abs cwd (path_Clean filename) in
             if \<not> HasPrefix absPath cwd then
               Inl (ErrorString (''access denied - file outside current directory: '' @ filename))
             else (case fs_Stat fs absPath of
                 Inl err \<Rightarrow> Inl (wrap ''file not accessible'' err)
               | Inr regular \<Rightarrow>
                   if \<not> regular then Inl (ErrorString (''not a regular file: '' @ filename)) else Inr absPath))))"

definition loadPortMappingsFromFile ::
    "FileSystem \<Rightarrow> (bool \<Rightarrow> string \<Rightarrow> (string \<times> string) list result) \<Rightarrow> string \<Rightarrow> (string, string) gomap result" where
  "loadPortMappingsFromFile fs decode filename =
     (case checked_path fs filename of
        Inl err \<Rightarrow> Inl err
      | Inr absPath \<Rightarrow>
          (case fs_ReadFile fs absPath of
             Inl err \<Rightarrow> Inl (wrap ''failed to read file'' err)
           | Inr data \<Rightarrow>
               (case decode (HasSuffix (ToLower filename) ''.json'') data of
                  Inl err \<Rightarrow> Inl (wrap ''failed to parse file'' err)
                | Inr mappings \<Rightarrow> file_mappings mappings [])))"

section \<open>The cleaner\<close>

record CleanerConfig =
  ccHost :: string
  ccUsername :: string
  ccPassword :: string
  ccSite :: string
  ccAPIKey :: string

definition cleaner_config :: "PortForward \<Rightarrow> int \<Rightarrow> PortConfig" where
  "cleaner_config pf extPort =
     \<lparr>Name = pfName pf, Enabled = pfEnabled pf, Interface = '''', DstPort = extPort, FwdPort = 0, SrcIP = '''',
      DstIP = Fwd pf, Protocol = Proto pf\<rparr>"

text \<open>The inner loop; failures to parse or to delete are only logged.\<close>

fun clean_rules :: "'w Router \<Rightarrow> string \<Rightarrow> string \<Rightarrow> PortForward list \<Rightarrow> 'w \<Rightarrow> 'w" where
  "clean_rules router dstPort dstIP [] w = w"
| "clean_rules router dstPort dstIP (pf # pfs) w =
     (if pfFwdPort pf = dstPort \<and> Fwd pf = dstIP then
        (case Atoi (pfDstPort pf) of
           None \<Rightarrow> clean_rules router dstPort dstIP pfs w
         | Some extPort \<Rightarrow>
             clean_rules router dstPort dstIP pfs (snd (r_RemovePort router (cleaner_config pf extPort) w)))
      else clean_rules router dstPort dstIP pfs w)"

text \<open>The outer loop, over the map in the order \<open>it\<close> of its keys.\<close>

fun clean_mappings :: "'w Router \<Rightarrow> (string, string) gomap \<Rightarrow> PortForward list \<Rightarrow> string list \<Rightarrow> 'w \<Rightarrow> 'w" where
  "clean_mappings router portMaps pfs [] w = w"
| "clean_mappings router portMaps pfs (dstPort # ports) w =
     clean_mappings router portMaps pfs ports
       (case gm_get portMaps dstPort of None \<Rightarrow> w | Some dstIP \<Rightarrow> clean_rules router dstPort dstIP pfs w)"

text \<open>\<open>create\<close> stands for \<open>routers.CreateUnifiRouter\<close>, which logs in to the gateway.\<close>

definition Run ::
    "(string list \<Rightarrow> string list) \<Rightarrow> (CleanerConfig \<Rightarrow> ('w, 'w Router) io) \<Rightarrow> CleanerConfig \<Rightarrow>
     (string, string) gomap \<Rightarrow> 'w \<Rightarrow> error option \<times> 'w" where
  "Run it create cfg portMaps w =
     (if length portMaps = 0 then (Some (ErrorString ''port mappings cannot be empty''), w)
      else (case create cfg w of
          (Inl err, w1) \<Rightarrow> (Some (wrap ''failed to create router'' err), w1)
        | (Inr router, w1) \<Rightarrow>
            (case r_ListAllPortForwards router w1 of
               (Inl err, w2) \<Rightarrow> (Some (wrap ''failed to list port forward rules'' err), w2)
             | (Inr portforwards, w2) \<Rightarrow>
                 (None, clean_mappings router portMaps portforwards (it (map fst portMaps)) w2))))"

definition runClean ::
    "FileSystem \<Rightarrow> (bool \<Rightarrow> string \<Rightarrow> (string \<times> string) list result) \<Rightarrow> (string list \<Rightarrow> string list) \<Rightarrow>
     (CleanerConfig \<Rightarrow> ('w, 'w Router) io) \<Rightarrow> Config \<Rightarrow> string \<Rightarrow> string \<Rightarrow> 'w \<Rightarrow> error option \<times> 'w" where
  "runClean fs decode it create cfg portMappingsStr portMappingsFile w =
     (if portMappingsFile = '''' \<and> portMappingsStr = '''' then
        (Some (ErrorString ''--port-mappings or --port-mappings-file is required''), w)
      else
        (case (if portMappingsFile \<noteq> '''' then loadPortMappingsFromFile fs decode portMappingsFile
               else parsePortMappingsString portMappingsStr) of
           Inl err \<Rightarrow> (Some (wrap ''failed to parse port mappings'' err), w)
         | Inr portMaps \<Rightarrow>
             Run it create
               \<lparr>ccHost = Host cfg, ccUsername = Username cfg, ccPassword = Password cfg, ccSite = Site cfg,
                ccAPIKey = APIKey cfg\<rparr> portMaps w))"

end
