(* ===== verification/CleanerCorrect.thy ===== *)
theory CleanerCorrect
  imports CommandLine Operations
begin

text \<open>
  Which configuration a command runs with, and what the clean command removes.
\<close>

section \<open>Which configuration a command runs with\<close>

lemma override_flags_id: "override_flags fl cfg = cfg"
  by (simp add: override_flags_def Let_def)

lemma parse_flags_simps [simp]:
  "RouterIP (parse_flags fl cfg) = given (flRouterIP fl) (RouterIP cfg)"
  "Password (parse_flags fl cfg) = given (flPassword fl) (Password cfg)"
  "Site (parse_flags fl cfg) = given (flSite fl) (Site cfg)"
  by (simp_all add: parse_flags_def)

lemma bound_flags_simps [simp]:
  "RouterIP bound_flags = ''192.168.1.1''" "Password bound_flags = ''''" "Site bound_flags = ''default''"
  by (simp_all add: bound_flags_def)

text \<open>
  The environment wins.  Every command starts with a validated configuration, in which a variable that is set
  decides over the flag, a flag over the default, and the URL of the gateway is that of the address chosen.
  (Because the flags are bound to the fields that \<open>Load\<close> overwrites, the overriding assignments after it have
  no effect.)
\<close>

lemma environment_beats_flags:
  assumes "PersistentPreRunE ParseDuration env fl = Inr c"
  shows "RouterIP c = (let ip = from_env env ''UNIFI_ROUTER_IP'' (given (flRouterIP fl) ''192.168.1.1'') in
            if ip = '''' then ''192.168.1.1'' else ip) \<and>
    Site c = (let site = from_env env ''UNIFI_SITE'' (given (flSite fl) ''default'') in
            if site = '''' then ''default'' else site) \<and>
    Password c = from_env env ''UNIFI_PASSWORD'' (given (flPassword fl) '''') \<and>
    Host c = ''https://'' @ escape_host (RouterIP c) \<and> ParseIP_ok (RouterIP c) \<and> 5 * Minute \<le> SyncInterval c"
proof -
  have l: "Load ParseDuration env (parse_flags fl bound_flags) = Inr c" and "Validate c = Inr ()"
    using assms by (auto simp: PersistentPreRunE_def override_flags_id split: sum.splits)
  then show ?thesis
    using Load_values [OF l] config_validation_exact [of c] by simp
qed

section \<open>What the cleaner removes\<close>

lemma clean_rules_up:
  assumes R: "router_up R rules up accepted"
  shows "up w \<Longrightarrow> table_ok (rules w) \<Longrightarrow> w' = clean_rules R dstPort dstIP pfs w \<Longrightarrow>
    up w' \<and> table_ok (rules w') \<and>
    set (rules w') = {x \<in> set (rules w). \<forall>pf \<in> set pfs. pfFwdPort pf = dstPort \<and> Fwd pf = dstIP \<and> slot pf \<noteq> None \<longrightarrow> slot x \<noteq> slot pf}"
proof (induction pfs arbitrary: w)
  case (Cons pf pfs)
  show ?case
  proof (cases "pfFwdPort pf = dstPort \<and> Fwd pf = dstIP \<and> Atoi (pfDstPort pf) \<noteq> None")
    case False
    then have "w' = clean_rules R dstPort dstIP pfs w" "\<not> (pfFwdPort pf = dstPort \<and> Fwd pf = dstIP \<and> slot pf \<noteq> None)"
      using Cons.prems(3) by (auto simp: slot_def)
    with Cons.IH [OF Cons.prems(1,2)] show ?thesis by auto
  next
    case True
    then obtain p where p: "Atoi (pfDstPort pf) = Some p" by blast
    let ?c = "cleaner_config pf p"
    have s: "slot pf = Some (cslot ?c)" using p by (simp add: slot_def cslot_def cleaner_config_def)
    obtain w1 where w1: "r_RemovePort R ?c w = (Inr (), w1)" "up w1"
      using router_up.remove_up [OF R Cons.prems(1,2)] by blast
    have R': "router_contract R rules" using R by (simp add: router_up_def)
    note rem = router_contract.remove_ok [OF R' Cons.prems(2) w1(1)]
    have "w' = clean_rules R dstPort dstIP pfs w1" using Cons.prems(3) True p w1(1) by simp
    from Cons.IH [OF w1(2) _ this] rem s True show ?thesis by auto
  qed
qed simp

lemma clean_mappings_up:
  assumes R: "router_up R rules up accepted"
  shows "up w \<Longrightarrow> table_ok (rules w) \<Longrightarrow> w' = clean_mappings R m pfs ports w \<Longrightarrow>
    set (rules w') = {x \<in> set (rules w). \<forall>pf \<in> set pfs. pfFwdPort pf \<in> set ports \<and> gm_get m (pfFwdPort pf) = Some (Fwd pf) \<and>
      slot pf \<noteq> None \<longrightarrow> slot x \<noteq> slot pf}"
proof (induction ports arbitrary: w)
  case (Cons dstPort ports)
  define w1 where "w1 = (case gm_get m dstPort of None \<Rightarrow> w | Some dstIP \<Rightarrow> clean_rules R dstPort dstIP pfs w)"
  have w1: "up w1 \<and> table_ok (rules w1) \<and>
    set (rules w1) = {x \<in> set (rules w). \<forall>pf \<in> set pfs. pfFwdPort pf = dstPort \<and> gm_get m dstPort = Some (Fwd pf) \<and>
      slot pf \<noteq> None \<longrightarrow> slot x \<noteq> slot pf}"
  proof (cases "gm_get m dstPort")
    case (Some dstIP)
    with clean_rules_up [OF R Cons.prems(1,2), of w1 dstPort dstIP pfs] show ?thesis by (auto simp: w1_def)
  qed (use Cons.prems in \<open>simp add: w1_def\<close>)
  have "w' = clean_mappings R m pfs ports w1" using Cons.prems(3) by (simp add: w1_def)
  with Cons.IH [of w1] w1 show ?case by auto
qed simp

text \<open>The rules that the mappings name: by internal port and target address, with a readable external port.\<close>

definition named_by :: "(string, string) gomap \<Rightarrow> PortForward \<Rightarrow> bool" where
  "named_by portMaps pf \<longleftrightarrow> gm_get portMaps (pfFwdPort pf) = Some (Fwd pf) \<and> Atoi (pfDstPort pf) \<noteq> None"

lemma named_by_iff:
  "iter_order it \<Longrightarrow> named_by portMaps pf \<longleftrightarrow>
     pfFwdPort pf \<in> set (it (map fst portMaps)) \<and> gm_get portMaps (pfFwdPort pf) = Some (Fwd pf) \<and> slot pf \<noteq> None"
  using gm_keys_iff [of "pfFwdPort pf" portMaps] by (auto simp: named_by_def slot_def)

text \<open>
  C34: the cleaner removes exactly the rules that the mappings name, whatever the order in which the map is
  iterated, when the router is in service.
\<close>

theorem cleaner_removes_exactly:
  assumes create: "create cfg w = (Inr R, w1)" and R: "router_up R rules up accepted"
    and st: "up w1" "table_ok (rules w1)" and it: "iter_order it" and m: "portMaps \<noteq> []"
  shows "\<exists>w'. Run it create cfg portMaps w = (None, w') \<and>
    set (rules w') = {x \<in> set (rules w1). \<not> named_by portMaps x}"
proof -
  have R': "router_contract R rules" using R by (simp add: router_up_def)
  obtain pfs w2 where l: "r_ListAllPortForwards R w1 = (Inr pfs, w2)" "up w2"
    using router_up.list_up [OF R st(1)] by blast
  have s: "set pfs = set (rules w1)" "set (rules w2) = set (rules w1)" "table_ok (rules w2)"
    using router_contract.list_set [OF R' l(1)] router_contract.list_table_ok [OF R' l(1) st(2)] by auto
  define w' where "w' = clean_mappings R portMaps pfs (it (map fst portMaps)) w2"
  have run: "Run it create cfg portMaps w = (None, w')" using m create l by (simp add: Run_def w'_def)
  have "set (rules w') = {x \<in> set (rules w1). \<forall>pf \<in> set (rules w1). named_by portMaps pf \<longrightarrow> slot x \<noteq> slot pf}"
    using clean_mappings_up [OF R l(2) s(3) w'_def] by (simp only: s named_by_iff [OF it])
  also have "\<dots> = {x \<in> set (rules w1). \<not> named_by portMaps x}"
  proof -
    have "slot x \<noteq> slot pf" if n: "x \<in> set (rules w1)" "pf \<in> set (rules w1)" "named_by portMaps pf" "\<not> named_by portMaps x" for x pf
    proof
      assume eq: "slot x = slot pf"
      obtain q where "slot pf = Some q" using n(3) by (auto simp: named_by_def slot_def)
      with exclusiveD [OF table_ok_exclusive [OF st(2)] n(1,2)] eq have "x = pf" by simp
      with n show False by simp
    qed
    then show ?thesis by blast
  qed
  finally show ?thesis using run by blast
qed

section \<open>Accepted input\<close>

definition good_mappings :: "(string, string) gomap \<Rightarrow> bool" where
  "good_mappings m \<longleftrightarrow> gm_wf m \<and> (\<forall>p ip. gm_get m p = Some ip \<longrightarrow> Atoi p \<noteq> None \<and> ParseIP_ok ip)"

lemma good_mappings_set: "good_mappings m \<Longrightarrow> Atoi p \<noteq> None \<Longrightarrow> ParseIP_ok ip \<Longrightarrow> good_mappings (gm_set p ip m)"
  by (auto simp: good_mappings_def)

lemma parse_pairs_good: "parse_pairs pairs m = Inr m' \<Longrightarrow> good_mappings m \<Longrightarrow> good_mappings m'"
proof (induction pairs arbitrary: m)
  case (Cons pair pairs)
  then show ?case
    by (auto simp: Let_def good_mappings_set split: list.splits if_splits)
qed simp

lemma file_mappings_good: "file_mappings ms m = Inr m' \<Longrightarrow> good_mappings m \<Longrightarrow> good_mappings m'"
  by (induction ms m rule: file_mappings.induct) (auto simp: good_mappings_set split: if_splits)

text \<open>
  What the clean command may touch.  Whatever the string, the file and its content, the mappings that the
  cleaner is started with have numeric ports and well-formed addresses.
\<close>

lemma clean_mappings_validated:
  assumes "runClean fs decode it create cfg portMappingsStr portMappingsFile w = (None, w')"
  shows "\<exists>portMaps. gm_wf portMaps \<and> (\<forall>p ip. gm_get portMaps p = Some ip \<longrightarrow> Atoi p \<noteq> None \<and> ParseIP_ok ip) \<and>
    portMaps \<noteq> [] \<and>
    Run it create \<lparr>ccHost = Host cfg, ccUsername = Username cfg, ccPassword = Password cfg, ccSite = Site cfg,
      ccAPIKey = APIKey cfg\<rparr> portMaps w = (None, w')"
proof -
  let ?res = "if portMappingsFile \<noteq> '''' then loadPortMappingsFromFile fs decode portMappingsFile
    else parsePortMappingsString portMappingsStr"
  let ?cc = "\<lparr>ccHost = Host cfg, ccUsername = Username cfg, ccPassword = Password cfg, ccSite = Site cfg, ccAPIKey = APIKey cfg\<rparr>"
  obtain m where m: "?res = Inr m" "Run it create ?cc m w = (None, w')"
    using assms by (auto simp: runClean_def split: if_split_asm sum.split_asm)
  have "good_mappings []" by (simp add: good_mappings_def)
  with m(1) have "good_mappings m"
    by (auto simp: loadPortMappingsFromFile_def parsePortMappingsString_def
        dest: parse_pairs_good file_mappings_good split: if_split_asm sum.split_asm)
  moreover have "m \<noteq> []" using m(2) by (auto simp: Run_def)
  ultimately show ?thesis using m(2) by (auto simp: good_mappings_def)
qed

text \<open>
  The path check compares strings, not directories: a file of a sibling directory whose name begins with
  the name of the current one is read.
\<close>

lemma sibling_directory_accepted:
  "checked_path \<lparr>fs_Getwd = Inr ''/app'', fs_Stat = (\<lambda>_. Inr True), fs_ReadFile = (\<lambda>_. Inr '''')\<rparr> ''/app-old/m.json'' =
     Inr ''/app-old/m.json''"
  by (simp add: checked_path_def path_Clean_def path_Abs_def is_rooted_def HasPrefix_def Let_def)

section \<open>Witnesses\<close>

lemma environment_beats_flags_witness:
  "\<exists>c. PersistentPreRunE (\<lambda>_. Inl (ErrorString '''')) (\<lambda>v. if v = ''UNIFI_ROUTER_IP'' then ''10.0.0.1'' else '''')
      \<lparr>flRouterIP = Some ''10.0.0.2'', flUsername = None, flPassword = Some ''secret'', flSite = None, flAPIKey = None,
       flDebug = None\<rparr> = Inr c \<and> RouterIP c = ''10.0.0.1''"
proof -
  let ?env = "\<lambda>v. if v = ''UNIFI_ROUTER_IP'' then ''10.0.0.1'' else ''''"
  let ?fl = "\<lparr>flRouterIP = Some ''10.0.0.2'', flUsername = None, flPassword = Some ''secret'', flSite = None, flAPIKey = None,
       flDebug = None\<rparr>"
  let ?c = "(parse_flags ?fl bound_flags)\<lparr>RouterIP := ''10.0.0.1'', SyncInterval := 15 * Minute, Host := ''https://10.0.0.1''\<rparr>"
  have "InitFromEnv (\<lambda>_. Inl (ErrorString '''')) ?env (parse_flags ?fl bound_flags) =
      Inr ((parse_flags ?fl bound_flags)\<lparr>RouterIP := ''10.0.0.1''\<rparr>)"
    by (simp add: InitFromEnv_def from_env_def Let_def)
  moreover have "SetDerivedValues (SetDefaults ((parse_flags ?fl bound_flags)\<lparr>RouterIP := ''10.0.0.1''\<rparr>)) = ?c"
    by (simp add: SetDefaults_def SetDerivedValues_def parse_flags_def bound_flags_def emptyConfig_def given_def
        escape_host_def host_char_def go_eval)
  ultimately have l: "Load (\<lambda>_. Inl (ErrorString '''')) ?env (parse_flags ?fl bound_flags) = Inr ?c" by (simp add: Load_def)
  have "Validate ?c = Inr ()"
    unfolding config_validation_exact
    by (simp add: parse_flags_def bound_flags_def emptyConfig_def given_def ParseIP_ok_def parseIPv4_def ipv4_field_def
        go_eval Minute_def Second_def)
  with l have run: "PersistentPreRunE (\<lambda>_. Inl (ErrorString '''')) ?env ?fl = Inr ?c"
    by (simp add: PersistentPreRunE_def override_flags_id)
  from conjunct1 [OF environment_beats_flags [OF run]] have "RouterIP ?c = ''10.0.0.1''" by (simp add: from_env_def)
  with run show ?thesis by blast
qed

definition cleaner_gateway :: gateway where
  "cleaner_gateway = \<lparr>gw_rules = [example_rule ''a'' ''web'' 8080 80, example_rule ''b'' ''ssh'' 2222 22], gw_session = True, gw_faults = []\<rparr>"

lemma cleaner_removes_exactly_witness:
  "\<exists>w'. Run rev (\<lambda>_ w. (Inr (unifi_router (ref_router ''default'')), w))
      \<lparr>ccHost = '''', ccUsername = '''', ccPassword = '''', ccSite = '''', ccAPIKey = ''''\<rparr>
      [(''80'', Fwd (example_rule ''a'' ''web'' 8080 80))] cleaner_gateway = (None, w') \<and>
    set (gw_rules w') = {x \<in> set (gw_rules cleaner_gateway). \<not> named_by [(''80'', Fwd (example_rule ''a'' ''web'' 8080 80))] x}"
  by (rule cleaner_removes_exactly [OF refl ref.router_up_axioms _ _ iter_order_rev])
    (simp_all add: cleaner_gateway_def gw_up_def table_ok_def exclusive_def router_eval go_eval)

lemma clean_mappings_validated_witness:
  "\<exists>portMaps w'. portMaps \<noteq> [] \<and> (\<forall>p ip. gm_get portMaps p = Some ip \<longrightarrow> Atoi p \<noteq> None \<and> ParseIP_ok ip) \<and>
    runClean \<lparr>fs_Getwd = Inr ''/'', fs_Stat = (\<lambda>_. Inr True), fs_ReadFile = (\<lambda>_. Inr '''')\<rparr> (\<lambda>_ _. Inr []) rev
      (\<lambda>_ w. (Inr (unifi_router (ref_router ''default'')), w)) emptyConfig ''80:10.0.0.7'' '''' cleaner_gateway = (None, w')"
proof -
  let ?run = "runClean \<lparr>fs_Getwd = Inr ''/'', fs_Stat = (\<lambda>_. Inr True), fs_ReadFile = (\<lambda>_. Inr '''')\<rparr> (\<lambda>_ _. Inr []) rev
      (\<lambda>_ w. (Inr (unifi_router (ref_router ''default'')), w)) emptyConfig ''80:10.0.0.7'' '''' cleaner_gateway"
  have "TrimSpace ''80:10.0.0.7'' = ''80:10.0.0.7''" "TrimSpace ''80'' = ''80''" "TrimSpace ''10.0.0.7'' = ''10.0.0.7''"
    by (rule TrimSpace_spaceless, simp add: spaceless_def)+
  then have "parsePortMappingsString ''80:10.0.0.7'' = Inr [(''80'', ''10.0.0.7'')]"
    by (simp add: parsePortMappingsString_def Let_def ParseIP_ok_def parseIPv4_def ipv4_field_def go_eval)
  then have "fst ?run = None"
    by (simp add: runClean_def Run_def router_eval cleaner_gateway_def ListAllPortForwards_def)
  then obtain w' where run: "?run = (None, w')" by (metis prod.collapse)
  from clean_mappings_validated [OF run] obtain m where
    m: "m \<noteq> []" "\<forall>p ip. gm_get m p = Some ip \<longrightarrow> Atoi p \<noteq> None \<and> ParseIP_ok ip" by (elim exE conjE)
  then show ?thesis using run by (intro exI [of _ m] exI [of _ w']) simp
qed

end
