(* ===== verification/ControllerState.thy ===== *)
theory ControllerState
  imports Periodic
begin

text \<open>
  The state of the service controller as a whole: which values its maps can hold.  The steps of the process are
  the reconcile requests, the cycles of the periodic reconciler and arbitrary changes of the outside world, in
  any order; \<open>state_typed\<close> is the type that Go's \<open>map[int]string\<close>, \<open>map[string]time.Time\<close> and
  \<open>map[string]int\<close> are too wide to express, and every step keeps it.
\<close>

section \<open>Well-typed states\<close>

definition ports_typed :: "ports \<Rightarrow> bool" where
  "ports_typed used \<longleftrightarrow>
     gm_wf used \<and> (\<forall>p k. gm_get used p = Some k \<longrightarrow> valid_port p \<and> (\<exists>ns n. k = ns @ ''/'' @ n))"

definition retries_typed :: "(string, nat) gomap \<Rightarrow> bool" where
  "retries_typed m \<longleftrightarrow> gm_wf m \<and> (\<forall>key n. gm_get m key = Some n \<longrightarrow> 1 \<le> n \<and> n \<le> MaxCleanupRetries)"

definition state_typed :: "'w rstate \<Rightarrow> bool" where
  "state_typed st \<longleftrightarrow> ports_typed (usedPorts st) \<and> gm_wf (recentCleanups st) \<and> retries_typed (cleanupRetryCount st)"

text \<open>What the API server guarantees of a service: its ports are port numbers.\<close>

definition ports_valid :: "Service \<Rightarrow> bool" where
  "ports_valid service \<longleftrightarrow> list_all (\<lambda>port. valid_port (spPort port)) (svcPorts service)"

definition services_valid :: "'w Reconciler \<Rightarrow> bool" where
  "services_valid r \<longleftrightarrow>
     (\<forall>ns n w service w'. k_Get (rcClient r) ns n w = (Inr service, w') \<longrightarrow> ports_valid service) \<and>
     (\<forall>w services w'. k_ListServices (rcClient r) w = (Inr services, w') \<longrightarrow> list_all ports_valid services)"

lemma services_validD:
  assumes "services_valid r"
  shows "k_Get (rcClient r) ns n w = (Inr service, w') \<Longrightarrow> ports_valid service"
    and "k_ListServices (rcClient r) w = (Inr services, w') \<Longrightarrow> list_all ports_valid services"
  using assms unfolding services_valid_def by blast+

named_theorems typed \<open>operations that keep the state well-typed\<close>

lemma typed_world [simp]: "state_typed (st\<lparr>world := w\<rparr>) = state_typed st"
  by (simp add: state_typed_def)

lemma typed_publish [simp]:
  "state_typed (publish r f st) = state_typed st" "state_typed (fold (\<lambda>x. publish r (g x)) xs st) = state_typed st"
  by (simp_all add: state_typed_def)

lemma typed_on_world [simp]: "state_typed (snd (on_world act st)) = state_typed st"
  by (simp add: on_world_eq)

lemma typed_on_worldD: "on_world act st = (res, st') \<Longrightarrow> state_typed st' = state_typed st"
  using typed_on_world [of act st] by simp

lemma typed_time_now: "time_now r st = (t, st') \<Longrightarrow> state_typed st' = state_typed st"
  by (auto simp: time_now_eq)

lemma ports_typed_del: "ports_typed used \<Longrightarrow> ports_typed (gm_del p used)"
  by (auto simp: ports_typed_def split: if_splits)

lemma ports_typed_set: "ports_typed used \<Longrightarrow> valid_port p \<Longrightarrow> ports_typed (gm_set p (serviceKey service) used)"
  by (auto simp: ports_typed_def serviceKey_def split: if_splits)

lemma typed_ports: "state_typed st \<Longrightarrow> ports_typed used \<Longrightarrow> state_typed (st\<lparr>usedPorts := used\<rparr>)"
  by (simp add: state_typed_def)

lemma typed_unmark: "state_typed st \<Longrightarrow> state_typed (st\<lparr>usedPorts := unmark_op op (usedPorts st)\<rparr>)"
  by (simp add: state_typed_def unmark_op_def UnmarkPortUsed_def ports_typed_del split: OperationType.split)

section \<open>Claims\<close>

lemma parse_annotation_range:
  "parsePortMappingAnnotation annotation = Inr ms \<Longrightarrow> \<forall>m \<in> set ms. ExternalPort m = 0 \<or> valid_port (ExternalPort m)"
  by (auto simp: parsePortMappingAnnotation_def dest: parse_parts_range split: if_splits)

lemma config_ports_typed:
  assumes "ports_typed used" "list_all (\<lambda>port. valid_port (spPort port)) ports"
    and "\<forall>m \<in> set ms. ExternalPort m = 0 \<or> valid_port (ExternalPort m)"
  shows "ports_typed (snd (config_ports service lbIP ms ports configs used))"
  using assms(1,2)
proof (induction ports arbitrary: configs used)
  case (Cons port ports)
  have "valid_port (external_port port m)" if "List.find (\<lambda>m. PortName m = spName port) ms = Some m" for m
    using find_SomeD [OF that] assms(3) Cons.prems by (auto simp: external_port_def)
  with Cons show ?case
    by (auto simp: markPortUsed_def ports_typed_set Let_def split: option.split sum.split)
qed simp

lemma GetPortConfigs_typed:
  "ports_typed used \<Longrightarrow> ports_valid service \<Longrightarrow> ports_typed (snd (GetPortConfigs service lbIP key used))"
  by (auto simp: GetPortConfigs_def ports_valid_def Let_def split: sum.split
      intro: config_ports_typed dest: parse_annotation_range)

lemma calculateDesiredState_typed:
  assumes "state_typed st" "ports_valid service"
  shows "state_typed (snd (calculateDesiredState service st))"
proof -
  have "ports_typed (snd (GetPortConfigs service (GetLBIP service) FilterAnnotation (usedPorts st)))"
    using assms GetPortConfigs_typed by (auto simp: state_typed_def)
  with assms show ?thesis
    by (auto simp: calculateDesiredState_def Let_def intro: typed_ports split: prod.split sum.split)
qed

section \<open>Operations\<close>

lemma exec_loop_typed: "state_typed st \<Longrightarrow> state_typed (snd (exec_loop R ops completed result st))"
  by (induction ops arbitrary: completed result st)
    (auto simp: typed_unmark rollbackOperations_def Let_def split: prod.split sum.split)

lemma executeOperations_typed [typed]: "state_typed st \<Longrightarrow> state_typed (snd (executeOperations R ops st))"
  by (simp add: executeOperations_def exec_loop_typed)

lemma cleanup_loop_typed: "state_typed st \<Longrightarrow> state_typed (snd (cleanup_loop R ops completed result st))"
proof (induction ops arbitrary: completed result st)
  case (Cons op ops)
  have "state_typed (st\<lparr>usedPorts := UnmarkPortUsed (DstPort (opConfig op)) (usedPorts st)\<rparr>)"
    using Cons.prems by (simp add: state_typed_def UnmarkPortUsed_def ports_typed_del)
  with Cons show ?case
    by (auto simp: rollbackCleanupOperations_def Let_def split: prod.split sum.split)
qed simp

lemma executeCleanupOperations_typed [typed]:
  "state_typed st \<Longrightarrow> state_typed (snd (executeCleanupOperations R ops st))"
  by (simp add: executeCleanupOperations_def cleanup_loop_typed split: option.split)

lemma finalizeService_typed [typed]: "state_typed st \<Longrightarrow> state_typed (snd (finalizeService r service st))"
proof -
  assume t: "state_typed st"
  obtain res st1 where l: "on_world (r_ListAllPortForwards (rcRouter r)) st = (res, st1)" by fastforce
  with t have t1: "state_typed st1" by (simp add: typed_on_worldD)
  let ?ops = "\<lambda>rs. cleanup_ops ''service_deletion_finalizer'' (svcNamespace service) (svcName service) rs"
  have "state_typed st2" if "executeCleanupOperations (rcRouter r) (?ops rs) st1 = (out, st2)" for rs out st2
    using executeCleanupOperations_typed [OF t1, of "rcRouter r" "?ops rs"] that by simp
  with l t1 show ?thesis by (auto simp: finalizeService_def split: sum.split prod.split option.split)
qed

section \<open>Clean-up bookkeeping\<close>

lemma gm_wf_old_entries: "gm_wf m \<Longrightarrow> gm_wf (cleanupOldEntries now window m)"
  by (simp add: cleanupOldEntries_def gm_wf_filter)

lemma markServiceCleanup_typed [typed]: "state_typed st \<Longrightarrow> state_typed (markServiceCleanup r key st)"
  by (simp add: markServiceCleanup_def time_now_eq Let_def state_typed_def gm_wf_old_entries)

lemma isRecentlyCleaned_typed: "state_typed (snd (isRecentlyCleaned r key st)) = state_typed st"
  by (simp add: isRecentlyCleaned_def time_now_eq Let_def split: option.split)

lemma clearCleanupRetries_typed [typed]: "state_typed st \<Longrightarrow> state_typed (clearCleanupRetries key st)"
  by (auto simp: clearCleanupRetries_def state_typed_def retries_typed_def split: if_splits)

lemma recordCleanupRetry_typed:
  "state_typed st \<Longrightarrow> getCleanupRetryCount key st < MaxCleanupRetries \<Longrightarrow> state_typed (recordCleanupRetry key st)"
  by (auto simp: recordCleanupRetry_def getCleanupRetryCount_def state_typed_def retries_typed_def
      split: if_splits option.splits)

lemma finalizeService_retries:
  "cleanupRetryCount (snd (finalizeService r service st)) = cleanupRetryCount st"
  by (auto simp: finalizeService_def on_world_eq split: prod.split sum.split option.split dest: executeCleanup_frame)

lemma handleFinalizerCleanup_typed [typed]:
  assumes "state_typed st"
  shows "state_typed (snd (handleFinalizerCleanup ovf r service st))"
proof (cases "shouldGiveUpOnCleanup ovf (serviceKey service) st")
  case False
  then have lt: "getCleanupRetryCount (serviceKey service) st < MaxCleanupRetries"
    by (auto simp: shouldGiveUpOnCleanup_def Let_def split: if_splits)
  obtain res st1 where f: "finalizeService r service st = (res, st1)" by fastforce
  have t: "state_typed st1" using finalizeService_typed [OF assms, of r service] f by simp
  have "getCleanupRetryCount (serviceKey service) st1 < MaxCleanupRetries"
    using lt finalizeService_retries [of r service st] f by (simp add: getCleanupRetryCount_def)
  with t f False show ?thesis
    by (auto simp: handleFinalizerCleanup_def Let_def intro: typed recordCleanupRetry_typed
        split: option.split prod.split sum.split dest!: typed_on_worldD)
qed (simp add: handleFinalizerCleanup_def assms)

section \<open>The handlers\<close>

lemma shouldAttempt_typed:
  "state_typed (snd (shouldAttemptCleanupForMissingService r ns n st)) = state_typed st"
  using isRecentlyCleaned_typed [of r "ns @ ''/'' @ n" st]
  by (auto simp: shouldAttemptCleanupForMissingService_def Let_def split: prod.split sum.split dest!: typed_on_worldD)

lemma handleMissingServiceCleanup_typed [typed]:
  assumes "state_typed st"
  shows "state_typed (snd (handleMissingServiceCleanup r ns n st))"
proof -
  obtain res st1 where l: "on_world (r_ListAllPortForwards (rcRouter r)) st = (res, st1)" by fastforce
  with assms have t1: "state_typed st1" by (simp add: typed_on_worldD)
  have "state_typed st2" if "executeCleanupOperations R ops st1 = (out, st2)" for R ops out st2
    using executeCleanupOperations_typed [OF t1, of R ops] that by simp
  with l t1 show ?thesis
    by (auto simp: handleMissingServiceCleanup_def Let_def intro: typed split: sum.split prod.split option.split)
qed

lemma detectChanges_typed:
  "state_typed st \<Longrightarrow> ports_valid service \<Longrightarrow> state_typed (snd (detectChanges service key rs st))"
  using calculateDesiredState_typed [of st service]
  by (auto simp: detectChanges_def Let_def split: prod.split sum.split)

lemma ownership_events_typed: "state_typed (ownership_events r service ops st) = state_typed st"
  unfolding ownership_events_def by (induction ops arbitrary: st) simp_all

lemma processAllChanges_typed:
  assumes "state_typed st" "ports_valid service"
  shows "state_typed (snd (processAllChanges itc itd r service ctx rs st))"
proof -
  obtain res st1 where d: "calculateDesiredState service st = (res, st1)" by fastforce
  with calculateDesiredState_typed [OF assms] have t1: "state_typed st1" by simp
  have "state_typed st2" if "executeOperations R ops st1 = (out, st2)" for R ops out st2
    using executeOperations_typed [OF t1, of R ops] that by simp
  with d t1 show ?thesis
    by (auto simp: processAllChanges_def success_events_def Let_def split: sum.split prod.split option.split)
qed

lemma add_finalizer_loop_typed: "state_typed (snd (add_finalizer_loop r ns n attempts service st)) = state_typed st"
proof (induction attempts arbitrary: service st)
  case (Cons attempt attempts)
  obtain res1 st1 where g: "(if attempt > 0 then on_world (k_Get (rcClient r) ns n) st else (Inr service, st)) = (res1, st1)"
    by fastforce
  then have "state_typed st1 = state_typed st" by (auto dest: typed_on_worldD split: if_splits)
  with g Cons.IH show ?case
    by (auto simp: Let_def split: sum.split prod.split dest!: typed_on_worldD)
qed simp

lemma add_finalizer_typed: "state_typed (snd (add_finalizer r ns n service st)) = state_typed st"
  using add_finalizer_loop_typed [of r ns n "[0, 1, 2]" service st]
  by (auto simp: add_finalizer_def split: sum.split prod.split dest!: typed_on_worldD)

lemma release_service_typed [typed]: "state_typed st \<Longrightarrow> state_typed (snd (release_service r service st))"
  using finalizeService_typed [of st r service]
  by (auto simp: release_service_def split: sum.split prod.split dest!: typed_on_worldD)

lemma reconcile_rules_typed:
  assumes "state_typed st" "ports_valid service"
  shows "state_typed (snd (reconcile_rules itc itd r key service st))"
proof -
  obtain res st1 where l: "on_world (r_ListAllPortForwards (rcRouter r)) st = (res, st1)" by fastforce
  with assms have t1: "state_typed st1" by (simp add: typed_on_worldD)
  have t2: "state_typed st2" if "detectChanges service key rs st1 = (ctx, st2)" for rs ctx st2
    using detectChanges_typed [OF t1 assms(2), of key rs] that by simp
  have "state_typed st3" if "detectChanges service key rs st1 = (ctx, st2)" "processAllChanges itc itd r service ctx cur st2 = (out, st3)"
    for rs ctx st2 cur out st3
    using processAllChanges_typed [OF t2 [OF that(1)] assms(2), of itc itd r ctx cur] that(2) by simp
  with l t1 t2 show ?thesis
    by (auto simp: reconcile_rules_def Let_def ownership_events_typed split: sum.split prod.split option.split)
qed

lemma Reconcile_typed:
  assumes "services_valid r" "state_typed st"
  shows "state_typed (snd (Reconcile ovf itc itd r ns n st))"
proof -
  obtain recent st1 where c: "isRecentlyCleaned r (ns @ ''/'' @ n) st = (recent, st1)" by fastforce
  obtain res st2 where g: "on_world (k_Get (rcClient r) ns n) st1 = (res, st2)" by fastforce
  have t1: "state_typed st1" using isRecentlyCleaned_typed [of r "ns @ ''/'' @ n" st] c assms by simp
  have t2: "state_typed st2" using t1 typed_on_worldD [OF g] by simp
  have valid: "ports_valid service" if "res = Inr service" for service
    using g that by (auto simp: on_world_def split: prod.splits dest: services_validD [OF assms(1)])
  have miss: "state_typed st3" if "shouldAttemptCleanupForMissingService r ns n st2 = (b, st3)" for b st3
    using shouldAttempt_typed [of r ns n st2] that t2 by simp
  show ?thesis
  proof (cases res)
    case (Inl err)
    with c g t1 t2 miss show ?thesis
      by (auto simp: Reconcile_def Let_def intro: typed split: prod.split)
  next
    case (Inr service)
    with c g t1 t2 show ?thesis
      by (simp add: Reconcile_def Let_def add_finalizer_typed release_service_typed handleFinalizerCleanup_typed
          reconcile_rules_typed [OF t2 valid [OF Inr]])
  qed
qed

section \<open>The periodic cycle\<close>

lemma analyzeServiceDrift_typed:
  "ports_typed used \<Longrightarrow> ports_valid service \<Longrightarrow> ports_typed (snd (analyzeServiceDrift itd itc service rs used))"
  using GetPortConfigs_typed [of used service "GetLBIP service" FilterAnnotation]
  by (auto simp: analyzeServiceDrift_def calculateDesiredRulesForService_def Let_def split: prod.split sum.split)

lemma AnalyzeAllServicesDrift_typed:
  assumes "ports_typed used" "list_all ports_valid services"
  shows "ports_typed (snd (AnalyzeAllServicesDrift itd itc services rs used))"
  using assms
proof (induction services arbitrary: used)
  case (Cons service services)
  obtain res used1 where a: "analyzeServiceDrift itd itc service rs used = (res, used1)" by fastforce
  with analyzeServiceDrift_typed [of used service itd itc rs] Cons.prems have "ports_typed used1" by simp
  with a Cons.IH [of used1] Cons.prems(2) show ?case by (auto split: sum.split prod.split)
qed simp

lemma correct_analysis_typed [typed]: "state_typed st \<Longrightarrow> state_typed (correct_analysis r a st)"
proof -
  assume t: "state_typed st"
  have "state_typed st2" if "correctServiceDrift R a (publish r f st) = (out, st2)" for R f out st2
    using executeOperations_typed [of "publish r f st" R "drift_operations a"] t that
    by (auto simp: correctServiceDrift_def split: prod.splits option.splits if_splits)
  with t show ?thesis by (auto simp: correct_analysis_def Let_def split: prod.split option.split)
qed

lemma performFullReconciliation_typed:
  assumes "services_valid r" "state_typed st"
  shows "state_typed (snd (performFullReconciliation itd itc r st))"
proof -
  obtain res st1 where l: "on_world (r_ListAllPortForwards (rcRouter r)) st = (res, st1)" by fastforce
  obtain res2 st2 where m: "getAllManagedServices r st1 = (res2, st2)" by fastforce
  have t1: "state_typed st1" using assms(2) typed_on_worldD [OF l] by simp
  have t2: "state_typed st2"
    using t1 m by (auto simp: getAllManagedServices_def split: prod.splits sum.splits dest!: typed_on_worldD)
  have valid: "list_all ports_valid services" if "res2 = Inr services" for services
    using m that
    by (auto simp: getAllManagedServices_def on_world_def list_all_iff split: prod.splits sum.splits
        dest!: services_validD(2) [OF assms(1)])
  have used: "state_typed (st2\<lparr>usedPorts := used\<rparr>)"
    if "res2 = Inr services" "AnalyzeAllServicesDrift itd itc services rs (usedPorts st2) = (out, used)" for services rs out used
    using AnalyzeAllServicesDrift_typed [OF _ valid [OF that(1)], of "usedPorts st2" itd itc rs] t2 that(2)
    by (intro typed_ports) (auto simp: state_typed_def)
  have fold: "state_typed st \<Longrightarrow> state_typed (fold (correct_analysis r) as st)" for as st
    by (induction as arbitrary: st) (auto intro: typed)
  show ?thesis
    using l m t1 t2 used fold
    by (auto simp: performFullReconciliation_def split: sum.split prod.split)
qed

section \<open>The process\<close>

inductive process_step :: "'w Reconciler \<Rightarrow> 'w rstate \<Rightarrow> 'w rstate \<Rightarrow> bool" for r where
  reconcile: "Reconcile ovf itc itd r ns n st = (out, st') \<Longrightarrow> process_step r st st'"
| periodic: "performPeriodicReconciliation itd itc r st = (err, st') \<Longrightarrow> process_step r st st'"
| outside: "process_step r st (st\<lparr>world := w\<rparr>)"

inductive_cases process_stepE: "process_step r st st'"

lemma process_step_typed: "process_step r st st' \<Longrightarrow> services_valid r \<Longrightarrow> state_typed st \<Longrightarrow> state_typed st'"
proof (induction rule: process_step.induct)
  case (reconcile ovf itc itd ns n st out st')
  with Reconcile_typed [of r st ovf itc itd ns n] show ?case by simp
next
  case (periodic itd itc st err st')
  then have "state_typed (snd (time_now r st))" by (simp add: time_now_eq)
  with periodic performFullReconciliation_typed [of r "snd (time_now r st)" itd itc] show ?case
    by (simp add: performPeriodicReconciliation_def)
qed simp

text \<open>
  C13: the state of the controller stays well-typed.  Starting with empty maps, after any sequence of
  reconcile requests, periodic cycles and changes of the outside world, with whatever errors: no map has a key
  twice, every claimed external port is a port number from 1 to 65535 with a key of the form namespace/name,
  and every retry counter is between 1 and the limit.
\<close>

theorem controller_state_typed:
  assumes "services_valid r" and "(process_step r)\<^sup>*\<^sup>* st st'"
    and "usedPorts st = []" "recentCleanups st = []" "cleanupRetryCount st = []"
  shows "gm_wf (usedPorts st') \<and> gm_wf (recentCleanups st') \<and> gm_wf (cleanupRetryCount st') \<and>
    (\<forall>p k. gm_get (usedPorts st') p = Some k \<longrightarrow> 1 \<le> p \<and> p \<le> 65535 \<and> (\<exists>ns n. k = ns @ ''/'' @ n)) \<and>
    (\<forall>key n. gm_get (cleanupRetryCount st') key = Some n \<longrightarrow> 1 \<le> n \<and> n \<le> MaxCleanupRetries)"
proof -
  have "state_typed st" using assms(3-5) by (simp add: state_typed_def ports_typed_def retries_typed_def)
  with assms(2) have "state_typed st'"
    by (induction rule: rtranclp_induct) (auto intro: process_step_typed [OF _ assms(1)])
  then show ?thesis by (auto simp: state_typed_def ports_typed_def retries_typed_def valid_port_def)
qed

text \<open>
  The in-memory API server with admission: it has no service with an invalid port number to give.
\<close>

definition admitted :: "'w Kube \<Rightarrow> 'w Kube" where
  "admitted k =
     k\<lparr>k_Get := (\<lambda>ns n w. (case k_Get k ns n w of
         (Inr service, w1) \<Rightarrow>
           if ports_valid service then (Inr service, w1) else (Inl (StatusError NotFound ''not found''), w1)
       | (Inl err, w1) \<Rightarrow> (Inl err, w1))),
       k_ListServices := (\<lambda>w. (case k_ListServices k w of
         (Inr services, w1) \<Rightarrow> (Inr (filter ports_valid services), w1)
       | (Inl err, w1) \<Rightarrow> (Inl err, w1)))\<rparr>"

abbreviation admitted_reconciler :: "cluster Reconciler" where
  "admitted_reconciler \<equiv> (ref_reconciler ''default'')\<lparr>rcClient := admitted ref_kube\<rparr>"

lemma admitted_valid: "services_valid (r\<lparr>rcClient := admitted k\<rparr>)"
  by (auto simp: services_valid_def admitted_def list_all_iff split: prod.splits sum.splits if_splits)

lemma live_ports_valid: "ports_valid live_service"
  by (simp add: ports_valid_def live_service_def example_service_def example_port_def valid_port_def)

lemma admitted_live_run:
  obtains out st' where "Reconcile (\<lambda>_. 0) (\<lambda>ks. ks) rev admitted_reconciler ''web'' ''shop'' (live_state []) = (out, st')"
    and "gm_get (usedPorts st') 8080 = Some ''web/shop''"
proof -
  let ?r = "admitted_reconciler" and ?st = "(live_state [])\<lparr>usedPorts := [(8080, ''web/shop'')]\<rparr>"
  have rr: "rcRouter ?r = rcRouter (ref_reconciler ''default'')" by simp
  have l: "on_world (r_ListAllPortForwards (rcRouter ?r)) (live_state []) = (Inr example_rules, live_state [])"
    by (simp add: on_world_def router_eval example_rstate_def example_cluster_def)
  have rec: "Reconcile (\<lambda>_. 0) (\<lambda>ks. ks) rev ?r ''web'' ''shop'' (live_state []) =
     reconcile_rules (\<lambda>ks. ks) rev ?r ''web/shop'' live_service (live_state [])"
    by (simp add: Reconcile_def isRecentlyCleaned_def Let_def IsZeroTime_def on_world_def example_rstate_def
        example_cluster_def admitted_def ref_kube_def same_service_def live_sel live_ports_valid)
  have "\<exists>result st'. executeOperations (rcRouter ?r) (calculateDelta (\<lambda>ks. ks) rev ex_cur ex_ds live_context live_service)
      ?st = ((result, None), st') \<and> gm_get (usedPorts st') 8080 = Some ''web/shop''"
    unfolding live_delta
    by (simp add: delete_op_def rule_config_def strToInt_def exec_eval router_eval example_rstate_def
        example_cluster_def example_rules_def go_eval)
  then have "\<exists>ops ctx st'. processAllChanges (\<lambda>ks. ks) rev ?r live_service live_context ex_cur ?st = ((ops, ctx, None), st') \<and>
      gm_get (usedPorts st') 8080 = Some ''web/shop''"
    by (auto simp: processAllChanges_def live_desired Let_def)
  moreover have "HasRelevantChanges live_context" "\<not> IsInitialSync live_context"
    by (simp_all add: HasRelevantChanges_def newContext_def)
  moreover have "usedPorts (ownership_events ?r live_service ops st') = usedPorts st'" for ops st'
    unfolding ownership_events_def by (induction ops arbitrary: st') simp_all
  ultimately have "\<exists>out st'. reconcile_rules (\<lambda>ks. ks) rev ?r ''web/shop'' live_service (live_state []) = (out, st') \<and>
      gm_get (usedPorts st') 8080 = Some ''web/shop''"
    unfolding reconcile_rules_def l by (auto simp: live_changes live_filter Let_def)
  with that rec show ?thesis by auto
qed

theorem controller_state_typed_witness:
  "\<exists>st'. (process_step admitted_reconciler)\<^sup>*\<^sup>* (live_state []) st' \<and>
     gm_get (usedPorts st') 8080 = Some ''web/shop'' \<and> gm_wf (usedPorts st')"
proof -
  obtain out st' where run: "Reconcile (\<lambda>_. 0) (\<lambda>ks. ks) rev admitted_reconciler ''web'' ''shop'' (live_state []) = (out, st')"
    and claim: "gm_get (usedPorts st') 8080 = Some ''web/shop''"
    by (rule admitted_live_run)
  from run have steps: "(process_step admitted_reconciler)\<^sup>*\<^sup>* (live_state []) st'"
    by (intro r_into_rtranclp) (rule process_step.reconcile)
  with controller_state_typed [OF admitted_valid steps] claim show ?thesis
    by (auto simp: example_rstate_def)
qed

end
