(* ===== verification/RetryLoop.thy ===== *)
theory RetryLoop
  imports Cleanup
begin

text \<open>
  The retry loop of a deletion (\<open>handleFinalizerCleanup\<close> of pkg/controller/reconciler.go under the work queue
  of controller-runtime): a handler that returns an error or a \<open>RequeueAfter\<close> is called again.  As nothing in
  the queue bounds the number of calls, the loop is a partial function, and that it ends is a property of the
  handler: its retry counter makes it give up.  The second part has the reaction of the queue to each answer and
  what becomes of a deletion whose clean-up keeps failing.
\<close>

section \<open>The loop\<close>

text \<open>
  \<open>other i\<close> is what happens to the outside world before call \<open>i\<close>.  The result is the number of calls and
  the state after the last one; a loop that never ends has the value \<open>None\<close>.
\<close>

definition finished :: "Result \<times> error option \<Rightarrow> bool" where
  "finished out \<longleftrightarrow> snd out = None \<and> \<not> Requeue (fst out) \<and> RequeueAfter (fst out) = 0"

partial_function (option) requeue_loop ::
    "(nat \<Rightarrow> int) \<Rightarrow> 'w Reconciler \<Rightarrow> Service \<Rightarrow> (nat \<Rightarrow> 'w \<Rightarrow> 'w) \<Rightarrow> nat \<Rightarrow> 'w rstate \<Rightarrow> (nat \<times> 'w rstate) option" where
  "requeue_loop ovf r service other i st =
     (case handleFinalizerCleanup ovf r service (st\<lparr>world := other i (world st)\<rparr>) of (out, st1) \<Rightarrow>
        if finished out then Some (Suc i, st1)
        else requeue_loop ovf r service other (Suc i) st1)"

section \<open>One call\<close>

text \<open>
  Where the API server takes updates, a call that is not the last one is a failed clean-up: it was below the
  limit before, and is counted.
\<close>

lemma unfinished_call:
  assumes up: "\<And>svc w. is_ok (fst (k_Update (rcClient r) svc w))"
    and run: "handleFinalizerCleanup ovf r service st = (out, st')" and unf: "\<not> finished out"
  shows "getCleanupRetryCount (serviceKey service) st < MaxCleanupRetries \<and>
    getCleanupRetryCount (serviceKey service) st' = Suc (getCleanupRetryCount (serviceKey service) st)"
proof -
  let ?key = "serviceKey service"
  have go: "\<not> shouldGiveUpOnCleanup ovf ?key st"
    using run unf by (auto simp: handleFinalizerCleanup_def finished_def emptyResultR_def)
  obtain res st1 where f: "finalizeService r service st = (res, st1)" by fastforce
  have same: "cleanupRetryCount st1 = cleanupRetryCount st"
    using f by (auto simp: finalizeService_def on_world_eq split: prod.splits sum.splits option.splits
        dest: executeCleanup_frame)
  show ?thesis
  proof (cases res)
    case None
    let ?st2 = "markServiceCleanup r ?key (clearCleanupRetries ?key st1)"
    obtain w where "k_Update (rcClient r) (RemoveFinalizer service) (world ?st2) = (Inr (), w)"
      using up [of "RemoveFinalizer service" "world ?st2"]
      by (cases "k_Update (rcClient r) (RemoveFinalizer service) (world ?st2)") (auto simp: is_ok_iff)
    then have "on_world (k_Update (rcClient r) (RemoveFinalizer service)) ?st2 = (Inr (), ?st2\<lparr>world := w\<rparr>)"
      by (simp add: on_world_def)
    with None f go run unf show ?thesis
      by (simp add: handleFinalizerCleanup_def finished_def emptyResultR_def Let_def) (auto)
  next
    case (Some err)
    with f go run same show ?thesis
      by (auto simp: handleFinalizerCleanup_def recordCleanupRetry_def getCleanupRetryCount_def shouldGiveUpOnCleanup_def
          Let_def split: option.splits if_splits)
  qed
qed

lemma finished_call:
  assumes run: "handleFinalizerCleanup ovf r service st = (out, st')" and fin: "finished out"
  shows "shouldGiveUpOnCleanup ovf (serviceKey service) st' \<or> gm_get (cleanupRetryCount st') (serviceKey service) = None"
proof (cases "shouldGiveUpOnCleanup ovf (serviceKey service) st")
  case True
  with run show ?thesis by (simp add: handleFinalizerCleanup_def)
next
  case False
  obtain res st1 where f: "finalizeService r service st = (res, st1)" by fastforce
  from False f run fin have "res = None" by (cases res) (auto simp: handleFinalizerCleanup_def finished_def Let_def)
  with False f run show ?thesis
    by (auto simp: handleFinalizerCleanup_def clearCleanupRetries_def markServiceCleanup_def time_now_eq on_world_eq Let_def
        split: sum.splits prod.splits)
qed

section \<open>Termination\<close>

text \<open>
  C11: the retries of a deletion end.  Whatever happens to the router and the cluster between the calls, and
  whatever the router answers, the loop returns after at most six calls, provided the API server accepts the
  update that removes the finalizer: either the clean-up has succeeded and its counter is reset, or the handler
  has given up.
\<close>

theorem retry_loop_terminates:
  assumes up: "\<And>svc w. is_ok (fst (k_Update (rcClient r) svc w))"
  shows "\<exists>n st'. requeue_loop ovf r service other 0 st = Some (n, st') \<and>
    n \<le> Suc (MaxCleanupRetries - getCleanupRetryCount (serviceKey service) st) \<and>
    (shouldGiveUpOnCleanup ovf (serviceKey service) st' \<or> gm_get (cleanupRetryCount st') (serviceKey service) = None)"
proof -
  let ?key = "serviceKey service"
  have "\<exists>n st'. requeue_loop ovf r service other i st = Some (n, st') \<and>
      n \<le> i + Suc (MaxCleanupRetries - getCleanupRetryCount ?key st) \<and>
      (shouldGiveUpOnCleanup ovf ?key st' \<or> gm_get (cleanupRetryCount st') ?key = None)" for i
  proof (induction "MaxCleanupRetries - getCleanupRetryCount ?key st" arbitrary: i st rule: less_induct)
    case less
    let ?st = "st\<lparr>world := other i (world st)\<rparr>"
    obtain out st1 where run: "handleFinalizerCleanup ovf r service ?st = (out, st1)" by fastforce
    show ?case
    proof (cases "finished out")
      case True
      with run finished_call [OF run] show ?thesis by (simp add: requeue_loop.simps [of ovf r service other i])
    next
      case False
      have count: "getCleanupRetryCount ?key st < MaxCleanupRetries"
        "getCleanupRetryCount ?key st1 = Suc (getCleanupRetryCount ?key st)"
        using unfinished_call [OF up run False] by (simp_all add: getCleanupRetryCount_def)
      with less [of st1 "Suc i"] run False show ?thesis
        by (fastforce simp: requeue_loop.simps [of ovf r service other i])
    qed
  qed
  from this [of 0] show ?thesis by simp
qed

text \<open>A router that fails before every call: the loop ends by giving up, with the finalizer in place.\<close>

abbreviation steady_reconciler :: "cluster Reconciler" where
  "steady_reconciler \<equiv> (ref_reconciler ''default'')\<lparr>rcClient := ref_kube\<lparr>k_Update := (\<lambda>svc c. (Inr (), c))\<rparr>\<rparr>"

theorem retry_loop_terminates_witness:
  "\<exists>n st'. requeue_loop (\<lambda>_. 0) steady_reconciler dying_service (\<lambda>_ c. c\<lparr>gw_faults := [True]\<rparr>) 0
       (example_rstate (example_cluster example_rules [dying_service] [] [])) = Some (n, st') \<and> n \<le> 6"
  using retry_loop_terminates [of steady_reconciler "\<lambda>_. 0" dying_service "\<lambda>_ c. c\<lparr>gw_faults := [True]\<rparr>"
      "example_rstate (example_cluster example_rules [dying_service] [] [])"]
  by (auto simp: getCleanupRetryCount_def example_rstate_def MaxCleanupRetries_def)

text \<open>
  The condition on the API server is needed: a clean-up that succeeds resets the counter before the finalizer
  is removed, so while the router works and the update fails every time, the loop never ends.
\<close>

lemma failing_update_call:
  assumes fin: "\<And>st. fst (finalizeService r service st) = None"
    and down: "\<And>svc w. \<not> is_ok (fst (k_Update (rcClient r) svc w))"
    and zero: "getCleanupRetryCount (serviceKey service) st = 0"
    and run: "handleFinalizerCleanup ovf r service st = (out, st')"
  shows "\<not> finished out \<and> getCleanupRetryCount (serviceKey service) st' = 0"
proof -
  let ?key = "serviceKey service"
  obtain st1 where f: "finalizeService r service st = (None, st1)" using fin [of st] by (metis prod.collapse)
  let ?st2 = "markServiceCleanup r ?key (clearCleanupRetries ?key st1)"
  obtain e w where "k_Update (rcClient r) (RemoveFinalizer service) (world ?st2) = (Inl e, w)"
    using down [of "RemoveFinalizer service" "world ?st2"]
    by (cases "k_Update (rcClient r) (RemoveFinalizer service) (world ?st2)" rule: io_cases) auto
  then have u: "on_world (k_Update (rcClient r) (RemoveFinalizer service)) ?st2 = (Inl e, ?st2\<lparr>world := w\<rparr>)"
    by (simp add: on_world_def)
  have "\<not> shouldGiveUpOnCleanup ovf ?key st"
    using zero by (simp add: shouldGiveUpOnCleanup_def MaxCleanupRetries_def backoff_def CleanupRetryStartInterval_def
        CleanupRetryMaxInterval_def CleanupDeadline_def Second_def in_int64_def)
  with f u run show ?thesis
    by (auto simp: handleFinalizerCleanup_def finished_def Let_def getCleanupRetryCount_def markServiceCleanup_def
        clearCleanupRetries_def time_now_eq)
qed

lemma failing_updates_loop_forever:
  assumes "\<And>st. fst (finalizeService r service st) = None"
    and "\<And>svc w. \<not> is_ok (fst (k_Update (rcClient r) svc w))"
    and "getCleanupRetryCount (serviceKey service) st = 0"
  shows "requeue_loop ovf r service other i st = None"
proof -
  let ?P = "\<lambda>ovf' r' service' other' i' (st' :: 'a rstate) (y :: nat \<times> 'a rstate).
    r' = r \<and> service' = service \<longrightarrow> getCleanupRetryCount (serviceKey service) st' \<noteq> 0"
  have "?P ovf r service other i st y" if "requeue_loop ovf r service other i st = Some y" for y
  proof (rule requeue_loop.raw_induct [OF _ that, of ?P], goal_cases)
    case (1 loop ovf' r' service' other' i' st' y')
    obtain out st1 where run: "handleFinalizerCleanup ovf' r' service' (st'\<lparr>world := other' i' (world st')\<rparr>) = (out, st1)"
      by fastforce
    show ?case
    proof (intro impI notI)
      assume *: "r' = r \<and> service' = service" "getCleanupRetryCount (serviceKey service) st' = 0"
      with failing_update_call [OF assms(1,2), of "st'\<lparr>world := other' i' (world st')\<rparr>" ovf' out st1] run
      have "\<not> finished out" "getCleanupRetryCount (serviceKey service) st1 = 0"
        by (simp_all add: getCleanupRetryCount_def)
      with 1 run * show False by fastforce
    qed
  qed
  with assms(3) show ?thesis by (cases "requeue_loop ovf r service other i st") auto
qed

section \<open>The work queue\<close>

text \<open>
  What the work queue does with the answer of \<open>Reconcile\<close> (\<open>reconcileHandler\<close> of the vendored controller-runtime,
  internal/controller/controller.go; no error of this program is a terminal one): an error counts first, and the
  \<open>RequeueAfter\<close> that comes with it is ignored.
\<close>

datatype queue_call = AddRateLimited | AddAfter int | Forget

definition requeue :: "Result \<times> error option \<Rightarrow> queue_call list" where
  "requeue out =
     (case snd out of
        Some err \<Rightarrow> [AddRateLimited]
      | None \<Rightarrow>
          if RequeueAfter (fst out) > 0 then [Forget, AddAfter (RequeueAfter (fst out))]
          else if Requeue (fst out) then [AddRateLimited]
          else [Forget])"

text \<open>
  \<open>n\<close> calls of \<open>Reconcile\<close> for one service, whether they come from the queue or from events of the service, with
  anything that happens to the outside world before each of them, and what the queue does after each.
\<close>

fun reconcile_calls ::
    "(nat \<Rightarrow> int) \<Rightarrow> (string list \<Rightarrow> string list) \<Rightarrow> (string list \<Rightarrow> string list) \<Rightarrow> 'w Reconciler \<Rightarrow> string \<Rightarrow> string \<Rightarrow>
     (nat \<Rightarrow> 'w \<Rightarrow> 'w) \<Rightarrow> nat \<Rightarrow> 'w rstate \<Rightarrow> queue_call list \<times> 'w rstate" where
  "reconcile_calls ovf itc itd r namespace name other 0 st = ([], st)"
| "reconcile_calls ovf itc itd r namespace name other (Suc n) st =
     (let (out, st1) = Reconcile ovf itc itd r namespace name (st\<lparr>world := other n (world st)\<rparr>);
          (qs, st2) = reconcile_calls ovf itc itd r namespace name other n st1
      in (requeue out @ qs, st2))"

text \<open>A service under deletion that the API server still knows, and a clean-up that fails.\<close>

definition cleanup_fails :: "'w Reconciler \<Rightarrow> Service \<Rightarrow> 'w \<Rightarrow> bool" where
  "cleanup_fails r service w \<longleftrightarrow>
     (\<exists>w1. k_Get (rcClient r) (svcNamespace service) (svcName service) w = (Inr service, w1) \<and>
        (\<forall>st. world st = w1 \<longrightarrow> fst (finalizeService r service st) \<noteq> None))"

abbreviation with_update :: "'w Reconciler \<Rightarrow> (Service \<Rightarrow> 'w \<Rightarrow> (error + unit) \<times> 'w) \<Rightarrow> 'w Reconciler" where
  "with_update r u \<equiv> r\<lparr>rcClient := (rcClient r)\<lparr>k_Update := u\<rparr>\<rparr>"

lemma with_update_finalize: "finalizeService (with_update r u) service = finalizeService r service"
proof -
  have "publish (with_update r u) = publish r" by (intro ext) (simp add: publish_def)
  then show ?thesis by (intro ext) (simp add: finalizeService_def split: sum.split prod.split option.split)
qed

lemma with_update_fails: "cleanup_fails (with_update r u) service w = cleanup_fails r service w"
  by (simp add: cleanup_fails_def with_update_finalize)

text \<open>One call, before and after the limit.\<close>

lemma failing_call:
  assumes fails: "cleanup_fails r service (world st)"
    and dying: "\<not> IsZeroTime (svcDeletionTimestamp service)" "ContainsFinalizer service"
    and idle: "gm_get (recentCleanups st) (serviceKey service) = None"
  shows "\<exists>out st'. (\<forall>u. Reconcile ovf itc itd (with_update r u) (svcNamespace service) (svcName service) st = (out, st')) \<and>
    gm_get (recentCleanups st') (serviceKey service) = None \<and>
    (if getCleanupRetryCount (serviceKey service) st < 5
     then requeue out = [AddRateLimited] \<and>
       getCleanupRetryCount (serviceKey service) st' = Suc (getCleanupRetryCount (serviceKey service) st)
     else requeue out = [Forget] \<and>
       getCleanupRetryCount (serviceKey service) st' = getCleanupRetryCount (serviceKey service) st)"
proof -
  let ?key = "serviceKey service"
  obtain w1 where get: "k_Get (rcClient r) (svcNamespace service) (svcName service) (world st) = (Inr service, w1)"
    and "fst (finalizeService r service (st\<lparr>world := w1\<rparr>)) \<noteq> None"
    using fails by (auto simp: cleanup_fails_def)
  then obtain err st2 where f: "finalizeService r service (st\<lparr>world := w1\<rparr>) = (Some err, st2)"
    by (cases "finalizeService r service (st\<lparr>world := w1\<rparr>)") auto
  have rec: "Reconcile ovf itc itd (with_update r u) (svcNamespace service) (svcName service) st =
      handleFinalizerCleanup ovf (with_update r u) service (st\<lparr>world := w1\<rparr>)" for u
    using get dying idle by (simp add: Reconcile_def isRecentlyCleaned_def on_world_def serviceKey_def)
  have count: "getCleanupRetryCount ?key (st\<lparr>world := w1\<rparr>) = getCleanupRetryCount ?key st"
    by (simp add: getCleanupRetryCount_def)
  show ?thesis
  proof (cases "getCleanupRetryCount ?key st < 5")
    case True
    then have go: "\<not> shouldGiveUpOnCleanup ovf ?key (st\<lparr>world := w1\<rparr>)" by (simp add: give_up_iff count)
    let ?st3 = "recordCleanupRetry ?key st2"
    have "Reconcile ovf itc itd (with_update r u) (svcNamespace service) (svcName service) st =
        ((emptyResultR\<lparr>RequeueAfter := calculateRetryInterval ovf ?key ?st3\<rparr>, Some err), ?st3)" for u
      using go f by (simp add: rec handleFinalizerCleanup_def with_update_finalize Let_def)
    moreover have "gm_get (recentCleanups ?st3) ?key = None"
      "getCleanupRetryCount ?key ?st3 = Suc (getCleanupRetryCount ?key st)"
      using finalizeService_retry_frame [OF f] idle by (simp_all add: recordCleanupRetry_def getCleanupRetryCount_def)
    ultimately show ?thesis using True by (auto simp: requeue_def)
  next
    case False
    then have "Reconcile ovf itc itd (with_update r u) (svcNamespace service) (svcName service) st =
        ((emptyResultR, None), st\<lparr>world := w1\<rparr>)" for u
      by (simp add: rec handleFinalizerCleanup_def give_up_iff count Let_def)
    with False idle count show ?thesis by (auto simp: requeue_def emptyResultR_def)
  qed
qed

text \<open>
  C9: a deletion whose clean-up keeps failing is given up for good.  As long as the API server returns the service,
  under deletion and with the finalizer, and \<open>finalizeService\<close> fails, each call of \<open>Reconcile\<close> up to the fifth failure
  returns an error: the queue calls again at the pace of its own rate limiter, as the interval that comes with the
  error is ignored.  Every call from then on returns without an error and without a request to be called again, so the
  queue forgets the service.  The finalizer is not removed in any of these calls: they run exactly the same whatever
  the update of the service would do.  The key is not among the recent clean-ups, and the counter starts at most
  at its limit.
\<close>

theorem failing_cleanup_gives_up:
  assumes fails: "\<And>i w. cleanup_fails r service (other i w)"
    and dying: "\<not> IsZeroTime (svcDeletionTimestamp service)" "ContainsFinalizer service"
    and idle: "gm_get (recentCleanups st) (serviceKey service) = None"
    and count: "getCleanupRetryCount (serviceKey service) st \<le> MaxCleanupRetries"
  shows "\<exists>st'. (\<forall>u. reconcile_calls ovf itc itd (with_update r u) (svcNamespace service) (svcName service) other n st =
      (replicate (min n (MaxCleanupRetries - getCleanupRetryCount (serviceKey service) st)) AddRateLimited @
       replicate (n - (MaxCleanupRetries - getCleanupRetryCount (serviceKey service) st)) Forget, st')) \<and>
    getCleanupRetryCount (serviceKey service) st' = min MaxCleanupRetries (getCleanupRetryCount (serviceKey service) st + n)"
  using idle count
proof (induction n arbitrary: st)
  case 0
  then show ?case by simp
next
  case (Suc n)
  let ?key = "serviceKey service" and ?st = "st\<lparr>world := other n (world st)\<rparr>"
  let ?calls = "\<lambda>u. reconcile_calls ovf itc itd (with_update r u) (svcNamespace service) (svcName service) other"
  have same: "getCleanupRetryCount ?key ?st = getCleanupRetryCount ?key st" "gm_get (recentCleanups ?st) ?key = None"
    "cleanup_fails r service (world ?st)"
    using Suc.prems(1) fails by (simp_all add: getCleanupRetryCount_def)
  from failing_call [OF same(3) dying same(2)] obtain out st1 where
    call: "\<And>u. Reconcile ovf itc itd (with_update r u) (svcNamespace service) (svcName service) ?st = (out, st1)"
    and idle1: "gm_get (recentCleanups st1) ?key = None"
    and one: "if getCleanupRetryCount ?key st < 5
      then requeue out = [AddRateLimited] \<and> getCleanupRetryCount ?key st1 = Suc (getCleanupRetryCount ?key st)
      else requeue out = [Forget] \<and> getCleanupRetryCount ?key st1 = getCleanupRetryCount ?key st"
    unfolding same(1) by blast
  have "getCleanupRetryCount ?key st1 \<le> MaxCleanupRetries"
    using one Suc.prems(2) by (auto simp: MaxCleanupRetries_def split: if_splits)
  from Suc.IH [OF idle1 this] obtain st' where
    rest: "\<And>u. ?calls u n st1 = (replicate (min n (MaxCleanupRetries - getCleanupRetryCount ?key st1)) AddRateLimited @
       replicate (n - (MaxCleanupRetries - getCleanupRetryCount ?key st1)) Forget, st')"
    and final: "getCleanupRetryCount ?key st' = min MaxCleanupRetries (getCleanupRetryCount ?key st1 + n)" by blast
  show ?case
  proof (cases "getCleanupRetryCount ?key st < 5")
    case True
    then obtain k where k: "5 - getCleanupRetryCount ?key st = Suc k" "5 - Suc (getCleanupRetryCount ?key st) = k"
      by (metis Suc_diff_Suc)
    with True one rest call final show ?thesis by (auto simp: MaxCleanupRetries_def)
  next
    case False
    with one rest call final Suc.prems(2) show ?thesis by (auto simp: MaxCleanupRetries_def)
  qed
qed

text \<open>
  A router that never answers: after seven calls the queue has given up, with the finalizer in place.
\<close>

theorem failing_cleanup_gives_up_witness:
  "\<exists>st'. reconcile_calls (\<lambda>_. 0) (\<lambda>ks. ks) rev (ref_reconciler ''default'') ''web'' ''shop''
       (\<lambda>_ c. c\<lparr>gw_session := True, gw_faults := [True], cl_services := [dying_service]\<rparr>) 7
       (example_rstate (example_cluster example_rules [dying_service] [] [])) =
     ([AddRateLimited, AddRateLimited, AddRateLimited, AddRateLimited, AddRateLimited, Forget, Forget], st')"
proof -
  let ?r = "ref_reconciler ''default'' :: cluster Reconciler" and ?st = "example_rstate (example_cluster example_rules [dying_service] [] [])"
  let ?other = "\<lambda>_ c. c\<lparr>gw_session := True, gw_faults := [True], cl_services := [dying_service]\<rparr> :: cluster"
  have "fst (finalizeService ?r dying_service st) \<noteq> None" if "world st = ?other i w" for st i w
    using that by (cases w) (simp add: finalizeService_def on_world_def router_eval)
  then have fails: "cleanup_fails ?r dying_service (?other i w)" for i w
    by (simp add: cleanup_fails_def ref_kube_def same_service_def)
  have dying: "\<not> IsZeroTime (svcDeletionTimestamp dying_service)" "ContainsFinalizer dying_service"
    "gm_get (recentCleanups ?st) (serviceKey dying_service) = None"
    "getCleanupRetryCount (serviceKey dying_service) ?st \<le> MaxCleanupRetries"
    "getCleanupRetryCount (serviceKey dying_service) ?st = 0" "svcNamespace dying_service = ''web''" "svcName dying_service = ''shop''"
    by (simp_all add: cluster_eval ContainsFinalizer_def IsZeroTime_def getCleanupRetryCount_def)
  have "\<exists>st'. (\<forall>u. reconcile_calls (\<lambda>_. 0) (\<lambda>ks. ks) rev (with_update ?r u) ''web'' ''shop'' ?other 7 ?st =
      (replicate 5 AddRateLimited @ replicate 2 Forget, st')) \<and> getCleanupRetryCount (serviceKey dying_service) st' = 5"
    using failing_cleanup_gives_up [where ovf = "\<lambda>_. 0" and itc = "\<lambda>ks. ks" and itd = rev and n = 7 and other = ?other,
        OF fails dying(1-4)]
    unfolding dying(5-7) by (simp add: MaxCleanupRetries_def)
  then obtain st' where "\<And>u. reconcile_calls (\<lambda>_. 0) (\<lambda>ks. ks) rev (with_update ?r u) ''web'' ''shop'' ?other 7 ?st =
      (replicate 5 AddRateLimited @ replicate 2 Forget, st')" by blast
  from this [of "k_Update ref_kube"] have "reconcile_calls (\<lambda>_. 0) (\<lambda>ks. ks) rev ?r ''web'' ''shop'' ?other 7 ?st =
      (replicate 5 AddRateLimited @ replicate 2 Forget, st')" by (simp add: ref_reconciler_def)
  then show ?thesis by (simp add: numeral_eq_Suc)
qed

end
