(* ===== verification/Helpers.thy ===== *)
theory Helpers
  imports RuleNames Config
begin

text \<open>
  The facade that the controllers import (pkg/helpers/helpers.go): functions that hand their arguments to
  pkg/utils under the same name (here with the prefix \<open>h_\<close>), and the test whether the API server knows the
  custom resource (pkg/utils/string_utils.go).  The synchronisation of the port map is in \<open>RuleNames\<close>.
\<close>

section \<open>Forwarding functions\<close>

definition h_GetLBIP :: "Service \<Rightarrow> string" where
  "h_GetLBIP service = GetLBIP service"

definition h_GetPortConfigs :: "Service \<Rightarrow> string \<Rightarrow> string \<Rightarrow> ports \<Rightarrow> PortConfig list result \<times> ports" where
  "h_GetPortConfigs service lbIP annotationKey used = GetPortConfigs service lbIP annotationKey used"

definition h_UnmarkPortUsed :: "int \<Rightarrow> ports \<Rightarrow> ports" where
  "h_UnmarkPortUsed externalPort used = UnmarkPortUsed externalPort used"

definition h_ClearPortConflictTracking :: "ports \<Rightarrow> ports" where
  "h_ClearPortConflictTracking used = ClearPortConflictTracking used"

definition h_RuleBelongsToService :: "string \<Rightarrow> string \<Rightarrow> string \<Rightarrow> bool" where
  "h_RuleBelongsToService ruleName namespace serviceName = RuleBelongsToService ruleName namespace serviceName"

definition h_ParseIntField :: "string \<Rightarrow> int" where
  "h_ParseIntField input = ParseIntField input"

definition h_GetPortNameByNumber :: "Service \<Rightarrow> int \<Rightarrow> string" where
  "h_GetPortNameByNumber service portNumber = GetPortNameByNumber service portNumber"

definition h_IsManagedRule :: "string \<Rightarrow> bool" where
  "h_IsManagedRule ruleName = IsManagedRule ruleName"

definition h_ExtractServiceKeyFromRuleName :: "string \<Rightarrow> string" where
  "h_ExtractServiceKeyFromRuleName ruleName = ExtractServiceKeyFromRuleName ruleName"

definition h_GetUsedExternalPorts :: "ports \<Rightarrow> ports" where
  "h_GetUsedExternalPorts used = GetUsedExternalPorts used"

definition h_GetServicePortByName :: "Service \<Rightarrow> string \<Rightarrow> ServicePort option" where
  "h_GetServicePortByName service portName = GetServicePortByName service portName"

definition h_isManagedRule :: "string \<Rightarrow> bool" where
  "h_isManagedRule ruleName = IsManagedRuleUnexported ruleName"

definition h_extractServiceKeyFromRuleName :: "string \<Rightarrow> string" where
  "h_extractServiceKeyFromRuleName ruleName = ExtractServiceKeyFromRuleNameUnexported ruleName"

definition h_CheckPortConflict :: "int \<Rightarrow> string \<Rightarrow> ports \<Rightarrow> unit result" where
  "h_CheckPortConflict externalPort key used = CheckPortConflict externalPort key used"

definition h_markPortUsed :: "int \<Rightarrow> string \<Rightarrow> ports \<Rightarrow> ports" where
  "h_markPortUsed externalPort key used = MarkPortUsed externalPort key used"

definition h_UnmarkPortsForService :: "string \<Rightarrow> ports \<Rightarrow> ports" where
  "h_UnmarkPortsForService key used = UnmarkPortsForService key used"

lemmas helpers_defs = h_GetLBIP_def h_GetPortConfigs_def h_UnmarkPortUsed_def h_ClearPortConflictTracking_def
  h_RuleBelongsToService_def h_ParseIntField_def h_GetPortNameByNumber_def h_IsManagedRule_def
  h_ExtractServiceKeyFromRuleName_def h_GetUsedExternalPorts_def h_GetServicePortByName_def h_isManagedRule_def
  h_extractServiceKeyFromRuleName_def h_CheckPortConflict_def h_markPortUsed_def h_UnmarkPortsForService_def
  IsManagedRule_def IsManagedRuleUnexported_def ExtractServiceKeyFromRuleName_def
  ExtractServiceKeyFromRuleNameUnexported_def MarkPortUsed_def

text \<open>
  Through the facade, too, a port marked for the service of a generated rule name conflicts for every other
  service until the service is unmarked.
\<close>

lemma facade_ownership:
  assumes "dns_name (svcNamespace service)" "dns_name (svcName service)" "spName port \<noteq> ''''"
    and "gm_wf used" and "other \<noteq> serviceKey service"
  shows "h_IsManagedRule (rule_name service port)"
    and "\<not> is_ok (h_CheckPortConflict p other
           (h_markPortUsed p (h_ExtractServiceKeyFromRuleName (rule_name service port)) used))"
    and "is_ok (h_CheckPortConflict p other
           (h_UnmarkPortsForService (serviceKey service)
             (h_markPortUsed p (h_ExtractServiceKeyFromRuleName (rule_name service port)) used)))"
  using assms generated_name [OF assms(1-3)]
  by (simp_all add: helpers_defs tracker.check_iff tracker.owner_mark tracker.owner_unmark_service tracker.inv_mark)

section \<open>Is the custom resource installed?\<close>

text \<open>
  \<open>NewApiClient\<close> stands for \<open>client.New\<close>; of a \<open>CustomResourceDefinition\<close> the code reads the kind among
  its accepted names.
\<close>

record CustomResourceDefinition =
  crdAcceptedKind :: string

record 'w ApiClient =
  ac_GetCRD :: "string \<Rightarrow> ('w, CustomResourceDefinition) io"

definition createUncachedClient :: "('c \<Rightarrow> 's \<Rightarrow> ('w, 'w ApiClient) io) \<Rightarrow> 'c \<Rightarrow> 's \<Rightarrow> ('w, 'w ApiClient) io" where
  "createUncachedClient NewApiClient restConfig scheme = NewApiClient restConfig scheme"

definition IsPortForwardRuleCRDAvailable ::
    "('c \<Rightarrow> 's \<Rightarrow> ('w, 'w ApiClient) io) \<Rightarrow> 'c \<Rightarrow> 's \<Rightarrow> 'w \<Rightarrow> bool \<times> 'w" where
  "IsPortForwardRuleCRDAvailable NewApiClient restConfig scheme w =
     (let crdName = ''portforwardrules.unifi-port-forward.fiskhe.st'' in
      case createUncachedClient NewApiClient restConfig scheme w of
        (Inl err, w1) \<Rightarrow> (False, w1)
      | (Inr uncachedClient, w1) \<Rightarrow>
          (case ac_GetCRD uncachedClient crdName w1 of
             (Inl err, w2) \<Rightarrow> (False, w2)
           | (Inr crd, w2) \<Rightarrow> (length (crdAcceptedKind crd) > 0, w2)))"

definition h_IsPortForwardRuleCRDAvailable ::
    "('c \<Rightarrow> 's \<Rightarrow> ('w, 'w ApiClient) io) \<Rightarrow> 'c \<Rightarrow> 's \<Rightarrow> 'w \<Rightarrow> bool \<times> 'w" where
  "h_IsPortForwardRuleCRDAvailable NewApiClient restConfig scheme w =
     IsPortForwardRuleCRDAvailable NewApiClient restConfig scheme w"

text \<open>
  The name that is looked up is the one of pkg/config; the answer is yes only when it was found and accepted,
  and every error means no.
\<close>

lemma crd_available_iff:
  "fst (IsPortForwardRuleCRDAvailable NewApiClient restConfig scheme w) \<longleftrightarrow>
     (\<exists>client w1 crd w2. NewApiClient restConfig scheme w = (Inr client, w1) \<and>
        ac_GetCRD client PortForwardRulesCRDName w1 = (Inr crd, w2) \<and> crdAcceptedKind crd \<noteq> '''')"
  by (auto simp: IsPortForwardRuleCRDAvailable_def createUncachedClient_def PortForwardRulesCRDName_def Let_def
      split: prod.split sum.split)

end
