(* ===== verification/StartUp.thy ===== *)
theory StartUp
  imports Periodic RuleEnv Helpers CommandLine
begin

text \<open>
  The start of the controller process (main.go): from the command line to the point where the manager runs the
  controllers, and the end of the process on a signal.

  What main.go gets from libraries is the record \<open>Platform\<close>: the UniFi client's constructor, the manager of
  controller-runtime, the registration of the API types, the API client for the look-up of the custom resource,
  the clock and the text of field errors.  \<open>runController\<close> is modelled up to \<open>mgr.Start\<close>: its result is what
  is running then.  \<open>ctrl.GetConfigOrDie\<close>, which ends the process outside of a cluster, has no counterpart.
\<close>

section \<open>What is running\<close>

record 'w Manager =
  mgClient :: "'w RuleClient"
  mgComplete :: "string \<Rightarrow> ('w, unit) io"

record 'w Platform =
  pfNewClient :: "ClientConfig \<Rightarrow> ('w, 'w UnifiClient) io"
  pfNewManager :: "('w, 'w Manager) io"
  pfAddCore :: "unit result"
  pfAddApiextensions :: "unit result"
  pfAddRules :: "unit result"
  pfNewApiClient :: "unit \<Rightarrow> unit \<Rightarrow> ('w, 'w ApiClient) io"
  pfNow :: "'w \<Rightarrow> int \<times> 'w"
  pfFmt :: "FieldError list \<Rightarrow> string"

record 'w Running =
  ruServices :: "'w Reconciler"
  ruRules :: "'w RuleReconciler option"
  ruPeriodic :: "'w PeriodicReconciler"

section \<open>The controller command\<close>

definition add_schemes :: "'w Platform \<Rightarrow> error option" where
  "add_schemes p =
     (case pfAddCore p of
        Inl err \<Rightarrow> Some (wrap ''failed to add corev1 to scheme'' err)
      | Inr _ \<Rightarrow>
          (case pfAddApiextensions p of
             Inl err \<Rightarrow> Some (wrap ''failed to add apiextensionsv1 to scheme'' err)
           | Inr _ \<Rightarrow>
               (case pfAddRules p of
                  Inl err \<Rightarrow> Some (wrap ''failed to add v1alpha1 to scheme'' err)
                | Inr _ \<Rightarrow> None)))"

text \<open>The reconciler's literal; every other field has its zero value.\<close>

definition service_reconciler :: "'w Platform \<Rightarrow> 'w Manager \<Rightarrow> 'w Router \<Rightarrow> 'w Reconciler" where
  "service_reconciler p mgr router =
     \<lparr>rcClient = Kube.truncate (mgClient mgr), rcRouter = router, rcEventPublisher = None, rcCleanupWindow = 0,
      rcNow = pfNow p\<rparr>"

definition rule_reconciler :: "'w Platform \<Rightarrow> 'w Manager \<Rightarrow> 'w Router \<Rightarrow> 'w RuleReconciler" where
  "rule_reconciler p mgr router =
     \<lparr>rrClient = mgClient mgr, rrRouter = router, rrNow = pfNow p, rrFmt = pfFmt p\<rparr>"

text \<open>The second controller, only where the custom resource is installed.\<close>

definition setup_rules ::
    "'w Platform \<Rightarrow> 'w Manager \<Rightarrow> 'w Router \<Rightarrow> 'w rstate \<Rightarrow> 'w RuleReconciler option result \<times> 'w rstate" where
  "setup_rules p mgr router st =
     (let (available, w) = h_IsPortForwardRuleCRDAvailable (pfNewApiClient p) () () (world st);
          st1 = st\<lparr>world := w\<rparr>
      in if available then
           (case on_world (SetupRuleWithManager (mgComplete mgr)) st1 of
              (Inl err, st2) \<Rightarrow> (Inl (wrap ''failed to setup PortForwardRule controller'' err), st2)
            | (Inr _, st2) \<Rightarrow> (Inr (Some (rule_reconciler p mgr router)), st2))
         else (Inr None, st1))"

definition setup_controllers ::
    "'w Platform \<Rightarrow> 'w Manager \<Rightarrow> 'w Router \<Rightarrow> Config \<Rightarrow> 'w rstate \<Rightarrow> 'w Running result \<times> 'w rstate" where
  "setup_controllers p mgr router cfg st =
     (case SetupWithManager (mgComplete mgr) (service_reconciler p mgr router) st of
        (Some err, r, st1) \<Rightarrow> (Inl (wrap ''failed to setup controller'' err), st1)
      | (None, r, st1) \<Rightarrow>
          (case PerformInitialReconciliationSync r st1 of
             (Some err, st2) \<Rightarrow> (Inl (wrap ''failed to perform initial sync'' err), st2)
           | (None, st2) \<Rightarrow>
               (case setup_rules p mgr router st2 of
                  (Inl err, st3) \<Rightarrow> (Inl err, st3)
                | (Inr rules, st3) \<Rightarrow>
                    (Inr \<lparr>ruServices = r, ruRules = rules, ruPeriodic = NewPeriodicReconciler r (SyncInterval cfg)\<rparr>, st3))))"

definition runController :: "'w Platform \<Rightarrow> Config \<Rightarrow> 'w rstate \<Rightarrow> 'w Running result \<times> 'w rstate" where
  "runController p cfg st =
     (case on_world (CreateUnifiRouter (pfNewClient p) (Host cfg) (Username cfg) (Password cfg) (Site cfg) (APIKey cfg)) st of
        (Inl err, st1) \<Rightarrow> (Inl (wrap ''failed to create router'' err), st1)
      | (Inr router, st1) \<Rightarrow>
          (case on_world (pfNewManager p) st1 of
             (Inl err, st2) \<Rightarrow> (Inl (wrap ''failed to create manager'' err), st2)
           | (Inr mgr, st2) \<Rightarrow>
               (case add_schemes p of
                  Some err \<Rightarrow> (Inl err, st2)
                | None \<Rightarrow> setup_controllers p mgr (unifi_router router) cfg st2)))"

text \<open>
  The root command: the configuration is loaded and checked before the command runs.  \<open>main\<close> prints an
  error and exits with status 1.
\<close>

definition controllerCmd ::
    "(string \<Rightarrow> int result) \<Rightarrow> (string \<Rightarrow> string) \<Rightarrow> Flags \<Rightarrow> 'w Platform \<Rightarrow> 'w rstate \<Rightarrow> 'w Running result \<times> 'w rstate" where
  "controllerCmd ParseDuration env fl p st =
     (case PersistentPreRunE ParseDuration env fl of
        Inl err \<Rightarrow> (Inl err, st)
      | Inr cfg \<Rightarrow> runController p cfg st)"

definition main_failure :: "error \<Rightarrow> string \<times> int" where
  "main_failure err = (''Error: '' @ Error err @ [CHR 0x0A], 1)"

text \<open>
  The sub-commands and the flags of the clean command: name, shorthand and default.
\<close>

datatype Subcommand = ControllerSub | CleanSub

fun commandUse :: "Subcommand \<Rightarrow> string" where
  "commandUse ControllerSub = ''controller''"
| "commandUse CleanSub = ''clean''"

definition clean_flags :: "(string \<times> string \<times> string) list" where
  "clean_flags = [(''port-mappings'', ''m'', ''''), (''port-mappings-file'', ''f'', '''')]"

definition subcommands :: "(string \<times> Subcommand) list" where
  "subcommands = map (\<lambda>c. (commandUse c, c)) [ControllerSub, CleanSub]"

text \<open>
  \<open>Execute\<close>.  Finding the command that the arguments name is the work of cobra, the parameter \<open>find_command\<close>: \<open>None\<close> stands
  for the root command, which runs the controller.  \<open>m\<close> and \<open>f\<close> are the values of the flags of the clean command.  The
  help flag, which cobra answers itself, is not modelled.
\<close>

datatype 'w Ran = RanController "'w Running" | RanClean

definition run_controllerCmd ::
    "(string \<Rightarrow> int result) \<Rightarrow> (string \<Rightarrow> string) \<Rightarrow> Flags \<Rightarrow> 'w Platform \<Rightarrow> 'w rstate \<Rightarrow> 'w Ran result \<times> 'w rstate" where
  "run_controllerCmd ParseDuration env fl p st =
     (case controllerCmd ParseDuration env fl p st of
        (Inl err, st1) \<Rightarrow> (Inl err, st1)
      | (Inr running, st1) \<Rightarrow> (Inr (RanController running), st1))"

definition Execute ::
    "((string \<times> Subcommand) list \<Rightarrow> string list \<Rightarrow> Subcommand option result) \<Rightarrow> (string \<Rightarrow> int result) \<Rightarrow> (string \<Rightarrow> string) \<Rightarrow>
     Flags \<Rightarrow> 'w Platform \<Rightarrow> FileSystem \<Rightarrow> (bool \<Rightarrow> string \<Rightarrow> (string \<times> string) list result) \<Rightarrow>
     (string list \<Rightarrow> string list) \<Rightarrow> (CleanerConfig \<Rightarrow> ('w, 'w Router) io) \<Rightarrow> string \<Rightarrow> string \<Rightarrow> string list \<Rightarrow>
     'w rstate \<Rightarrow> 'w Ran result \<times> 'w rstate" where
  "Execute find_command ParseDuration env fl p fs decode it create m f args st =
     (case find_command subcommands args of
        Inl err \<Rightarrow> (Inl err, st)
      | Inr None \<Rightarrow> run_controllerCmd ParseDuration env fl p st
      | Inr (Some ControllerSub) \<Rightarrow> run_controllerCmd ParseDuration env fl p st
      | Inr (Some CleanSub) \<Rightarrow>
          (case PersistentPreRunE ParseDuration env fl of
             Inl err \<Rightarrow> (Inl err, st)
           | Inr cfg \<Rightarrow>
               (case runClean fs decode it create cfg m f (world st) of
                  (Some err, w) \<Rightarrow> (Inl err, st\<lparr>world := w\<rparr>)
                | (None, w) \<Rightarrow> (Inr RanClean, st\<lparr>world := w\<rparr>))))"

text \<open>
  Whatever the arguments are, nothing is touched before the configuration has passed its checks; and the controller is
  the default command.
\<close>

lemma invalid_configuration_touches_nothing:
  "PersistentPreRunE ParseDuration env fl = Inl err \<Longrightarrow>
     snd (Execute find_command ParseDuration env fl p fs decode it create m f args st) = st"
  by (simp add: Execute_def run_controllerCmd_def controllerCmd_def split: sum.split option.split Subcommand.split)

lemma controller_is_default:
  assumes "find_command subcommands [] = Inr None" "find_command subcommands [''controller''] = Inr (Some ControllerSub)"
  shows "Execute find_command ParseDuration env fl p fs decode it create m f [] st =
    Execute find_command ParseDuration env fl p fs decode it create m f [''controller''] st"
  using assms by (simp add: Execute_def)

lemma clean_needs_mappings:
  assumes "find_command subcommands args = Inr (Some CleanSub)" and "PersistentPreRunE ParseDuration env fl = Inr cfg"
  shows "Execute find_command ParseDuration env fl p fs decode it create '''' '''' args st =
    (Inl (ErrorString ''--port-mappings or --port-mappings-file is required''), st)"
  using assms by (simp add: Execute_def runClean_def)

text \<open>A process starts with the empty map of claimed ports.\<close>

definition new_process :: "'w \<Rightarrow> 'w rstate" where
  "new_process w = \<lparr>usedPorts = [], world = w, recentCleanups = [], cleanupRetryCount = [], events = []\<rparr>"

section \<open>The end of the process\<close>

text \<open>
  Two goroutines wait for the same signals: the one of \<open>setupGracefulShutdown\<close> exits, the other one stops the
  periodic reconciler and then exits.  \<open>shutdown\<close> runs them in the order they are scheduled; the first
  exit ends the process, and so does a panic.
\<close>

datatype handler = ExitHandler | StopHandler

fun shutdown :: "handler list \<Rightarrow> 'w PeriodicReconciler \<Rightarrow> bool \<times> 'w PeriodicReconciler" where
  "shutdown [] p = (False, p)"
| "shutdown (ExitHandler # hs) p = (True, p)"
| "shutdown (StopHandler # hs) p =
     (case Stop p of
        Some (Return p') \<Rightarrow> (True, p')
      | Some Panic \<Rightarrow> (True, p)
      | None \<Rightarrow> shutdown hs p)"

text \<open>Whether the periodic reconciler is stopped depends on which goroutine comes first.\<close>

lemma shutdown_may_skip_stop:
  assumes "start_ticker (NewPeriodicReconciler parts interval) = Return p"
  shows "shutdown [ExitHandler, StopHandler] p = (True, p)" and "\<not> prStopClosed p"
    and "prStopClosed (snd (shutdown [StopHandler, ExitHandler] p))"
  using assms first_stop_returns [OF assms]
  by (auto simp: start_ticker_def NewPeriodicReconciler_def split: if_splits)

section \<open>What the start-up establishes\<close>

text \<open>
  What main.go relies on: every client for the gateway keeps the client's contract, and nothing else that the
  platform offers changes the rules on the gateway.
\<close>

locale platform_contract =
  fixes p :: "'w Platform" and rules :: "'w \<Rightarrow> PortForward list"
  assumes clients: "pfNewClient p cfg w = (Inr client, w1) \<Longrightarrow> unifi_client \<lparr>urSiteID = site, urClient = client\<rparr> rules"
    and client_frame: "mset (rules (snd (pfNewClient p cfg w))) = mset (rules w)"
    and manager_frame: "mset (rules (snd (pfNewManager p w))) = mset (rules w)"
    and complete_frame: "pfNewManager p w = (Inr mgr, w1) \<Longrightarrow> mset (rules (snd (mgComplete mgr n v))) = mset (rules v)"
    and kube_frame: "pfNewManager p w = (Inr mgr, w1) \<Longrightarrow>
      mset (rules (snd (k_Get (mgClient mgr) ns n v))) = mset (rules v) \<and>
      mset (rules (snd (k_Update (mgClient mgr) svc v))) = mset (rules v) \<and>
      mset (rules (snd (k_ListServices (mgClient mgr) v))) = mset (rules v)"
    and rule_client_frame: "pfNewManager p w = (Inr mgr, w1) \<Longrightarrow>
      mset (rules (snd (rk_GetRule (mgClient mgr) ns n v))) = mset (rules v) \<and>
      mset (rules (snd (rk_UpdateRule (mgClient mgr) rule v))) = mset (rules v) \<and>
      mset (rules (snd (rk_UpdateRuleStatus (mgClient mgr) rule v))) = mset (rules v) \<and>
      mset (rules (snd (rk_ListRules (mgClient mgr) v))) = mset (rules v)"
    and api_frame: "mset (rules (snd (pfNewApiClient p () () w))) = mset (rules w)"
    and crd_frame: "pfNewApiClient p () () w = (Inr client', w1) \<Longrightarrow> mset (rules (snd (ac_GetCRD client' n v))) = mset (rules v)"
    and clock_frame: "mset (rules (snd (pfNow p w))) = mset (rules w)"
begin

lemma crd_check_frame: "mset (rules (snd (h_IsPortForwardRuleCRDAvailable (pfNewApiClient p) () () w))) = mset (rules w)"
proof (cases "pfNewApiClient p () () w" rule: io_cases)
  case (Ok client w1)
  from crd_frame [OF Ok] api_frame [of w] Ok show ?thesis
    by (auto simp: h_IsPortForwardRuleCRDAvailable_def IsPortForwardRuleCRDAvailable_def createUncachedClient_def Let_def
        split: prod.split sum.split dest: spec arg_cong [where f = snd]) (metis snd_conv)+
qed (use api_frame [of w] in \<open>simp add: h_IsPortForwardRuleCRDAvailable_def IsPortForwardRuleCRDAvailable_def
    createUncachedClient_def\<close>)

lemma setup_rules_ok:
  assumes mgr: "pfNewManager p w = (Inr mgr, w1)" and "setup_rules p mgr R st = (Inr rs, st')"
  shows "mset (rules (world st')) = mset (rules (world st))" and "usedPorts st' = usedPorts st"
    and "rs = None \<or> rs = Some (rule_reconciler p mgr R)"
    and "rs \<noteq> None \<longleftrightarrow> fst (h_IsPortForwardRuleCRDAvailable (pfNewApiClient p) () () (world st))"
  using assms(2) crd_check_frame [of "world st"] complete_frame [OF mgr]
  by (auto simp: setup_rules_def SetupRuleWithManager_def on_world_eq Let_def split: prod.splits sum.splits if_splits)

lemma sync_ok:
  assumes "unifi_client U rules" and "rcRouter r = unifi_router U" and "PerformInitialReconciliationSync r st = (None, st')"
  shows "mset (rules (world st')) = mset (rules (world st)) \<and> usedPorts st' = usedPorts st"
  using assms unifi_client.list_all_ok [OF assms(1), of "world st"]
  by (auto simp: PerformInitialReconciliationSync_def on_world_def split: prod.splits sum.splits)

end

lemma runControllerE:
  assumes "runController p cfg st = (Inr running, st')"
  obtains U mgr st1 st2 where
    "on_world (CreateUnifiRouter (pfNewClient p) (Host cfg) (Username cfg) (Password cfg) (Site cfg) (APIKey cfg)) st = (Inr U, st1)"
    "on_world (pfNewManager p) st1 = (Inr mgr, st2)" "setup_controllers p mgr (unifi_router U) cfg st2 = (Inr running, st')"
  using assms by (auto simp: runController_def split: prod.splits sum.splits option.splits)

lemma setup_controllersE:
  assumes "setup_controllers p mgr R cfg st = (Inr running, st')"
  obtains r st1 st2 rs where "SetupWithManager (mgComplete mgr) (service_reconciler p mgr R) st = (None, r, st1)"
    "PerformInitialReconciliationSync r st1 = (None, st2)" "setup_rules p mgr R st2 = (Inr rs, st')"
    "running = \<lparr>ruServices = r, ruRules = rs, ruPeriodic = NewPeriodicReconciler r (SyncInterval cfg)\<rparr>"
  using assms by (auto simp: setup_controllers_def split: prod.splits sum.splits option.splits)

lemma SetupWithManagerE:
  assumes "SetupWithManager complete r st = (None, r1, st')"
  obtains "r1 = r\<lparr>rcEventPublisher := Some True, rcCleanupWindow := 2 * Second\<rparr>"
    "usedPorts st' = usedPorts st" "world st' = snd (complete ''port-forward-controller'' (world st))"
    "recentCleanups st' = []" "cleanupRetryCount st' = []"
  using assms by (auto simp: SetupWithManager_def NewEventPublisher_def on_world_eq Let_def split: prod.splits sum.splits)

lemma start_up_interval:
  assumes "PersistentPreRunE ParseDuration env fl = Inr cfg"
  shows "0 < SyncInterval cfg"
  using assms config_validation_exact [of cfg]
  by (auto simp: PersistentPreRunE_def Let_def Minute_def Second_def split: sum.splits)

context platform_contract
begin

lemma service_env:
  assumes mgr: "pfNewManager p w = (Inr mgr, w1)" and U: "unifi_client U rules"
  shows "reconciler_env ((service_reconciler p mgr (unifi_router U))\<lparr>rcEventPublisher := e, rcCleanupWindow := t\<rparr>) rules"
  unfolding reconciler_env_def reconciler_env_axioms_def service_reconciler_def
  using unifi_client.implements_router [OF U] kube_frame [OF mgr] clock_frame by (simp add: Kube.defs)

lemma rule_env:
  assumes mgr: "pfNewManager p w = (Inr mgr, w1)" and U: "unifi_client U rules"
  shows "rule_env (rule_reconciler p mgr (unifi_router U)) rules"
  unfolding rule_env_def rule_env_axioms_def rule_reconciler_def
  using unifi_client.implements_router [OF U] kube_frame [OF mgr] rule_client_frame [OF mgr] clock_frame by simp

lemma controllers_ok:
  assumes mgr: "pfNewManager p w = (Inr mgr, w1)" and U: "unifi_client U rules"
    and ctrl: "setup_controllers p mgr (unifi_router U) cfg st = (Inr running, st')"
  shows "reconciler_env (ruServices running) rules" and "rcRouter (ruServices running) = unifi_router U"
    and "ruRules running = Some q \<Longrightarrow> rule_env q rules \<and> rrRouter q = unifi_router U"
    and "ruPeriodic running = NewPeriodicReconciler (ruServices running) (SyncInterval cfg)"
    and "mset (rules (world st')) = mset (rules (world st))" and "usedPorts st' = usedPorts st"
proof -
  obtain r st1 st2 rs where 1: "SetupWithManager (mgComplete mgr) (service_reconciler p mgr (unifi_router U)) st = (None, r, st1)"
    and 2: "PerformInitialReconciliationSync r st1 = (None, st2)" and 3: "setup_rules p mgr (unifi_router U) st2 = (Inr rs, st')"
    and running: "running = \<lparr>ruServices = r, ruRules = rs, ruPeriodic = NewPeriodicReconciler r (SyncInterval cfg)\<rparr>"
    using ctrl by (rule setup_controllersE)
  from 1 have r: "r = (service_reconciler p mgr (unifi_router U))\<lparr>rcEventPublisher := Some True, rcCleanupWindow := 2 * Second\<rparr>"
    and st1: "usedPorts st1 = usedPorts st" "mset (rules (world st1)) = mset (rules (world st))"
    using complete_frame [OF mgr] by (auto elim!: SetupWithManagerE)
  have router: "rcRouter r = unifi_router U" by (simp add: r service_reconciler_def)
  note sync = sync_ok [OF U router 2] and rules = setup_rules_ok [OF mgr 3]
  show "reconciler_env (ruServices running) rules" using service_env [OF mgr U] by (simp add: running r)
  show "rcRouter (ruServices running) = unifi_router U" by (simp add: running router)
  show "ruRules running = Some q \<Longrightarrow> rule_env q rules \<and> rrRouter q = unifi_router U"
    using rules(3) rule_env [OF mgr U] by (auto simp: running rule_reconciler_def)
  show "ruPeriodic running = NewPeriodicReconciler (ruServices running) (SyncInterval cfg)" by (simp add: running)
  show "mset (rules (world st')) = mset (rules (world st))" "usedPorts st' = usedPorts st"
    using st1 sync rules by simp_all
qed

lemma started:
  assumes "runController p cfg st = (Inr running, st')"
  obtains U where "unifi_client U rules" and "reconciler_env (ruServices running) rules"
    and "rcRouter (ruServices running) = unifi_router U"
    and "\<forall>q. ruRules running = Some q \<longrightarrow> rule_env q rules \<and> rrRouter q = unifi_router U"
    and "ruPeriodic running = NewPeriodicReconciler (ruServices running) (SyncInterval cfg)"
    and "mset (rules (world st')) = mset (rules (world st))" and "usedPorts st' = usedPorts st"
proof -
  obtain U mgr st1 st2 where 1: "on_world (CreateUnifiRouter (pfNewClient p) (Host cfg) (Username cfg) (Password cfg) (Site cfg) (APIKey cfg)) st = (Inr U, st1)"
    and 2: "on_world (pfNewManager p) st1 = (Inr mgr, st2)" and 3: "setup_controllers p mgr (unifi_router U) cfg st2 = (Inr running, st')"
    using assms by (rule runControllerE)
  from 1 have c: "CreateUnifiRouter (pfNewClient p) (Host cfg) (Username cfg) (Password cfg) (Site cfg) (APIKey cfg) (world st) =
      (Inr U, world st1)" and u1: "usedPorts st1 = usedPorts st"
    by (auto simp: on_world_def split: prod.splits)
  have "unifi_client \<lparr>urSiteID = Site cfg, urClient = client\<rparr> rules \<and> mset (rules w1) = mset (rules w)"
    if "pfNewClient p cf w = (Inr client, w1)" for cf w client w1
    using clients [OF that] client_frame [of cf w] that by simp
  note U = created_router_ok [OF c this]
  from 2 have m: "pfNewManager p (world st1) = (Inr mgr, world st2)" and u2: "usedPorts st2 = usedPorts st1"
    by (auto simp: on_world_def split: prod.splits)
  have mf: "mset (rules (world st2)) = mset (rules (world st1))" using manager_frame [of "world st1"] m by simp
  note C = controllers_ok [OF m U(1) 3]
  show ?thesis
    by (rule that [OF U(1) C(1) C(2) _ C(4)]) (use C(3,5,6) U(2) u1 u2 mf in simp_all)
qed

end

section \<open>A platform in memory\<close>

text \<open>
  The in-memory gateway, cluster and store of rules, with a manager that registers every controller;
  \<open>installed\<close> says whether the custom resource is there.
\<close>

definition ref_platform :: "bool \<Rightarrow> rule_cluster Platform" where
  "ref_platform installed =
     \<lparr>pfNewClient = (\<lambda>_ c. (Inr ref_client, c)),
      pfNewManager = (\<lambda>c. (Inr \<lparr>mgClient = ref_rule_client, mgComplete = (\<lambda>_ c. (Inr (), c))\<rparr>, c)),
      pfAddCore = Inr (), pfAddApiextensions = Inr (), pfAddRules = Inr (),
      pfNewApiClient = (\<lambda>_ _ c. (Inr \<lparr>ac_GetCRD = (\<lambda>n c.
         (if installed \<and> n = PortForwardRulesCRDName then Inr \<lparr>crdAcceptedKind = ''PortForwardRule''\<rparr>
          else Inl (StatusError NotFound ''not found''), c))\<rparr>, c)),
      pfNow = (\<lambda>c. (cl_clock c, c)), pfFmt = (\<lambda>_. ''invalid'')\<rparr>"

lemma ref_client_unifi: "unifi_client \<lparr>urSiteID = site, urClient = ref_client\<rparr> gw_rules"
  using ref_unifi_client [of site] by (simp add: ref_router_def)

interpretation refp: platform_contract "ref_platform installed" gw_rules
  by (rule platform_contract.intro)
    (auto simp: ref_platform_def ref_client_unifi ref_rule_client_def ref_kube_def split: option.split list.split)

text \<open>The start-up of this platform from the command line, with the given flags.\<close>

definition example_flags :: Flags where
  "example_flags = \<lparr>flRouterIP = Some ''10.0.0.1'', flUsername = None, flPassword = Some ''secret'', flSite = None,
     flAPIKey = None, flDebug = None\<rparr>"

definition example_start :: "bool \<Rightarrow> PortForward list \<Rightarrow> rule_cluster Running result \<times> rule_cluster rstate" where
  "example_start installed rs =
     controllerCmd (\<lambda>_. Inl (ErrorString ''no duration'')) (\<lambda>_. '''') example_flags (ref_platform installed)
       (new_process (example_rule_cluster rs [] [] []))"

lemmas start_eval = example_start_def controllerCmd_def PersistentPreRunE_def example_flags_def parse_flags_def
  bound_flags_def emptyConfig_def given_def Load_def InitFromEnv_def from_env_def SetDefaults_def SetDerivedValues_def
  override_flags_def Validate_def validation_errors_def validateIP_def ParseIP_ok_def parseIPv4_def ipv4_field_def Let_def
  runController_def CreateUnifiRouter_def client_config_def on_world_def ref_platform_def new_process_def
  add_schemes_def setup_controllers_def SetupWithManager_def service_reconciler_def NewEventPublisher_def
  PerformInitialReconciliationSync_def setup_rules_def h_IsPortForwardRuleCRDAvailable_def
  IsPortForwardRuleCRDAvailable_def createUncachedClient_def SetupRuleWithManager_def NewPeriodicReconciler_def
  ListAllPortForwards_def withAuthRetry_def example_rule_cluster_def PortForwardRulesCRDName_def

lemma example_start_runs:
  "\<exists>running st. example_start installed rs = (Inr running, st) \<and> (ruRules running \<noteq> None \<longleftrightarrow> installed)"
  by (simp add: start_eval gw_eval go_eval Minute_def Second_def rule_reconciler_def)

section \<open>Properties\<close>

text \<open>
  C17: what is running after a start.  When the controller command gets as far as starting the manager, on any
  platform that keeps its promises: the service controller, the PortForwardRule controller where it is enabled,
  and the periodic reconciler work on one router, which keeps the contract of the router interface, in the
  environment that all theorems on the reconcilers assume; the interval of the periodic reconciler is one that
  its ticker accepts; start-up has not changed a rule on the gateway; and no external port is claimed.
\<close>

theorem start_up_establishes_environment:
  assumes "platform_contract p rules"
    and "controllerCmd ParseDuration env fl p (new_process w) = (Inr running, st)"
  shows "reconciler_env (ruServices running) rules \<and>
    (\<forall>q. ruRules running = Some q \<longrightarrow> rule_env q rules \<and> rrRouter q = rcRouter (ruServices running)) \<and>
    prParts (ruPeriodic running) = ruServices running \<and> (\<exists>pr. start_ticker (ruPeriodic running) = Return pr) \<and>
    mset (rules (world st)) = mset (rules w) \<and> usedPorts st = []"
proof -
  obtain cfg where cfg: "PersistentPreRunE ParseDuration env fl = Inr cfg"
    and run: "runController p cfg (new_process w) = (Inr running, st)"
    using assms(2) by (auto simp: controllerCmd_def split: sum.splits)
  obtain U where "unifi_client U rules" and r: "reconciler_env (ruServices running) rules"
    and U: "rcRouter (ruServices running) = unifi_router U"
    and q: "\<forall>q. ruRules running = Some q \<longrightarrow> rule_env q rules \<and> rrRouter q = unifi_router U"
    and p: "ruPeriodic running = NewPeriodicReconciler (ruServices running) (SyncInterval cfg)"
    and w: "mset (rules (world st)) = mset (rules (world (new_process w)))" "usedPorts st = usedPorts (new_process w)"
    using run by (rule platform_contract.started [OF assms(1)])
  from r U q w show ?thesis
    using start_up_interval [OF cfg] by (simp add: p NewPeriodicReconciler_def start_ticker_def new_process_def)
qed

theorem start_up_establishes_environment_witness:
  "\<exists>running st. example_start True [tracked_rule ''a'' ''web/shop:http'' ''8080''] = (Inr running, st) \<and>
     ruRules running \<noteq> None \<and> reconciler_env (ruServices running) gw_rules \<and> usedPorts st = [] \<and>
     mset (gw_rules (world st)) = {#tracked_rule ''a'' ''web/shop:http'' ''8080''#}"
proof -
  let ?rs = "[tracked_rule ''a'' ''web/shop:http'' ''8080'']"
  obtain running st where run: "example_start True ?rs = (Inr running, st)" and q: "ruRules running \<noteq> None"
    using example_start_runs [of True ?rs] by blast
  with start_up_establishes_environment [OF refp.platform_contract_axioms run [unfolded example_start_def]]
  show ?thesis by (auto simp: example_rule_cluster_def)
qed

text \<open>
  A restart forgets who owns which port: the map of claimed ports is not rebuilt from the rules on the gateway
  (\<open>SyncPortTrackingWithRouter\<close> has no caller), so until the owner of a rule is reconciled again any other
  service passes the check for its port.
\<close>

lemma restart_forgets_owners:
  assumes "platform_contract p rules" and "runController p cfg (new_process w) = (Inr running, st)"
  shows "is_ok (CheckPortConflict port key (usedPorts st))"
proof -
  from assms(2) have "usedPorts st = []"
    by (rule platform_contract.started [OF assms(1)]) (simp add: new_process_def)
  then show ?thesis by (simp add: tracker.check_iff)
qed

text \<open>
  A router that cannot be listed stops the start: nothing runs, and the log's announcement of synchronisations
  at each reconciliation is not what happens.
\<close>

lemma unreachable_router_stops_start:
  assumes "SetupWithManager (mgComplete mgr) (service_reconciler p mgr R) st = (None, r, st1)"
    and "r_ListAllPortForwards R (world st1) = (Inl err, w)"
  shows "fst (setup_controllers p mgr R cfg st) =
    Inl (wrap ''failed to perform initial sync'' (ErrorString (''failed to verify router connectivity: '' @ Error err)))"
proof -
  have "rcRouter r = R" using assms(1) by (elim SetupWithManagerE) (simp add: service_reconciler_def)
  with assms show ?thesis by (simp add: setup_controllers_def PerformInitialReconciliationSync_def on_world_def)
qed

end
