(* ===== verification/DeepCopy.thy ===== *)
theory DeepCopy
  imports RuleTypes "HOL-Library.Monad_Syntax"
begin

text \<open>
  The deep copies of the custom resource (pkg/api/v1alpha1/zz_generated.deepcopy.go) on an explicit memory: a
  partial map from addresses to cells.  The client hands out copies of cached objects, so that a reconciler may
  change what it was given; what it relies on is that a copy reads the same and shares no cell with the
  original.

  A struct with pointers is a record with addresses, prefix \<open>m\<close>; \<open>view\<close> functions follow the addresses
  and give the value of \<open>RuleTypes\<close>.  \<open>metav1.ObjectMeta\<close>, \<open>TypeMeta\<close>, \<open>ListMeta\<close> and
  \<open>metav1.Condition\<close> belong to apimachinery: their deep copies are copies of values here (types \<open>'m\<close>,
  \<open>Condition\<close>).
\<close>

section \<open>Memory\<close>

record mServiceReference =
  mrName :: string
  mrNamespace :: "nat option"
  mrPort :: string

record mErrorInfo =
  meCode :: string
  meMessage :: string
  meLastFailureTime :: "nat option"
  meRetryCount :: int

record mPortConflict =
  mcConflictingNamespace :: string
  mcConflictingResource :: string
  mcConflictType :: string
  mcDescription :: string
  mcSeverity :: string
  mcTimestamp :: "nat option"

record mSpec =
  msExternalPort :: int
  msProtocol :: string
  msServiceRef :: "nat option"
  msDestinationIP :: "nat option"
  msDestinationPort :: "nat option"
  msEnabled :: bool
  msDescription :: string
  msSourceIPRestriction :: "nat option"
  msInterface :: string
  msPriority :: int
  msConflictPolicy :: string
  msLogEnabled :: bool

record mStatus =
  mtPhase :: string
  mtObservedGeneration :: int
  mtLastAppliedTime :: "nat option"
  mtRouterRuleID :: string
  mtServiceStatus :: "nat option"
  mtConditions :: "nat option"
  mtConflicts :: "nat option"
  mtErrorInfo :: "nat option"

record 'm mRule =
  mMeta :: 'm
  mSpec :: mSpec
  mStatus :: mStatus

record 'm mRuleList =
  mListMeta :: 'm
  mItems :: "nat option"

datatype 'm cell =
    StringCell string
  | IntCell int
  | TimeCell int
  | ReferenceCell mServiceReference
  | ServiceStatusCell ServiceStatus
  | ErrorCell mErrorInfo
  | ConditionCells "Condition list"
  | ConflictCells "mPortConflict list"
  | RuleCells "'m mRule list"

record 'm memory =
  cells :: "nat \<rightharpoonup> 'm cell"
  next_free :: nat

text \<open>\<open>new\<close> and \<open>make\<close>: a fresh cell.\<close>

definition new_cell :: "'m cell \<Rightarrow> 'm memory \<Rightarrow> nat \<times> 'm memory" where
  "new_cell c m = (next_free m, m\<lparr>cells := (cells m)(next_free m \<mapsto> c), next_free := Suc (next_free m)\<rparr>)"

definition memory_ok :: "'m memory \<Rightarrow> bool" where
  "memory_ok m \<longleftrightarrow> dom (cells m) \<subseteq> {..<next_free m}"

section \<open>The generated functions\<close>

text \<open>
  \<open>if in.F != nil { *out = new(T); **out = **in }\<close>: a fresh cell with the same content.  A pointer to no
  cell is a memory fault and gives \<open>None\<close>.
\<close>

definition copy_flat :: "nat option \<Rightarrow> 'm memory \<Rightarrow> (nat option \<times> 'm memory) option" where
  "copy_flat p m =
     (case p of
        None \<Rightarrow> Some (None, m)
      | Some a \<Rightarrow> do { c \<leftarrow> cells m a; let (b, m1) = new_cell c m in Some (Some b, m1) })"

definition ServiceStatus_DeepCopyInto :: "ServiceStatus \<Rightarrow> ServiceStatus" where
  "ServiceStatus_DeepCopyInto s = s"

definition ServiceReference_DeepCopyInto :: "mServiceReference \<Rightarrow> 'm memory \<Rightarrow> (mServiceReference \<times> 'm memory) option" where
  "ServiceReference_DeepCopyInto r m =
     do { (ns, m1) \<leftarrow> copy_flat (mrNamespace r) m; Some (r\<lparr>mrNamespace := ns\<rparr>, m1) }"

definition ErrorInfo_DeepCopyInto :: "mErrorInfo \<Rightarrow> 'm memory \<Rightarrow> (mErrorInfo \<times> 'm memory) option" where
  "ErrorInfo_DeepCopyInto e m =
     do { (t, m1) \<leftarrow> copy_flat (meLastFailureTime e) m; Some (e\<lparr>meLastFailureTime := t\<rparr>, m1) }"

definition PortConflict_DeepCopyInto :: "mPortConflict \<Rightarrow> 'm memory \<Rightarrow> (mPortConflict \<times> 'm memory) option" where
  "PortConflict_DeepCopyInto c m =
     do { (t, m1) \<leftarrow> copy_flat (mcTimestamp c) m; Some (c\<lparr>mcTimestamp := t\<rparr>, m1) }"

text \<open>\<open>for i := range *in { (*in)[i].DeepCopyInto(&(*out)[i]) }\<close>\<close>

fun copy_each :: "('a \<Rightarrow> 'm memory \<Rightarrow> ('a \<times> 'm memory) option) \<Rightarrow> 'a list \<Rightarrow> 'm memory \<Rightarrow> ('a list \<times> 'm memory) option" where
  "copy_each f [] m = Some ([], m)"
| "copy_each f (x # xs) m = do { (y, m1) \<leftarrow> f x m; (ys, m2) \<leftarrow> copy_each f xs m1; Some (y # ys, m2) }"

definition copy_reference :: "nat option \<Rightarrow> 'm memory \<Rightarrow> (nat option \<times> 'm memory) option" where
  "copy_reference p m =
     (case p of
        None \<Rightarrow> Some (None, m)
      | Some a \<Rightarrow>
          (case cells m a of
             Some (ReferenceCell r) \<Rightarrow>
               do { (r', m1) \<leftarrow> ServiceReference_DeepCopyInto r m;
                    let (b, m2) = new_cell (ReferenceCell r') m1 in Some (Some b, m2) }
           | _ \<Rightarrow> None))"

definition copy_error_info :: "nat option \<Rightarrow> 'm memory \<Rightarrow> (nat option \<times> 'm memory) option" where
  "copy_error_info p m =
     (case p of
        None \<Rightarrow> Some (None, m)
      | Some a \<Rightarrow>
          (case cells m a of
             Some (ErrorCell e) \<Rightarrow>
               do { (e', m1) \<leftarrow> ErrorInfo_DeepCopyInto e m;
                    let (b, m2) = new_cell (ErrorCell e') m1 in Some (Some b, m2) }
           | _ \<Rightarrow> None))"

definition copy_conflicts :: "nat option \<Rightarrow> 'm memory \<Rightarrow> (nat option \<times> 'm memory) option" where
  "copy_conflicts p m =
     (case p of
        None \<Rightarrow> Some (None, m)
      | Some a \<Rightarrow>
          (case cells m a of
             Some (ConflictCells cs) \<Rightarrow>
               do { (cs', m1) \<leftarrow> copy_each PortConflict_DeepCopyInto cs m;
                    let (b, m2) = new_cell (ConflictCells cs') m1 in Some (Some b, m2) }
           | _ \<Rightarrow> None))"

definition PortForwardRuleSpec_DeepCopyInto :: "mSpec \<Rightarrow> 'm memory \<Rightarrow> (mSpec \<times> 'm memory) option" where
  "PortForwardRuleSpec_DeepCopyInto s m =
     do { (ref, m1) \<leftarrow> copy_reference (msServiceRef s) m;
          (ip, m2) \<leftarrow> copy_flat (msDestinationIP s) m1;
          (port, m3) \<leftarrow> copy_flat (msDestinationPort s) m2;
          (src, m4) \<leftarrow> copy_flat (msSourceIPRestriction s) m3;
          Some (s\<lparr>msServiceRef := ref, msDestinationIP := ip, msDestinationPort := port, msSourceIPRestriction := src\<rparr>, m4) }"

definition PortForwardRuleStatus_DeepCopyInto :: "mStatus \<Rightarrow> 'm memory \<Rightarrow> (mStatus \<times> 'm memory) option" where
  "PortForwardRuleStatus_DeepCopyInto s m =
     do { (t, m1) \<leftarrow> copy_flat (mtLastAppliedTime s) m;
          (svc, m2) \<leftarrow> copy_flat (mtServiceStatus s) m1;
          (conds, m3) \<leftarrow> copy_flat (mtConditions s) m2;
          (confs, m4) \<leftarrow> copy_conflicts (mtConflicts s) m3;
          (err, m5) \<leftarrow> copy_error_info (mtErrorInfo s) m4;
          Some (s\<lparr>mtLastAppliedTime := t, mtServiceStatus := svc, mtConditions := conds, mtConflicts := confs,
                  mtErrorInfo := err\<rparr>, m5) }"

definition PortForwardRule_DeepCopyInto :: "'m mRule \<Rightarrow> 'm memory \<Rightarrow> ('m mRule \<times> 'm memory) option" where
  "PortForwardRule_DeepCopyInto r m =
     do { (spec, m1) \<leftarrow> PortForwardRuleSpec_DeepCopyInto (mSpec r) m;
          (status, m2) \<leftarrow> PortForwardRuleStatus_DeepCopyInto (mStatus r) m1;
          Some (r\<lparr>mSpec := spec, mStatus := status\<rparr>, m2) }"

definition copy_items :: "nat option \<Rightarrow> 'm memory \<Rightarrow> (nat option \<times> 'm memory) option" where
  "copy_items p m =
     (case p of
        None \<Rightarrow> Some (None, m)
      | Some a \<Rightarrow>
          (case cells m a of
             Some (RuleCells rs) \<Rightarrow>
               do { (rs', m1) \<leftarrow> copy_each PortForwardRule_DeepCopyInto rs m;
                    let (b, m2) = new_cell (RuleCells rs') m1 in Some (Some b, m2) }
           | _ \<Rightarrow> None))"

definition PortForwardRuleList_DeepCopyInto :: "'m mRuleList \<Rightarrow> 'm memory \<Rightarrow> ('m mRuleList \<times> 'm memory) option" where
  "PortForwardRuleList_DeepCopyInto l m =
     do { (items, m1) \<leftarrow> copy_items (mItems l) m; Some (l\<lparr>mItems := items\<rparr>, m1) }"

text \<open>\<open>DeepCopy\<close>: nil for nil, else a new struct that \<open>DeepCopyInto\<close> fills.\<close>

definition deep_copy :: "('x \<Rightarrow> 'm memory \<Rightarrow> ('x \<times> 'm memory) option) \<Rightarrow> 'x option \<Rightarrow> 'm memory \<Rightarrow> ('x option \<times> 'm memory) option" where
  "deep_copy into p m =
     (case p of
        None \<Rightarrow> Some (None, m)
      | Some x \<Rightarrow> do { (out, m1) \<leftarrow> into x m; Some (Some out, m1) })"

definition ErrorInfo_DeepCopy :: "mErrorInfo option \<Rightarrow> 'm memory \<Rightarrow> (mErrorInfo option \<times> 'm memory) option" where
  "ErrorInfo_DeepCopy p m = deep_copy ErrorInfo_DeepCopyInto p m"

definition PortConflict_DeepCopy :: "mPortConflict option \<Rightarrow> 'm memory \<Rightarrow> (mPortConflict option \<times> 'm memory) option" where
  "PortConflict_DeepCopy p m = deep_copy PortConflict_DeepCopyInto p m"

definition ServiceReference_DeepCopy ::
    "mServiceReference option \<Rightarrow> 'm memory \<Rightarrow> (mServiceReference option \<times> 'm memory) option" where
  "ServiceReference_DeepCopy p m = deep_copy ServiceReference_DeepCopyInto p m"

definition ServiceStatus_DeepCopy :: "ServiceStatus option \<Rightarrow> 'm memory \<Rightarrow> (ServiceStatus option \<times> 'm memory) option" where
  "ServiceStatus_DeepCopy p m = deep_copy (\<lambda>s m. Some (ServiceStatus_DeepCopyInto s, m)) p m"

definition PortForwardRuleSpec_DeepCopy :: "mSpec option \<Rightarrow> 'm memory \<Rightarrow> (mSpec option \<times> 'm memory) option" where
  "PortForwardRuleSpec_DeepCopy p m = deep_copy PortForwardRuleSpec_DeepCopyInto p m"

definition PortForwardRuleStatus_DeepCopy :: "mStatus option \<Rightarrow> 'm memory \<Rightarrow> (mStatus option \<times> 'm memory) option" where
  "PortForwardRuleStatus_DeepCopy p m = deep_copy PortForwardRuleStatus_DeepCopyInto p m"

definition PortForwardRule_DeepCopy :: "'m mRule option \<Rightarrow> 'm memory \<Rightarrow> ('m mRule option \<times> 'm memory) option" where
  "PortForwardRule_DeepCopy p m = deep_copy PortForwardRule_DeepCopyInto p m"

definition PortForwardRuleList_DeepCopy :: "'m mRuleList option \<Rightarrow> 'm memory \<Rightarrow> ('m mRuleList option \<times> 'm memory) option" where
  "PortForwardRuleList_DeepCopy p m = deep_copy PortForwardRuleList_DeepCopyInto p m"

text \<open>As a \<open>runtime.Object\<close>: an interface value that is nil only for nil.\<close>

datatype 'm RuntimeObject = RuleObject "'m mRule" | RuleListObject "'m mRuleList"

definition PortForwardRule_DeepCopyObject :: "'m mRule option \<Rightarrow> 'm memory \<Rightarrow> ('m RuntimeObject option \<times> 'm memory) option" where
  "PortForwardRule_DeepCopyObject p m =
     do { (c, m1) \<leftarrow> PortForwardRule_DeepCopy p m; Some (map_option RuleObject c, m1) }"

definition PortForwardRuleList_DeepCopyObject ::
    "'m mRuleList option \<Rightarrow> 'm memory \<Rightarrow> ('m RuntimeObject option \<times> 'm memory) option" where
  "PortForwardRuleList_DeepCopyObject p m =
     do { (c, m1) \<leftarrow> PortForwardRuleList_DeepCopy p m; Some (map_option RuleListObject c, m1) }"

section \<open>What is read through the pointers\<close>

text \<open>
  The value of a field that is a pointer: nothing for nil, else the content of its cell; a pointer to a cell
  of another type, or to none, has no value.
\<close>

definition deref :: "('c \<Rightarrow> 'a option) \<Rightarrow> (nat \<rightharpoonup> 'c) \<Rightarrow> nat option \<Rightarrow> 'a option option" where
  "deref val H p =
     (case p of
        None \<Rightarrow> Some None
      | Some a \<Rightarrow> do { c \<leftarrow> H a; v \<leftarrow> val c; Some (Some v) })"

fun view_all :: "('a \<Rightarrow> 'b option) \<Rightarrow> 'a list \<Rightarrow> 'b list option" where
  "view_all f [] = Some []"
| "view_all f (x # xs) = do { y \<leftarrow> f x; ys \<leftarrow> view_all f xs; Some (y # ys) }"

definition string_of :: "'m cell \<Rightarrow> string option" where
  "string_of c = (case c of StringCell s \<Rightarrow> Some s | _ \<Rightarrow> None)"

definition int_of :: "'m cell \<Rightarrow> int option" where
  "int_of c = (case c of IntCell i \<Rightarrow> Some i | _ \<Rightarrow> None)"

definition time_of :: "'m cell \<Rightarrow> int option" where
  "time_of c = (case c of TimeCell t \<Rightarrow> Some t | _ \<Rightarrow> None)"

definition status_of :: "'m cell \<Rightarrow> ServiceStatus option" where
  "status_of c = (case c of ServiceStatusCell s \<Rightarrow> Some s | _ \<Rightarrow> None)"

definition conditions_of :: "'m cell \<Rightarrow> Condition list option" where
  "conditions_of c = (case c of ConditionCells cs \<Rightarrow> Some cs | _ \<Rightarrow> None)"

definition view_reference :: "(nat \<rightharpoonup> 'm cell) \<Rightarrow> mServiceReference \<Rightarrow> ServiceReference option" where
  "view_reference H r =
     do { ns \<leftarrow> deref string_of H (mrNamespace r);
          Some \<lparr>srName = mrName r, srNamespace = ns, srPort = mrPort r\<rparr> }"

definition view_error :: "(nat \<rightharpoonup> 'm cell) \<Rightarrow> mErrorInfo \<Rightarrow> ErrorInfo option" where
  "view_error H e =
     do { t \<leftarrow> deref time_of H (meLastFailureTime e);
          Some \<lparr>eiCode = meCode e, eiMessage = meMessage e, eiLastFailureTime = t, eiRetryCount = meRetryCount e\<rparr> }"

definition view_conflict :: "(nat \<rightharpoonup> 'm cell) \<Rightarrow> mPortConflict \<Rightarrow> PortConflict option" where
  "view_conflict H c =
     do { t \<leftarrow> deref time_of H (mcTimestamp c);
          Some \<lparr>pcConflictingNamespace = mcConflictingNamespace c, pcConflictingResource = mcConflictingResource c,
                pcConflictType = mcConflictType c, pcDescription = mcDescription c, pcSeverity = mcSeverity c,
                pcTimestamp = t\<rparr> }"

definition reference_of :: "(nat \<rightharpoonup> 'm cell) \<Rightarrow> 'm cell \<Rightarrow> ServiceReference option" where
  "reference_of H c = (case c of ReferenceCell r \<Rightarrow> view_reference H r | _ \<Rightarrow> None)"

definition error_of :: "(nat \<rightharpoonup> 'm cell) \<Rightarrow> 'm cell \<Rightarrow> ErrorInfo option" where
  "error_of H c = (case c of ErrorCell e \<Rightarrow> view_error H e | _ \<Rightarrow> None)"

definition conflicts_of :: "(nat \<rightharpoonup> 'm cell) \<Rightarrow> 'm cell \<Rightarrow> PortConflict list option" where
  "conflicts_of H c = (case c of ConflictCells cs \<Rightarrow> view_all (view_conflict H) cs | _ \<Rightarrow> None)"

definition view_spec :: "(nat \<rightharpoonup> 'm cell) \<Rightarrow> mSpec \<Rightarrow> PortForwardRuleSpec option" where
  "view_spec H s =
     do { ref \<leftarrow> deref (reference_of H) H (msServiceRef s);
          ip \<leftarrow> deref string_of H (msDestinationIP s);
          port \<leftarrow> deref int_of H (msDestinationPort s);
          src \<leftarrow> deref string_of H (msSourceIPRestriction s);
          Some \<lparr>specExternalPort = msExternalPort s, specProtocol = msProtocol s, specServiceRef = ref,
                specDestinationIP = ip, specDestinationPort = port, specEnabled = msEnabled s,
                specDescription = msDescription s, specSourceIPRestriction = src, specInterface = msInterface s,
                specPriority = msPriority s, specConflictPolicy = msConflictPolicy s, specLogEnabled = msLogEnabled s\<rparr> }"

definition or_nil :: "'a list option \<Rightarrow> 'a list" where
  "or_nil xs = (case xs of None \<Rightarrow> [] | Some ys \<Rightarrow> ys)"

definition view_status :: "(nat \<rightharpoonup> 'm cell) \<Rightarrow> mStatus \<Rightarrow> PortForwardRuleStatus option" where
  "view_status H s =
     do { t \<leftarrow> deref time_of H (mtLastAppliedTime s);
          svc \<leftarrow> deref status_of H (mtServiceStatus s);
          conds \<leftarrow> deref conditions_of H (mtConditions s);
          confs \<leftarrow> deref (conflicts_of H) H (mtConflicts s);
          err \<leftarrow> deref (error_of H) H (mtErrorInfo s);
          Some \<lparr>stPhase = mtPhase s, stObservedGeneration = mtObservedGeneration s, stLastAppliedTime = t,
                stRouterRuleID = mtRouterRuleID s, stServiceStatus = svc, stConditions = or_nil conds,
                stConflicts = or_nil confs, stErrorInfo = err\<rparr> }"

definition view_rule :: "(nat \<rightharpoonup> 'm cell) \<Rightarrow> 'm mRule \<Rightarrow> ('m \<times> PortForwardRuleSpec \<times> PortForwardRuleStatus) option" where
  "view_rule H r =
     do { spec \<leftarrow> view_spec H (mSpec r); status \<leftarrow> view_status H (mStatus r); Some (mMeta r, spec, status) }"

definition rules_of :: "(nat \<rightharpoonup> 'm cell) \<Rightarrow> 'm cell \<Rightarrow> ('m \<times> PortForwardRuleSpec \<times> PortForwardRuleStatus) list option" where
  "rules_of H c = (case c of RuleCells rs \<Rightarrow> view_all (view_rule H) rs | _ \<Rightarrow> None)"

definition view_rules ::
    "(nat \<rightharpoonup> 'm cell) \<Rightarrow> 'm mRuleList \<Rightarrow> ('m \<times> ('m \<times> PortForwardRuleSpec \<times> PortForwardRuleStatus) list option) option" where
  "view_rules H l = do { items \<leftarrow> deref (rules_of H) H (mItems l); Some (mListMeta l, items) }"

section \<open>Reading depends on the cells that are there\<close>

text \<open>
  A view that has a value in a part of the memory has the same value in every memory with that part.
\<close>

definition monotone_view :: "((nat \<rightharpoonup> 'm cell) \<Rightarrow> 'a \<Rightarrow> 'b option) \<Rightarrow> bool" where
  "monotone_view f \<longleftrightarrow> (\<forall>H H' x v. f H x = Some v \<longrightarrow> H \<subseteq>\<^sub>m H' \<longrightarrow> f H' x = Some v)"

lemma monotone_viewI: "(\<And>H H' x v. f H x = Some v \<Longrightarrow> H \<subseteq>\<^sub>m H' \<Longrightarrow> f H' x = Some v) \<Longrightarrow> monotone_view f"
  unfolding monotone_view_def by blast

lemma monotone_viewD: "monotone_view f \<Longrightarrow> f H x = Some v \<Longrightarrow> H \<subseteq>\<^sub>m H' \<Longrightarrow> f H' x = Some v"
  unfolding monotone_view_def by blast

lemma map_leI_get: "H \<subseteq>\<^sub>m H' \<Longrightarrow> H a = Some c \<Longrightarrow> H' a = Some c"
  by (metis domI map_le_def)

lemma deref_SomeE:
  assumes "deref val H p = Some v"
  obtains "p = None" "v = None"
    | a c w where "p = Some a" "H a = Some c" "val c = Some w" "v = Some w"
  using assms by (auto simp: deref_def bind_eq_Some_conv split: option.splits)

lemma monotone_deref: "monotone_view val \<Longrightarrow> monotone_view (\<lambda>H x. deref (val H) H (p x))"
proof (rule monotone_viewI)
  fix H H' x v
  assume val: "monotone_view val" and v: "deref (val H) H (p x) = Some v" and le: "H \<subseteq>\<^sub>m H'"
  from v show "deref (val H') H' (p x) = Some v"
  proof (cases rule: deref_SomeE)
    case (2 a c w)
    then show ?thesis using map_leI_get [OF le] monotone_viewD [OF val _ le] by (simp add: deref_def)
  qed (simp add: deref_def)
qed

lemma monotone_const: "monotone_view (\<lambda>H x. f x)"
  by (simp add: monotone_view_def)

lemma monotone_bind:
  "monotone_view f \<Longrightarrow> (\<And>y. monotone_view (g y)) \<Longrightarrow> monotone_view (\<lambda>H x. Option.bind (f H x) (\<lambda>y. g y H x))"
proof (rule monotone_viewI)
  fix H H' x v
  assume f: "monotone_view f" and g: "\<And>y. monotone_view (g y)" and le: "H \<subseteq>\<^sub>m H'"
    and "Option.bind (f H x) (\<lambda>y. g y H x) = Some v"
  then obtain y where "f H x = Some y" "g y H x = Some v" by (auto split: bind_splits)
  with monotone_viewD [OF f _ le] monotone_viewD [OF g _ le]
  show "Option.bind (f H' x) (\<lambda>y. g y H' x) = Some v" by simp
qed

lemma monotone_all:
  fixes f :: "(nat \<rightharpoonup> 'm cell) \<Rightarrow> 'a \<Rightarrow> 'b option"
  shows "monotone_view f \<Longrightarrow> monotone_view (\<lambda>H x. view_all (f H) (p x))"
proof (rule monotone_viewI)
  fix H H' :: "nat \<rightharpoonup> 'm cell" and x vs
  assume f: "monotone_view f" and le: "H \<subseteq>\<^sub>m H'"
  have "view_all (f H) xs = Some vs \<Longrightarrow> view_all (f H') xs = Some vs" for xs vs
    by (induction xs arbitrary: vs) (auto simp: bind_eq_Some_conv dest: monotone_viewD [OF f _ le])
  then show "view_all (f H) (p x) = Some vs \<Longrightarrow> view_all (f H') (p x) = Some vs" .
qed

lemma monotone_project: "monotone_view f \<Longrightarrow> monotone_view (\<lambda>H x. f H (p x))"
  unfolding monotone_view_def by blast

lemmas monotone_intros = monotone_bind monotone_deref monotone_all monotone_const

lemma monotone_reference: "monotone_view view_reference"
  unfolding view_reference_def by (intro monotone_intros)

lemma monotone_error: "monotone_view view_error"
  unfolding view_error_def by (intro monotone_intros)

lemma monotone_conflict: "monotone_view view_conflict"
  unfolding view_conflict_def by (intro monotone_intros)

lemma monotone_cells: "monotone_view reference_of" "monotone_view error_of" "monotone_view conflicts_of"
proof -
  show "monotone_view reference_of"
    by (rule monotone_viewI) (auto simp: reference_of_def split: cell.splits dest: monotone_viewD [OF monotone_reference])
  show "monotone_view error_of"
    by (rule monotone_viewI) (auto simp: error_of_def split: cell.splits dest: monotone_viewD [OF monotone_error])
  show "monotone_view conflicts_of"
    by (rule monotone_viewI) (auto simp: conflicts_of_def split: cell.splits
        dest: monotone_viewD [OF monotone_all [OF monotone_conflict, of "\<lambda>x. x"]])
qed

lemma monotone_spec: "monotone_view view_spec"
  unfolding view_spec_def by (intro monotone_intros monotone_cells)

lemma monotone_status: "monotone_view view_status"
  unfolding view_status_def by (intro monotone_intros monotone_cells)

lemma monotone_rule: "monotone_view view_rule"
  unfolding view_rule_def by (intro monotone_intros monotone_project [OF monotone_spec] monotone_project [OF monotone_status])

lemma monotone_rules: "monotone_view view_rules"
proof -
  have "monotone_view rules_of"
    by (rule monotone_viewI) (auto simp: rules_of_def split: cell.splits
        dest: monotone_viewD [OF monotone_all [OF monotone_rule, of "\<lambda>x. x"]])
  then show ?thesis unfolding view_rules_def by (intro monotone_intros)
qed

section \<open>Copies are equal and separate\<close>

text \<open>Later memories keep the earlier cells; \<open>fresh m m'\<close> are the cells made since \<open>m\<close>.\<close>

definition extends :: "'m memory \<Rightarrow> 'm memory \<Rightarrow> bool" where
  "extends m m' \<longleftrightarrow> memory_ok m \<and> memory_ok m' \<and> next_free m \<le> next_free m' \<and>
     (\<forall>a < next_free m. cells m' a = cells m a)"

definition fresh :: "'m memory \<Rightarrow> 'm memory \<Rightarrow> (nat \<rightharpoonup> 'm cell)" where
  "fresh m m' = cells m' |` {next_free m..}"

lemma extends_refl: "memory_ok m \<Longrightarrow> extends m m"
  by (simp add: extends_def)

lemma extends_trans: "extends m m1 \<Longrightarrow> extends m1 m2 \<Longrightarrow> extends m m2"
  by (auto simp: extends_def)

lemma memory_ok_below: "memory_ok m \<Longrightarrow> cells m a = Some c \<Longrightarrow> a < next_free m"
  unfolding memory_ok_def by blast

lemma extends_cells: "extends m m' \<Longrightarrow> cells m \<subseteq>\<^sub>m cells m'"
  by (auto simp: map_le_def extends_def dest: memory_ok_below)

lemma fresh_cells: "fresh m m' \<subseteq>\<^sub>m cells m'"
  by (auto simp: fresh_def map_le_def restrict_map_def)

lemma fresh_later: "extends m m1 \<Longrightarrow> extends m1 m2 \<Longrightarrow> fresh m m1 \<subseteq>\<^sub>m fresh m m2"
  by (auto simp: fresh_def map_le_def restrict_map_def extends_def dest: memory_ok_below)

lemma fresh_earlier: "extends m m1 \<Longrightarrow> fresh m1 m2 \<subseteq>\<^sub>m fresh m m2"
  by (auto simp: fresh_def map_le_def restrict_map_def extends_def)

lemma extends_new: "memory_ok m \<Longrightarrow> extends m (snd (new_cell c m))"
  by (auto simp: extends_def new_cell_def memory_ok_def less_Suc_eq)

lemma fresh_new: "extends m m1 \<Longrightarrow> fresh m (snd (new_cell c m1)) (fst (new_cell c m1)) = Some c"
  by (simp add: fresh_def new_cell_def extends_def)

definition copies :: "('x \<Rightarrow> 'm memory \<Rightarrow> ('x \<times> 'm memory) option) \<Rightarrow> ((nat \<rightharpoonup> 'm cell) \<Rightarrow> 'x \<Rightarrow> 'v option) \<Rightarrow> bool" where
  "copies into obs \<longleftrightarrow> monotone_view obs \<and>
     (\<forall>m x v. memory_ok m \<longrightarrow> obs (cells m) x = Some v \<longrightarrow>
        (\<exists>x' m'. into x m = Some (x', m') \<and> extends m m' \<and> obs (fresh m m') x' = Some v))"

lemma copiesI:
  assumes "monotone_view obs"
    and "\<And>m x v. memory_ok m \<Longrightarrow> obs (cells m) x = Some v \<Longrightarrow>
      \<exists>x' m'. into x m = Some (x', m') \<and> extends m m' \<and> obs (fresh m m') x' = Some v"
  shows "copies into obs"
  using assms unfolding copies_def by blast

text \<open>One copy among several: the value was read in \<open>m\<close>, the copy is made later, in \<open>m1\<close>.\<close>

lemma copies_step:
  assumes c: "copies into obs" and e: "extends m m1" and v: "obs (cells m) x = Some v"
  obtains x' m2 where "into x m1 = Some (x', m2)" "extends m m2" "extends m1 m2" "obs (fresh m m2) x' = Some v"
proof -
  have mono: "monotone_view obs" using c by (simp add: copies_def)
  have "memory_ok m1" using e by (simp add: extends_def)
  moreover have "obs (cells m1) x = Some v" by (rule monotone_viewD [OF mono v extends_cells [OF e]])
  ultimately obtain x' m2 where 1: "into x m1 = Some (x', m2)" "extends m1 m2" "obs (fresh m1 m2) x' = Some v"
    using c unfolding copies_def by blast
  from that [OF 1(1) extends_trans [OF e 1(2)] 1(2) monotone_viewD [OF mono 1(3) fresh_earlier [OF e]]] show ?thesis .
qed

lemma copies_later: "copies into obs \<Longrightarrow> obs (fresh m m1) x = Some v \<Longrightarrow> extends m m1 \<Longrightarrow> extends m1 m2 \<Longrightarrow> obs (fresh m m2) x = Some v"
  using fresh_later monotone_viewD unfolding copies_def by metis

text \<open>A pointer to a struct without pointers.\<close>

lemma copies_flat:
  fixes val :: "'m cell \<Rightarrow> 'v option"
  shows "copies copy_flat (\<lambda>H. deref val H)"
proof (rule copiesI)
  show "monotone_view (\<lambda>H. deref val H)" using monotone_deref [OF monotone_const, of "\<lambda>c. val c" "\<lambda>p. p"] by simp
next
  fix m :: "'m memory" and p v
  assume ok: "memory_ok m" and v: "deref val (cells m) p = Some v"
  from v show "\<exists>p' m'. copy_flat p m = Some (p', m') \<and> extends m m' \<and> deref val (fresh m m') p' = Some v"
  proof (cases rule: deref_SomeE)
    case (2 a c w)
    with extends_new [OF ok, of c] fresh_new [OF extends_refl [OF ok], of c] show ?thesis
      by (auto simp: copy_flat_def deref_def split: prod.split)
  qed (use extends_refl [OF ok] in \<open>auto simp: copy_flat_def deref_def\<close>)
qed

text \<open>A pointer to a struct with pointers of its own; \<open>mk\<close> is the constructor of its cell.\<close>

lemma copies_pointer:
  assumes c: "copies into obs" and val: "\<And>H y. val H (mk y) = obs H y"
    and others: "\<And>H c v. val H c = Some v \<Longrightarrow> \<exists>y. c = mk y"
    and nil: "\<And>m. copy None m = Some (None, m)"
    and copy: "\<And>a y m. cells m a = Some (mk y) \<Longrightarrow> copy (Some a) m =
      do { (y', m1) \<leftarrow> into y m; let (b, m2) = new_cell (mk y') m1 in Some (Some b, m2) }"
  shows "copies copy (\<lambda>H. deref (val H) H)"
proof (rule copiesI)
  have mono: "monotone_view obs" using c by (simp add: copies_def)
  have "monotone_view val"
    by (rule monotone_viewI) (use others val monotone_viewD [OF mono] in metis)
  then show "monotone_view (\<lambda>H. deref (val H) H)" using monotone_deref [of val "\<lambda>p. p"] by simp
next
  fix m p v
  assume ok: "memory_ok m" and v: "deref (val (cells m)) (cells m) p = Some v"
  from v show "\<exists>p' m'. copy p m = Some (p', m') \<and> extends m m' \<and> deref (val (fresh m m')) (fresh m m') p' = Some v"
  proof (cases rule: deref_SomeE)
    case (2 a c' w)
    then obtain y where y: "c' = mk y" using others by blast
    then have "obs (cells m) y = Some w" using 2 val by simp
    from copies_step [OF c extends_refl [OF ok] this] obtain y' m1
      where 1: "into y m = Some (y', m1)" "extends m m1" "obs (fresh m m1) y' = Some w" by blast
    have m1: "memory_ok m1" using 1(2) by (simp add: extends_def)
    let ?n = "new_cell (mk y') m1"
    have e: "extends m1 (snd ?n)" by (rule extends_new [OF m1])
    have "val (fresh m (snd ?n)) (mk y') = Some w"
      unfolding val by (rule copies_later [OF c 1(3) 1(2) e])
    moreover have "copy p m = Some (Some (fst ?n), snd ?n)"
      using 2 y 1(1) by (simp add: copy split_beta)
    ultimately show ?thesis
      using 2 extends_trans [OF 1(2) e] fresh_new [OF 1(2), of "mk y'"] by (auto simp: deref_def)
  qed (use extends_refl [OF ok] in \<open>auto simp: nil deref_def\<close>)
qed

text \<open>The elements of a slice.\<close>

lemma copies_each:
  assumes c: "copies into obs"
  shows "copies (copy_each into) (\<lambda>H. view_all (obs H))"
proof (rule copiesI)
  have mono: "monotone_view obs" using c by (simp add: copies_def)
  then show "monotone_view (\<lambda>H. view_all (obs H))" using monotone_all [of obs "\<lambda>xs. xs"] by simp
next
  fix m xs vs
  assume ok: "memory_ok m" and vs: "view_all (obs (cells m)) xs = Some vs"
  have "\<exists>xs' m2. copy_each into xs m1 = Some (xs', m2) \<and> extends m m2 \<and> extends m1 m2 \<and> view_all (obs (fresh m m2)) xs' = Some vs"
    if "extends m m1" for m1
    using vs that
  proof (induction xs arbitrary: vs m1)
    case Nil
    then have "memory_ok m1" by (simp add: extends_def)
    with Nil show ?case by (simp add: extends_refl)
  next
    case (Cons x xs)
    from Cons.prems(1) obtain v vs' where v: "obs (cells m) x = Some v" and vs': "view_all (obs (cells m)) xs = Some vs'"
      and eq: "vs = v # vs'" by (auto simp: bind_eq_Some_conv)
    from copies_step [OF c Cons.prems(2) v] obtain x' m2
      where x: "into x m1 = Some (x', m2)" "extends m m2" "extends m1 m2" "obs (fresh m m2) x' = Some v" by blast
    from Cons.IH [OF vs' x(2)] obtain xs' m3 where xs: "copy_each into xs m2 = Some (xs', m3)" "extends m m3" "extends m2 m3"
      "view_all (obs (fresh m m3)) xs' = Some vs'" by blast
    have "obs (fresh m m3) x' = Some v" by (rule copies_later [OF c x(4) x(2) xs(3)])
    with x xs eq extends_trans [OF x(3) xs(3)] show ?case by auto
  qed
  from this [OF extends_refl [OF ok]]
  show "\<exists>xs' m'. copy_each into xs m = Some (xs', m') \<and> extends m m' \<and> view_all (obs (fresh m m')) xs' = Some vs" by blast
qed

section \<open>The copies of the resource\<close>

text \<open>Structs whose only pointer is a time or a string.\<close>

lemma copies_ServiceReference: "copies ServiceReference_DeepCopyInto view_reference"
proof (rule copiesI [OF monotone_reference])
  fix m :: "'m memory" and r v
  assume ok: "memory_ok m" and v: "view_reference (cells m) r = Some v"
  then obtain ns where ns: "deref string_of (cells m) (mrNamespace r) = Some ns"
    and v': "v = \<lparr>srName = mrName r, srNamespace = ns, srPort = mrPort r\<rparr>"
    by (auto simp: view_reference_def bind_eq_Some_conv)
  from copies_step [OF copies_flat extends_refl [OF ok] ns] obtain p m1
    where "copy_flat (mrNamespace r) m = Some (p, m1)" "extends m m1" "deref string_of (fresh m m1) p = Some ns" by blast
  then show "\<exists>x' m'. ServiceReference_DeepCopyInto r m = Some (x', m') \<and> extends m m' \<and> view_reference (fresh m m') x' = Some v"
    by (simp add: ServiceReference_DeepCopyInto_def view_reference_def v')
qed

lemma copies_ErrorInfo: "copies ErrorInfo_DeepCopyInto view_error"
proof (rule copiesI [OF monotone_error])
  fix m :: "'m memory" and e v
  assume ok: "memory_ok m" and v: "view_error (cells m) e = Some v"
  then obtain t where t: "deref time_of (cells m) (meLastFailureTime e) = Some t"
    and v': "v = \<lparr>eiCode = meCode e, eiMessage = meMessage e, eiLastFailureTime = t, eiRetryCount = meRetryCount e\<rparr>"
    by (auto simp: view_error_def bind_eq_Some_conv)
  from copies_step [OF copies_flat extends_refl [OF ok] t] obtain p m1
    where "copy_flat (meLastFailureTime e) m = Some (p, m1)" "extends m m1" "deref time_of (fresh m m1) p = Some t" by blast
  then show "\<exists>x' m'. ErrorInfo_DeepCopyInto e m = Some (x', m') \<and> extends m m' \<and> view_error (fresh m m') x' = Some v"
    by (simp add: ErrorInfo_DeepCopyInto_def view_error_def v')
qed

lemma copies_PortConflict: "copies PortConflict_DeepCopyInto view_conflict"
proof (rule copiesI [OF monotone_conflict])
  fix m :: "'m memory" and c v
  assume ok: "memory_ok m" and v: "view_conflict (cells m) c = Some v"
  then obtain t where t: "deref time_of (cells m) (mcTimestamp c) = Some t"
    and v': "v = \<lparr>pcConflictingNamespace = mcConflictingNamespace c, pcConflictingResource = mcConflictingResource c,
      pcConflictType = mcConflictType c, pcDescription = mcDescription c, pcSeverity = mcSeverity c, pcTimestamp = t\<rparr>"
    by (auto simp: view_conflict_def bind_eq_Some_conv)
  from copies_step [OF copies_flat extends_refl [OF ok] t] obtain p m1
    where "copy_flat (mcTimestamp c) m = Some (p, m1)" "extends m m1" "deref time_of (fresh m m1) p = Some t" by blast
  then show "\<exists>x' m'. PortConflict_DeepCopyInto c m = Some (x', m') \<and> extends m m' \<and> view_conflict (fresh m m') x' = Some v"
    by (simp add: PortConflict_DeepCopyInto_def view_conflict_def v')
qed

lemma copies_copy_reference: "copies copy_reference (\<lambda>H. deref (reference_of H) H)"
  by (rule copies_pointer [OF copies_ServiceReference, of reference_of ReferenceCell])
    (auto simp: reference_of_def copy_reference_def split: cell.splits)

lemma copies_copy_error_info: "copies copy_error_info (\<lambda>H. deref (error_of H) H)"
  by (rule copies_pointer [OF copies_ErrorInfo, of error_of ErrorCell])
    (auto simp: error_of_def copy_error_info_def split: cell.splits)

lemma copies_copy_conflicts: "copies copy_conflicts (\<lambda>H. deref (conflicts_of H) H)"
  by (rule copies_pointer [OF copies_each [OF copies_PortConflict], of conflicts_of ConflictCells])
    (auto simp: conflicts_of_def copy_conflicts_def split: cell.splits)

lemma copies_Spec: "copies PortForwardRuleSpec_DeepCopyInto view_spec"
proof (rule copiesI [OF monotone_spec])
  fix m :: "'m memory" and s v
  assume ok: "memory_ok m" and v: "view_spec (cells m) s = Some v"
  then obtain ref ip port src where 1: "deref (reference_of (cells m)) (cells m) (msServiceRef s) = Some ref"
    and 2: "deref string_of (cells m) (msDestinationIP s) = Some ip"
    and 3: "deref int_of (cells m) (msDestinationPort s) = Some port"
    and 4: "deref string_of (cells m) (msSourceIPRestriction s) = Some src"
    and v': "v = \<lparr>specExternalPort = msExternalPort s, specProtocol = msProtocol s, specServiceRef = ref,
      specDestinationIP = ip, specDestinationPort = port, specEnabled = msEnabled s, specDescription = msDescription s,
      specSourceIPRestriction = src, specInterface = msInterface s, specPriority = msPriority s,
      specConflictPolicy = msConflictPolicy s, specLogEnabled = msLogEnabled s\<rparr>"
    by (auto simp: view_spec_def bind_eq_Some_conv)
  note c = copies_copy_reference copies_flat [of string_of] copies_flat [of int_of]
  obtain p1 m1 where a1: "copy_reference (msServiceRef s) m = Some (p1, m1)" "extends m m1" "extends m m1"
      "deref (reference_of (fresh m m1)) (fresh m m1) p1 = Some ref"
    using copies_step [OF c(1) extends_refl [OF ok] 1] by blast
  obtain p2 m2 where a2: "copy_flat (msDestinationIP s) m1 = Some (p2, m2)" "extends m m2" "extends m1 m2"
      "deref string_of (fresh m m2) p2 = Some ip"
    using copies_step [OF c(2) a1(2) 2] by blast
  obtain p3 m3 where a3: "copy_flat (msDestinationPort s) m2 = Some (p3, m3)" "extends m m3" "extends m2 m3"
      "deref int_of (fresh m m3) p3 = Some port"
    using copies_step [OF c(3) a2(2) 3] by blast
  obtain p4 m4 where a4: "copy_flat (msSourceIPRestriction s) m3 = Some (p4, m4)" "extends m m4" "extends m3 m4"
      "deref string_of (fresh m m4) p4 = Some src"
    using copies_step [OF c(2) a3(2) 4] by blast
  note e24 = extends_trans [OF a3(3) a4(3)]
  note later = copies_later [OF c(1) a1(4) a1(2) extends_trans [OF a2(3) e24]]
    copies_later [OF c(2) a2(4) a2(2) e24] copies_later [OF c(3) a3(4) a3(2) a4(3)]
  show "\<exists>x' m'. PortForwardRuleSpec_DeepCopyInto s m = Some (x', m') \<and> extends m m' \<and> view_spec (fresh m m') x' = Some v"
    using a1(1) a2(1) a3(1) a4(1,2,4) later by (simp add: PortForwardRuleSpec_DeepCopyInto_def view_spec_def v')
qed

lemma copies_Status: "copies PortForwardRuleStatus_DeepCopyInto view_status"
proof (rule copiesI [OF monotone_status])
  fix m :: "'m memory" and s v
  assume ok: "memory_ok m" and v: "view_status (cells m) s = Some v"
  then obtain t svc conds confs err where 1: "deref time_of (cells m) (mtLastAppliedTime s) = Some t"
    and 2: "deref status_of (cells m) (mtServiceStatus s) = Some svc"
    and 3: "deref conditions_of (cells m) (mtConditions s) = Some conds"
    and 4: "deref (conflicts_of (cells m)) (cells m) (mtConflicts s) = Some confs"
    and 5: "deref (error_of (cells m)) (cells m) (mtErrorInfo s) = Some err"
    and v': "v = \<lparr>stPhase = mtPhase s, stObservedGeneration = mtObservedGeneration s, stLastAppliedTime = t,
      stRouterRuleID = mtRouterRuleID s, stServiceStatus = svc, stConditions = or_nil conds, stConflicts = or_nil confs,
      stErrorInfo = err\<rparr>"
    by (auto simp: view_status_def bind_eq_Some_conv)
  note c = copies_flat [of time_of] copies_flat [of status_of] copies_flat [of conditions_of] copies_copy_conflicts
    copies_copy_error_info
  obtain p1 m1 where a1: "copy_flat (mtLastAppliedTime s) m = Some (p1, m1)" "extends m m1" "extends m m1"
      "deref time_of (fresh m m1) p1 = Some t"
    using copies_step [OF c(1) extends_refl [OF ok] 1] by blast
  obtain p2 m2 where a2: "copy_flat (mtServiceStatus s) m1 = Some (p2, m2)" "extends m m2" "extends m1 m2"
      "deref status_of (fresh m m2) p2 = Some svc"
    using copies_step [OF c(2) a1(2) 2] by blast
  obtain p3 m3 where a3: "copy_flat (mtConditions s) m2 = Some (p3, m3)" "extends m m3" "extends m2 m3"
      "deref conditions_of (fresh m m3) p3 = Some conds"
    using copies_step [OF c(3) a2(2) 3] by blast
  obtain p4 m4 where a4: "copy_conflicts (mtConflicts s) m3 = Some (p4, m4)" "extends m m4" "extends m3 m4"
      "deref (conflicts_of (fresh m m4)) (fresh m m4) p4 = Some confs"
    using copies_step [OF c(4) a3(2) 4] by blast
  obtain p5 m5 where a5: "copy_error_info (mtErrorInfo s) m4 = Some (p5, m5)" "extends m m5" "extends m4 m5"
      "deref (error_of (fresh m m5)) (fresh m m5) p5 = Some err"
    using copies_step [OF c(5) a4(2) 5] by blast
  note e35 = extends_trans [OF a4(3) a5(3)] and e25 = extends_trans [OF a3(3) extends_trans [OF a4(3) a5(3)]]
  note later = copies_later [OF c(1) a1(4) a1(2) extends_trans [OF a2(3) e25]] copies_later [OF c(2) a2(4) a2(2) e25]
    copies_later [OF c(3) a3(4) a3(2) e35] copies_later [OF c(4) a4(4) a4(2) a5(3)]
  show "\<exists>x' m'. PortForwardRuleStatus_DeepCopyInto s m = Some (x', m') \<and> extends m m' \<and> view_status (fresh m m') x' = Some v"
    using a1(1) a2(1) a3(1) a4(1) a5(1,2,4) later
    by (simp add: PortForwardRuleStatus_DeepCopyInto_def view_status_def v')
qed

lemma copies_Rule: "copies PortForwardRule_DeepCopyInto view_rule"
proof (rule copiesI [OF monotone_rule])
  fix m :: "'m memory" and r :: "'m mRule" and v
  assume ok: "memory_ok m" and v: "view_rule (cells m) r = Some v"
  then obtain spec status where 1: "view_spec (cells m) (mSpec r) = Some spec"
    and 2: "view_status (cells m) (mStatus r) = Some status" and v': "v = (mMeta r, spec, status)"
    by (auto simp: view_rule_def bind_eq_Some_conv)
  obtain s m1 where a1: "PortForwardRuleSpec_DeepCopyInto (mSpec r) m = Some (s, m1)" "extends m m1"
      "view_spec (fresh m m1) s = Some spec"
    using copies_step [OF copies_Spec extends_refl [OF ok] 1] by blast
  obtain t m2 where a2: "PortForwardRuleStatus_DeepCopyInto (mStatus r) m1 = Some (t, m2)" "extends m m2" "extends m1 m2"
      "view_status (fresh m m2) t = Some status"
    using copies_step [OF copies_Status a1(2) 2] by blast
  show "\<exists>x' m'. PortForwardRule_DeepCopyInto r m = Some (x', m') \<and> extends m m' \<and> view_rule (fresh m m') x' = Some v"
    using a1(1) a2(1,2,4) copies_later [OF copies_Spec a1(3,2) a2(3)]
    by (simp add: PortForwardRule_DeepCopyInto_def view_rule_def v')
qed

lemma copies_copy_items: "copies copy_items (\<lambda>H. deref (rules_of H) H)"
  by (rule copies_pointer [OF copies_each [OF copies_Rule], of rules_of RuleCells])
    (auto simp: rules_of_def copy_items_def split: cell.splits)

lemma copies_RuleList: "copies PortForwardRuleList_DeepCopyInto view_rules"
proof (rule copiesI [OF monotone_rules])
  fix m :: "'m memory" and l :: "'m mRuleList" and v
  assume ok: "memory_ok m" and v: "view_rules (cells m) l = Some v"
  then obtain items where 1: "deref (rules_of (cells m)) (cells m) (mItems l) = Some items" and v': "v = (mListMeta l, items)"
    by (auto simp: view_rules_def bind_eq_Some_conv)
  from copies_step [OF copies_copy_items extends_refl [OF ok] 1] obtain p m1
    where "copy_items (mItems l) m = Some (p, m1)" "extends m m1" "deref (rules_of (fresh m m1)) (fresh m m1) p = Some items"
    by blast
  then show "\<exists>x' m'. PortForwardRuleList_DeepCopyInto l m = Some (x', m') \<and> extends m m' \<and> view_rules (fresh m m') x' = Some v"
    by (simp add: PortForwardRuleList_DeepCopyInto_def view_rules_def v')
qed

section \<open>Properties\<close>

text \<open>What separation gives: a write to a cell of the one is not seen through the other.\<close>

lemma separate_write:
  assumes mono: "monotone_view obs" and e: "extends m m'"
  shows "obs (fresh m m') x' = Some v \<Longrightarrow> a < next_free m \<Longrightarrow> obs ((cells m')(a := c)) x' = Some v"
    and "obs (cells m) x = Some v \<Longrightarrow> next_free m \<le> a \<Longrightarrow> obs ((cells m')(a := c)) x = Some v"
proof -
  have 1: "fresh m m' \<subseteq>\<^sub>m (cells m')(a := c)" if "a < next_free m"
    using that by (auto simp: fresh_def map_le_def restrict_map_def)
  have 2: "cells m \<subseteq>\<^sub>m (cells m')(a := c)" if "next_free m \<le> a"
    using that e by (auto simp: map_le_def extends_def dest: memory_ok_below)
  show "obs (fresh m m') x' = Some v \<Longrightarrow> a < next_free m \<Longrightarrow> obs ((cells m')(a := c)) x' = Some v"
    using monotone_viewD [OF mono _ 1] .
  show "obs (cells m) x = Some v \<Longrightarrow> next_free m \<le> a \<Longrightarrow> obs ((cells m')(a := c)) x = Some v"
    using monotone_viewD [OF mono _ 2] .
qed

text \<open>
  C32: a deep copy of a list of PortForwardRules is equal and separate.  For every list whose pointers all lead to
  cells of their type, copying returns; the copy has the value of the original; and afterwards no write to a
  cell that existed before is seen through the copy, and no write to a cell that did not is seen through the
  original, in any field of any item.
\<close>

theorem rule_list_copy_separate:
  assumes "memory_ok m" and "view_rules (cells m) l = Some v"
  shows "\<exists>l' m'. PortForwardRuleList_DeepCopy (Some l) m = Some (Some l', m') \<and> view_rules (cells m') l' = Some v \<and>
    (\<forall>a c. a < next_free m \<longrightarrow> view_rules ((cells m')(a := c)) l' = Some v) \<and>
    (\<forall>a c. next_free m \<le> a \<longrightarrow> view_rules ((cells m')(a := c)) l = Some v)"
proof -
  obtain l' m' where copy: "PortForwardRuleList_DeepCopyInto l m = Some (l', m')" and e: "extends m m'"
    and v: "view_rules (fresh m m') l' = Some v"
    using copies_step [OF copies_RuleList extends_refl [OF assms(1)] assms(2)] by blast
  have "view_rules (cells m') l' = Some v" by (rule monotone_viewD [OF monotone_rules v fresh_cells])
  moreover note separate_write [OF monotone_rules e]
  ultimately show ?thesis
    using copy v assms(2) by (auto simp: PortForwardRuleList_DeepCopy_def deep_copy_def)
qed

definition example_memory :: "unit memory" where
  "example_memory =
     \<lparr>cells = [0 \<mapsto> StringCell ''shop'', 1 \<mapsto> ReferenceCell \<lparr>mrName = ''web'', mrNamespace = Some 0, mrPort = ''http''\<rparr>,
        2 \<mapsto> RuleCells [\<lparr>mMeta = (),
          mSpec = \<lparr>msExternalPort = 8080, msProtocol = ''tcp'', msServiceRef = Some 1, msDestinationIP = None,
            msDestinationPort = None, msEnabled = True, msDescription = '''', msSourceIPRestriction = None,
            msInterface = ''wan'', msPriority = 100, msConflictPolicy = ''warn'', msLogEnabled = False\<rparr>,
          mStatus = \<lparr>mtPhase = '''', mtObservedGeneration = 0, mtLastAppliedTime = None, mtRouterRuleID = '''',
            mtServiceStatus = None, mtConditions = None, mtConflicts = None, mtErrorInfo = None\<rparr>\<rparr>]],
      next_free = 3\<rparr>"

definition example_list :: "unit mRuleList" where
  "example_list = \<lparr>mListMeta = (), mItems = Some 2\<rparr>"

text \<open>Renaming the namespace in the original, a pointer of a pointer of an item, does not rename it in the copy.\<close>

theorem rule_list_copy_separate_witness:
  "\<exists>l' m' v. PortForwardRuleList_DeepCopy (Some example_list) example_memory = Some (Some l', m') \<and>
     view_rules (cells example_memory) example_list = Some v \<and>
     view_rules ((cells m')(0 := Some (StringCell ''other''))) l' = Some v"
proof -
  have ok: "memory_ok example_memory" by (auto simp: memory_ok_def example_memory_def)
  have "\<exists>v. view_rules (cells example_memory) example_list = Some v"
    by (simp add: view_rules_def view_rule_def view_spec_def view_status_def deref_def rules_of_def reference_of_def
        view_reference_def string_of_def example_memory_def example_list_def)
  then obtain v where v: "view_rules (cells example_memory) example_list = Some v" ..
  with rule_list_copy_separate [OF ok v] show ?thesis by (auto simp: example_memory_def)
qed

end
