(* ===== verification/GoSlices.thy ===== *)
theory GoSlices
  imports Prelude
begin

text \<open>
  Go slices with their backing arrays, for the code whose behaviour depends on the aliasing.  A
  \<open>store\<close> is the list of the arrays allocated so far; a slice names an array and a length (the
  slices here start at cell 0), and its capacity is the length of the array.  A pointer
  \<open>&s[i]\<close> is an array and a cell, and keeps denoting that cell whatever becomes of the slice.

  \<open>append\<close> writes in place while the capacity allows it and moves to a new array otherwise; the
  runtime picks the new capacity, here the parameter \<open>grow\<close> of the old capacity and the needed
  length.  Cells of the new array behind the slice hold the zero value \<open>z\<close>.
\<close>

section \<open>Slices\<close>

type_synonym 'a store = "'a list list"

type_synonym pointer = "nat \<times> nat"

record slice =
  slArray :: nat
  slLen :: nat

definition sl_ok :: "'a store \<Rightarrow> slice \<Rightarrow> bool" where
  "sl_ok h s \<longleftrightarrow> slArray s < length h \<and> slLen s \<le> length (h ! slArray s)"

definition sl_elems :: "'a store \<Rightarrow> slice \<Rightarrow> 'a list" where
  "sl_elems h s = take (slLen s) (h ! slArray s)"

definition sl_pointers :: "slice \<Rightarrow> pointer list" where
  "sl_pointers s = map (Pair (slArray s)) [0..<slLen s]"

definition deref :: "'a store \<Rightarrow> pointer \<Rightarrow> 'a" where
  "deref h p = h ! fst p ! snd p"

text \<open>A new array with the given elements: \<open>make\<close>, a slice literal.\<close>

definition sl_make :: "'a list \<Rightarrow> 'a store \<Rightarrow> slice \<times> 'a store" where
  "sl_make xs h = (\<lparr>slArray = length h, slLen = length xs\<rparr>, h @ [xs])"

text \<open>\<open>s = append(s, x)\<close>\<close>

definition sl_append :: "(nat \<Rightarrow> nat \<Rightarrow> nat) \<Rightarrow> 'a \<Rightarrow> 'a \<Rightarrow> slice \<Rightarrow> 'a store \<Rightarrow> slice \<times> 'a store" where
  "sl_append grow z x s h =
     (let a = h ! slArray s; n = slLen s in
      if n < length a then (s\<lparr>slLen := Suc n\<rparr>, h[slArray s := a[n := x]])
      else (\<lparr>slArray = length h, slLen = Suc n\<rparr>,
            h @ [take n a @ [x] @ replicate (grow (length a) (Suc n) - Suc n) z]))"

text \<open>The loop that appends the elements of a list one by one.\<close>

definition sl_appends :: "(nat \<Rightarrow> nat \<Rightarrow> nat) \<Rightarrow> 'a \<Rightarrow> 'a list \<Rightarrow> slice \<times> 'a store \<Rightarrow> slice \<times> 'a store" where
  "sl_appends grow z xs = fold (\<lambda>x (s, h). sl_append grow z x s h) xs"

text \<open>\<open>s[i] = x\<close>\<close>

definition sl_set :: "nat \<Rightarrow> 'a \<Rightarrow> slice \<Rightarrow> 'a store \<Rightarrow> 'a store" where
  "sl_set i x s h = h[slArray s := (h ! slArray s)[i := x]]"

text \<open>\<open>s = append(s[:i], s[i+1:]...)\<close>: the elements behind \<open>i\<close> move down in the same array.\<close>

definition sl_delete :: "nat \<Rightarrow> slice \<Rightarrow> 'a store \<Rightarrow> slice \<times> 'a store" where
  "sl_delete i s h =
     (let a = h ! slArray s; n = slLen s in
      (s\<lparr>slLen := n - 1\<rparr>,
       h[slArray s := take i a @ drop (Suc i) (take n a) @ drop (n - 1) a]))"

section \<open>What the operations do to the elements\<close>

lemma sl_make_elems [simp]:
  "sl_make xs h = (s, h') \<Longrightarrow> sl_ok h' s \<and> sl_elems h' s = xs"
  by (auto simp: sl_make_def sl_ok_def sl_elems_def)

lemma sl_append_elems:
  assumes "sl_ok h s" and "sl_append grow z x s h = (s', h')"
  shows "sl_ok h' s' \<and> sl_elems h' s' = sl_elems h s @ [x]"
proof (cases "slLen s < length (h ! slArray s)")
  case True
  with assms show ?thesis
    by (auto simp: sl_append_def sl_ok_def sl_elems_def Let_def take_Suc_conv_app_nth)
next
  case False
  with assms show ?thesis
    by (auto simp: sl_append_def sl_ok_def sl_elems_def Let_def)
qed

lemma sl_appends_elems:
  "sl_ok h s \<Longrightarrow> sl_appends grow z xs (s, h) = (s', h') \<Longrightarrow> sl_ok h' s' \<and> sl_elems h' s' = sl_elems h s @ xs"
proof (induction xs arbitrary: s h)
  case (Cons x xs)
  obtain s1 h1 where 1: "sl_append grow z x s h = (s1, h1)" by (rule prod.exhaust)
  from Cons.prems(2) have "sl_appends grow z xs (s1, h1) = (s', h')"
    by (simp add: sl_appends_def 1)
  with Cons.IH sl_append_elems [OF Cons.prems(1) 1] show ?case by fastforce
qed (simp add: sl_appends_def)

lemma sl_set_elems:
  assumes "sl_ok h s"
  shows "sl_ok (sl_set i x s h) s \<and> sl_elems (sl_set i x s h) s = (sl_elems h s)[i := x]"
  using assms by (auto simp: sl_set_def sl_ok_def sl_elems_def take_update_swap)

lemma sl_delete_elems:
  assumes "sl_ok h s" and "i < slLen s" and "sl_delete i s h = (s', h')"
  shows "sl_ok h' s' \<and> sl_elems h' s' = take i (sl_elems h s) @ drop (Suc i) (sl_elems h s)"
proof -
  let ?a = "h ! slArray s" and ?n = "slLen s"
  have "length (take i ?a @ drop (Suc i) (take ?n ?a)) = ?n - 1"
    using assms by (auto simp: sl_ok_def)
  then have "take (?n - 1) (take i ?a @ drop (Suc i) (take ?n ?a) @ drop (?n - 1) ?a) =
    take i ?a @ drop (Suc i) (take ?n ?a)"
    by (metis append.assoc append_eq_conv_conj)
  with assms show ?thesis
    by (auto simp: sl_delete_def sl_ok_def sl_elems_def Let_def min_def)
qed

section \<open>What a pointer taken before sees afterwards\<close>

lemma deref_pointers: "sl_ok h s \<Longrightarrow> map (deref h) (sl_pointers s) = sl_elems h s"
  by (rule nth_equalityI) (auto simp: sl_pointers_def deref_def sl_elems_def sl_ok_def)

lemma deref_sl_set:
  "sl_ok h s \<Longrightarrow> i < slLen s \<Longrightarrow>
   deref (sl_set i x s h) (slArray s, j) = (if j = i then x else deref h (slArray s, j))"
  by (auto simp: deref_def sl_set_def sl_ok_def nth_list_update)

lemma deref_sl_append:
  assumes "sl_ok h s" and "j < slLen s" and "sl_append grow z x s h = (s', h')"
  shows "deref h' (slArray s, j) = deref h (slArray s, j)"
  using assms by (auto simp: sl_append_def sl_ok_def deref_def Let_def nth_append split: if_splits)

lemma deref_sl_delete:
  assumes "sl_ok h s" and "i < slLen s" and "j < slLen s" and "sl_delete i s h = (s', h')"
  shows "deref h' (slArray s, j) =
    (if i \<le> j \<and> Suc j < slLen s then deref h (slArray s, Suc j) else deref h (slArray s, j))"
proof -
  let ?a = "h ! slArray s" and ?n = "slLen s"
  have l: "length (take i ?a) = i" "length (drop (Suc i) (take ?n ?a)) = ?n - Suc i" "?n \<le> length ?a"
    using assms by (auto simp: sl_ok_def)
  have "deref h' (slArray s, j) = (take i ?a @ drop (Suc i) (take ?n ?a) @ drop (?n - 1) ?a) ! j"
    using assms by (auto simp: sl_delete_def sl_ok_def deref_def Let_def)
  also have "\<dots> = (if i \<le> j \<and> Suc j < ?n then ?a ! Suc j else ?a ! j)"
    using assms l by (auto simp: nth_append not_less intro!: arg_cong [of _ _ "(!) (h ! slArray s)"])
  finally show ?thesis by (simp add: deref_def)
qed

section \<open>Searching\<close>

text \<open>The loop \<open>for i, x := range xs { if P(x) { ...; return } }\<close> stops at the first match.\<close>

fun first_index :: "('a \<Rightarrow> bool) \<Rightarrow> 'a list \<Rightarrow> nat option" where
  "first_index P [] = None"
| "first_index P (x # xs) = (if P x then Some 0 else map_option Suc (first_index P xs))"

fun remove_first :: "('a \<Rightarrow> bool) \<Rightarrow> 'a list \<Rightarrow> 'a list" where
  "remove_first P [] = []"
| "remove_first P (x # xs) = (if P x then xs else x # remove_first P xs)"

fun replace_first :: "('a \<Rightarrow> bool) \<Rightarrow> ('a \<Rightarrow> 'a) \<Rightarrow> 'a list \<Rightarrow> 'a list" where
  "replace_first P f [] = []"
| "replace_first P f (x # xs) = (if P x then f x # xs else x # replace_first P f xs)"

lemma first_index_None: "first_index P xs = None \<longleftrightarrow> \<not> list_ex P xs"
  by (induction xs) auto

lemma first_index_Some:
  "first_index P xs = Some i \<Longrightarrow> i < length xs \<and> P (xs ! i) \<and> (\<forall>j < i. \<not> P (xs ! j))"
proof (induction xs arbitrary: i)
  case (Cons x xs)
  then show ?case by (auto split: if_splits simp: less_Suc_eq_0_disj)
qed simp

lemma remove_first_index:
  "first_index P xs = Some i \<Longrightarrow> remove_first P xs = take i xs @ drop (Suc i) xs"
  by (induction xs arbitrary: i) (auto split: if_splits)

lemma replace_first_index:
  "first_index P xs = Some i \<Longrightarrow> replace_first P f xs = xs[i := f (xs ! i)]"
  by (induction xs arbitrary: i) (auto split: if_splits)

lemma set_remove_first: "set (remove_first P xs) \<subseteq> set xs"
  by (induction xs) auto

lemma set_replace_first: "set (replace_first P f xs) \<subseteq> set xs \<union> f ` set xs"
  by (induction xs) auto

lemma remove_first_filter:
  "distinct (map k xs) \<Longrightarrow> remove_first (\<lambda>x. k x = a) xs = filter (\<lambda>x. k x \<noteq> a) xs"
proof (induction xs)
  case (Cons x xs)
  then show ?case by (auto intro!: filter_True [symmetric]) (metis image_eqI)
qed simp

lemma replace_first_map:
  "distinct (map k xs) \<Longrightarrow> replace_first (\<lambda>x. k x = a) f xs = map (\<lambda>x. if k x = a then f x else x) xs"
proof (induction xs)
  case (Cons x xs)
  then show ?case by (auto intro!: map_idI [symmetric]) (metis image_eqI)
qed simp

end
