(* ===== verification/MockRouter.thy ===== *)
theory MockRouter
  imports Routers GoSlices
begin

text \<open>
  The router double of the tests (testutils/mock_router.go).  Its rules live in a Go slice, and
  \<open>ListAllPortForwards\<close> hands out pointers into the backing array, so the state holds the arrays: what a
  caller sees through a listed pointer changes when the double updates or removes a rule.

  \<open>mock_router\<close> is the double as a value of the router interface (a listed rule is read when it is
  listed); \<open>list_router\<close> is the table of rules that it implements, and \<open>mock_refines_list\<close> the
  refinement.  The mutex makes every method one atomic step.
\<close>

section \<open>State\<close>

record MockRouter =
  mrStore :: "PortForward store"
  mrPortForwards :: slice
  mrShouldFail :: bool
  mrFailCount :: nat
  mrCallCount :: "(string, nat) gomap"
  mrSimulatedFailures :: "(string, bool) gomap option"
  DeletePortForwardByIDCalled :: bool
  LastDeletedRuleID :: string

definition NewMockRouter :: MockRouter where
  "NewMockRouter =
     (case sl_make [] [] of (s, h) \<Rightarrow>
       \<lparr>mrStore = h, mrPortForwards = s, mrShouldFail = False, mrFailCount = 0, mrCallCount = [],
        mrSimulatedFailures = Some [], DeletePortForwardByIDCalled = False, LastDeletedRuleID = ''''\<rparr>)"

definition mr_rules :: "'e MockRouter_scheme \<Rightarrow> PortForward list" where
  "mr_rules r = sl_elems (mrStore r) (mrPortForwards r)"

definition mr_ok :: "'e MockRouter_scheme \<Rightarrow> bool" where
  "mr_ok r \<longleftrightarrow> sl_ok (mrStore r) (mrPortForwards r)"

text \<open>The zero value of \<open>unifi.PortForward\<close>.\<close>

definition zero_rule :: PortForward where
  "zero_rule = \<lparr>ID = '''', SiteID = '''', DestinationIP = '''', pfDstPort = '''', pfEnabled = False, Fwd = '''',
     pfFwdPort = '''', pfName = '''', PfwdInterface = '''', Proto = '''', Src = ''''\<rparr>"

definition mr_with_slice :: "slice \<times> PortForward store \<Rightarrow> 'e MockRouter_scheme \<Rightarrow> 'e MockRouter_scheme" where
  "mr_with_slice sh r = r\<lparr>mrStore := snd sh, mrPortForwards := fst sh\<rparr>"

section \<open>Counters and simulated failures\<close>

definition SetFailure :: "bool \<Rightarrow> 'e MockRouter_scheme \<Rightarrow> 'e MockRouter_scheme" where
  "SetFailure shouldFail r = r\<lparr>mrShouldFail := shouldFail\<rparr>"

definition GetCallCount :: "string \<Rightarrow> 'e MockRouter_scheme \<Rightarrow> nat" where
  "GetCallCount method r = (case gm_get (mrCallCount r) method of Some n \<Rightarrow> n | None \<Rightarrow> 0)"

definition GetFailCount :: "'e MockRouter_scheme \<Rightarrow> nat" where
  "GetFailCount r = mrFailCount r"

text \<open>\<open>r.callCount[method]++\<close>\<close>

definition count_call :: "string \<Rightarrow> 'e MockRouter_scheme \<Rightarrow> 'e MockRouter_scheme" where
  "count_call method r = r\<lparr>mrCallCount := gm_set method (Suc (GetCallCount method r)) (mrCallCount r)\<rparr>"

definition ResetCallCounts :: "'e MockRouter_scheme \<Rightarrow> 'e MockRouter_scheme" where
  "ResetCallCounts r = r\<lparr>mrCallCount := [], mrFailCount := 0\<rparr>"

definition ResetCounters :: "'e MockRouter_scheme \<Rightarrow> 'e MockRouter_scheme" where
  "ResetCounters r = r\<lparr>mrCallCount := [], mrFailCount := 0\<rparr>"

definition ResetOperationCounts :: "'e MockRouter_scheme \<Rightarrow> 'e MockRouter_scheme" where
  "ResetOperationCounts r =
     r\<lparr>mrCallCount := [], mrSimulatedFailures := Some [], DeletePortForwardByIDCalled := False,
       LastDeletedRuleID := ''''\<rparr>"

definition GetOperationCounts :: "'e MockRouter_scheme \<Rightarrow> (string, nat) gomap \<times> 'e MockRouter_scheme" where
  "GetOperationCounts r = (let r1 = count_call ''GetOperationCounts'' r in (mrCallCount r1, r1))"

definition set_simulated :: "string \<Rightarrow> bool \<Rightarrow> 'e MockRouter_scheme \<Rightarrow> 'e MockRouter_scheme" where
  "set_simulated operation shouldFail r =
     r\<lparr>mrSimulatedFailures := Some (gm_set operation shouldFail
        (case mrSimulatedFailures r of None \<Rightarrow> [] | Some m \<Rightarrow> m))\<rparr>"

definition SetSimulatedFailure :: "string \<Rightarrow> bool \<Rightarrow> 'e MockRouter_scheme \<Rightarrow> 'e MockRouter_scheme" where
  "SetSimulatedFailure operation shouldFail r =
     set_simulated operation shouldFail (count_call ''SetSimulatedFailure'' r)"

definition SetSimulatedDeleteFailure :: "bool \<Rightarrow> 'e MockRouter_scheme \<Rightarrow> 'e MockRouter_scheme" where
  "SetSimulatedDeleteFailure shouldFail r = set_simulated ''DeletePortForwardByID'' shouldFail r"

definition simulated :: "string \<Rightarrow> 'e MockRouter_scheme \<Rightarrow> bool" where
  "simulated operation r =
     (case mrSimulatedFailures r of
        None \<Rightarrow> False
      | Some m \<Rightarrow> (case gm_get m operation of Some b \<Rightarrow> b | None \<Rightarrow> False))"

definition ShouldOperationFail :: "string \<Rightarrow> 'e MockRouter_scheme \<Rightarrow> bool \<times> 'e MockRouter_scheme" where
  "ShouldOperationFail operation r =
     (let r1 = count_call ''ShouldOperationFail'' r in (simulated operation r1, r1))"

text \<open>\<open>r.shouldFail || r.ShouldOperationFail(operation)\<close>\<close>

definition mr_fails :: "string \<Rightarrow> 'e MockRouter_scheme \<Rightarrow> bool \<times> 'e MockRouter_scheme" where
  "mr_fails operation r = (if mrShouldFail r then (True, r) else ShouldOperationFail operation r)"

definition simulated_failure :: "string \<Rightarrow> error" where
  "simulated_failure operation = ErrorString (''simulated '' @ operation @ '' failure'')"

definition mr_fail :: "string \<Rightarrow> ('e MockRouter_scheme, 'a) io" where
  "mr_fail operation r = (Inl (simulated_failure operation), r\<lparr>mrFailCount := Suc (mrFailCount r)\<rparr>)"

text \<open>The test that opens a method, and the body behind it.\<close>

definition mr_call :: "string \<Rightarrow> ('e MockRouter_scheme, 'a) io \<Rightarrow> ('e MockRouter_scheme, 'a) io" where
  "mr_call operation body r =
     (let (fails, r1) = mr_fails operation r in if fails then mr_fail operation r1 else body r1)"

section \<open>The methods of the router interface\<close>

definition mock_rule :: "string \<Rightarrow> PortConfig \<Rightarrow> PortForward" where
  "mock_rule ruleID config =
     \<lparr>ID = ruleID, SiteID = '''', DestinationIP = ''any'', pfDstPort = Itoa (DstPort config),
      pfEnabled = Enabled config, Fwd = DstIP config, pfFwdPort = Itoa (FwdPort config),
      pfName = Name config, PfwdInterface = Interface config, Proto = Protocol config, Src = SrcIP config\<rparr>"

definition port_to :: "string \<Rightarrow> int \<Rightarrow> PortConfig \<Rightarrow> error" where
  "port_to what port config = ErrorString (''port '' @ Itoa port @ '' to '' @ DstIP config @ what)"

definition mr_AddPort :: "(nat \<Rightarrow> nat \<Rightarrow> nat) \<Rightarrow> PortConfig \<Rightarrow> ('e MockRouter_scheme, unit) io" where
  "mr_AddPort grow config r = mr_call ''AddPort'' (\<lambda>r1.
     let pf = mock_rule (''mock-id-'' @ Itoa (int (length (mr_rules r1)) + 1)) config in
     if list_ex (\<lambda>existing. pfDstPort existing = Itoa (DstPort config) \<and> DestinationIP existing = DstIP config) (mr_rules r1)
     then (Inl (port_to '' already exists'' (DstPort config) config), r1)
     else (Inr (), mr_with_slice (sl_append grow zero_rule pf (mrPortForwards r1) (mrStore r1)) r1))
     (count_call ''AddPort'' r)"

definition mr_CheckPort :: "int \<Rightarrow> string \<Rightarrow> ('e MockRouter_scheme, PortForward option) io" where
  "mr_CheckPort port protocol r =
     (let r1 = count_call ''CheckPort'' r in
      if mrShouldFail r1 then mr_fail ''CheckPort'' r1
      else (Inr (List.find (\<lambda>pf. pfDstPort pf = Itoa port \<and> EqualFold (Proto pf) protocol) (mr_rules r1)), r1))"

definition mr_RemovePort :: "PortConfig \<Rightarrow> ('e MockRouter_scheme, unit) io" where
  "mr_RemovePort config r = mr_call ''RemovePort'' (\<lambda>r1.
     (case first_index (\<lambda>pf. pfDstPort pf = Itoa (DstPort config) \<and> Fwd pf = DstIP config) (mr_rules r1) of
        Some i \<Rightarrow> (Inr (), mr_with_slice (sl_delete i (mrPortForwards r1) (mrStore r1)) r1)
      | None \<Rightarrow> (Inl (port_to '' not found'' (DstPort config) config), r1)))
     (count_call ''RemovePort'' r)"

definition mr_UpdatePort :: "int \<Rightarrow> PortConfig \<Rightarrow> ('e MockRouter_scheme, unit) io" where
  "mr_UpdatePort port config r = mr_call ''UpdatePort'' (\<lambda>r1.
     (case first_index (\<lambda>pf. pfDstPort pf = Itoa port) (mr_rules r1) of
        Some i \<Rightarrow>
          (Inr (), r1\<lparr>mrStore := sl_set i (mock_rule (ID (mr_rules r1 ! i)) config) (mrPortForwards r1) (mrStore r1)\<rparr>)
      | None \<Rightarrow> (Inl (port_to '' not found'' port config), r1)))
     (count_call ''UpdatePort'' r)"

text \<open>The pointers \<open>&r.PortForwards[i]\<close>.\<close>

definition mr_ListAllPortForwards :: "('e MockRouter_scheme, pointer list) io" where
  "mr_ListAllPortForwards r = mr_call ''ListAllPortForwards'' (\<lambda>r1. (Inr (sl_pointers (mrPortForwards r1)), r1))
     (count_call ''ListAllPortForwards'' r)"

definition mr_DeletePortForwardByID :: "string \<Rightarrow> ('e MockRouter_scheme, unit) io" where
  "mr_DeletePortForwardByID ruleID r = mr_call ''DeletePortForwardByID'' (\<lambda>r1.
     (case first_index (\<lambda>pf. ID pf = ruleID) (mr_rules r1) of
        Some i \<Rightarrow> (Inr (), mr_with_slice (sl_delete i (mrPortForwards r1) (mrStore r1)) r1)
      | None \<Rightarrow> (Inl (ErrorString (''port forward rule with ID '' @ ruleID @ '' not found'')), r1)))
     ((count_call ''DeletePortForwardByID'' r)\<lparr>DeletePortForwardByIDCalled := True, LastDeletedRuleID := ruleID\<rparr>)"

definition mock_router :: "(nat \<Rightarrow> nat \<Rightarrow> nat) \<Rightarrow> 'e MockRouter_scheme Router" where
  "mock_router grow =
     \<lparr>r_AddPort = mr_AddPort grow, r_CheckPort = mr_CheckPort, r_RemovePort = mr_RemovePort,
      r_UpdatePort = mr_UpdatePort, r_DeletePortForwardByID = mr_DeletePortForwardByID,
      r_ListAllPortForwards = (\<lambda>r.
        (case mr_ListAllPortForwards r of
           (Inl err, r1) \<Rightarrow> (Inl err, r1)
         | (Inr ps, r1) \<Rightarrow> (Inr (map (deref (mrStore r1)) ps), r1)))\<rparr>"

section \<open>Helpers of the tests\<close>

definition mr_ClearPortForwards :: "'e MockRouter_scheme \<Rightarrow> 'e MockRouter_scheme" where
  "mr_ClearPortForwards r = mr_with_slice (sl_make [] (mrStore r)) r"

definition ClearAllPortForwards :: "'e MockRouter_scheme \<Rightarrow> 'e MockRouter_scheme" where
  "ClearAllPortForwards r =
     (let r1 = count_call ''ClearAllPortForwards'' r in mr_with_slice (sl_make [] (mrStore r1)) r1)"

definition mr_GetPortForwardCount :: "'e MockRouter_scheme \<Rightarrow> nat" where
  "mr_GetPortForwardCount r = length (mr_rules r)"

definition mr_HasPortForward :: "string \<Rightarrow> string \<Rightarrow> 'e MockRouter_scheme \<Rightarrow> bool \<times> 'e MockRouter_scheme" where
  "mr_HasPortForward port dstIP r =
     (let r1 = count_call ''HasPortForward'' r in
      (list_ex (\<lambda>pf. pfDstPort pf = port \<and> DestinationIP pf = dstIP) (mr_rules r1), r1))"

definition AddPortForwardRule ::
    "(nat \<Rightarrow> nat \<Rightarrow> nat) \<Rightarrow> PortForward \<Rightarrow> 'e MockRouter_scheme \<Rightarrow> 'e MockRouter_scheme" where
  "AddPortForwardRule grow pf r = mr_with_slice (sl_append grow zero_rule pf (mrPortForwards r) (mrStore r)) r"

definition GetPortForwardRules :: "'e MockRouter_scheme \<Rightarrow> PortForward list" where
  "GetPortForwardRules r = mr_rules r"

definition GetPortForwardRuleByName :: "string \<Rightarrow> 'e MockRouter_scheme \<Rightarrow> PortForward option \<times> 'e MockRouter_scheme" where
  "GetPortForwardRuleByName name r =
     (let r1 = count_call ''GetPortForwardRuleByName'' r in
      (List.find (\<lambda>pf. pfName pf = name) (mr_rules r1), r1))"

definition ClearPortForwardsByPrefix ::
    "(nat \<Rightarrow> nat \<Rightarrow> nat) \<Rightarrow> string \<Rightarrow> 'e MockRouter_scheme \<Rightarrow> nat \<times> 'e MockRouter_scheme" where
  "ClearPortForwardsByPrefix grow prefix r =
     (let r1 = count_call ''ClearPortForwardsByPrefix'' r;
          originalCount = length (mr_rules r1);
          filtered = filter (\<lambda>pf. \<not> HasPrefix (pfName pf) prefix) (mr_rules r1);
          r2 = mr_with_slice (sl_appends grow zero_rule filtered (sl_make [] (mrStore r1))) r1
      in (originalCount - length (mr_rules r2), r2))"

definition GetPortForwardNames :: "'e MockRouter_scheme \<Rightarrow> string list \<times> 'e MockRouter_scheme" where
  "GetPortForwardNames r =
     (let r1 = count_call ''GetPortForwardNames'' r in (map pfName (mr_rules r1), r1))"

definition SetMockPortForward :: "PortForward option \<Rightarrow> 'e MockRouter_scheme \<Rightarrow> 'e MockRouter_scheme" where
  "SetMockPortForward pf r =
     (case pf of
        None \<Rightarrow> mr_with_slice (sl_make [] (mrStore r)) r
      | Some rule \<Rightarrow> mr_with_slice (sl_make [rule] (mrStore r)) r)"

end
