(* ===== verification/MockCorrect.thy ===== *)
theory MockCorrect
  imports MockRouter
begin

text \<open>
  What the router double of the tests promises and what it does not.  It implements a plain table of
  rules (\<open>list_router\<close>), it does not meet the contract of a router, one of its test queries can never
  find a rule, and the rules it lists change under the caller.
\<close>

section \<open>Refinement between routers\<close>

definition io_refines :: "('w \<Rightarrow> 'v) \<Rightarrow> ('w \<Rightarrow> bool) \<Rightarrow> ('w, 'a) io \<Rightarrow> ('v, 'a) io \<Rightarrow> bool" where
  "io_refines \<alpha> ok f g \<longleftrightarrow> (\<forall>w. ok w \<longrightarrow> g (\<alpha> w) = (fst (f w), \<alpha> (snd (f w))) \<and> ok (snd (f w)))"

definition router_refines :: "('w \<Rightarrow> 'v) \<Rightarrow> ('w \<Rightarrow> bool) \<Rightarrow> 'w Router \<Rightarrow> 'v Router \<Rightarrow> bool" where
  "router_refines \<alpha> ok R S \<longleftrightarrow>
     (\<forall>c. io_refines \<alpha> ok (r_AddPort R c) (r_AddPort S c)) \<and>
     (\<forall>p proto. io_refines \<alpha> ok (r_CheckPort R p proto) (r_CheckPort S p proto)) \<and>
     (\<forall>c. io_refines \<alpha> ok (r_RemovePort R c) (r_RemovePort S c)) \<and>
     (\<forall>p c. io_refines \<alpha> ok (r_UpdatePort R p c) (r_UpdatePort S p c)) \<and>
     (\<forall>i. io_refines \<alpha> ok (r_DeletePortForwardByID R i) (r_DeletePortForwardByID S i)) \<and>
     io_refines \<alpha> ok (r_ListAllPortForwards R) (r_ListAllPortForwards S)"

lemma io_refinesI:
  "(\<And>w res w'. ok w \<Longrightarrow> f w = (res, w') \<Longrightarrow> g (\<alpha> w) = (res, \<alpha> w') \<and> ok w') \<Longrightarrow> io_refines \<alpha> ok f g"
  unfolding io_refines_def by (metis prod.collapse)

lemma io_refinesD: "io_refines \<alpha> ok f g \<Longrightarrow> ok w \<Longrightarrow> f w = (res, w') \<Longrightarrow> g (\<alpha> w) = (res, \<alpha> w') \<and> ok w'"
  unfolding io_refines_def by (metis fst_conv snd_conv)

section \<open>The table behind the double\<close>

record mock_table =
  mtRules :: "PortForward list"
  mtFails :: "string \<Rightarrow> bool"

definition mt_call :: "string \<Rightarrow> (mock_table, 'a) io \<Rightarrow> (mock_table, 'a) io" where
  "mt_call operation act t = (if mtFails t operation then (Inl (simulated_failure operation), t) else act t)"

definition list_router :: "mock_table Router" where
  "list_router =
     \<lparr>r_AddPort = (\<lambda>c. mt_call ''AddPort'' (\<lambda>t.
        if list_ex (\<lambda>pf. pfDstPort pf = Itoa (DstPort c) \<and> DestinationIP pf = DstIP c) (mtRules t)
        then (Inl (port_to '' already exists'' (DstPort c) c), t)
        else (Inr (), t\<lparr>mtRules := mtRules t @ [mock_rule (''mock-id-'' @ Itoa (int (length (mtRules t)) + 1)) c]\<rparr>))),
      r_CheckPort = (\<lambda>p proto. mt_call ''CheckPort'' (\<lambda>t.
        (Inr (List.find (\<lambda>pf. pfDstPort pf = Itoa p \<and> EqualFold (Proto pf) proto) (mtRules t)), t))),
      r_RemovePort = (\<lambda>c. mt_call ''RemovePort'' (\<lambda>t.
        let here = (\<lambda>pf. pfDstPort pf = Itoa (DstPort c) \<and> Fwd pf = DstIP c) in
        if list_ex here (mtRules t) then (Inr (), t\<lparr>mtRules := remove_first here (mtRules t)\<rparr>)
        else (Inl (port_to '' not found'' (DstPort c) c), t))),
      r_UpdatePort = (\<lambda>p c. mt_call ''UpdatePort'' (\<lambda>t.
        let here = (\<lambda>pf. pfDstPort pf = Itoa p) in
        if list_ex here (mtRules t)
        then (Inr (), t\<lparr>mtRules := replace_first here (\<lambda>pf. mock_rule (ID pf) c) (mtRules t)\<rparr>)
        else (Inl (port_to '' not found'' p c), t))),
      r_DeletePortForwardByID = (\<lambda>i. mt_call ''DeletePortForwardByID'' (\<lambda>t.
        let here = (\<lambda>pf. ID pf = i) in
        if list_ex here (mtRules t) then (Inr (), t\<lparr>mtRules := remove_first here (mtRules t)\<rparr>)
        else (Inl (ErrorString (''port forward rule with ID '' @ i @ '' not found'')), t))),
      r_ListAllPortForwards = mt_call ''ListAllPortForwards'' (\<lambda>t. (Inr (mtRules t), t))\<rparr>"

definition mr_abs :: "'e MockRouter_scheme \<Rightarrow> mock_table" where
  "mr_abs r = \<lparr>mtRules = mr_rules r,
     mtFails = (\<lambda>operation. mrShouldFail r \<or> (operation \<noteq> ''CheckPort'' \<and> simulated operation r))\<rparr>"

section \<open>The double implements the table\<close>

lemma count_call_frame [simp]:
  "mrStore (count_call m r) = mrStore r" "mrPortForwards (count_call m r) = mrPortForwards r"
  "mrShouldFail (count_call m r) = mrShouldFail r" "mrSimulatedFailures (count_call m r) = mrSimulatedFailures r"
  "mr_rules (count_call m r) = mr_rules r" "mr_ok (count_call m r) = mr_ok r" "mr_abs (count_call m r) = mr_abs r"
  by (simp_all add: count_call_def mr_rules_def mr_ok_def mr_abs_def simulated_def)

lemma state_frame [simp]:
  "mr_abs (r\<lparr>mrFailCount := n\<rparr>) = mr_abs r" "mr_ok (r\<lparr>mrFailCount := n\<rparr>) = mr_ok r"
  "mr_abs (r\<lparr>DeletePortForwardByIDCalled := b, LastDeletedRuleID := i\<rparr>) = mr_abs r"
  "mr_ok (r\<lparr>DeletePortForwardByIDCalled := b, LastDeletedRuleID := i\<rparr>) = mr_ok r"
  by (simp_all add: mr_abs_def mr_ok_def mr_rules_def simulated_def)

lemma mtRules_abs [simp]: "mtRules (mr_abs r) = mr_rules r"
  and mtFails_CheckPort: "mtFails (mr_abs r) ''CheckPort'' = mrShouldFail r"
  by (simp_all add: mr_abs_def)

lemma mr_fails_abs:
  assumes "mr_fails operation r = (b, r1)" and "operation \<noteq> ''CheckPort''"
  shows "b = mtFails (mr_abs r) operation" "mr_abs r1 = mr_abs r" "mr_ok r1 = mr_ok r"
  using assms
  by (auto simp: mr_fails_def ShouldOperationFail_def Let_def split: if_splits)
    (simp_all add: mr_abs_def simulated_def)

text \<open>A method refines an operation of the table when its body does and its preparation changes only counters.\<close>

lemma call_refines:
  assumes body: "\<And>r. mr_ok r \<Longrightarrow> act (mr_abs r) = (fst (body r), mr_abs (snd (body r))) \<and> mr_ok (snd (body r))"
    and prepare: "\<And>r. mr_abs (prepare r) = mr_abs r" "\<And>r. mr_ok (prepare r) = mr_ok r"
    and op: "operation \<noteq> ''CheckPort''"
  shows "io_refines mr_abs mr_ok (\<lambda>r. mr_call operation body (prepare r)) (mt_call operation act)"
proof (rule io_refinesI)
  fix r res r' assume ok: "mr_ok r" and run: "mr_call operation body (prepare r) = (res, r')"
  obtain b r1 where f: "mr_fails operation (prepare r) = (b, r1)" by (rule prod.exhaust)
  note f' = mr_fails_abs [OF f op, unfolded prepare]
  from body [of r1] f' ok run f show "mt_call operation act (mr_abs r) = (res, mr_abs r') \<and> mr_ok r'"
    by (cases b) (auto simp: mr_call_def mt_call_def mr_fail_def)
qed

lemma mr_with_slice_abs:
  assumes "sl_ok (snd sh) (fst sh)"
  shows "mr_abs (mr_with_slice sh r) = (mr_abs r)\<lparr>mtRules := sl_elems (snd sh) (fst sh)\<rparr>"
    "mr_ok (mr_with_slice sh r)" "mr_rules (mr_with_slice sh r) = sl_elems (snd sh) (fst sh)"
  using assms by (simp_all add: mr_with_slice_def mr_abs_def mr_rules_def mr_ok_def simulated_def)

lemma delete_abs:
  fixes r :: "'e MockRouter_scheme"
  assumes "mr_ok r" and i: "first_index P (mr_rules r) = Some i"
  defines "r' \<equiv> mr_with_slice (sl_delete i (mrPortForwards r) (mrStore r)) r"
  shows "mr_abs r' = (mr_abs r)\<lparr>mtRules := remove_first P (mr_rules r)\<rparr>" "mr_ok r'" "list_ex P (mr_rules r)"
proof -
  have ok: "sl_ok (mrStore r) (mrPortForwards r)" using assms(1) by (simp add: mr_ok_def)
  have "i < length (mr_rules r)" using first_index_Some [OF i] by simp
  then have "i < slLen (mrPortForwards r)" using ok by (simp add: mr_rules_def sl_elems_def sl_ok_def)
  from sl_delete_elems [OF ok this]
  have d: "sl_ok (snd (sl_delete i (mrPortForwards r) (mrStore r))) (fst (sl_delete i (mrPortForwards r) (mrStore r))) \<and>
    sl_elems (snd (sl_delete i (mrPortForwards r) (mrStore r))) (fst (sl_delete i (mrPortForwards r) (mrStore r))) =
      take i (mr_rules r) @ drop (Suc i) (mr_rules r)"
    by (simp add: mr_rules_def)
  then show "mr_abs r' = (mr_abs r)\<lparr>mtRules := remove_first P (mr_rules r)\<rparr>" "mr_ok r'"
    by (simp_all add: r'_def mr_with_slice_abs remove_first_index [OF i])
  show "list_ex P (mr_rules r)" using i first_index_None [of P "mr_rules r"] by auto
qed

lemma append_abs:
  fixes r :: "'e MockRouter_scheme" and z pf :: PortForward and grow :: "nat \<Rightarrow> nat \<Rightarrow> nat"
  assumes "mr_ok r"
  defines "r' \<equiv> mr_with_slice (sl_append grow z pf (mrPortForwards r) (mrStore r)) r"
  shows "mr_abs r' = (mr_abs r)\<lparr>mtRules := mr_rules r @ [pf]\<rparr>" "mr_ok r'"
proof -
  have ok: "sl_ok (mrStore r) (mrPortForwards r)" using assms(1) by (simp add: mr_ok_def)
  from sl_append_elems [OF this, of grow z pf]
  have "sl_ok (snd (sl_append grow z pf (mrPortForwards r) (mrStore r))) (fst (sl_append grow z pf (mrPortForwards r) (mrStore r))) \<and>
    sl_elems (snd (sl_append grow z pf (mrPortForwards r) (mrStore r))) (fst (sl_append grow z pf (mrPortForwards r) (mrStore r))) =
      mr_rules r @ [pf]"
    by (simp add: mr_rules_def)
  then show "mr_abs r' = (mr_abs r)\<lparr>mtRules := mr_rules r @ [pf]\<rparr>" "mr_ok r'"
    by (simp_all add: r'_def mr_with_slice_abs)
qed

lemma set_abs:
  fixes r :: "'e MockRouter_scheme" and f :: "PortForward \<Rightarrow> PortForward"
  assumes "mr_ok r" and i: "first_index P (mr_rules r) = Some i"
  defines "r' \<equiv> r\<lparr>mrStore := sl_set i (f (mr_rules r ! i)) (mrPortForwards r) (mrStore r)\<rparr>"
  shows "mr_abs r' = (mr_abs r)\<lparr>mtRules := replace_first P f (mr_rules r)\<rparr>" "mr_ok r'" "list_ex P (mr_rules r)"
proof -
  have ok: "sl_ok (mrStore r) (mrPortForwards r)" using assms(1) by (simp add: mr_ok_def)
  from sl_set_elems [OF this, of i "f (mr_rules r ! i)"]
  show "mr_abs r' = (mr_abs r)\<lparr>mtRules := replace_first P f (mr_rules r)\<rparr>" "mr_ok r'"
    by (simp_all add: r'_def mr_abs_def mr_rules_def mr_ok_def simulated_def replace_first_index [OF i [unfolded mr_rules_def]])
  show "list_ex P (mr_rules r)" using i first_index_None [of P "mr_rules r"] by auto
qed

lemmas mock_bodies = delete_abs append_abs set_abs first_index_None [THEN iffD1]

lemma add_refines: "io_refines mr_abs mr_ok (mr_AddPort grow c) (r_AddPort list_router c)"
  unfolding mr_AddPort_def [abs_def] list_router_def Router.simps
  by (rule call_refines) (simp_all add: append_abs Let_def)

lemma check_refines: "io_refines mr_abs mr_ok (mr_CheckPort p proto) (r_CheckPort list_router p proto)"
  by (rule io_refinesI)
    (auto simp: mr_CheckPort_def list_router_def mt_call_def mr_fail_def Let_def mtFails_CheckPort split: if_splits)

lemma remove_refines: "io_refines mr_abs mr_ok (mr_RemovePort c) (r_RemovePort list_router c)"
  unfolding mr_RemovePort_def [abs_def] list_router_def Router.simps
  by (rule call_refines) (auto simp: Let_def mock_bodies split: option.split)

lemma update_refines: "io_refines mr_abs mr_ok (mr_UpdatePort p c) (r_UpdatePort list_router p c)"
  unfolding mr_UpdatePort_def [abs_def] list_router_def Router.simps
  by (rule call_refines)
    (auto simp: Let_def set_abs(1,2) [where f = "\<lambda>pf. mock_rule (ID pf) c"] mock_bodies split: option.split)

lemma delete_refines: "io_refines mr_abs mr_ok (mr_DeletePortForwardByID i) (r_DeletePortForwardByID list_router i)"
  unfolding mr_DeletePortForwardByID_def [abs_def] list_router_def Router.simps
  by (rule call_refines) (auto simp: Let_def mock_bodies split: option.split)

lemma list_refines:
  "io_refines mr_abs mr_ok (r_ListAllPortForwards (mock_router grow)) (r_ListAllPortForwards list_router)"
proof (rule io_refinesI)
  fix r :: "'e MockRouter_scheme" and res r'
  assume ok: "mr_ok r" and run: "r_ListAllPortForwards (mock_router grow) r = (res, r')"
  obtain b r1 where f: "mr_fails ''ListAllPortForwards'' (count_call ''ListAllPortForwards'' r) = (b, r1)" by (rule prod.exhaust)
  have "''ListAllPortForwards'' \<noteq> ''CheckPort''" by simp
  note f' = mr_fails_abs [OF f this, simplified]
  have "map (deref (mrStore r1)) (sl_pointers (mrPortForwards r1)) = mr_rules r1"
    using ok f' by (simp add: mr_ok_def mr_rules_def deref_pointers)
  moreover have "mr_rules r1 = mr_rules r" using f' mtRules_abs by metis
  ultimately show "r_ListAllPortForwards list_router (mr_abs r) = (res, mr_abs r') \<and> mr_ok r'"
    using f' ok run
    by (cases b) (auto simp: mr_ListAllPortForwards_def mock_router_def list_router_def mt_call_def mr_call_def f mr_fail_def)
qed

lemma mock_refines: "router_refines mr_abs mr_ok (mock_router grow) list_router"
  unfolding router_refines_def
  by (simp add: list_refines) (simp add: mock_router_def add_refines check_refines remove_refines update_refines delete_refines)

text \<open>
  C35: the router double implements a plain table of rules.  With its rules in a slice that is appended to,
  overwritten and shifted in place, every method of \<open>MockRouter\<close> returns what the corresponding
  operation on a list of rules returns (including the simulated failures) and leaves the list that this
  operation leaves, whatever capacities the runtime chooses.
\<close>

theorem mock_router_refines_table:
  "router_refines mr_abs mr_ok (mock_router grow) list_router"
  by (rule mock_refines)

section \<open>Where the double is not a router\<close>

definition loaded_table :: "PortForward list \<Rightarrow> mock_table" where
  "loaded_table rs = \<lparr>mtRules = rs, mtFails = (\<lambda>_. False)\<rparr>"

lemma loaded_mock:
  obtains r :: "'e MockRouter_scheme" where "mr_ok r" "mr_abs r = loaded_table rs"
proof -
  let ?u = "undefined :: 'e MockRouter_scheme"
  let ?r = "mr_with_slice (sl_make rs []) (?u\<lparr>mrShouldFail := False, mrSimulatedFailures := None\<rparr>)"
  obtain s h where "sl_make rs [] = (s, h)" by (rule prod.exhaust)
  then have "mr_ok ?r \<and> mr_abs ?r = loaded_table rs"
    by (auto simp: mr_with_slice_abs loaded_table_def) (simp add: mr_abs_def simulated_def)
  with that show thesis by blast
qed

definition mock_config :: "int \<Rightarrow> string \<Rightarrow> PortConfig" where
  "mock_config port protocol =
     \<lparr>Name = ''web/shop:http'', Enabled = True, Interface = ''wan'', DstPort = port, FwdPort = 80,
      SrcIP = ''any'', DstIP = ''192.168.1.10'', Protocol = protocol\<rparr>"

text \<open>
  The deviations, one by one: an update finds the rule of the other protocol on the port, removing a rule
  that is not there is an error, a second rule on an occupied port and protocol is accepted, and an
  identifier is given twice once a rule has been removed.
\<close>

lemma list_router_deviations:
  "fst (r_UpdatePort list_router 80 (mock_config 80 ''tcp'') (loaded_table [mock_rule ''a'' (mock_config 80 ''udp'')])) = Inr ()"
  "\<not> is_ok (fst (r_RemovePort list_router (mock_config 80 ''tcp'') (loaded_table [])))"
  "fst (r_AddPort list_router (mock_config 80 ''tcp'') (loaded_table [mock_rule ''a'' (mock_config 80 ''tcp'')])) = Inr ()"
  "map ID (mtRules (snd (r_AddPort list_router (mock_config 82 ''tcp'')
     (loaded_table [mock_rule ''mock-id-2'' (mock_config 81 ''tcp'')])))) = [''mock-id-2'', ''mock-id-2'']"
  by (simp_all add: list_router_def mt_call_def loaded_table_def mock_rule_def mock_config_def Let_def go_eval)

text \<open>
  The router double does not meet the contract that the controller relies on and that the UniFi router
  meets (C11): its \<open>UpdatePort\<close> looks the rule up by the port alone, so a request for TCP overwrites
  the UDP rule on the port.  A test that passes on the double says nothing about two protocols on one port.
\<close>

lemma mock_router_breaks_contract:
  "\<not> router_contract (mock_router grow :: 'e MockRouter_scheme Router) mr_rules"
proof
  assume contract: "router_contract (mock_router grow :: 'e MockRouter_scheme Router) mr_rules"
  let ?old = "mock_rule ''a'' (mock_config 80 ''udp'')" and ?c = "mock_config 80 ''tcp''"
  obtain r :: "'e MockRouter_scheme" where ok: "mr_ok r" and t: "mr_abs r = loaded_table [?old]" by (rule loaded_mock)
  have rules: "mr_rules r = [?old]" using mtRules_abs [of r] t by (simp add: loaded_table_def)
  obtain res r' where run: "mr_UpdatePort 80 ?c r = (res, r')" by (rule prod.exhaust)
  then have "res = Inr ()"
    using update_refines [of 80 ?c] ok list_router_deviations(1) unfolding io_refines_def t [symmetric] by (metis fst_conv)
  moreover have "table_ok (mr_rules r)"
    by (simp add: rules table_ok_def exclusive_def mock_rule_def)
  ultimately obtain old where "old \<in> set (mr_rules r)" "slot old = Some (80, ToLower (Protocol ?c))"
    using router_contract.update_ok [OF contract, of r 80 ?c r'] run by (auto simp: mock_router_def)
  then show False
    by (simp add: rules slot_def mock_rule_def mock_config_def go_eval ToLower_def lower_char_def)
qed

section \<open>A query that finds nothing\<close>

datatype RouterCall =
    CallAdd PortConfig
  | CallCheck int string
  | CallRemove PortConfig
  | CallUpdate int PortConfig
  | CallDelete string
  | CallList

fun call_state :: "'w Router \<Rightarrow> RouterCall \<Rightarrow> 'w \<Rightarrow> 'w" where
  "call_state R (CallAdd c) w = snd (r_AddPort R c w)"
| "call_state R (CallCheck p proto) w = snd (r_CheckPort R p proto w)"
| "call_state R (CallRemove c) w = snd (r_RemovePort R c w)"
| "call_state R (CallUpdate p c) w = snd (r_UpdatePort R p c w)"
| "call_state R (CallDelete i) w = snd (r_DeletePortForwardByID R i w)"
| "call_state R CallList w = snd (r_ListAllPortForwards R w)"

lemma call_state_refines:
  assumes "router_refines \<alpha> ok R S" and "ok w"
  shows "\<alpha> (fold (call_state R) calls w) = fold (call_state S) calls (\<alpha> w) \<and> ok (fold (call_state R) calls w)"
  using assms(2)
proof (induction calls arbitrary: w)
  case (Cons call calls)
  have "\<alpha> (call_state R call w) = call_state S call (\<alpha> w) \<and> ok (call_state R call w)"
    using assms(1) Cons.prems by (cases call) (simp_all add: router_refines_def io_refines_def)
  with Cons.IH [of "call_state R call w"] show ?case by simp
qed simp

definition any_destination :: "mock_table \<Rightarrow> bool" where
  "any_destination t \<longleftrightarrow> (\<forall>pf \<in> set (mtRules t). DestinationIP pf = ''any'')"

lemma call_any_destination: "any_destination t \<Longrightarrow> any_destination (call_state list_router call t)"
  using set_remove_first set_replace_first
  by (cases call) (fastforce simp: list_router_def mt_call_def any_destination_def mock_rule_def Let_def)+

lemma calls_any_destination: "any_destination t \<Longrightarrow> any_destination (fold (call_state list_router) calls t)"
  by (induction calls arbitrary: t) (simp_all add: call_any_destination)

lemma NewMockRouter_abs: "mr_ok NewMockRouter" "mr_abs NewMockRouter = loaded_table []"
  by (auto simp: NewMockRouter_def sl_make_def mr_ok_def sl_ok_def mr_abs_def loaded_table_def mr_rules_def
      sl_elems_def simulated_def)

text \<open>
  \<open>HasPortForward\<close> never finds a rule that was created through the router interface.  It compares
  \<open>DestinationIP\<close>, which every rule of the double carries as \<open>any\<close>, with the forward address:
  after any sequence of calls on a new double the query is false for every address, so the assertion that
  a rule does not exist cannot fail and the assertion that it exists cannot hold.
\<close>

lemma test_query_finds_no_rule:
  assumes "dstIP \<noteq> ''any''"
  shows "\<not> fst (mr_HasPortForward port dstIP (fold (call_state (mock_router grow)) calls NewMockRouter))"
proof -
  let ?r = "fold (call_state (mock_router grow)) calls NewMockRouter"
  have "router_refines mr_abs mr_ok (mock_router grow) list_router" by (rule mock_refines)
  from call_state_refines [OF this NewMockRouter_abs(1)]
  have "mr_abs ?r = fold (call_state list_router) calls (loaded_table [])"
    by (simp add: NewMockRouter_abs)
  moreover have "any_destination (loaded_table [])" by (simp add: any_destination_def loaded_table_def)
  ultimately have "any_destination (mr_abs ?r)" using calls_any_destination by metis
  with assms show ?thesis
    by (auto simp: mr_HasPortForward_def any_destination_def list_ex_iff)
qed

lemma test_query_finds_no_rule_witness:
  "\<not> fst (mr_HasPortForward ''80'' ''192.168.1.10''
     (call_state (mock_router (\<lambda>_ n. n)) (CallAdd (mock_config 80 ''tcp'')) NewMockRouter))"
  using test_query_finds_no_rule [of "''192.168.1.10''" "''80''" "\<lambda>_ n. n" "[CallAdd (mock_config 80 ''tcp'')]"] by simp

section \<open>Listed rules change under the caller\<close>

lemma listed_pointers:
  assumes "mr_ok r" and "mr_ListAllPortForwards r = (Inr ps, r1)"
  shows "ps = sl_pointers (mrPortForwards r1)" "mr_ok r1" "mr_abs r1 = mr_abs r"
proof -
  obtain b r0 where f: "mr_fails ''ListAllPortForwards'' (count_call ''ListAllPortForwards'' r) = (b, r0)" by (rule prod.exhaust)
  have "''ListAllPortForwards'' \<noteq> ''CheckPort''" by simp
  note f' = mr_fails_abs [OF f this, simplified]
  with assms f show "ps = sl_pointers (mrPortForwards r1)" "mr_ok r1" "mr_abs r1 = mr_abs r"
    by (auto simp: mr_ListAllPortForwards_def mr_call_def mr_fail_def split: if_splits)
qed

lemma mr_call_ok:
  assumes "mr_call operation body r = (Inr a, r')"
  obtains r1 where "mrStore r1 = mrStore r" "mrPortForwards r1 = mrPortForwards r" "body r1 = (Inr a, r')"
  using assms
  by (auto simp: mr_call_def mr_fails_def mr_fail_def ShouldOperationFail_def Let_def split: if_splits
      intro: that [OF count_call_frame(1,2)])

lemma pointers_after_set:
  assumes "sl_ok h s"
  shows "map (deref (sl_set i x s h)) (sl_pointers s) = sl_elems (sl_set i x s h) s"
  using sl_set_elems [OF assms] deref_pointers by blast

lemma pointers_after_delete:
  assumes ok: "sl_ok h s" and i: "i < slLen s" and del: "sl_delete i s h = (s', h')"
  shows "map (deref h') (sl_pointers s) = sl_elems h' s' @ [last (sl_elems h s)]"
proof (rule nth_equalityI)
  have len: "length (sl_elems h s) = slLen s" using ok by (simp add: sl_elems_def sl_ok_def)
  note e = sl_delete_elems [OF ok i del, THEN conjunct2]
  show "length (map (deref h') (sl_pointers s)) = length (sl_elems h' s' @ [last (sl_elems h s)])"
    using i len by (simp add: e sl_pointers_def)
  fix j assume "j < length (map (deref h') (sl_pointers s))"
  then have j: "j < slLen s" by (simp add: sl_pointers_def)
  have cell: "deref h (slArray s, k) = sl_elems h s ! k" if "k < slLen s" for k
    using that by (simp add: deref_def sl_elems_def)
  have "last (sl_elems h s) = sl_elems h s ! (slLen s - 1)"
    using i len by (metis gr_implies_not0 last_conv_nth list.size(3))
  with deref_sl_delete [OF ok i j del] j i len cell
  show "map (deref h') (sl_pointers s) ! j = (sl_elems h' s' @ [last (sl_elems h s)]) ! j"
    by (auto simp: e sl_pointers_def nth_append not_less min_def intro!: arg_cong [of _ _ "(!) (sl_elems h s)"])
qed

text \<open>
  The rules that the double lists are pointers into its table and change under the caller.  After a
  successful \<open>UpdatePort\<close> the rules listed before read as the new table, so a rollback that takes the old
  configuration from the listed rule writes the new one; after a successful removal they read as the
  new table followed by its former last rule, so every pointer behind the removed rule has moved on by one.
\<close>

lemma listed_rules_follow_the_table:
  assumes "mr_ok r" and listed: "mr_ListAllPortForwards r = (Inr ps, r1)"
  shows "(mr_UpdatePort port config r1 = (Inr (), r2) \<longrightarrow> map (deref (mrStore r2)) ps = mr_rules r2) \<and>
    (mr_RemovePort config r1 = (Inr (), r2) \<longrightarrow> map (deref (mrStore r2)) ps = mr_rules r2 @ [last (mr_rules r1)])"
proof (intro conjI impI)
  note ps = listed_pointers [OF assms]
  from ps(2) have ok: "sl_ok (mrStore r1) (mrPortForwards r1)" by (simp add: mr_ok_def)
  show "map (deref (mrStore r2)) ps = mr_rules r2" if "mr_UpdatePort port config r1 = (Inr (), r2)"
  proof -
    from that [unfolded mr_UpdatePort_def] obtain r' i where
      "mrStore r' = mrStore r1" "mrPortForwards r' = mrPortForwards r1"
      "r2 = r'\<lparr>mrStore := sl_set i (mock_rule (ID (mr_rules r' ! i)) config) (mrPortForwards r') (mrStore r')\<rparr>"
      by (elim mr_call_ok) (auto split: option.splits)
    then show ?thesis using pointers_after_set [OF ok] by (simp add: ps(1) mr_rules_def)
  qed
  show "map (deref (mrStore r2)) ps = mr_rules r2 @ [last (mr_rules r1)]" if "mr_RemovePort config r1 = (Inr (), r2)"
  proof -
    from that [unfolded mr_RemovePort_def] obtain r' i P where r':
      "mrStore r' = mrStore r1" "mrPortForwards r' = mrPortForwards r1" "first_index P (mr_rules r') = Some i"
      "r2 = mr_with_slice (sl_delete i (mrPortForwards r') (mrStore r')) r'"
      by (elim mr_call_ok) (auto split: option.splits)
    have "i < slLen (mrPortForwards r1)"
      using first_index_Some [OF r'(3)] r' by (simp add: mr_rules_def sl_elems_def)
    then show ?thesis using pointers_after_delete [OF ok] r'
      by (simp add: ps(1) mr_rules_def mr_with_slice_def)
  qed
qed

text \<open>Two rules: after the first has been removed, the two listed pointers both read the second one.\<close>

definition two_rules :: MockRouter where
  "two_rules = fold (call_state (mock_router (\<lambda>_ n. n)))
     [CallAdd (mock_config 80 ''tcp''), CallAdd (mock_config 81 ''tcp'')] NewMockRouter"

lemma two_rules_ok: "mr_ok two_rules"
  unfolding two_rules_def using call_state_refines [OF mock_refines NewMockRouter_abs(1)] by blast

lemmas mock_eval = two_rules_def NewMockRouter_def mock_router_def mr_AddPort_def mr_RemovePort_def mr_ListAllPortForwards_def
  mr_call_def mr_fails_def ShouldOperationFail_def count_call_def GetCallCount_def simulated_def mr_rules_def sl_make_def
  sl_append_def sl_delete_def sl_elems_def sl_pointers_def mr_with_slice_def mock_rule_def mock_config_def Let_def

lemma listed_rules_follow_the_table_witness:
  "\<exists>ps r1 r2. mr_ListAllPortForwards two_rules = (Inr ps, r1) \<and> mr_RemovePort (mock_config 80 ''tcp'') r1 = (Inr (), r2) \<and>
     map pfDstPort (map (deref (mrStore r1)) ps) = [''80'', ''81''] \<and>
     map pfDstPort (map (deref (mrStore r2)) ps) = [''81'', ''81'']"
proof -
  obtain ps r1 r2 where l: "mr_ListAllPortForwards two_rules = (Inr ps, r1)"
    and r: "mr_RemovePort (mock_config 80 ''tcp'') r1 = (Inr (), r2)"
    and n: "map pfDstPort (mr_rules r1) = [''80'', ''81'']" "map pfDstPort (mr_rules r2) = [''81'']"
    by (simp add: mock_eval go_eval)
  note p = listed_pointers [OF two_rules_ok l]
  have "map (deref (mrStore r1)) ps = mr_rules r1"
    using p by (simp add: mr_ok_def mr_rules_def deref_pointers)
  moreover have "map (deref (mrStore r2)) ps = mr_rules r2 @ [last (mr_rules r1)]"
    using listed_rules_follow_the_table [OF two_rules_ok l] r by blast
  ultimately show ?thesis using l r n by (intro exI [of _ ps] exI [of _ r1] exI [of _ r2]) auto
qed

end
