(* ===== verification/FakeClient.thy ===== *)
theory FakeClient
  imports Services Config
begin

text \<open>
  The Kubernetes client double of the tests (testutils/fake_k8s_client.go): a map from namespaced names to
  services, behind the calls of the controller-runtime client.  Objects are deep-copied in and out, so
  they are values here.  A caller may pass an object of any type: \<open>Object\<close> separates services from the rest.

  A call may also panic: writing to an element of a slice that is not there (\<open>List\<close>), or setting a
  variable of another type by reflection (\<open>Get\<close>); \<open>outcome\<close> keeps this apart from returned errors.
\<close>

section \<open>State and outcomes\<close>


datatype Object = ServiceObject Service | OtherObject

datatype ObjectList = ServiceList "Service list" | OtherList

record FakeKubernetesClient =
  fkServices :: "(string, Service) gomap"

definition NewFakeKubernetesClient :: FakeKubernetesClient where
  "NewFakeKubernetesClient = \<lparr>fkServices = []\<rparr>"

type_synonym 'a fk_call = "FakeKubernetesClient \<Rightarrow> 'a result outcome \<times> FakeKubernetesClient"

definition only_services :: error where
  "only_services = ErrorString ''fake client only supports Service objects''"

definition services_not_found :: "string \<Rightarrow> error" where
  "services_not_found name =
     StatusError NotFound (''services '' @ [CHR 0x22] @ name @ [CHR 0x22] @ '' not found'')"

definition namespaced :: "string \<Rightarrow> string \<Rightarrow> string" where
  "namespaced namespace name = namespace @ ''/'' @ name"

section \<open>The client calls\<close>

text \<open>The destination of \<open>Get\<close> is given by its type; the result is what it holds afterwards.\<close>

definition fk_Get :: "string \<Rightarrow> string \<Rightarrow> Object \<Rightarrow> Object fk_call" where
  "fk_Get namespace name obj f =
     (case gm_get (fkServices f) (namespaced namespace name) of
        None \<Rightarrow> (Return (Inl (services_not_found name)), f)
      | Some service \<Rightarrow>
          (case obj of
             ServiceObject _ \<Rightarrow> (Return (Inr (ServiceObject service)), f)
           | OtherObject \<Rightarrow> (Panic, f)))"

definition fk_Create :: "Object \<Rightarrow> unit fk_call" where
  "fk_Create obj f =
     (case obj of
        OtherObject \<Rightarrow> (Return (Inl only_services), f)
      | ServiceObject service \<Rightarrow>
          (Return (Inr ()), f\<lparr>fkServices := gm_set (serviceKey service) service (fkServices f)\<rparr>))"

definition fk_Update :: "Object \<Rightarrow> unit fk_call" where
  "fk_Update obj f =
     (case obj of
        OtherObject \<Rightarrow> (Return (Inl only_services), f)
      | ServiceObject service \<Rightarrow>
          (Return (Inr ()), f\<lparr>fkServices := gm_set (serviceKey service) service (fkServices f)\<rparr>))"

definition fk_Delete :: "Object \<Rightarrow> unit fk_call" where
  "fk_Delete obj f =
     (case obj of
        OtherObject \<Rightarrow> (Return (Inl only_services), f)
      | ServiceObject service \<Rightarrow>
          (Return (Inr ()), f\<lparr>fkServices := gm_del (serviceKey service) (fkServices f)\<rparr>))"

text \<open>
  The loop \<open>services[i] = *service; i++\<close>: an index at or behind the length of the slice panics, whatever
  its capacity.  The iteration order \<open>it\<close> of the map is the runtime's.
\<close>

fun assign_loop :: "nat \<Rightarrow> 'a list \<Rightarrow> 'a list \<Rightarrow> 'a list outcome" where
  "assign_loop i [] services = Return services"
| "assign_loop i (service # rest) services =
     (if i < length services then assign_loop (Suc i) rest (services[i := service]) else Panic)"

definition fk_List :: "(string list \<Rightarrow> string list) \<Rightarrow> ObjectList \<Rightarrow> ObjectList fk_call" where
  "fk_List it list f =
     (case list of
        OtherList \<Rightarrow> (Return (Inl (ErrorString ''fake client only supports ServiceList'')), f)
      | ServiceList _ \<Rightarrow>
          (case assign_loop 0 (map (\<lambda>k. the (gm_get (fkServices f) k)) (it (map fst (fkServices f)))) [] of
             Return services \<Rightarrow> (Return (Inr (ServiceList services)), f)
           | Panic \<Rightarrow> (Panic, f)))"

definition fk_Patch :: "Object \<Rightarrow> unit fk_call" where
  "fk_Patch obj f =
     (case obj of
        OtherObject \<Rightarrow> (Return (Inl only_services), f)
      | ServiceObject service \<Rightarrow>
          if \<not> gm_has (fkServices f) (serviceKey service)
          then (Return (Inl (services_not_found (svcName service))), f)
          else (Return (Inr ()), f\<lparr>fkServices := gm_set (serviceKey service) service (fkServices f)\<rparr>))"

definition fk_DeleteAllOf :: "Object \<Rightarrow> unit fk_call" where
  "fk_DeleteAllOf obj f =
     (case obj of
        OtherObject \<Rightarrow> (Return (Inl only_services), f)
      | ServiceObject _ \<Rightarrow> (Return (Inr ()), f\<lparr>fkServices := []\<rparr>))"

text \<open>The writers of the status and of other subresources act on the object itself.\<close>

definition fk_StatusCreate :: "Object \<Rightarrow> Object \<Rightarrow> unit fk_call" where
  "fk_StatusCreate obj subResource = fk_Update subResource"

definition fk_StatusUpdate :: "Object \<Rightarrow> unit fk_call" where
  "fk_StatusUpdate obj = fk_Update obj"

definition fk_StatusPatch :: "Object \<Rightarrow> unit fk_call" where
  "fk_StatusPatch obj = fk_Patch obj"

definition fk_SubResourceGet :: "string \<Rightarrow> string \<Rightarrow> Object \<Rightarrow> Object fk_call" where
  "fk_SubResourceGet namespace name subResource = fk_Get namespace name subResource"

definition fk_SubResourceCreate :: "Object \<Rightarrow> Object \<Rightarrow> unit fk_call" where
  "fk_SubResourceCreate obj subResource = fk_Create subResource"

definition fk_SubResourceUpdate :: "Object \<Rightarrow> unit fk_call" where
  "fk_SubResourceUpdate obj = fk_Update obj"

definition fk_SubResourcePatch :: "Object \<Rightarrow> unit fk_call" where
  "fk_SubResourcePatch obj = fk_Patch obj"

definition fk_IsObjectNamespaced :: "Object \<Rightarrow> bool result" where
  "fk_IsObjectNamespaced obj = Inr True"

section \<open>Services for the tests\<close>

record TestPort =
  tpName :: string
  tpPort :: int
  tpProtocol :: string

definition test_service_port :: "TestPort \<Rightarrow> ServicePort" where
  "test_service_port port =
     \<lparr>spName = tpName port, spProtocol = tpProtocol port, spAppProtocol = None, spPort = tpPort port,
      spTargetPort = IntVal 0, spNodePort = 0\<rparr>"

definition CreateTestMultiPortService :: "string \<Rightarrow> string \<Rightarrow> TestPort list \<Rightarrow> string \<Rightarrow> string \<Rightarrow> Service" where
  "CreateTestMultiPortService name namespace testPorts ip annotation =
     \<lparr>svcNamespace = namespace, svcName = name,
      svcAnnotations = Some (if annotation \<noteq> '''' then [(FilterAnnotation, annotation)] else []),
      svcFinalizers = [], svcDeletionTimestamp = None, svcType = ''LoadBalancer'',
      svcPorts = map test_service_port testPorts, svcIngress = [ip]\<rparr>"

definition CreateTestServiceWithInvalidAnnotation :: "string \<Rightarrow> string \<Rightarrow> string \<Rightarrow> string \<Rightarrow> Service" where
  "CreateTestServiceWithInvalidAnnotation name namespace ip invalidAnnotation =
     CreateTestMultiPortService name namespace [\<lparr>tpName = ''http'', tpPort = 80, tpProtocol = ''TCP''\<rparr>] ip invalidAnnotation"

section \<open>The store\<close>

text \<open>Every service is stored under its own name, once.\<close>

definition fk_wf :: "FakeKubernetesClient \<Rightarrow> bool" where
  "fk_wf f \<longleftrightarrow> gm_wf (fkServices f) \<and> (\<forall>k s. gm_get (fkServices f) k = Some s \<longrightarrow> k = serviceKey s)"

lemma fk_wf_new: "fk_wf NewFakeKubernetesClient"
  by (simp add: fk_wf_def NewFakeKubernetesClient_def)

lemma fk_wf_writes:
  assumes "fk_wf f"
  shows "fk_wf (snd (fk_Create obj f))" "fk_wf (snd (fk_Update obj f))" "fk_wf (snd (fk_Delete obj f))"
    "fk_wf (snd (fk_Patch obj f))" "fk_wf (snd (fk_DeleteAllOf obj f))"
  using assms
  by (auto simp: fk_wf_def fk_Create_def fk_Update_def fk_Delete_def fk_Patch_def fk_DeleteAllOf_def split: Object.split)

lemma fk_reads [simp]: "snd (fk_Get ns n obj f) = f" "snd (fk_List it list f) = f"
  by (simp_all add: fk_Get_def fk_List_def split: option.split Object.split ObjectList.split outcome.split)

lemma namespaced_key: "namespaced (svcNamespace s) (svcName s) = serviceKey s"
  by (simp add: namespaced_def serviceKey_def)

text \<open>What is written under a name is read back under it, and other names are left alone.\<close>

lemma fk_write_read:
  assumes "write \<in> {fk_Create, fk_Update}"
  shows "fst (fk_Get ns n (ServiceObject any) (snd (write (ServiceObject s) f))) =
    (if namespaced ns n = serviceKey s then Return (Inr (ServiceObject s)) else fst (fk_Get ns n (ServiceObject any) f))"
  using assms by (auto simp: fk_Get_def fk_Create_def fk_Update_def split: option.splits if_splits)

lemma fk_delete_read:
  "fst (fk_Get ns n obj (snd (fk_Delete (ServiceObject s) f))) =
    (if namespaced ns n = serviceKey s then Return (Inl (services_not_found n)) else fst (fk_Get ns n obj f))"
  by (auto simp: fk_Get_def fk_Delete_def split: option.split Object.split)

text \<open>
  \<open>List\<close> of the client double works only on an empty cluster.  It assigns by index into a slice of length
  zero, so it panics as soon as one service is stored; whatever lists services (the initial and the periodic
  reconciliation) cannot be tested on the double.
\<close>

lemma fake_list_panics_iff:
  assumes "iter_order it"
  shows "fst (fk_List it (ServiceList ss) f) = Panic \<longleftrightarrow> fkServices f \<noteq> []"
proof -
  let ?ks = "it (map fst (fkServices f))"
  have loop: "assign_loop 0 xs [] = Panic \<longleftrightarrow> xs \<noteq> []" for xs :: "Service list"
    by (cases xs) simp_all
  have "fst (fk_List it (ServiceList ss) f) = Panic \<longleftrightarrow>
    assign_loop 0 (map (\<lambda>k. the (gm_get (fkServices f) k)) ?ks) [] = Panic"
    by (simp add: fk_List_def split: outcome.split)
  also have "\<dots> \<longleftrightarrow> length ?ks \<noteq> 0" by (simp add: loop)
  also have "\<dots> \<longleftrightarrow> fkServices f \<noteq> []" using assms by simp
  finally show ?thesis .
qed

lemma fake_list_panics_iff_witness:
  "fst (fk_List rev (ServiceList []) (snd (fk_Create (ServiceObject
     (CreateTestMultiPortService ''shop'' ''web'' [] ''10.0.0.1'' '''')) NewFakeKubernetesClient))) = Panic"
  by (subst fake_list_panics_iff [OF iter_order_rev])
    (simp add: fk_Create_def NewFakeKubernetesClient_def)

text \<open>
  \<open>Update\<close> stores an object that was never created, where the API server answers \<open>NotFound\<close>; and it keeps an object
  without finalizers that is being deleted, which the API server removes.
\<close>

lemma fake_update_creates:
  "fst (fk_Update (ServiceObject s) NewFakeKubernetesClient) = Return (Inr ())"
  "fst (fk_Get (svcNamespace s) (svcName s) (ServiceObject s) (snd (fk_Update (ServiceObject s) NewFakeKubernetesClient))) =
     Return (Inr (ServiceObject s))"
  by (simp_all add: fk_Update_def fk_Get_def NewFakeKubernetesClient_def namespaced_key)

end
