(* ===== verification/TestEvents.thy ===== *)
theory TestEvents
  imports Events FakeClient
begin

text \<open>
  The event recorder double and the assertions on it (testutils/event_utils.go).  The recorder keeps the
  Kubernetes events it was given for services; a \<open>CoreEvent\<close> has the fields the helpers read.  The UID and
  resource version of the involved object and the time stamp (\<open>metav1.Now()\<close>) are not read by anything and are
  left out.

  \<open>PublishToRecorder\<close> is \<open>createEvent\<close> of the publisher on this recorder, with the JSON encoder as a
  parameter; \<open>ExtractEventData\<close> reads the annotation back with the decoder.
\<close>

section \<open>The recorder\<close>

record CoreEvent =
  ceGenerateName :: string
  ceNamespace :: string
  ceAnnotations :: "(string, string) gomap option"
  ceInvolvedKind :: string
  ceInvolvedNamespace :: string
  ceInvolvedName :: string
  ceReason :: string
  ceMessage :: string
  ceComponent :: string
  ceType :: string

record FakeEventRecorder =
  feEvents :: "CoreEvent list"

definition NewFakeEventRecorder :: FakeEventRecorder where
  "NewFakeEventRecorder = \<lparr>feEvents = []\<rparr>"

text \<open>
  \<open>fmt.Sprintf\<close> for string arguments and the verb \<open>%s\<close>, with Go's marks for missing and surplus arguments.
\<close>

fun Sprintf :: "string \<Rightarrow> string list \<Rightarrow> string" where
  "Sprintf [] [] = []"
| "Sprintf [] (a # as) =
     ''%!(EXTRA string='' @ a @ concat (map (\<lambda>b. '', string='' @ b) as) @ '')''"
| "Sprintf [c] args = c # Sprintf [] args"
| "Sprintf (c # d # s) args =
     (if c = CHR ''%'' \<and> d = CHR ''s'' then
        (case args of [] \<Rightarrow> ''%!s(MISSING)'' @ Sprintf s [] | a # as \<Rightarrow> a @ Sprintf s as)
      else if c = CHR ''%'' \<and> d = CHR ''%'' then CHR ''%'' # Sprintf s args
      else c # Sprintf (d # s) args)"

definition core_event :: "Service \<Rightarrow> (string, string) gomap \<Rightarrow> string \<Rightarrow> string \<Rightarrow> string \<Rightarrow> CoreEvent" where
  "core_event service annotations eventType reason message =
     \<lparr>ceGenerateName = svcName service @ ''-'', ceNamespace = svcNamespace service, ceAnnotations = Some annotations,
      ceInvolvedKind = ''Service'', ceInvolvedNamespace = svcNamespace service, ceInvolvedName = svcName service,
      ceReason = reason, ceMessage = message, ceComponent = ''port-forward-controller'', ceType = eventType\<rparr>"

definition fe_Event :: "Object \<Rightarrow> string \<Rightarrow> string \<Rightarrow> string \<Rightarrow> FakeEventRecorder \<Rightarrow> FakeEventRecorder" where
  "fe_Event object eventType reason message f =
     (case object of
        OtherObject \<Rightarrow> f
      | ServiceObject service \<Rightarrow> f\<lparr>feEvents := feEvents f @ [core_event service [] eventType reason message]\<rparr>)"

definition fe_Eventf ::
    "Object \<Rightarrow> string \<Rightarrow> string \<Rightarrow> string \<Rightarrow> string list \<Rightarrow> FakeEventRecorder \<Rightarrow> FakeEventRecorder" where
  "fe_Eventf object eventType reason messageFmt args = fe_Event object eventType reason (Sprintf messageFmt args)"

text \<open>The loop that copies the annotations, in the map's iteration order.\<close>

definition copy_annotations :: "(string, string) gomap \<Rightarrow> (string, string) gomap" where
  "copy_annotations annotations = fold (\<lambda>(k, v). gm_set k v) annotations []"

definition fe_AnnotatedEventf ::
    "Object \<Rightarrow> (string, string) gomap \<Rightarrow> string \<Rightarrow> string \<Rightarrow> string \<Rightarrow> string list \<Rightarrow> FakeEventRecorder \<Rightarrow> FakeEventRecorder" where
  "fe_AnnotatedEventf object annotations eventType reason messageFmt args f =
     (case object of
        OtherObject \<Rightarrow> f
      | ServiceObject service \<Rightarrow>
          f\<lparr>feEvents := feEvents f @
             [core_event service (copy_annotations annotations) eventType reason (Sprintf messageFmt args)]\<rparr>)"

definition GetEvents :: "FakeEventRecorder \<Rightarrow> CoreEvent list" where
  "GetEvents f = feEvents f"

definition GetEventsForService :: "string \<Rightarrow> string \<Rightarrow> FakeEventRecorder \<Rightarrow> CoreEvent list" where
  "GetEventsForService serviceName namespace f =
     filter (\<lambda>event. ceInvolvedName event = serviceName \<and> ceInvolvedNamespace event = namespace) (feEvents f)"

definition GetEventsByReason :: "string \<Rightarrow> FakeEventRecorder \<Rightarrow> CoreEvent list" where
  "GetEventsByReason reason f = filter (\<lambda>event. ceReason event = reason) (feEvents f)"

definition fe_Clear :: "FakeEventRecorder \<Rightarrow> FakeEventRecorder" where
  "fe_Clear f = f\<lparr>feEvents := []\<rparr>"

definition HasEvent :: "string \<Rightarrow> string \<Rightarrow> string \<Rightarrow> string \<Rightarrow> FakeEventRecorder \<Rightarrow> bool" where
  "HasEvent serviceName namespace reason message f =
     list_ex (\<lambda>event. ceReason event = reason \<and> ceMessage event = message) (GetEventsForService serviceName namespace f)"

definition HasEventContaining :: "string \<Rightarrow> string \<Rightarrow> string \<Rightarrow> string \<Rightarrow> FakeEventRecorder \<Rightarrow> bool" where
  "HasEventContaining serviceName namespace reason messageFragment f =
     list_ex (\<lambda>event. ceReason event = reason \<and> Contains (ceMessage event) messageFragment)
       (GetEventsForService serviceName namespace f)"

section \<open>Assertions\<close>

text \<open>An assertion returns the message it hands to \<open>t.Errorf\<close>, if any; the formatted events of the message are left out.\<close>

definition about_service :: "string \<Rightarrow> string \<Rightarrow> string \<Rightarrow> string" where
  "about_service serviceName namespace reason =
     '' for service '' @ namespace @ ''/'' @ serviceName @ '' with reason '' @ reason"

definition AssertEventPublished :: "string \<Rightarrow> string \<Rightarrow> string \<Rightarrow> string \<Rightarrow> FakeEventRecorder \<Rightarrow> string option" where
  "AssertEventPublished serviceName namespace reason messageContains f =
     (let published = GetEventsForService serviceName namespace f in
      if length published = 0 then
        Some (''Expected event'' @ about_service serviceName namespace reason @ '', but no events found'')
      else if \<not> list_ex (\<lambda>event. ceReason event = reason \<and> Contains (ceMessage event) messageContains) published then
        Some (''Expected event'' @ about_service serviceName namespace reason @ '' containing message '' @
          quoted messageContains @ '', but not found in events'')
      else None)"

definition AssertEventNotPublished :: "string \<Rightarrow> string \<Rightarrow> string \<Rightarrow> FakeEventRecorder \<Rightarrow> string option" where
  "AssertEventNotPublished serviceName namespace reason f =
     (case List.find (\<lambda>event. ceReason event = reason) (GetEventsForService serviceName namespace f) of
        Some event \<Rightarrow>
          Some (''Expected no event'' @ about_service serviceName namespace reason @ '', but found: '' @ ceMessage event)
      | None \<Rightarrow> None)"

definition AssertEventCount :: "string \<Rightarrow> string \<Rightarrow> string \<Rightarrow> int \<Rightarrow> FakeEventRecorder \<Rightarrow> string option" where
  "AssertEventCount serviceName namespace reason expectedCount f =
     (let count = length (filter (\<lambda>event. ceReason event = reason) (GetEventsForService serviceName namespace f)) in
      if int count \<noteq> expectedCount then
        Some (''Expected '' @ Itoa expectedCount @ '' events'' @ about_service serviceName namespace reason @
          '', but found '' @ Itoa (int count))
      else None)"

definition event_data_key :: string where
  "event_data_key = ''unifi-port-forward.fiskhe.st/event-data''"

definition ExtractEventData :: "(string \<Rightarrow> PortForwardEventData result) \<Rightarrow> CoreEvent \<Rightarrow> PortForwardEventData result" where
  "ExtractEventData unmarshal event =
     (case ceAnnotations event of
        None \<Rightarrow> Inl (ErrorString ''event has no annotations'')
      | Some annotations \<Rightarrow>
          (let eventDataStr = (case gm_get annotations event_data_key of Some v \<Rightarrow> v | None \<Rightarrow> '''') in
           if eventDataStr = '''' then Inl (ErrorString ''event has no event-data annotation'')
           else (case unmarshal eventDataStr of
                   Inl err \<Rightarrow> Inl (ErrorString (''failed to unmarshal event data: '' @ Error err))
                 | Inr eventData \<Rightarrow> Inr eventData)))"

definition fe_GetEventCount :: "FakeEventRecorder \<Rightarrow> nat" where
  "fe_GetEventCount f = length (feEvents f)"

section \<open>The helper\<close>

text \<open>
  \<open>EventTestHelper\<close> bundles a recorder with the publisher under test, which is set later; its client and its
  \<open>*testing.T\<close> are only stored.
\<close>

record 'p EventTestHelper =
  thRecorder :: FakeEventRecorder
  thPublisher :: "'p option"

definition NewEventTestHelper :: "'p EventTestHelper" where
  "NewEventTestHelper = \<lparr>thRecorder = NewFakeEventRecorder, thPublisher = None\<rparr>"

definition SetPublisher :: "'p \<Rightarrow> 'p EventTestHelper \<Rightarrow> 'p EventTestHelper" where
  "SetPublisher publisher h = h\<lparr>thPublisher := Some publisher\<rparr>"

definition th_ClearEvents :: "'p EventTestHelper \<Rightarrow> 'p EventTestHelper" where
  "th_ClearEvents h = h\<lparr>thRecorder := fe_Clear (thRecorder h)\<rparr>"

lemma cleared_helper:
  "fe_GetEventCount (thRecorder (th_ClearEvents h)) = 0" "thPublisher (th_ClearEvents h) = thPublisher h"
  "AssertEventCount serviceName namespace reason n (thRecorder (th_ClearEvents h)) = None \<longleftrightarrow> n = 0"
  by (auto simp: th_ClearEvents_def fe_Clear_def fe_GetEventCount_def AssertEventCount_def GetEventsForService_def)

section \<open>The publisher on the recorder\<close>

definition PublishToRecorder ::
    "(PortForwardEventData \<Rightarrow> string option) \<Rightarrow> Service \<Rightarrow> string \<Rightarrow> string \<Rightarrow> PortForwardEventData \<Rightarrow>
     FakeEventRecorder \<Rightarrow> FakeEventRecorder" where
  "PublishToRecorder marshal service eventType message eventData f =
     (let annotations = (case marshal eventData of Some json \<Rightarrow> [(event_data_key, json)] | None \<Rightarrow> []);
          eventTypeValue = (if eventType = EventPortForwardFailed then ''Warning'' else ''Normal'')
      in if length annotations > 0
         then fe_AnnotatedEventf (ServiceObject service) annotations eventTypeValue eventType ''%s'' [message] f
         else fe_Eventf (ServiceObject service) eventTypeValue eventType ''%s'' [message] f)"

text \<open>What the recorder shows of an event of the abstract list of \<open>Events\<close>.\<close>

definition presents :: "CoreEvent \<Rightarrow> Event \<Rightarrow> bool" where
  "presents ce ev \<longleftrightarrow> ceInvolvedNamespace ce @ ''/'' @ ceInvolvedName ce = evObject ev \<and> ceType ce = evType ev \<and>
     ceReason ce = evReason ev \<and> ceMessage ce = evMessage ev"

lemma Sprintf_s [simp]: "Sprintf ''%s'' [message] = message"
  by simp

lemma publish_refines_createEvent:
  "\<exists>ce ev. feEvents (PublishToRecorder marshal service eventType message eventData f) = feEvents f @ [ce] \<and>
     createEvent True service eventType message eventData es = es @ [ev] \<and> presents ce ev"
  by (auto simp: PublishToRecorder_def createEvent_def fe_AnnotatedEventf_def fe_Eventf_def fe_Event_def core_event_def
      presents_def serviceKey_def split: option.split)

text \<open>
  The data of a published event can be read back from the recorder: the annotation survives the copy, provided the
  decoder undoes the encoder and the encoding is not empty.
\<close>

lemma published_data_roundtrip:
  assumes "marshal d = Some json" and "unmarshal json = Inr d" and "json \<noteq> ''''"
  shows "ExtractEventData unmarshal (last (feEvents (PublishToRecorder marshal service eventType message d f))) = Inr d"
  using assms
  by (simp add: PublishToRecorder_def fe_AnnotatedEventf_def core_event_def ExtractEventData_def copy_annotations_def)

lemma published_event_found:
  "HasEvent (svcName service) (svcNamespace service) eventType message
     (PublishToRecorder marshal service eventType message d f)"
  "AssertEventPublished (svcName service) (svcNamespace service) eventType message
     (PublishToRecorder marshal service eventType message d f) = None"
proof -
  have c: "Contains m m" for m by (cases m) (simp_all add: HasPrefix_def)
  show "HasEvent (svcName service) (svcNamespace service) eventType message
     (PublishToRecorder marshal service eventType message d f)"
    by (simp add: HasEvent_def GetEventsForService_def PublishToRecorder_def fe_AnnotatedEventf_def fe_Eventf_def
        fe_Event_def core_event_def split: option.split)
  show "AssertEventPublished (svcName service) (svcNamespace service) eventType message
     (PublishToRecorder marshal service eventType message d f) = None"
    by (simp add: AssertEventPublished_def GetEventsForService_def PublishToRecorder_def fe_AnnotatedEventf_def
        fe_Eventf_def fe_Event_def core_event_def c split: option.split)
qed

text \<open>Events for anything but a service are dropped without a trace.\<close>

lemma other_objects_dropped:
  "fe_Event OtherObject t r m f = f" "fe_AnnotatedEventf OtherObject a t r m as f = f"
  by (simp_all add: fe_Event_def fe_AnnotatedEventf_def)

end
