(* ===== verification/TestEnv.thy ===== *)
theory TestEnv
  imports ReconcileEnv MockCorrect TestClock TestEvents
begin

text \<open>
  The test environment of the service controller (pkg/controller/controller_test_helpers.go): the reconciler on
  the router double, the client double and a reconciler state without a recorder.

  The world of the reconciler is \<open>test_world\<close>: the router double extended by the client double and the
  clock double.  The reconciler itself reads the system clock, the parameter \<open>now\<close>; the clock double is not
  connected to it.  \<open>Reconcile\<close> never lists services, so the listing call of the client is a parameter.

  A test helper reports through \<open>testing.T\<close>: \<open>Errorf\<close> adds a message, \<open>Fatalf\<close> adds a message and
  ends the test (\<open>None\<close>).  The printed values in the messages (\<open>%v\<close>, \<open>%+v\<close>) of results and lists
  are left out.
\<close>

section \<open>The environment\<close>

record test_world = MockRouter +
  twFakeClient :: FakeKubernetesClient
  twClock :: "unit MockClock"

type_synonym test_env = "test_world rstate"

text \<open>\<open>time.Date(2023, 1, 1, 12, 0, 0, 0, time.UTC)\<close> in nanoseconds since 1970.\<close>

definition test_start :: int where
  "test_start = 1672574400 * Second"

definition zero_service :: Service where
  "zero_service = \<lparr>svcNamespace = '''', svcName = '''', svcAnnotations = None, svcFinalizers = [],
     svcDeletionTimestamp = None, svcType = '''', svcPorts = [], svcIngress = []\<rparr>"

definition on_client :: "'a fk_call \<Rightarrow> test_world \<Rightarrow> 'a result outcome \<times> test_world" where
  "on_client act w = (case act (twFakeClient w) of (res, f) \<Rightarrow> (res, w\<lparr>twFakeClient := f\<rparr>))"

text \<open>
  The calls of the reconciler pass a \<open>*v1.Service\<close>, for which neither call panics (\<open>test_calls_return\<close>).
\<close>

definition test_Get :: "string \<Rightarrow> string \<Rightarrow> (test_world, Service) io" where
  "test_Get namespace name w =
     (case on_client (fk_Get namespace name (ServiceObject zero_service)) w of
        (Return (Inr (ServiceObject service)), w1) \<Rightarrow> (Inr service, w1)
      | (Return (Inl err), w1) \<Rightarrow> (Inl err, w1)
      | (_, w1) \<Rightarrow> (Inl (ErrorString ''panic''), w1))"

definition test_Update :: "Service \<Rightarrow> (test_world, unit) io" where
  "test_Update service w =
     (case on_client (fk_Update (ServiceObject service)) w of
        (Return res, w1) \<Rightarrow> (res, w1)
      | (Panic, w1) \<Rightarrow> (Inl (ErrorString ''panic''), w1))"

definition test_controller ::
    "(nat \<Rightarrow> nat \<Rightarrow> nat) \<Rightarrow> (test_world, Service list) io \<Rightarrow> (test_world \<Rightarrow> int \<times> test_world) \<Rightarrow> test_world Reconciler" where
  "test_controller grow listing now =
     \<lparr>rcClient = \<lparr>k_Get = test_Get, k_Update = test_Update, k_ListServices = listing\<rparr>,
      rcRouter = mock_router grow, rcEventPublisher = Some False, rcCleanupWindow = 2 * Second, rcNow = now\<rparr>"

text \<open>The port map is a package variable: a new environment clears it.\<close>

definition NewControllerTestEnv :: "ports \<Rightarrow> test_env" where
  "NewControllerTestEnv used =
     (let mockRouter = ResetOperationCounts (ClearAllPortForwards NewMockRouter) in
      \<lparr>usedPorts = ClearPortConflictTracking used,
       world = MockRouter.extend mockRouter
         (test_world.fields NewFakeKubernetesClient (NewMockClock test_start)),
       recentCleanups = [], cleanupRetryCount = [], events = []\<rparr>)"

definition CreateTestService ::
    "string \<Rightarrow> string \<Rightarrow> (string, string) gomap option \<Rightarrow> ServicePort list \<Rightarrow> string \<Rightarrow> Service" where
  "CreateTestService namespace name annotations servicePorts lbIP =
     \<lparr>svcNamespace = namespace, svcName = name,
      svcAnnotations = Some (case annotations of None \<Rightarrow> [] | Some m \<Rightarrow> m),
      svcFinalizers = [], svcDeletionTimestamp = None, svcType = ''LoadBalancer'', svcPorts = servicePorts,
      svcIngress = (if lbIP \<noteq> '''' then [lbIP] else [])\<rparr>"

definition env_call :: "unit fk_call \<Rightarrow> test_env \<Rightarrow> unit result outcome \<times> test_env" where
  "env_call act env = (case on_client act (world env) of (res, w) \<Rightarrow> (res, env\<lparr>world := w\<rparr>))"

definition CreateService :: "Service \<Rightarrow> test_env \<Rightarrow> unit result outcome \<times> test_env" where
  "CreateService service = env_call (fk_Create (ServiceObject service))"

definition UpdateService :: "Service \<Rightarrow> test_env \<Rightarrow> unit result outcome \<times> test_env" where
  "UpdateService service = env_call (fk_Update (ServiceObject service))"

definition DeleteService :: "Service \<Rightarrow> test_env \<Rightarrow> unit result outcome \<times> test_env" where
  "DeleteService service = env_call (fk_Delete (ServiceObject service))"

definition UpdateServiceInPlace :: "Service \<Rightarrow> test_env \<Rightarrow> unit result outcome \<times> test_env" where
  "UpdateServiceInPlace service = UpdateService service"

definition DeleteServiceByName :: "string \<Rightarrow> string \<Rightarrow> test_env \<Rightarrow> unit result outcome \<times> test_env" where
  "DeleteServiceByName namespace name =
     DeleteService (zero_service\<lparr>svcName := name, svcNamespace := namespace\<rparr>)"

text \<open>
  What a reconcile depends on besides the environment: the capacities of slices, the clock, the listing call
  and the iteration orders of maps.
\<close>

record platform =
  plGrow :: "nat \<Rightarrow> nat \<Rightarrow> nat"
  plListing :: "(test_world, Service list) io"
  plNow :: "test_world \<Rightarrow> int \<times> test_world"
  plOverflow :: "nat \<Rightarrow> int"
  plCurrentOrder :: "string list \<Rightarrow> string list"
  plDesiredOrder :: "string list \<Rightarrow> string list"

definition ReconcileService :: "platform \<Rightarrow> Service \<Rightarrow> test_env \<Rightarrow> (Result \<times> error option) \<times> test_env" where
  "ReconcileService pl service env =
     Reconcile (plOverflow pl) (plCurrentOrder pl) (plDesiredOrder pl)
       (test_controller (plGrow pl) (plListing pl) (plNow pl)) (svcNamespace service) (svcName service) env"

section \<open>Assertions\<close>

definition report :: "bool \<Rightarrow> string \<Rightarrow> string list" where
  "report failed message = (if failed then [message] else [])"

definition no_error :: "error option \<Rightarrow> string list" where
  "no_error err = (case err of Some e \<Rightarrow> [''Expected no error, got: '' @ Error e] | None \<Rightarrow> [])"

definition AssertReconcileSuccess :: "Result \<Rightarrow> error option \<Rightarrow> string list" where
  "AssertReconcileSuccess result err =
     no_error err @ report (result \<noteq> emptyResultR) ''Expected empty result (no requeue)''"

definition AssertReconcileSuccessWithPotentialRequeue :: "Result \<Rightarrow> error option \<Rightarrow> string list" where
  "AssertReconcileSuccessWithPotentialRequeue result err =
     no_error err @
     report (\<not> Requeue result \<or> RequeueAfter result \<noteq> 0) ''Expected either empty result or requeue with 0 delay''"

text \<open>The result is None when the test was ended.\<close>

definition ReconcileServiceWithFinalizer ::
    "platform \<Rightarrow> Service \<Rightarrow> test_env \<Rightarrow> (Result \<times> error option) option \<times> string list \<times> test_env" where
  "ReconcileServiceWithFinalizer pl service env =
     (case ReconcileService pl service env of
        ((result, Some e), env1) \<Rightarrow> (None, [''Failed to reconcile service: '' @ Error e], env1)
      | ((result, None), env1) \<Rightarrow>
          if Requeue result then
            (case ReconcileService pl service env1 of
               ((result2, Some e), env2) \<Rightarrow>
                 (None, [''Failed to reconcile service after finalizer addition: '' @ Error e], env2)
             | ((result2, None), env2) \<Rightarrow>
                 (Some (result2, None),
                  report (result2 \<noteq> emptyResultR) ''Expected empty result after finalizer addition'', env2))
          else
            (Some (result, None), report (result \<noteq> emptyResultR) ''Expected empty result (no requeue)'', env1))"

definition AssertReconcileError :: "string \<Rightarrow> Result \<Rightarrow> error option \<Rightarrow> string list" where
  "AssertReconcileError expectedErr result err =
     (case err of
        None \<Rightarrow> [''Expected error, got nil'']
      | Some e \<Rightarrow>
          report (expectedErr \<noteq> '''' \<and> Error e \<noteq> expectedErr)
            (''Expected error '' @ quoted expectedErr @ '', got '' @ quoted (Error e)) @
          report (result \<noteq> emptyResultR) ''Expected empty result (no requeue)'')"

definition on_mock :: "(test_world \<Rightarrow> 'a \<times> test_world) \<Rightarrow> test_env \<Rightarrow> 'a \<times> test_env" where
  "on_mock act env = (case act (world env) of (a, w) \<Rightarrow> (a, env\<lparr>world := w\<rparr>))"

definition AssertPortForwardRuleExists :: "string \<Rightarrow> string \<Rightarrow> test_env \<Rightarrow> string list \<times> test_env" where
  "AssertPortForwardRuleExists port dstIP env =
     (let (found, env1) = on_mock (mr_HasPortForward port dstIP) env in
      (report (\<not> found) (''Expected port forward rule for port '' @ port @ '' to '' @ dstIP @ '' to exist''), env1))"

definition AssertPortForwardRuleDoesNotExist :: "string \<Rightarrow> string \<Rightarrow> test_env \<Rightarrow> string list \<times> test_env" where
  "AssertPortForwardRuleDoesNotExist port dstIP env =
     (let (found, env1) = on_mock (mr_HasPortForward port dstIP) env in
      (report found (''Expected port forward rule for port '' @ port @ '' to '' @ dstIP @ '' to not exist''), env1))"

definition AssertRuleExistsByName :: "string \<Rightarrow> test_env \<Rightarrow> string list \<times> test_env" where
  "AssertRuleExistsByName ruleName env =
     (let (rule, env1) = on_mock (GetPortForwardRuleByName ruleName) env in
      (report (rule = None) (''Expected port forward rule with name '' @ quoted ruleName @ '' to exist''), env1))"

definition AssertRuleDoesNotExistByName :: "string \<Rightarrow> test_env \<Rightarrow> string list \<times> test_env" where
  "AssertRuleDoesNotExistByName ruleName env =
     (let (rule, env1) = on_mock (GetPortForwardRuleByName ruleName) env in
      ((case rule of
          Some r \<Rightarrow> [''Expected port forward rule with name '' @ quoted ruleName @
            '' to not exist, but found rule for port '' @ pfDstPort r @ '' to '' @ Fwd r]
        | None \<Rightarrow> []), env1))"

definition GetRuleNamesWithPrefix :: "string \<Rightarrow> test_env \<Rightarrow> string list \<times> test_env" where
  "GetRuleNamesWithPrefix prefix env =
     (let (rules, env1) = on_mock GetPortForwardNames env in
      (filter (\<lambda>name. HasPrefix name prefix) rules, env1))"

definition AssertRulesWithPrefixExist :: "string \<Rightarrow> int \<Rightarrow> test_env \<Rightarrow> string list \<times> test_env" where
  "AssertRulesWithPrefixExist prefix expectedCount env =
     (let (rules, env1) = on_mock GetPortForwardNames env;
          matchingRules = filter (\<lambda>name. HasPrefix name prefix) rules
      in (report (int (length matchingRules) \<noteq> expectedCount)
            (''Expected '' @ Itoa expectedCount @ '' rules with prefix '' @ quoted prefix @ '', but found '' @
             Itoa (int (length matchingRules))), env1))"

definition AssertRulesWithPrefixDoNotExist :: "string \<Rightarrow> test_env \<Rightarrow> string list \<times> test_env" where
  "AssertRulesWithPrefixDoNotExist prefix = AssertRulesWithPrefixExist prefix 0"

section \<open>Scenarios\<close>

text \<open>The old and the new object, or None where the helper panics.\<close>

definition CreateServiceWithNameChange ::
    "string \<Rightarrow> string \<Rightarrow> string \<Rightarrow> (string, string) gomap option \<Rightarrow> ServicePort list \<Rightarrow> string \<Rightarrow> test_env \<Rightarrow>
     (Service \<times> Service) option \<times> test_env" where
  "CreateServiceWithNameChange namespace oldName newName annotations servicePorts lbIP env =
     (let oldService = CreateTestService namespace oldName annotations servicePorts lbIP in
      case CreateService oldService env of
        (Return (Inr _), env1) \<Rightarrow> (Some (oldService, oldService\<lparr>svcName := newName\<rparr>), env1)
      | (_, env1) \<Rightarrow> (None, env1))"

fun create_all :: "Service list \<Rightarrow> test_env \<Rightarrow> error option \<times> test_env" where
  "create_all [] env = (None, env)"
| "create_all (service # rest) env =
     (case CreateService service env of
        (Return (Inl err), env1) \<Rightarrow>
          (Some (ErrorString (''failed to create service '' @ serviceKey service @ '': '' @ Error err)), env1)
      | (_, env1) \<Rightarrow> create_all rest env1)"

fun reconcile_all :: "platform \<Rightarrow> Service list \<Rightarrow> test_env \<Rightarrow> error option \<times> test_env" where
  "reconcile_all pl [] env = (None, env)"
| "reconcile_all pl (service # rest) env =
     (case ReconcileService pl service env of
        ((_, Some err), env1) \<Rightarrow>
          (Some (ErrorString (''failed to reconcile service '' @ serviceKey service @ '' during startup: '' @ Error err)), env1)
      | ((_, None), env1) \<Rightarrow> reconcile_all pl rest env1)"

definition SimulateControllerStartupWithExistingRules ::
    "platform \<Rightarrow> Service list \<Rightarrow> test_env \<Rightarrow> error option \<times> test_env" where
  "SimulateControllerStartupWithExistingRules pl services env =
     (case create_all services env of
        (Some err, env1) \<Rightarrow> (Some err, env1)
      | (None, env1) \<Rightarrow> reconcile_all pl services env1)"

record ServiceSpecification =
  ssName :: string
  ssNamespace :: string
  ssAnnotations :: "(string, string) gomap option"
  ssPorts :: "ServicePort list"
  ssLBIP :: string

definition CreateTestServiceList :: "ServiceSpecification list \<Rightarrow> Service list" where
  "CreateTestServiceList services =
     map (\<lambda>svc. CreateTestService (ssNamespace svc) (ssName svc) (ssAnnotations svc) (ssPorts svc) (ssLBIP svc)) services"

section \<open>The reconciler in the environment\<close>

lemma test_Get_eq:
  "test_Get ns n w =
     ((case gm_get (fkServices (twFakeClient w)) (namespaced ns n) of
         Some service \<Rightarrow> Inr service | None \<Rightarrow> Inl (services_not_found n)), w)"
  by (simp add: test_Get_def on_client_def fk_Get_def split: option.split)

lemma test_Update_eq:
  "test_Update service w =
     (Inr (), w\<lparr>twFakeClient := (twFakeClient w)\<lparr>fkServices := gm_set (serviceKey service) service (fkServices (twFakeClient w))\<rparr>\<rparr>)"
  by (simp add: test_Update_def on_client_def fk_Update_def)

lemma test_calls_return:
  "fst (on_client (fk_Get ns n (ServiceObject s)) w) \<noteq> Panic"
  "fst (on_client (fk_Update (ServiceObject s)) w) \<noteq> Panic"
  by (auto simp: on_client_def fk_Get_def fk_Update_def split: option.split)

lemma create_all_ok: "fst (create_all services env) = None"
  by (induction services arbitrary: env)
    (simp_all add: CreateService_def env_call_def on_client_def fk_Create_def split: prod.split)

end
