(* ===== verification/TestEnvCorrect.thy ===== *)
theory TestEnvCorrect
  imports TestEnv ReconcileCorrect
begin

text \<open>
  The reconciler in its test environment: what the two phases of a first reconcile do on the router double and
  the client double.  The double does not meet the contract of a router (\<open>mock_router_breaks_contract\<close>), so the
  general theorems on \<open>Reconcile\<close> do not apply and the run is followed step by step: a \<open>healthy\<close> double accepts
  every creation, and the difference to an empty table consists of creations.
\<close>

section \<open>The calls\<close>

lemma on_world_client:
  "on_world (test_Get ns n) env =
     ((case gm_get (fkServices (twFakeClient (world env))) (namespaced ns n) of
         Some service \<Rightarrow> Inr service | None \<Rightarrow> Inl (services_not_found n)), env)"
  by (simp add: on_world_def test_Get_eq)

lemma test_controller_sel [simp]:
  "k_Get (rcClient (test_controller grow listing now)) = test_Get"
  "k_Update (rcClient (test_controller grow listing now)) = test_Update"
  "rcRouter (test_controller grow listing now) = mock_router grow"
  "rcEventPublisher (test_controller grow listing now) = Some False"
  by (simp_all add: test_controller_def)

section \<open>Creating rules on the double\<close>

definition healthy :: "'e MockRouter_scheme \<Rightarrow> bool" where
  "healthy r \<longleftrightarrow> mr_ok r \<and> any_destination (mr_abs r) \<and> (\<forall>operation. \<not> mtFails (mr_abs r) operation)"

lemma list_router_add:
  assumes "\<not> mtFails t ''AddPort''" "any_destination t" "DstIP c \<noteq> ''any''"
  shows "r_AddPort list_router c t =
    (Inr (), t\<lparr>mtRules := mtRules t @ [mock_rule (''mock-id-'' @ Itoa (int (length (mtRules t)) + 1)) c]\<rparr>)"
proof -
  have "\<not> list_ex (\<lambda>pf. pfDstPort pf = Itoa (DstPort c) \<and> DestinationIP pf = DstIP c) (mtRules t)"
    using assms(2,3) by (auto simp: list_ex_iff any_destination_def)
  with assms(1) show ?thesis by (simp add: list_router_def mt_call_def)
qed

lemma healthy_add:
  assumes h: "healthy r" and c: "DstIP c \<noteq> ''any''" and run: "r_AddPort (mock_router grow) c r = (res, r')"
  shows "res = Inr () \<and> healthy r' \<and> (\<exists>i. mr_rules r' = mr_rules r @ [mock_rule i c])"
proof -
  from h have ok: "mr_ok r" "any_destination (mr_abs r)" "\<not> mtFails (mr_abs r) ''AddPort''" by (simp_all add: healthy_def)
  from run have "mr_AddPort grow c r = (res, r')" by (simp add: mock_router_def)
  from io_refinesD [OF add_refines ok(1) this]
  have 1: "r_AddPort list_router c (mr_abs r) = (res, mr_abs r')" "mr_ok r'" by simp_all
  from 1(1) list_router_add [OF ok(3,2) c] have a: "res = Inr ()"
    "mr_abs r' = (mr_abs r)\<lparr>mtRules := mr_rules r @ [mock_rule (''mock-id-'' @ Itoa (int (length (mr_rules r)) + 1)) c]\<rparr>"
    by simp_all
  have "mtRules (mr_abs r') = mr_rules r @ [mock_rule (''mock-id-'' @ Itoa (int (length (mr_rules r)) + 1)) c]"
    unfolding a(2) by simp
  then have "mr_rules r' = mr_rules r @ [mock_rule (''mock-id-'' @ Itoa (int (length (mr_rules r)) + 1)) c]" by simp
  moreover have "any_destination (mr_abs r')" "\<forall>operation. \<not> mtFails (mr_abs r') operation"
    using h a by (auto simp: healthy_def any_destination_def mock_rule_def)
  ultimately show ?thesis using a 1(2) by (auto simp: healthy_def)
qed

definition create_op :: "PortConfig \<Rightarrow> PortOperation" where
  "create_op c = \<lparr>opType = OpCreate, opConfig = c, opExistingRule = None, opReason = ''port_not_yet_exists''\<rparr>"

lemma exec_creates:
  assumes "healthy (world st)" and "\<forall>c \<in> set cs. DstIP c \<noteq> ''any''"
  shows "\<exists>w'. exec_loop (mock_router grow) (map create_op cs) completed result st =
      ((result\<lparr>Created := Created result @ cs\<rparr>, None), st\<lparr>world := w'\<rparr>) \<and>
    healthy w' \<and> (\<exists>new. mr_rules w' = mr_rules (world st) @ new \<and> list_all2 (\<lambda>rule c. \<exists>i. rule = mock_rule i c) new cs)"
  using assms
proof (induction cs arbitrary: st completed result)
  case Nil
  then show ?case by (intro exI [of _ "world st"]) simp
next
  case (Cons c cs)
  obtain res w1 where a: "r_AddPort (mock_router grow) c (world st) = (res, w1)" by (rule prod.exhaust)
  from healthy_add [OF Cons.prems(1) _ a] Cons.prems(2) obtain i where 1: "res = Inr ()" "healthy w1"
    "mr_rules w1 = mr_rules (world st) @ [mock_rule i c]" by auto
  from Cons.IH [of "st\<lparr>world := w1\<rparr>" "completed @ [create_op c]" "result\<lparr>Created := Created result @ [c]\<rparr>"] 1(2) Cons.prems(2)
  obtain w' new where 2: "exec_loop (mock_router grow) (map create_op cs) (completed @ [create_op c])
      (result\<lparr>Created := Created result @ [c]\<rparr>) (st\<lparr>world := w1\<rparr>) =
      ((result\<lparr>Created := (Created result @ [c]) @ cs\<rparr>, None), st\<lparr>world := w'\<rparr>)"
    "healthy w'" "mr_rules w' = mr_rules w1 @ new" "list_all2 (\<lambda>rule c. \<exists>i. rule = mock_rule i c) new cs" by auto
  have "exec_loop (mock_router grow) (map create_op (c # cs)) completed result st =
      ((result\<lparr>Created := Created result @ (c # cs)\<rparr>, None), st\<lparr>world := w'\<rparr>)"
    using 2(1) a 1(1) by (simp add: run_op_def create_op_def record_op_def unmark_op_def)
  with 2 1(3) show ?case by (intro exI [of _ w'] conjI exI [of _ "mock_rule i c # new"]) auto
qed

lemma gm_index_append:
  "distinct (map key xs) \<Longrightarrow> key ` set xs \<inter> fst ` set m = {} \<Longrightarrow> gm_index key xs m = m @ map (\<lambda>x. (key x, x)) xs"
proof (induction xs arbitrary: m)
  case (Cons x xs)
  have "gm_set (key x) x m = m @ [(key x, x)]"
    using Cons.prems(2) by (induction m) auto
  with Cons show ?case by auto
qed simp

lemma concat_singletons: "(\<And>k. k \<in> set ks \<Longrightarrow> f k = [g k]) \<Longrightarrow> concat (map f ks) = map g ks"
  by (induction ks) auto

lemma iter_order_nil: "iter_order it \<Longrightarrow> it [] = []"
  by (metis iter_order_length length_0_conv list.size(3))

lemma delta_of_nothing:
  assumes itc: "iter_order itc" and it: "iter_order itd" and ds: "desired_ok service ds"
  shows "\<exists>cs. mset cs = mset ds \<and> calculateDelta itc itd [] ds ctx service = map create_op cs"
proof -
  let ?m = "gm_index configKey ds []"
  have inj: "inj_on configKey (set ds)"
  proof (rule inj_onI)
    fix c d assume "c \<in> set ds" "d \<in> set ds" "configKey c = configKey d"
    with ds configKey_inj [of c d] desired_same_slot [OF ds, of c d] show "c = d" by (simp add: desired_ok_def)
  qed
  have "distinct ds" using ds by (auto simp: desired_ok_def distinct_map)
  with inj have m: "?m = map (\<lambda>d. (configKey d, d)) ds"
    using gm_index_append [of configKey ds "[]"] by (simp add: distinct_map)
  have get: "gm_get ?m (configKey d) = Some d" if "d \<in> set ds" for d
    using that desired_get [OF ds] by simp
  let ?ks = "itd (map fst ?m)"
  have ks: "mset ?ks = image_mset configKey (mset ds)" using it by (simp add: iter_order_def m comp_def)
  let ?cs = "map (\<lambda>k. the (gm_get ?m k)) ?ks"
  have "mset ?cs = image_mset (\<lambda>d. the (gm_get ?m (configKey d))) (mset ds)"
    by (simp add: ks image_mset.compositionality comp_def)
  also have "\<dots> = mset ds" by (subst image_mset_cong [of _ _ id]) (simp_all add: get)
  finally have cs: "mset ?cs = mset ds" .
  have "set ?ks = configKey ` set ds" using ks by (metis set_image_mset set_mset_mset)
  then have c: "concat (map (\<lambda>k. case gm_get ?m k of None \<Rightarrow> [] | Some d \<Rightarrow> desired_ops ctx None d) ?ks) = map create_op ?cs"
    unfolding map_map comp_def by (intro concat_singletons) (auto simp: get desired_ops_def create_op_def)
  have none: "detectPortConflicts [] ds service = []" by (rule no_conflicts) simp
  have "calculateDelta itc itd [] ds ctx service = map create_op ?cs"
    using c iter_order_nil [OF itc] by (simp add: calculateDelta_def none validateConflictOperations_def Let_def cong: option.case_cong)
  with cs show ?thesis by blast
qed

lemma publish_silent:
  "publish (test_controller grow listing now) (created_event service c) = (\<lambda>st. st)"
  "publish (test_controller grow listing now) (updated_event service c) = (\<lambda>st. st)"
  "publish (test_controller grow listing now) (deleted_event service reason c) = (\<lambda>st. st)"
  by (simp_all add: fun_eq_iff publish_def test_controller_def created_event_def updated_event_def deleted_event_def
      PublishPortForwardCreatedEvent_def PublishPortForwardUpdatedEvent_def PublishPortForwardDeletedEvent_def createEvent_def)

lemma fold_unchanged: "fold (\<lambda>c st. st) cs st = st"
  by (induction cs) simp_all

lemma success_silent: "success_events (test_controller grow listing now) service result st = st"
  by (simp add: success_events_def Let_def publish_silent fold_unchanged)

lemma ownership_silent: "ownership_events r service (map create_op cs) st = st"
  by (induction cs) (simp_all add: ownership_events_def create_op_def)

lemma healthy_list:
  assumes "healthy (world env)"
  shows "\<exists>w. on_world (r_ListAllPortForwards (mock_router grow)) env = (Inr (mr_rules (world env)), env\<lparr>world := w\<rparr>) \<and>
    healthy w \<and> mr_rules w = mr_rules (world env)"
proof -
  obtain res w where l: "r_ListAllPortForwards (mock_router grow) (world env) = (res, w)" by (rule prod.exhaust)
  from assms have h: "mr_ok (world env)" "\<not> mtFails (mr_abs (world env)) ''ListAllPortForwards''" by (simp_all add: healthy_def)
  from io_refinesD [OF list_refines h(1) l]
  have 1: "r_ListAllPortForwards list_router (mr_abs (world env)) = (res, mr_abs w)" "mr_ok w" by simp_all
  with h have 2: "res = Inr (mr_rules (world env))" "mr_abs w = mr_abs (world env)"
    by (auto simp: list_router_def mt_call_def)
  then have "mr_rules w = mr_rules (world env)" using mtRules_abs by metis
  with 1 2 assms l show ?thesis by (auto simp: on_world_def healthy_def)
qed

lemma process_creates:
  assumes h: "healthy (world env)" and it: "iter_order itc" "iter_order itd"
    and g: "GetPortConfigs service (GetLBIP service) FilterAnnotation (usedPorts env) = (Inr ds, used')"
    and svc: "service_ok service" "GetLBIP service \<noteq> ''''" "GetLBIP service \<noteq> ''any''"
  shows "\<exists>ops ctx' w'. processAllChanges itc itd (test_controller grow listing now) service ctx [] env =
      ((ops, ctx', None), env\<lparr>usedPorts := used', world := w'\<rparr>) \<and> (\<exists>cs. ops = map create_op cs) \<and>
    (\<exists>new cs. mr_rules w' = mr_rules (world env) @ new \<and> mset cs = mset ds \<and> list_all2 (\<lambda>rule c. \<exists>i. rule = mock_rule i c) new cs)"
proof -
  let ?env = "env\<lparr>usedPorts := used'\<rparr>"
  have d: "calculateDesiredState service env = (Inr ds, ?env)"
    using g svc by (simp add: calculateDesiredState_def Let_def)
  from delta_of_nothing [OF it GetPortConfigs_desired_ok [OF g svc(1)], of ctx] obtain cs where
    cs: "mset cs = mset ds" "calculateDelta itc itd [] ds ctx service = map create_op cs" by blast
  have "set cs = set ds" using cs(1) by (rule mset_eq_setD)
  then have ip: "\<forall>c \<in> set cs. DstIP c \<noteq> ''any''" using desired_config_ok [OF g svc(1)] svc(3) by auto
  have "healthy (world ?env)" using h by simp
  from exec_creates [OF this ip, of grow "[]" emptyResult] obtain w' new where
    x: "exec_loop (mock_router grow) (map create_op cs) [] emptyResult ?env =
      ((emptyResult\<lparr>Created := Created emptyResult @ cs\<rparr>, None), ?env\<lparr>world := w'\<rparr>)"
    and w': "mr_rules w' = mr_rules (world env) @ new" "list_all2 (\<lambda>rule c. \<exists>i. rule = mock_rule i c) new cs"
    by auto
  have "executeOperations (mock_router grow) (map create_op cs) ?env =
      ((emptyResult\<lparr>Created := Created emptyResult @ cs\<rparr>, None), ?env\<lparr>world := w'\<rparr>)"
    using x by (simp add: executeOperations_def)
  then have "\<exists>ctx'. processAllChanges itc itd (test_controller grow listing now) service ctx [] env =
      ((map create_op cs, ctx', None), ?env\<lparr>world := w'\<rparr>)"
    unfolding processAllChanges_def d by (simp add: cs(2) Let_def success_silent)
  then obtain ctx' where "processAllChanges itc itd (test_controller grow listing now) service ctx [] env =
      ((map create_op cs, ctx', None), ?env\<lparr>world := w'\<rparr>)" by blast
  with w' cs(1) show ?thesis by (intro exI [of _ "map create_op cs"] exI [of _ ctx'] exI [of _ w']) auto
qed

section \<open>The two phases of a first reconcile\<close>

text \<open>The environment with one more stored service.\<close>

definition put_service :: "Service \<Rightarrow> test_env \<Rightarrow> test_env" where
  "put_service service env = env\<lparr>world := (world env)\<lparr>twFakeClient :=
     (twFakeClient (world env))\<lparr>fkServices := gm_set (serviceKey service) service (fkServices (twFakeClient (world env)))\<rparr>\<rparr>\<rparr>"

lemma on_world_update: "on_world (test_Update service) env = (Inr (), put_service service env)"
  by (simp add: on_world_def test_Update_eq put_service_def)

lemma put_service_get [simp]:
  "gm_get (fkServices (twFakeClient (world (put_service service env)))) =
   (gm_get (fkServices (twFakeClient (world env))))(serviceKey service \<mapsto> service)"
  by (simp add: put_service_def)

text \<open>The first phase: the finalizer is stored, nothing else changes, and a requeue is asked for.\<close>

lemma first_reconcile_adds_finalizer:
  assumes stored: "gm_get (fkServices (twFakeClient (world env))) (serviceKey service) = Some service"
    and live: "IsZeroTime (svcDeletionTimestamp service)" "\<not> ContainsFinalizer service"
    and managed: "GetLBIP service \<noteq> ''''" "shouldProcessService service (GetLBIP service)"
    and fresh: "gm_get (recentCleanups env) (serviceKey service) = None"
  shows "ReconcileService pl service env =
    ((\<lparr>Requeue = True, RequeueAfter = 0\<rparr>, None), put_service (AddFinalizer service) env)"
proof -
  let ?r = "test_controller (plGrow pl) (plListing pl) (plNow pl)"
  let ?ns = "svcNamespace service" and ?n = "svcName service"
  have k: "serviceKey (AddFinalizer service) = serviceKey service"
    by (simp add: AddFinalizer_def serviceKey_def)
  have get: "on_world (test_Get ?ns ?n) env = (Inr service, env)"
    using stored by (simp add: on_world_client namespaced_key)
  have added: "add_finalizer ?r ?ns ?n service env =
    ((\<lparr>Requeue = True, RequeueAfter = 0\<rparr>, None), put_service (AddFinalizer service) env)"
    by (simp add: add_finalizer_def on_world_update on_world_client namespaced_key k emptyResultR_def Let_def)
  have "isRecentlyCleaned ?r (?ns @ ''/'' @ ?n) env = (False, env)"
    using fresh by (simp add: isRecentlyCleaned_def serviceKey_def)
  then show ?thesis
    using live managed get added by (simp add: ReconcileService_def Reconcile_def Let_def)
qed

text \<open>The second phase, on an empty table.\<close>

lemma second_reconcile_creates_rules:
  assumes h: "healthy (world env)" "mr_rules (world env) = []"
    and it: "iter_order (plCurrentOrder pl)" "iter_order (plDesiredOrder pl)"
    and stored: "gm_get (fkServices (twFakeClient (world env))) (serviceKey service) = Some service"
    and live: "IsZeroTime (svcDeletionTimestamp service)" "ContainsFinalizer service"
    and managed: "GetLBIP service \<noteq> ''''" "GetLBIP service \<noteq> ''any''" "shouldProcessService service (GetLBIP service)"
    and fresh: "gm_get (recentCleanups env) (serviceKey service) = None"
    and svc: "service_ok service"
    and g: "GetPortConfigs service (GetLBIP service) FilterAnnotation (usedPorts env) = (Inr ds, used')"
  shows "\<exists>env' cs. ReconcileService pl service env = ((emptyResultR, None), env') \<and> mset cs = mset ds \<and>
    list_all2 (\<lambda>rule c. \<exists>i. rule = mock_rule i c) (mr_rules (world env')) cs"
proof -
  let ?r = "test_controller (plGrow pl) (plListing pl) (plNow pl)"
  let ?ns = "svcNamespace service" and ?n = "svcName service"
  have get: "on_world (test_Get ?ns ?n) env = (Inr service, env)"
    using stored by (simp add: on_world_client namespaced_key)
  have "isRecentlyCleaned ?r (?ns @ ''/'' @ ?n) env = (False, env)"
    using fresh by (simp add: isRecentlyCleaned_def serviceKey_def)
  then have rec: "ReconcileService pl service env =
    reconcile_rules (plCurrentOrder pl) (plDesiredOrder pl) ?r (serviceKey service) service env"
    using live managed get by (simp add: ReconcileService_def Reconcile_def Let_def serviceKey_def)
  from healthy_list [OF h(1), of "plGrow pl"] obtain w where
    l: "on_world (r_ListAllPortForwards (mock_router (plGrow pl))) env = (Inr [], env\<lparr>world := w\<rparr>)"
    and w: "healthy w" "mr_rules w = []" using h(2) by auto
  let ?env1 = "env\<lparr>world := w\<rparr>" and ?env2 = "env\<lparr>world := w, usedPorts := used'\<rparr>"
  have d: "calculateDesiredState service ?env1 = (Inr ds, ?env2)"
    using g managed by (simp add: calculateDesiredState_def Let_def)
  obtain used'' where g2: "GetPortConfigs service (GetLBIP service) FilterAnnotation (usedPorts ?env2) = (Inr ds, used'')"
    using GetPortConfigs_again [OF g] by auto
  from detectChanges_cases [OF d, of "[]" "serviceKey service"] show ?thesis
  proof (elim disjE conjE exE)
    assume "portConfigsMatch (filter (\<lambda>rule. split_key_matches (pfName rule) (serviceKey service)) []) ds (GetLBIP service)"
      and c: "detectChanges service (serviceKey service) [] ?env1 = (newContext (serviceKey service) ?ns ?n, ?env2)"
    then have "ds = []" by (auto simp: portConfigsMatch_def split: if_splits)
    moreover have "ReconcileService pl service env = ((emptyResultR, None), ?env2)"
      using l c by (simp add: rec reconcile_rules_def Let_def newContext_def HasRelevantChanges_def)
    ultimately show ?thesis using w by auto
  next
    fix ctx assume c: "detectChanges service (serviceKey service) [] ?env1 = (ctx, ?env2)"
      and ctx: "HasRelevantChanges ctx" "\<not> IsInitialSync ctx"
    have "healthy (world ?env2)" using w by simp
    from process_creates [OF this it g2 svc managed(1,2), of "plGrow pl" "plListing pl" "plNow pl" ctx]
    obtain ops ctx' w' cs0 new cs where
      p: "processAllChanges (plCurrentOrder pl) (plDesiredOrder pl) ?r service ctx [] ?env2 =
        ((ops, ctx', None), ?env2\<lparr>usedPorts := used'', world := w'\<rparr>)" "ops = map create_op cs0"
      and n: "mr_rules w' = mr_rules (world ?env2) @ new" "mset cs = mset ds" "list_all2 (\<lambda>rule c. \<exists>i. rule = mock_rule i c) new cs"
      by blast
    have "ReconcileService pl service env = ((emptyResultR, None), ?env2\<lparr>usedPorts := used'', world := w'\<rparr>)"
      using l c ctx p by (simp add: rec reconcile_rules_def Let_def ownership_silent)
    with n w show ?thesis by auto
  qed
qed
lemma config_ports_finalizers:
  "config_ports (service\<lparr>svcFinalizers := fs\<rparr>) lbIP ms ps cs used = config_ports service lbIP ms ps cs used"
  by (induction ps arbitrary: cs used)
    (simp_all add: port_config_def rule_name_def serviceKey_def Let_def split: option.split sum.split)

lemma validate_finalizers:
  "validatePortMappings (service\<lparr>svcFinalizers := fs\<rparr>) mappings = validatePortMappings service mappings"
  by (simp add: validatePortMappings_def available_ports_def split: option.split)

lemma GetPortConfigs_finalizers:
  "GetPortConfigs (service\<lparr>svcFinalizers := fs\<rparr>) lbIP key used = GetPortConfigs service lbIP key used"
  by (simp add: GetPortConfigs_def get_annotation_def validate_finalizers config_ports_finalizers Let_def
      split: option.split sum.split)

lemma AddFinalizer_fields:
  "GetLBIP (AddFinalizer service) = GetLBIP service" "shouldProcessService (AddFinalizer service) = shouldProcessService service"
  "svcDeletionTimestamp (AddFinalizer service) = svcDeletionTimestamp service" "ContainsFinalizer (AddFinalizer service)"
  "serviceKey (AddFinalizer service) = serviceKey service" "service_ok (AddFinalizer service) = service_ok service"
  "GetPortConfigs (AddFinalizer service) = GetPortConfigs service"
  "svcNamespace (AddFinalizer service) = svcNamespace service" "svcName (AddFinalizer service) = svcName service"
  by (simp_all add: AddFinalizer_def GetLBIP_def shouldProcessService_def ContainsFinalizer_def serviceKey_def service_ok_def
      fun_eq_iff GetPortConfigs_finalizers)

lemma extend_frame [simp]:
  "mr_abs (MockRouter.extend r m) = mr_abs r" "mr_ok (MockRouter.extend r m) = mr_ok r"
  by (simp_all add: MockRouter.defs mr_abs_def mr_ok_def mr_rules_def simulated_def)

lemma new_env:
  "healthy (world (NewControllerTestEnv used))" "mr_rules (world (NewControllerTestEnv used)) = []"
  "usedPorts (NewControllerTestEnv used) = []" "recentCleanups (NewControllerTestEnv used) = []"
proof -
  have m: "mr_ok (ResetOperationCounts (ClearAllPortForwards NewMockRouter)) \<and>
    mr_abs (ResetOperationCounts (ClearAllPortForwards NewMockRouter)) = loaded_table []"
    by (auto simp: ResetOperationCounts_def ClearAllPortForwards_def NewMockRouter_def sl_make_def mr_with_slice_def
        count_call_def mr_ok_def sl_ok_def mr_abs_def mr_rules_def sl_elems_def simulated_def loaded_table_def Let_def)
  then show h: "healthy (world (NewControllerTestEnv used))"
    by (simp add: NewControllerTestEnv_def Let_def healthy_def any_destination_def loaded_table_def)
  have "mtRules (mr_abs (world (NewControllerTestEnv used))) = []"
    using m by (simp add: NewControllerTestEnv_def Let_def loaded_table_def del: mtRules_abs)
  then show "mr_rules (world (NewControllerTestEnv used)) = []" by simp
  show "usedPorts (NewControllerTestEnv used) = []" "recentCleanups (NewControllerTestEnv used) = []"
    by (simp_all add: NewControllerTestEnv_def Let_def ClearPortConflictTracking_def)
qed

lemma CreateService_put: "snd (CreateService service env) = put_service service env"
  by (simp add: CreateService_def env_call_def on_client_def fk_Create_def put_service_def)

lemma put_service_frame [simp]:
  "healthy (world (put_service service env)) = healthy (world env)" "mr_rules (world (put_service service env)) = mr_rules (world env)"
  "usedPorts (put_service service env) = usedPorts env" "recentCleanups (put_service service env) = recentCleanups env"
  by (simp_all add: put_service_def healthy_def mr_ok_def mr_abs_def mr_rules_def simulated_def)

lemma ReconcileService_key:
  "svcNamespace s = svcNamespace t \<Longrightarrow> svcName s = svcName t \<Longrightarrow> ReconcileService pl s = ReconcileService pl t"
  by (simp add: ReconcileService_def fun_eq_iff)

text \<open>
  The reconciler works in its test environment.  In a new environment, reconciling a stored service that asks for
  port forwards with \<open>ReconcileServiceWithFinalizer\<close> reports no failure and ends with an empty result, and
  afterwards the router double holds exactly one rule for each port forward that the annotation asks for, with
  its name, ports, address, protocol and source, whatever the iteration orders of the maps, the clock and the
  capacities of slices are.
\<close>

lemma two_phase_reconcile_creates_rules:
  assumes it: "iter_order (plCurrentOrder pl)" "iter_order (plDesiredOrder pl)"
    and live: "IsZeroTime (svcDeletionTimestamp service)" "\<not> ContainsFinalizer service"
    and managed: "GetLBIP service \<noteq> ''''" "GetLBIP service \<noteq> ''any''" "shouldProcessService service (GetLBIP service)"
    and svc: "service_ok service"
    and g: "GetPortConfigs service (GetLBIP service) FilterAnnotation [] = (Inr ds, used')"
  shows "\<exists>env' cs. ReconcileServiceWithFinalizer pl service (snd (CreateService service (NewControllerTestEnv used))) =
      (Some (emptyResultR, None), [], env') \<and> mset cs = mset ds \<and>
    list_all2 (\<lambda>rule c. \<exists>i. rule = mock_rule i c) (mr_rules (world env')) cs"
proof -
  let ?env = "put_service service (NewControllerTestEnv used)"
  let ?env1 = "put_service (AddFinalizer service) ?env"
  have first: "ReconcileService pl service ?env = ((\<lparr>Requeue = True, RequeueAfter = 0\<rparr>, None), ?env1)"
    by (rule first_reconcile_adds_finalizer) (simp_all add: live managed new_env)
  have "\<exists>env' cs. ReconcileService pl (AddFinalizer service) ?env1 = ((emptyResultR, None), env') \<and> mset cs = mset ds \<and>
    list_all2 (\<lambda>rule c. \<exists>i. rule = mock_rule i c) (mr_rules (world env')) cs"
    by (rule second_reconcile_creates_rules [where used' = used'])
      (simp_all add: AddFinalizer_fields live managed svc g it new_env)
  then obtain env' cs where "ReconcileService pl service ?env1 = ((emptyResultR, None), env')" "mset cs = mset ds"
    "list_all2 (\<lambda>rule c. \<exists>i. rule = mock_rule i c) (mr_rules (world env')) cs"
    using ReconcileService_key [of "AddFinalizer service" service pl] by (auto simp: AddFinalizer_fields)
  with first show ?thesis
    by (auto simp: ReconcileServiceWithFinalizer_def CreateService_put report_def)
qed

text \<open>The message of the assertion for a possible requeue allows an empty result; the condition does not.\<close>

lemma potential_requeue_rejects_empty_result:
  "AssertReconcileSuccessWithPotentialRequeue emptyResultR None \<noteq> []"
  "AssertReconcileSuccess emptyResultR None = []"
  "AssertReconcileSuccessWithPotentialRequeue result None = [] \<longleftrightarrow> Requeue result \<and> RequeueAfter result = 0"
  by (auto simp: AssertReconcileSuccessWithPotentialRequeue_def AssertReconcileSuccess_def no_error_def report_def emptyResultR_def)

definition shop_service :: Service where
  "shop_service = CreateTestService ''web'' ''shop'' (Some [(FilterAnnotation, ''8080:http'')]) [example_port ''http'' 80] ''10.0.0.5''"

definition plain_platform :: platform where
  "plain_platform = \<lparr>plGrow = (\<lambda>_ n. n), plListing = (\<lambda>w. (Inr [], w)), plNow = (\<lambda>w. (0, w)), plOverflow = (\<lambda>_. 0),
     plCurrentOrder = (\<lambda>ks. ks), plDesiredOrder = rev\<rparr>"

lemma two_phase_reconcile_creates_rules_witness:
  "\<exists>env' rule. ReconcileServiceWithFinalizer plain_platform shop_service
      (snd (CreateService shop_service (NewControllerTestEnv []))) = (Some (emptyResultR, None), [], env') \<and>
     mr_rules (world env') = [rule] \<and> pfName rule = ''web/shop:http'' \<and> pfDstPort rule = ''8080'' \<and> Fwd rule = ''10.0.0.5''"
proof -
  let ?d = "example_config ''web/shop:http'' 8080 80"
  have sel: "svcAnnotations shop_service = Some [(FilterAnnotation, ''8080:http'')]" "GetLBIP shop_service = ''10.0.0.5''"
    "svcDeletionTimestamp shop_service = None" "svcFinalizers shop_service = []"
    by (simp_all add: shop_service_def CreateTestService_def GetLBIP_def)
  obtain used' where g: "GetPortConfigs shop_service (GetLBIP shop_service) FilterAnnotation [] = (Inr [?d], used')"
    unfolding sel by (simp add: shop_service_def CreateTestService_def service_eval go_eval FilterAnnotation_def char_of_lower example_config_def)
  have "\<exists>env' cs. ReconcileServiceWithFinalizer plain_platform shop_service
      (snd (CreateService shop_service (NewControllerTestEnv []))) = (Some (emptyResultR, None), [], env') \<and>
      mset cs = mset [?d] \<and> list_all2 (\<lambda>rule c. \<exists>i. rule = mock_rule i c) (mr_rules (world env')) cs"
    by (rule two_phase_reconcile_creates_rules [OF _ _ _ _ _ _ _ _ g])
      (simp_all add: plain_platform_def iter_order_id iter_order_rev sel IsZeroTime_def ContainsFinalizer_def
        shouldProcessService_def service_ok_def shop_service_def CreateTestService_def GetLBIP_def dns_name_def dns_char_def example_port_def valid_port_def)
  then show ?thesis
    by (auto simp: list_all2_Cons2 mock_rule_def example_config_def go_eval)
qed

end
