(* ===== verification/MockUnifi.thy ===== *)
theory MockUnifi
  imports UnifiRouter GoSlices
begin

text \<open>
  The UniFi client double of the tests (testutils/mock_unifi.go): a list of rules, a login flag and a
  switch that makes the next API call answer with status 401.  Every rule handed out is a copy.  It is the
  client of \<open>UnifiRouter\<close> in \<open>mock_unifi_router\<close>: the theorems say how the router's re-login shows
  on it, and where the double differs from the gateway.
\<close>

section \<open>State and methods\<close>

record MockUniFiClient =
  muPortForwards :: "PortForward list"
  LoginCalled :: bool
  muVersion :: string
  shouldFailAuth :: bool

definition NewMockUniFiClient :: MockUniFiClient where
  "NewMockUniFiClient = \<lparr>muPortForwards = [], LoginCalled = False, muVersion = ''8.0.24'', shouldFailAuth = False\<rparr>"

definition mu_Login :: "('e MockUniFiClient_scheme, unit) io" where
  "mu_Login m = (Inr (), m\<lparr>LoginCalled := True\<rparr>)"

definition SetAuthFailure :: "bool \<Rightarrow> 'e MockUniFiClient_scheme \<Rightarrow> 'e MockUniFiClient_scheme" where
  "SetAuthFailure shouldFail m = m\<lparr>shouldFailAuth := shouldFail\<rparr>"

definition mu_Version :: "'e MockUniFiClient_scheme \<Rightarrow> string" where
  "mu_Version m = muVersion m"

text \<open>The switch resets itself at the first call.\<close>

definition mu_auth :: "('e MockUniFiClient_scheme, 'a) io \<Rightarrow> ('e MockUniFiClient_scheme, 'a) io" where
  "mu_auth act m =
     (if shouldFailAuth m
      then (Inl (ServerError StatusUnauthorized ''Authentication failed''), m\<lparr>shouldFailAuth := False\<rparr>)
      else act m)"

definition mu_ListPortForward :: "string \<Rightarrow> ('e MockUniFiClient_scheme, PortForward list) io" where
  "mu_ListPortForward siteID = mu_auth (\<lambda>m. (Inr (muPortForwards m), m))"

definition mock_id :: "PortForward list \<Rightarrow> string" where
  "mock_id rules = ''mock-id-'' @ Itoa (int (length rules) + 1)"

definition mu_CreatePortForward :: "string \<Rightarrow> PortForward \<Rightarrow> ('e MockUniFiClient_scheme, PortForward) io" where
  "mu_CreatePortForward siteID pf = mu_auth (\<lambda>m.
     if list_ex (\<lambda>existing. pfFwdPort existing = pfFwdPort pf) (muPortForwards m)
     then (Inl (ErrorString (''port '' @ pfFwdPort pf @ '' already exists'')), m)
     else
       (let newPF = pf\<lparr>ID := mock_id (muPortForwards m), SiteID := siteID\<rparr>
        in (Inr newPF, m\<lparr>muPortForwards := muPortForwards m @ [newPF]\<rparr>)))"

definition rule_not_found :: "string \<Rightarrow> error" where
  "rule_not_found ruleID = ErrorString (''port forward rule with ID '' @ ruleID @ '' not found'')"

definition mu_UpdatePortForward :: "string \<Rightarrow> PortForward \<Rightarrow> ('e MockUniFiClient_scheme, PortForward) io" where
  "mu_UpdatePortForward siteID pf = mu_auth (\<lambda>m.
     let updated = pf\<lparr>SiteID := siteID\<rparr> in
     (case first_index (\<lambda>existing. ID existing = ID pf) (muPortForwards m) of
        Some i \<Rightarrow> (Inr updated, m\<lparr>muPortForwards := (muPortForwards m)[i := updated]\<rparr>)
      | None \<Rightarrow> (Inl (rule_not_found (ID pf)), m)))"

definition mu_DeletePortForward :: "string \<Rightarrow> string \<Rightarrow> ('e MockUniFiClient_scheme, unit) io" where
  "mu_DeletePortForward siteID ruleID = mu_auth (\<lambda>m.
     (case first_index (\<lambda>pf. ID pf = ruleID) (muPortForwards m) of
        Some i \<Rightarrow> (Inr (), m\<lparr>muPortForwards := take i (muPortForwards m) @ drop (Suc i) (muPortForwards m)\<rparr>)
      | None \<Rightarrow> (Inl (rule_not_found ruleID), m)))"

definition mu_AddPortForward :: "PortForward \<Rightarrow> 'e MockUniFiClient_scheme \<Rightarrow> 'e MockUniFiClient_scheme" where
  "mu_AddPortForward pf m =
     m\<lparr>muPortForwards := muPortForwards m @ [pf\<lparr>ID := mock_id (muPortForwards m)\<rparr>]\<rparr>"

definition mu_ClearPortForwards :: "'e MockUniFiClient_scheme \<Rightarrow> 'e MockUniFiClient_scheme" where
  "mu_ClearPortForwards m = m\<lparr>muPortForwards := []\<rparr>"

definition mu_GetPortForwardCount :: "'e MockUniFiClient_scheme \<Rightarrow> nat" where
  "mu_GetPortForwardCount m = length (muPortForwards m)"

definition mu_HasPortForward :: "string \<Rightarrow> string \<Rightarrow> 'e MockUniFiClient_scheme \<Rightarrow> bool" where
  "mu_HasPortForward port dstIP m = list_ex (\<lambda>pf. pfFwdPort pf = port \<and> Fwd pf = dstIP) (muPortForwards m)"

text \<open>The double as the client of the router.\<close>

definition mock_client :: "'e MockUniFiClient_scheme UnifiClient" where
  "mock_client =
     \<lparr>c_Login = mu_Login, c_ListPortForward = mu_ListPortForward, c_CreatePortForward = mu_CreatePortForward,
      c_UpdatePortForward = mu_UpdatePortForward, c_DeletePortForward = mu_DeletePortForward\<rparr>"

definition mock_unifi_router :: "string \<Rightarrow> 'e MockUniFiClient_scheme UnifiRouter" where
  "mock_unifi_router site = \<lparr>urSiteID = site, urClient = mock_client\<rparr>"

lemmas mock_client_defs = mock_unifi_router_def mock_client_def mu_Login_def mu_ListPortForward_def
  mu_CreatePortForward_def mu_UpdatePortForward_def mu_DeletePortForward_def mu_auth_def

section \<open>The double as a store of rules\<close>

text \<open>An update or deletion by identifier touches the first rule with it.\<close>

lemma mu_update_spec:
  "\<not> shouldFailAuth m \<Longrightarrow> mu_UpdatePortForward site pf m =
     (if list_ex (\<lambda>r. ID r = ID pf) (muPortForwards m)
      then (Inr (pf\<lparr>SiteID := site\<rparr>),
            m\<lparr>muPortForwards := replace_first (\<lambda>r. ID r = ID pf) (\<lambda>_. pf\<lparr>SiteID := site\<rparr>) (muPortForwards m)\<rparr>)
      else (Inl (rule_not_found (ID pf)), m))"
  using replace_first_index [of "\<lambda>r. ID r = ID pf" "muPortForwards m" _ "\<lambda>_. pf\<lparr>SiteID := site\<rparr>"]
    first_index_None [of "\<lambda>r. ID r = ID pf" "muPortForwards m"]
  by (auto simp: mu_UpdatePortForward_def mu_auth_def Let_def split: option.split)

lemma mu_delete_spec:
  "\<not> shouldFailAuth m \<Longrightarrow> mu_DeletePortForward site i m =
     (if list_ex (\<lambda>r. ID r = i) (muPortForwards m)
      then (Inr (), m\<lparr>muPortForwards := remove_first (\<lambda>r. ID r = i) (muPortForwards m)\<rparr>)
      else (Inl (rule_not_found i), m))"
  using remove_first_index [of "\<lambda>r. ID r = i" "muPortForwards m"]
    first_index_None [of "\<lambda>r. ID r = i" "muPortForwards m"]
  by (auto simp: mu_DeletePortForward_def mu_auth_def split: option.split)

text \<open>What was created is listed; what is deleted by its identifier is gone.\<close>

lemma mu_create_list:
  "\<not> shouldFailAuth m \<Longrightarrow> mu_CreatePortForward site pf m = (Inr r, m') \<Longrightarrow>
   fst (mu_ListPortForward site m') = Inr (muPortForwards m @ [r]) \<and> SiteID r = site"
  by (auto simp: mu_CreatePortForward_def mu_ListPortForward_def mu_auth_def Let_def split: if_splits)

lemma mu_create_delete:
  assumes "\<not> shouldFailAuth m" "mu_CreatePortForward site pf m = (Inr r, m')" "ID r \<notin> ID ` set (muPortForwards m)"
  shows "mu_DeletePortForward site (ID r) m' = (Inr (), m)"
proof -
  from assms have m': "m' = m\<lparr>muPortForwards := muPortForwards m @ [r]\<rparr>"
    by (auto simp: mu_CreatePortForward_def mu_auth_def Let_def split: if_splits)
  have "remove_first (\<lambda>x. ID x = ID r) (rs @ [r]) = rs" if "ID r \<notin> ID ` set rs" for rs
    using that by (induction rs) auto
  with assms m' show ?thesis by (simp add: mu_delete_spec)
qed

section \<open>The router's re-login on the double\<close>

definition logged_in :: "'e MockUniFiClient_scheme \<Rightarrow> 'e MockUniFiClient_scheme" where
  "logged_in m = (if shouldFailAuth m then m\<lparr>shouldFailAuth := False, LoginCalled := True\<rparr> else m)"

lemma logged_in_idem [simp]: "logged_in (logged_in m) = logged_in m"
  by (simp add: logged_in_def)

lemma mu_auth_logged_in: "mu_auth act (logged_in m) = act (logged_in m)"
  by (simp add: mu_auth_def logged_in_def)

lemma retry_mu_auth:
  assumes "\<And>m e m'. act m = (Inl e, m') \<Longrightarrow> \<not> unauthorized e"
  shows "withAuthRetry (mock_unifi_router site) (mu_auth act) m = mu_auth act (logged_in m)"
proof (cases "act m" rule: io_cases)
  case (Err e m')
  with assms [OF Err] show ?thesis
    by (cases e) (auto simp: mu_auth_logged_in withAuthRetry_def mu_auth_def mock_unifi_router_def mock_client_def
      mu_Login_def logged_in_def)
qed (simp add: mu_auth_logged_in withAuthRetry_def mu_auth_def mock_unifi_router_def mock_client_def mu_Login_def logged_in_def)

lemma retry_mock_client:
  "withAuthRetry (mock_unifi_router site) (mu_ListPortForward site) m = mu_ListPortForward site (logged_in m)"
  "withAuthRetry (mock_unifi_router site) (mu_CreatePortForward site pf) m = mu_CreatePortForward site pf (logged_in m)"
  "withAuthRetry (mock_unifi_router site) (mu_UpdatePortForward site pf) m = mu_UpdatePortForward site pf (logged_in m)"
  "withAuthRetry (mock_unifi_router site) (mu_DeletePortForward site i) m = mu_DeletePortForward site i (logged_in m)"
  unfolding mu_ListPortForward_def mu_CreatePortForward_def mu_UpdatePortForward_def mu_DeletePortForward_def
  by (rule retry_mu_auth, auto simp: Let_def rule_not_found_def split: if_splits option.splits)+

lemma mock_unifi_router_sel [simp]:
  "urSiteID (mock_unifi_router site) = site" "c_ListPortForward (urClient (mock_unifi_router site)) = mu_ListPortForward"
  "c_CreatePortForward (urClient (mock_unifi_router site)) = mu_CreatePortForward"
  "c_UpdatePortForward (urClient (mock_unifi_router site)) = mu_UpdatePortForward"
  "c_DeletePortForward (urClient (mock_unifi_router site)) = mu_DeletePortForward"
  by (simp_all add: mock_unifi_router_def mock_client_def)

text \<open>
  C24: an expired session never shows at the router interface.  When the next API call of the client double is
  going to be answered with status 401, every method of \<open>UnifiRouter\<close> that reaches the client returns
  exactly what it returns on a session renewed beforehand, and leaves the same state: the refused call had
  no effect and the repeated one runs once.
\<close>

theorem expired_session_is_invisible:
  "let U = mock_unifi_router site in
    ListAllPortForwards U m = ListAllPortForwards U (logged_in m) \<and>
    CheckPort U p proto m = CheckPort U p proto (logged_in m) \<and>
    UpdatePort U p c m = UpdatePort U p c (logged_in m) \<and> RemovePort U c m = RemovePort U c (logged_in m) \<and>
    DeletePortForwardByID U i m = DeletePortForwardByID U i (logged_in m) \<and>
    fst (AddPort U c m) = fst (AddPort U c (logged_in m)) \<and>
    logged_in (snd (AddPort U c m)) = snd (AddPort U c (logged_in m))"
proof -
  let ?U = "mock_unifi_router site :: 'a MockUniFiClient_scheme UnifiRouter"
  have "CheckPort ?U p proto m = CheckPort ?U p proto (logged_in m)" for p proto
    by (simp add: CheckPort_def retry_mock_client)
  moreover have "logged_in (snd (mu_CreatePortForward site pf (logged_in m))) = snd (mu_CreatePortForward site pf (logged_in m))" for pf
    by (simp add: mu_CreatePortForward_def mu_auth_logged_in Let_def) (simp add: logged_in_def)
  then have "logged_in (snd (AddPort ?U c m)) = snd (AddPort ?U c (logged_in m))"
    by (simp add: AddPort_def retry_mock_client split_beta split: sum.split)
  ultimately show ?thesis
    by (simp add: Let_def ListAllPortForwards_def UpdatePort_def RemovePort_def DeletePortForwardByID_def AddPort_def
        retry_mock_client)
qed

section \<open>Where the double is not the gateway\<close>

text \<open>
  The double refuses a second rule with the same forward (internal) port and accepts one on an occupied
  external port, where the gateway does the opposite.
\<close>

lemma mock_client_breaks_contract:
  "\<not> unifi_client (mock_unifi_router site :: 'e MockUniFiClient_scheme UnifiRouter) muPortForwards"
proof
  assume laws: "unifi_client (mock_unifi_router site :: 'e MockUniFiClient_scheme UnifiRouter) muPortForwards"
  let ?pf = "\<lparr>ID = ''a'', SiteID = site, DestinationIP = ''any'', pfDstPort = ''80'', pfEnabled = True, Fwd = ''10.0.0.1'',
     pfFwdPort = ''8080'', pfName = ''web/shop:http'', PfwdInterface = ''wan'', Proto = ''tcp'', Src = ''any''\<rparr>"
  let ?m = "(undefined :: 'e MockUniFiClient_scheme)\<lparr>muPortForwards := [?pf], shouldFailAuth := False\<rparr>"
  obtain r m' where "mu_CreatePortForward site (?pf\<lparr>pfFwdPort := ''9090''\<rparr>) ?m = (Inr r, m')"
    by (simp add: mu_CreatePortForward_def mu_auth_def Let_def)
  then have "slot (?pf\<lparr>pfFwdPort := ''9090''\<rparr>) \<notin> slot ` {?pf}"
    using unifi_client.c_create [OF laws, of "?pf\<lparr>pfFwdPort := ''9090''\<rparr>" ?m r m']
    by (simp add: slot_def go_eval)
  then show False by (simp add: slot_def)
qed

text \<open>After a deletion the next identifier may be one that is still in use.\<close>

lemma mock_ids_repeat:
  assumes "\<not> shouldFailAuth m" "muPortForwards m = [a, b]" "ID a = ''mock-id-1''" "ID b = ''mock-id-2''"
    "pfFwdPort b \<noteq> pfFwdPort pf"
  shows "\<exists>m1 r m2. mu_DeletePortForward site ''mock-id-1'' m = (Inr (), m1) \<and>
    mu_CreatePortForward site pf m1 = (Inr r, m2) \<and> map ID (muPortForwards m2) = [''mock-id-2'', ''mock-id-2'']"
  using assms
  by (simp add: mu_DeletePortForward_def mu_CreatePortForward_def mu_auth_def mock_id_def Let_def go_eval)

end
