(* ===== verification/ForeignRules.thy ===== *)
theory ForeignRules
  imports ReconcileCorrect LostAnswers
begin

text \<open>
  The rules of others under failures.  The theorems on successful runs say that the rules of other owners are
  the same afterwards; here the run may fail anywhere: in a list, an operation, a step of the rollback or a call
  on the API server.  A failed call of the router may have had its effect (\<open>router_lossy\<close>).
\<close>

section \<open>Operations that spare a rule\<close>

text \<open>
  No call that an operation or its rollback makes is addressed to the slot of \<open>f\<close>.
\<close>

definition spares :: "PortForward \<Rightarrow> PortOperation \<Rightarrow> bool" where
  "spares f op \<longleftrightarrow> slot f \<noteq> Some (op_slot op) \<and>
     (opType op = OpUpdate \<longrightarrow> (case opExistingRule op of
        None \<Rightarrow> True
      | Some er \<Rightarrow> slot f \<noteq> Some (DstPort (opConfig op), ToLower (Proto er))))"

definition keeps :: "PortForward \<Rightarrow> PortForward list \<Rightarrow> bool" where
  "keeps f rs \<longleftrightarrow> table_ok rs \<and> f \<in> set rs"

lemma keeps_mset: "mset rs' = mset rs \<Longrightarrow> keeps f rs' = keeps f rs"
  using table_ok_mset mset_eq_setD unfolding keeps_def by metis

context router_lossy
begin

lemma add_keeps:
  assumes f: "keeps f (rules w)" and run: "r_AddPort R c w = (res, w')"
  shows "keeps f (rules w')"
proof -
  have "table_ok (rules w)" using f by (simp add: keeps_def)
  from this run(1) show ?thesis
  proof (cases rule: add_cases)
    case kept
    from keeps_mset [OF this] f show ?thesis by simp
  next
    case took
    with f show ?thesis by (auto simp: keeps_def)
  qed
qed

lemma remove_keeps:
  assumes f: "keeps f (rules w)" and run: "r_RemovePort R c w = (res, w')" "slot f \<noteq> Some (cslot c)"
  shows "keeps f (rules w')"
proof -
  have "table_ok (rules w)" using f by (simp add: keeps_def)
  from this run(1) show ?thesis
  proof (cases rule: remove_cases)
    case kept
    from keeps_mset [OF this] f show ?thesis by simp
  next
    case took
    with f run(2) show ?thesis by (auto simp: keeps_def)
  qed
qed

lemma update_keeps:
  assumes f: "keeps f (rules w)" and run: "r_UpdatePort R p c w = (res, w')" "slot f \<noteq> Some (p, ToLower (Protocol c))"
  shows "keeps f (rules w')"
proof -
  have "table_ok (rules w)" using f by (simp add: keeps_def)
  from this run(1) show ?thesis
  proof (cases rule: update_cases)
    case kept
    from keeps_mset [OF this] f show ?thesis by simp
  next
    case took
    with f run(2) show ?thesis by (auto simp: keeps_def)
  qed
qed

lemma run_op_keeps:
  assumes f: "keeps f (rules w)" and run: "run_op R op w = (res, w')" and op: "opType op = OpCreate \<or> spares f op"
  shows "keeps f (rules w')"
  using assms add_keeps [OF f] remove_keeps [OF f] update_keeps [OF f]
  by (cases "opType op") (auto simp: run_op_def spares_def cslot_def)

text \<open>A rule that was created next to \<open>f\<close> is on another slot, so undoing the creation spares \<open>f\<close>.\<close>

lemma created_spares:
  assumes f: "keeps f (rules w)" and run: "run_op R op w = (Inr u, w')" and c: "in_int64 (DstPort (opConfig op))"
    and op: "opType op = OpCreate \<or> spares f op"
  shows "spares f op"
proof (cases "opType op = OpCreate")
  case True
  with f run add_ok [of w "opConfig op" w'] obtain r where ok: "table_ok (rules w')" and r: "realises (opConfig op) r"
    "r \<notin> set (rules w)" "set (rules w') = insert r (set (rules w))"
    by (auto simp: keeps_def run_op_def)
  have "slot f \<noteq> slot r"
  proof
    assume "slot f = slot r"
    with exclusiveD [OF table_ok_exclusive [OF ok], of f r] r f slot_realises [OF r(1) c] show False
      by (auto simp: keeps_def)
  qed
  with True slot_realises [OF r(1) c] show ?thesis by (simp add: spares_def)
qed (use op in simp)

lemma rollback_op_keeps:
  assumes f: "keeps f (rules w)" and run: "rollback_op R op w = (res, w')" and op: "spares f op"
  shows "keeps f (rules w')"
proof (cases "opType op")
  case OpCreate
  with run op remove_keeps [OF f] show ?thesis by (auto simp: rollback_op_def spares_def)
next
  case OpDelete
  with run add_keeps [OF f] show ?thesis by (auto simp: rollback_op_def)
next
  case OpUpdate
  show ?thesis
  proof (cases "opExistingRule op")
    case None
    with OpUpdate run f show ?thesis by (simp add: rollback_op_def)
  next
    case (Some er)
    obtain res1 w1 where u: "r_UpdatePort R (DstPort (opConfig op)) (rule_config strToInt er) w = (res1, w1)" by fastforce
    have "slot f \<noteq> Some (DstPort (opConfig op), ToLower (Protocol (rule_config strToInt er)))"
      using op OpUpdate Some by (simp add: spares_def rule_config_def)
    from update_keeps [OF f u this] have k1: "keeps f (rules w1)" .
    with OpUpdate Some u run add_keeps [OF k1] show ?thesis
      by (auto simp: rollback_op_def split: sum.splits if_splits)
  qed
qed

lemma rollback_keeps:
  "keeps f (rules w) \<Longrightarrow> \<forall>op \<in> set ops. spares f op \<Longrightarrow> keeps f (rules (rollback_loop R ops w))"
proof (induction ops arbitrary: w)
  case (Cons op ops)
  obtain res w1 where s: "rollback_op R op w = (res, w1)" by fastforce
  from rollback_op_keeps [OF Cons.prems(1) s] Cons.prems(2) have "keeps f (rules w1)" by simp
  with Cons s show ?case by simp
qed simp

lemma exec_keeps:
  assumes "keeps f (rules (world st))" "exec_loop R ops completed result st = (out, st')"
    and "\<forall>op \<in> set completed. spares f op"
    and "\<forall>op \<in> set ops. (opType op = OpCreate \<or> spares f op) \<and> in_int64 (DstPort (opConfig op))"
  shows "keeps f (rules (world st'))"
  using assms
proof (induction ops arbitrary: completed result st)
  case (Cons op ops)
  have op: "opType op = OpCreate \<or> spares f op" "in_int64 (DstPort (opConfig op))" using Cons.prems(4) by simp_all
  obtain res w1 where run: "run_op R op (world st) = (res, w1)" by fastforce
  have k1: "keeps f (rules w1)" by (rule run_op_keeps [OF Cons.prems(1) run op(1)])
  show ?case
  proof (cases res)
    case (Inl err)
    have "keeps f (rules (rollback_loop R (rev completed) w1))" by (rule rollback_keeps [OF k1]) (use Cons.prems(3) in simp)
    with Cons.prems(2) run Inl show ?thesis by (auto simp: rollbackOperations_def Let_def)
  next
    case (Inr u)
    have "spares f op" by (rule created_spares [OF Cons.prems(1) run [unfolded Inr] op(2,1)])
    with Cons.prems run Inr k1 Cons.IH [of "st\<lparr>usedPorts := unmark_op op (usedPorts st), world := w1\<rparr>"
        "completed @ [op]" "record_op op result"]
    show ?thesis by auto
  qed
qed simp

lemma rollback_cleanup_keeps: "keeps f (rules w) \<Longrightarrow> keeps f (rules (rollback_cleanup_loop R ops w))"
proof (induction ops arbitrary: w)
  case (Cons op ops)
  obtain res w1 where s: "r_AddPort R (opConfig op) w = (res, w1)" by fastforce
  from add_keeps [OF Cons.prems s] Cons.IH [of w1] s show ?case by simp
qed simp

lemma cleanup_keeps:
  assumes "keeps f (rules (world st))" "cleanup_loop R ops completed result st = (out, st')"
    and "\<forall>op \<in> set ops. slot f \<noteq> Some (op_slot op)"
  shows "keeps f (rules (world st'))"
  using assms
proof (induction ops arbitrary: completed result st)
  case (Cons op ops)
  obtain res w1 where run: "r_RemovePort R (opConfig op) (world st) = (res, w1)" by fastforce
  have k1: "keeps f (rules w1)" by (rule remove_keeps [OF Cons.prems(1) run]) (use Cons.prems(3) in simp)
  show ?case
  proof (cases res)
    case (Inl err)
    with Cons.prems(2) run rollback_cleanup_keeps [OF k1, of "rev completed"] show ?thesis
      by (auto simp: rollbackCleanupOperations_def Let_def)
  next
    case (Inr u)
    with Cons.prems run k1 Cons.IH [of "st\<lparr>usedPorts := UnmarkPortUsed (DstPort (opConfig op)) (usedPorts st), world := w1\<rparr>"
        "completed @ [op]" "result\<lparr>Deleted := Deleted result @ [opConfig op]\<rparr>"]
    show ?thesis by auto
  qed
qed simp

end

section \<open>The reconciler\<close>

text \<open>
  \<open>guarded ns n f\<close>: the rule \<open>f\<close> is on the gateway, and the rules of the service have numeric ports, so that
  they can be addressed.
\<close>

definition guarded :: "string \<Rightarrow> string \<Rightarrow> PortForward \<Rightarrow> PortForward list \<Rightarrow> bool" where
  "guarded ns n f rs \<longleftrightarrow> keeps f rs \<and> \<not> RuleBelongsToService (pfName f) ns n \<and>
     (\<forall>rule \<in> set rs. RuleBelongsToService (pfName rule) ns n \<longrightarrow> plain_rule rule)"

lemma guarded_keeps: "guarded ns n f rs \<Longrightarrow> keeps f rs"
  by (simp add: guarded_def)

lemma guarded_mset: "mset rs' = mset rs \<Longrightarrow> guarded ns n f rs' = guarded ns n f rs"
  using keeps_mset mset_eq_setD unfolding guarded_def by metis

lemma guarded_slot:
  assumes "guarded ns n f rs" "rule \<in> set rs" "RuleBelongsToService (pfName rule) ns n"
  shows "slot f \<noteq> slot rule" and "plain_rule rule"
proof -
  show p: "plain_rule rule" using assms by (simp add: guarded_def)
  then obtain s where s: "slot rule = Some s" by (auto simp: plain_rule_def slot_def)
  have "f \<noteq> rule" using assms by (auto simp: guarded_def)
  with assms s exclusiveD [OF table_ok_exclusive, of rs f rule s] show "slot f \<noteq> slot rule"
    by (auto simp: guarded_def keeps_def)
qed

lemma cleanup_ops_spare:
  assumes "guarded ns n f rs" "set rs' \<subseteq> set rs" "op \<in> set (cleanup_ops reason ns n rs')"
  shows "slot f \<noteq> Some (op_slot op)"
proof -
  from assms(3) obtain rule where rule: "rule \<in> set rs'" "RuleBelongsToService (pfName rule) ns n"
    "op = cleanup_op reason rule" by (auto simp: cleanup_ops_def)
  with assms(2) guarded_slot [OF assms(1), of rule] have "slot f \<noteq> slot rule" "plain_rule rule" by auto
  moreover from this(2) have "slot rule \<noteq> None" by (auto simp: plain_rule_def slot_def)
  ultimately show ?thesis using cleanup_op_slot [of rule reason] rule(3) by simp
qed

lemma delta_spares:
  assumes g: "guarded (svcNamespace service) (svcName service) f rs" and cur: "set cur \<subseteq> set rs" "\<forall>rule \<in> set cur. belongs service rule"
    and it: "iter_order itc" "iter_order itd" and ds: "desired_ok service ds"
    and op: "op \<in> set (calculateDelta itc itd cur ds ctx service)"
  shows "(opType op = OpCreate \<or> spares f op) \<and> in_int64 (DstPort (opConfig op))"
proof -
  have plain: "\<forall>rule \<in> set cur. plain_rule rule" and other: "rule \<in> set cur \<Longrightarrow> slot f \<noteq> slot rule" for rule
    using guarded_slot [OF g] cur unfolding belongs_def by blast+
  have "exclusive (set cur)"
    using g cur(1) table_ok_exclusive unfolding guarded_def keeps_def exclusive_def by blast
  with plain cur have ok: "current_ok service cur" by (simp add: current_ok_def)
  obtain dels adds where "calculateDelta itc itd cur ds ctx service = dels @ adds"
    "set dels = delta_del cur ds" "set adds = delta_add ctx cur ds"
    by (rule calculateDelta_split [OF it ok ds])
  with op have op': "op \<in> delta_del cur ds \<union> delta_add ctx cur ds" by auto
  have "opType op = OpCreate \<or> spares f op"
  proof (cases "op \<in> delta_del cur ds")
    case True
    then obtain rule where rule: "rule \<in> set cur" "op = delete_op rule" by (auto simp: delta_del_iff)
    with delete_op_slot [of rule] plain other [of rule] show ?thesis by (auto simp: spares_def delete_op_def)
  next
    case False
    with op' have "op \<in> delta_add ctx cur ds" by simp
    then show ?thesis
    proof (cases rule: delta_add_cases)
      case (update rule)
      have c: "plain_config (opConfig op)" using update(1) ds by (auto simp: desired_ok_def)
      from configKey_ruleKey [OF update(4) c] ruleKey_slot [OF update(4) c] other [OF update(3)] update(5)
      show ?thesis by (auto simp: spares_def cslot_def)
    qed simp
  qed
  with delta_wf [OF op' plain ds] show ?thesis by simp
qed

lemma recordCleanupRetry_world [frame_simps]: "world (recordCleanupRetry key st) = world st"
  by (simp add: recordCleanupRetry_def)

lemma clearCleanupRetries_world [frame_simps]: "world (clearCleanupRetries key st) = world st"
  by (simp add: clearCleanupRetries_def)

lemma desired_world [frame_simps]: "world (snd (calculateDesiredState service st)) = world st"
  by (simp add: calculateDesiredState_def Let_def split: prod.split sum.split)

lemma detect_world [frame_simps]: "world (snd (detectChanges service key rs st)) = world st"
  using desired_world [of service st] by (auto simp: detectChanges_def Let_def split: prod.split sum.split)

locale lossy_env = reconciler_env r rules + router_lossy "rcRouter r" rules
  for r :: "'w Reconciler" and rules :: "'w \<Rightarrow> PortForward list"
begin

abbreviation guards :: "string \<Rightarrow> string \<Rightarrow> PortForward \<Rightarrow> 'w rstate \<Rightarrow> bool" where
  "guards ns n f st \<equiv> guarded ns n f (rules (world st))"

lemma list_guards:
  assumes "on_world (r_ListAllPortForwards (rcRouter r)) st = (res, st')"
  shows "guards ns n f st' = guards ns n f st" and "res = Inr rs \<Longrightarrow> set rs = set (rules (world st'))"
proof -
  from assms have l: "r_ListAllPortForwards (rcRouter r) (world st) = (res, world st')"
    by (auto simp: on_world_def split: prod.splits)
  then have "mset (rules (world st')) = mset (rules (world st))"
    by (cases res) (auto dest: list_err list_ok)
  then show "guards ns n f st' = guards ns n f st" by (rule guarded_mset)
  show "res = Inr rs \<Longrightarrow> set rs = set (rules (world st'))" using list_set l by metis
qed

lemma get_guards: "on_world (k_Get (rcClient r) ns' n') st = (res, st') \<Longrightarrow> guards ns n f st' = guards ns n f st"
  using guarded_mset [OF get_frame] by (auto simp: on_world_eq)

lemma update_guards: "on_world (k_Update (rcClient r) svc) st = (res, st') \<Longrightarrow> guards ns n f st' = guards ns n f st"
  using guarded_mset [OF update_frame] by (auto simp: on_world_eq)

lemma recent_guards: "isRecentlyCleaned r key st = (b, st') \<Longrightarrow> guards ns n f st' = guards ns n f st"
  using guarded_mset [OF now_frame] by (auto simp: isRecentlyCleaned_def Let_def time_now_eq split: option.splits)

lemma mark_guards: "keeps f (rules (world (markServiceCleanup r key st))) = keeps f (rules (world st))"
  using keeps_mset [OF now_frame] by (simp add: markServiceCleanup_def Let_def time_now_eq)

lemma update_keeps_rule: "on_world (k_Update (rcClient r) svc) st = (res, st') \<Longrightarrow> keeps f (rules (world st')) = keeps f (rules (world st))"
  using keeps_mset [OF update_frame] by (auto simp: on_world_eq)

lemma executeCleanup_keeps:
  assumes "guards ns n f st" "set rs \<subseteq> set (rules (world st))"
    and "executeCleanupOperations (rcRouter r) (cleanup_ops reason ns n rs) st = (out, st')"
  shows "keeps f (rules (world st'))"
  using assms(3) cleanup_keeps [OF guarded_keeps [OF assms(1)]] cleanup_ops_spare [OF assms(1,2)]
  unfolding cleanup_ops_loop by blast

lemma finalize_keeps:
  assumes g: "guards (svcNamespace service) (svcName service) f st" and run: "finalizeService r service st = (res, st')"
  shows "keeps f (rules (world st'))"
proof -
  obtain res1 st1 where l: "on_world (r_ListAllPortForwards (rcRouter r)) st = (res1, st1)" by fastforce
  note lg = list_guards [OF l]
  have g1: "guards (svcNamespace service) (svcName service) f st1" using g lg(1) by simp
  show ?thesis
  proof (cases res1)
    case (Inl err)
    with run l guarded_keeps [OF g1] show ?thesis by (simp add: finalizeService_def)
  next
    case (Inr rs)
    obtain result e st2 where c: "executeCleanupOperations (rcRouter r)
        (cleanup_ops ''service_deletion_finalizer'' (svcNamespace service) (svcName service) rs) st1 = ((result, e), st2)"
      by (metis surj_pair)
    have "keeps f (rules (world st2))" by (rule executeCleanup_keeps [OF g1 _ c]) (use lg(2) [OF Inr] in simp)
    with run l Inr c show ?thesis by (cases e) (auto simp: finalizeService_def)
  qed
qed

lemma handleFinalizer_keeps:
  assumes g: "guards (svcNamespace service) (svcName service) f st" and run: "handleFinalizerCleanup ovf r service st = (out, st')"
  shows "keeps f (rules (world st'))"
proof -
  obtain e st1 where fin: "finalizeService r service st = (e, st1)" by fastforce
  have k1: "keeps f (rules (world st1))" by (rule finalize_keeps [OF g fin])
  show ?thesis
  proof (cases e)
    case (Some err)
    with run fin k1 guarded_keeps [OF g] show ?thesis
      by (auto simp: handleFinalizerCleanup_def Let_def frame_simps split: if_splits)
  next
    case None
    let ?st2 = "markServiceCleanup r (serviceKey service) (clearCleanupRetries (serviceKey service) st1)"
    obtain res st3 where u: "on_world (k_Update (rcClient r) (RemoveFinalizer service)) ?st2 = (res, st3)" by fastforce
    have "keeps f (rules (world st3))" using update_keeps_rule [OF u] mark_guards k1 by (simp add: frame_simps)
    with run fin None u guarded_keeps [OF g] show ?thesis
      by (cases res) (auto simp: handleFinalizerCleanup_def Let_def split: if_splits)
  qed
qed

lemma release_keeps:
  assumes g: "guards (svcNamespace service) (svcName service) f st" and run: "release_service r service st = (out, st')"
  shows "keeps f (rules (world st'))"
proof -
  obtain e st1 where fin: "finalizeService r service st = (e, st1)" by fastforce
  obtain res st2 where u: "on_world (k_Update (rcClient r) (RemoveFinalizer service)) st1 = (res, st2)" by fastforce
  from run fin u have "st' = st2" by (cases res) (auto simp: release_service_def)
  with update_keeps_rule [OF u] finalize_keeps [OF g fin] show ?thesis by simp
qed

lemma missing_keeps:
  assumes g: "guards ns n f st" and run: "handleMissingServiceCleanup r ns n st = (out, st')"
  shows "keeps f (rules (world st'))"
proof -
  obtain res1 st1 where l: "on_world (r_ListAllPortForwards (rcRouter r)) st = (res1, st1)" by fastforce
  note lg = list_guards [OF l]
  have g1: "guards ns n f st1" using g lg(1) by simp
  show ?thesis
  proof (cases res1)
    case (Inl err)
    with run l guarded_keeps [OF g1] show ?thesis by (simp add: handleMissingServiceCleanup_def)
  next
    case (Inr rs)
    obtain result e st2 where c: "executeCleanupOperations (rcRouter r)
        (cleanup_ops ''missing_service_race_condition'' ns n rs) st1 = ((result, e), st2)"
      by (metis surj_pair)
    have "keeps f (rules (world st2))" by (rule executeCleanup_keeps [OF g1 _ c]) (use lg(2) [OF Inr] in simp)
    with run l Inr c guarded_keeps [OF g1] mark_guards show ?thesis
      by (cases e) (auto simp: handleMissingServiceCleanup_def Let_def split: if_splits)
  qed
qed

lemma attempt_guards:
  assumes g: "guards ns n f st" and run: "shouldAttemptCleanupForMissingService r ns' n' st = (b, st')"
  shows "guards ns n f st'"
proof -
  obtain recent st1 where rc: "isRecentlyCleaned r (ns' @ ''/'' @ n') st = (recent, st1)" by fastforce
  with g recent_guards have g1: "guards ns n f st1" by blast
  obtain res st2 where l: "on_world (r_ListAllPortForwards (rcRouter r)) st1 = (res, st2)" by fastforce
  with g1 list_guards(1) have "guards ns n f st2" by blast
  with run rc l g1 show ?thesis
    by (auto simp: shouldAttemptCleanupForMissingService_def Let_def split: if_splits sum.splits)
qed

lemma exec_delta_keeps:
  assumes g: "guards (svcNamespace service) (svcName service) f st"
    and cur: "set cur \<subseteq> set (rules (world st))" "\<forall>rule \<in> set cur. belongs service rule"
    and it: "iter_order itc" "iter_order itd" and ds: "desired_ok service ds"
    and run: "executeOperations (rcRouter r) (calculateDelta itc itd cur ds ctx service) st = (out, st')"
  shows "keeps f (rules (world st'))"
proof -
  have "\<forall>op \<in> set (calculateDelta itc itd cur ds ctx service).
      (opType op = OpCreate \<or> spares f op) \<and> in_int64 (DstPort (opConfig op))"
    using delta_spares [OF g cur it ds] by blast
  with exec_keeps [OF guarded_keeps [OF g]] run show ?thesis unfolding executeOperations_def by simp
qed

lemma processAll_keeps:
  assumes g: "guards (svcNamespace service) (svcName service) f st" and svc: "service_ok service"
    and cur: "set cur \<subseteq> set (rules (world st))" "\<forall>rule \<in> set cur. belongs service rule"
    and it: "iter_order itc" "iter_order itd" and run: "processAllChanges itc itd r service ctx cur st = (out, st')"
  shows "keeps f (rules (world st'))"
proof -
  obtain d st1 where d: "calculateDesiredState service st = (d, st1)" by fastforce
  from desired_world [of service st] d have w1: "world st1 = world st" by simp
  show ?thesis
  proof (cases d)
    case (Inl err)
    with run d w1 guarded_keeps [OF g] show ?thesis by (auto simp: processAllChanges_def)
  next
    case (Inr ds)
    then obtain used' where "GetPortConfigs service (GetLBIP service) FilterAnnotation (usedPorts st) = (Inr ds, used')"
      using d by (auto simp: calculateDesiredState_def Let_def split: prod.splits sum.splits if_splits)
    then have ds: "desired_ok service ds" using svc by (rule GetPortConfigs_desired_ok)
    obtain result e st2 where x: "executeOperations (rcRouter r) (calculateDelta itc itd cur ds ctx service) st1 = ((result, e), st2)"
      by (metis surj_pair)
    have "keeps f (rules (world st2))"
      by (rule exec_delta_keeps [OF _ _ _ it ds x]) (use g cur w1 in simp_all)
    with run d Inr x show ?thesis by (cases e) (auto simp: processAllChanges_def Let_def)
  qed
qed

lemma reconcile_rules_keeps:
  assumes g: "guards (svcNamespace service) (svcName service) f st" and svc: "service_ok service"
    and it: "iter_order itc" "iter_order itd"
    and run: "reconcile_rules itc itd r (serviceKey service) service st = (out, st')"
  shows "keeps f (rules (world st'))"
proof -
  obtain res st1 where l: "on_world (r_ListAllPortForwards (rcRouter r)) st = (res, st1)" by fastforce
  note lg = list_guards [OF l]
  have g1: "guards (svcNamespace service) (svcName service) f st1" using g lg(1) by simp
  show ?thesis
  proof (cases res)
    case (Inl err)
    with run l guarded_keeps [OF g1] show ?thesis by (simp add: reconcile_rules_def)
  next
    case (Inr rs)
    let ?cur = "filter (\<lambda>rule. split_key_matches (pfName rule) (serviceKey service)) rs"
    obtain ctx st2 where c: "detectChanges service (serviceKey service) rs st1 = (ctx, st2)" by fastforce
    with detect_world [of service "serviceKey service" rs st1] have w2: "world st2 = world st1" by simp
    obtain ops ctx' e st3 where p: "processAllChanges itc itd r service ctx ?cur st2 = ((ops, ctx', e), st3)"
      by (metis surj_pair)
    have "keeps f (rules (world st3))"
      by (rule processAll_keeps [OF _ svc _ _ it p]) (use g1 w2 lg(2) [OF Inr] same_filter [OF svc] in simp_all)
    with run l Inr c p w2 guarded_keeps [OF g1] show ?thesis
      by (cases e) (auto simp: reconcile_rules_def Let_def split: if_splits)
  qed
qed

lemma Reconcile_keeps:
  assumes g: "guards ns n f st" and it: "iter_order itc" "iter_order itd"
    and got: "\<forall>service. fst (k_Get (rcClient r) ns n (world (snd (isRecentlyCleaned r (ns @ ''/'' @ n) st)))) = Inr service
       \<longrightarrow> svcNamespace service = ns \<and> svcName service = n \<and> service_ok service"
    and run: "Reconcile ovf itc itd r ns n st = (out, st')"
  shows "keeps f (rules (world st'))"
proof -
  obtain recent st1 where rc: "isRecentlyCleaned r (ns @ ''/'' @ n) st = (recent, st1)" by fastforce
  with g recent_guards have g1: "guards ns n f st1" by blast
  obtain res st2 where k: "on_world (k_Get (rcClient r) ns n) st1 = (res, st2)" by fastforce
  with g1 get_guards have g2: "guards ns n f st2" by blast
  note k1 = guarded_keeps [OF g1] and k2 = guarded_keeps [OF g2]
  show ?thesis
  proof (cases "recent")
    case True
    with run rc k1 show ?thesis by (simp add: Reconcile_def Let_def)
  next
    case False
    show ?thesis
    proof (cases res)
      case (Inl err)
      obtain attempt st3 where a: "shouldAttemptCleanupForMissingService r ns n st2 = (attempt, st3)" by fastforce
      from attempt_guards [OF g2 a] have g3: "guards ns n f st3" .
      from run rc k False Inl a k2 guarded_keeps [OF g3] missing_keeps [OF g3] show ?thesis
        by (auto simp: Reconcile_def Let_def split: if_splits)
    next
      case (Inr service)
      have name: "svcNamespace service = ns" "svcName service = n" and svc: "service_ok service"
        using got k rc Inr by (auto simp: on_world_eq)
      have gs: "guards (svcNamespace service) (svcName service) f st2" using g2 name by simp
      have key: "ns @ ''/'' @ n = serviceKey service" using name by (simp add: serviceKey_def)
      have add: "keeps f (rules (world (snd (add_finalizer r ns n service st2))))"
        using k2 keeps_mset [OF add_finalizer_mset [OF reconciler_env_axioms]] by simp
      from run rc k False Inr k2 handleFinalizer_keeps [OF gs] release_keeps [OF gs]
        reconcile_rules_keeps [OF gs svc it] add show ?thesis
        unfolding Reconcile_def Let_def key by (auto split: if_splits)
    qed
  qed
qed

end

text \<open>
  The interface on the code's own router and client: the in-memory cluster, over the gateway whose answers get lost.
\<close>

definition lossy_reconciler :: "string \<Rightarrow> 'e cluster_scheme Reconciler" where
  "lossy_reconciler site = (ref_reconciler site)\<lparr>rcRouter := unifi_router (lossy_router_of site)\<rparr>"

lemma lossy_reconciler_simps [simp]:
  "rcClient (lossy_reconciler site) = ref_kube" "rcRouter (lossy_reconciler site) = unifi_router (lossy_router_of site)"
  "rcCleanupWindow (lossy_reconciler site) = 2 * Second" "rcNow (lossy_reconciler site) c = (cl_clock c, c)"
  by (simp_all add: lossy_reconciler_def)

interpretation refl: lossy_env "lossy_reconciler site" gw_rules
  unfolding lossy_env_def reconciler_env_def reconciler_env_axioms_def lossy_reconciler_simps
  using lossy.router_contract_axioms lossy.router_lossy_axioms by (auto simp: ref_kube_def split: option.split list.split)

section \<open>The property\<close>

text \<open>
  C2: a reconciliation never touches the rules of others, also when it fails.  The router keeps its contract, and a
  call of it that fails has no effect or its whole effect (C6 shows that of the UniFi router); no call on the API server or
  the clock changes a rule; at the start no two rules have the same external port and protocol, and the rules of the
  service have numeric ports; the API server returns only admissible objects, under the name that was asked for.  Then a rule
  that does not belong to the service is still on the router, unchanged, after a call of \<open>Reconcile\<close> with any
  outcome: success, a failed listing, an operation that fails half way and is rolled back (completely or not), a
  failed clean-up of a deleted, unmanaged or missing service, or a failed update of the object.  And no two
  rules have the same external port and protocol afterwards.

  So the service controller does not take over a port that a manual rule has, as examples/README.md says it will: the
  manual rule stays as it is, and the creation of the service's own rule on that port cannot succeed.
\<close>

theorem foreign_rules_untouched:
  assumes env: "reconciler_env r rules" and lossy: "router_lossy (rcRouter r) rules"
    and it: "iter_order itc" "iter_order itd"
    and ok: "table_ok (rules (world st))"
    and plain: "\<forall>rule \<in> set (rules (world st)). RuleBelongsToService (pfName rule) ns n \<longrightarrow> plain_rule rule"
    and got: "\<forall>service. fst (k_Get (rcClient r) ns n (world (snd (isRecentlyCleaned r (ns @ ''/'' @ n) st)))) = Inr service
       \<longrightarrow> svcNamespace service = ns \<and> svcName service = n \<and> service_ok service"
    and f: "f \<in> set (rules (world st))" "\<not> RuleBelongsToService (pfName f) ns n"
    and run: "Reconcile ovf itc itd r ns n st = (out, st')"
  shows "f \<in> set (rules (world st')) \<and> table_ok (rules (world st'))"
proof -
  have "lossy_env r rules" using env lossy by (simp add: lossy_env_def)
  from lossy_env.Reconcile_keeps [OF this _ it got run, of f] ok plain f show ?thesis
    by (simp add: guarded_def keeps_def)
qed

text \<open>On the gateway, for every sequence of calls that fail and of answers that are lost.\<close>

theorem foreign_rules_untouched_witness:
  "\<forall>faults. example_rule ''b'' ''other/svc:x'' 7000 70 \<in> set (gw_rules (world (snd
     (Reconcile (\<lambda>_. 0) (\<lambda>ks. ks) rev (lossy_reconciler ''default'') ''web'' ''shop'' (live_state faults)))))"
proof (rule allI)
  fix faults
  let ?r = "lossy_reconciler ''default'' :: cluster Reconciler"
  obtain out st' where run: "Reconcile (\<lambda>_. 0) (\<lambda>ks. ks) rev ?r ''web'' ''shop'' (live_state faults) = (out, st')" by fastforce
  have "example_rule ''b'' ''other/svc:x'' 7000 70 \<in> set (gw_rules (world st')) \<and> table_ok (gw_rules (world st'))"
  proof (rule foreign_rules_untouched [OF refl.reconciler_env_axioms _ iter_order_id iter_order_rev _ _ _ _ _ run])
    show "router_lossy (rcRouter ?r) gw_rules" using lossy.router_lossy_axioms by simp
    show "table_ok (gw_rules (world (live_state faults)))"
      by (simp add: example_rstate_def example_cluster_def example_rules_ok)
    show "\<forall>service. fst (k_Get (rcClient ?r) ''web'' ''shop''
        (world (snd (isRecentlyCleaned ?r (''web'' @ ''/'' @ ''shop'') (live_state faults))))) = Inr service \<longrightarrow>
      svcNamespace service = ''web'' \<and> svcName service = ''shop'' \<and> service_ok service"
      by (simp add: isRecentlyCleaned_def example_rstate_def example_cluster_def ref_kube_def same_service_def live_sel live_ok)
  qed (auto simp: example_rstate_def example_cluster_def example_rules_def plain_rule_def example_rule_def go_eval
      RuleBelongsToService_def HasPrefix_def)
  with run show "example_rule ''b'' ''other/svc:x'' 7000 70 \<in> set (gw_rules (world (snd
     (Reconcile (\<lambda>_. 0) (\<lambda>ks. ks) rev ?r ''web'' ''shop'' (live_state faults)))))" by simp
qed

end
