(* ===== verification/Interleaving.thy ===== *)
theory Interleaving
  imports ForeignRules
begin

text \<open>
  Goroutines that share the gateway.  The service controller, the periodic reconciler and the PortForwardRule
  controller run at the same time: each of them executes its operations one after the other, and the others'
  calls fall in between.  \<open>executeOperations\<close> is cut into its steps here, several executions take turns, and the
  rules on the slots that one of them claims change by its own operations only (rely and guarantee).
\<close>

section \<open>An execution in steps\<close>

text \<open>
  A worker is a goroutine inside \<open>executeOperations\<close>: the operations that are left, those that are completed, the
  result so far, and where it is: in the loop, in the rollback (with the steps that are left and the error that
  caused it), or back from the call (with the error it returned).
\<close>

datatype phase = Running | RollingBack "PortOperation list" error | Finished "error option"

record worker =
  wkOps :: "PortOperation list"
  wkCompleted :: "PortOperation list"
  wkResult :: OperationResult
  wkPhase :: phase

definition start_worker :: "PortOperation list \<Rightarrow> worker" where
  "start_worker operations =
     \<lparr>wkOps = operations, wkCompleted = [], wkResult = emptyResult, wkPhase = Running\<rparr>"

text \<open>One turn: an iteration of the loop, an iteration of the rollback, or the return.\<close>

definition exec_step ::
    "'w Router \<Rightarrow> worker \<times> ('w, 'e) cstate_scheme \<Rightarrow> worker \<times> ('w, 'e) cstate_scheme" where
  "exec_step R = (\<lambda>(wk, st).
     (case wkPhase wk of
        Running \<Rightarrow>
          (case wkOps wk of
             [] \<Rightarrow> (wk\<lparr>wkPhase := Finished None\<rparr>, st)
           | op # ops \<Rightarrow>
               (case run_op R op (world st) of
                  (Inr _, w1) \<Rightarrow>
                    (wk\<lparr>wkOps := ops, wkCompleted := wkCompleted wk @ [op], wkResult := record_op op (wkResult wk)\<rparr>,
                     st\<lparr>usedPorts := unmark_op op (usedPorts st), world := w1\<rparr>)
                | (Inl err, w1) \<Rightarrow>
                    (wk\<lparr>wkResult := (wkResult wk)\<lparr>Failed := Failed (wkResult wk) @ [err]\<rparr>,
                       wkPhase := RollingBack (rev (wkCompleted wk)) err\<rparr>,
                     st\<lparr>world := w1\<rparr>)))
      | RollingBack (op # ops) err \<Rightarrow>
          (wk\<lparr>wkPhase := RollingBack ops err\<rparr>, st\<lparr>world := snd (rollback_op R op (world st))\<rparr>)
      | RollingBack [] err \<Rightarrow>
          (wk\<lparr>wkPhase := Finished (Some (ErrorString (''operation failed: '' @ Error err)))\<rparr>, st)
      | Finished e \<Rightarrow> (wk, st)))"

text \<open>The turns a worker can still take.\<close>

fun turns_left :: "worker \<Rightarrow> nat" where
  "turns_left wk =
     (case wkPhase wk of
        Running \<Rightarrow> 2 * length (wkOps wk) + length (wkCompleted wk) + 2
      | RollingBack ops err \<Rightarrow> Suc (length ops)
      | Finished e \<Rightarrow> 0)"

lemma exec_step_finished [simp]: "wkPhase wk = Finished e \<Longrightarrow> exec_step R (wk, st) = (wk, st)"
  by (simp add: exec_step_def)

lemma exec_step_progress:
  "exec_step R (wk, st) = (wk', st') \<Longrightarrow> turns_left wk' \<le> turns_left wk - 1"
  by (auto simp: exec_step_def split: phase.splits list.splits sum.splits prod.splits)

lemma turns_left_0: "turns_left wk = 0 \<longleftrightarrow> (\<exists>e. wkPhase wk = Finished e)"
  by (simp split: phase.split)

lemma steps_finish: "turns_left wk \<le> k \<Longrightarrow> \<exists>e. wkPhase (fst ((exec_step R ^^ k) (wk, st))) = Finished e"
proof (induction k arbitrary: wk st)
  case (Suc k)
  obtain wk1 st1 where s: "exec_step R (wk, st) = (wk1, st1)" by fastforce
  have "turns_left wk1 \<le> k" using exec_step_progress [OF s] Suc.prems by linarith
  from Suc.IH [OF this] s show ?case by (simp add: funpow_Suc_right del: funpow.simps)
qed (use turns_left_0 in auto)

text \<open>What the rest of the call does when nobody interferes.\<close>

definition rest_of_call ::
    "'w Router \<Rightarrow> worker \<times> ('w, 'e) cstate_scheme \<Rightarrow> (OperationResult \<times> error option) \<times> ('w, 'e) cstate_scheme" where
  "rest_of_call R = (\<lambda>(wk, st).
     (case wkPhase wk of
        Running \<Rightarrow> exec_loop R (wkOps wk) (wkCompleted wk) (wkResult wk) st
      | RollingBack ops err \<Rightarrow>
          ((wkResult wk, Some (ErrorString (''operation failed: '' @ Error err))), st\<lparr>world := rollback_loop R ops (world st)\<rparr>)
      | Finished e \<Rightarrow> ((wkResult wk, e), st)))"

lemma rest_of_call_step: "rest_of_call R (exec_step R s) = rest_of_call R s"
  by (cases s) (auto simp: rest_of_call_def exec_step_def rollbackOperations_def Let_def
      split: phase.splits list.splits sum.splits prod.splits)

lemma rest_of_call_steps: "rest_of_call R ((exec_step R ^^ k) s) = rest_of_call R s"
  by (induction k) (simp_all add: rest_of_call_step)

text \<open>
  The steps are those of \<open>executeOperations\<close>: a worker that is alone finishes after at most \<open>2 n + 2\<close> turns for \<open>n\<close>
  operations, whatever the router answers, and result, error and state are those of the function.
\<close>

lemma steps_of_executeOperations:
  assumes "2 * length operations + 2 \<le> k" and "(exec_step R ^^ k) (start_worker operations, st) = (wk, st')"
  shows "\<exists>e. wkPhase wk = Finished e \<and> executeOperations R operations st = ((wkResult wk, e), st')"
proof -
  have "turns_left (start_worker operations) \<le> k" using assms(1) by (simp add: start_worker_def)
  from steps_finish [OF this, of R st] assms(2) obtain e where e: "wkPhase wk = Finished e" by auto
  have "rest_of_call R (wk, st') = executeOperations R operations st"
    using rest_of_call_steps [of R k "(start_worker operations, st)"] assms(2)
    by (simp add: rest_of_call_def start_worker_def executeOperations_def)
  with e show ?thesis by (simp add: rest_of_call_def)
qed

section \<open>Taking turns\<close>

text \<open>
  A schedule is a list of turns: a worker takes its next step, or something else happens to the shared state:
  a call by the PortForwardRule controller, a user at the gateway, a change of the port map.
\<close>

datatype 's turn = Turn nat | Elsewhere "'s \<Rightarrow> 's"

fun take_turn ::
    "'w Router \<Rightarrow> ('w, 'e) cstate_scheme turn \<Rightarrow> worker list \<times> ('w, 'e) cstate_scheme \<Rightarrow>
     worker list \<times> ('w, 'e) cstate_scheme" where
  "take_turn R (Turn i) (ws, st) =
     (if i < length ws then (case exec_step R (ws ! i, st) of (wk, st') \<Rightarrow> (ws[i := wk], st')) else (ws, st))"
| "take_turn R (Elsewhere f) (ws, st) = (ws, f st)"

definition run_turns ::
    "'w Router \<Rightarrow> ('w, 'e) cstate_scheme turn list \<Rightarrow> worker list \<times> ('w, 'e) cstate_scheme \<Rightarrow>
     worker list \<times> ('w, 'e) cstate_scheme" where
  "run_turns R turns s = fold (take_turn R) turns s"

lemma run_turns_simps [simp]:
  "run_turns R [] s = s" "run_turns R (t # turns) s = run_turns R turns (take_turn R t s)"
  by (simp_all add: run_turns_def)

lemma take_turn_length: "length (fst (take_turn R t s)) = length (fst s)"
  by (cases s; cases t) (simp_all split: prod.split)

text \<open>A worker finishes when it has had its turns, whatever the others do.\<close>

lemma turn_progress:
  assumes "i < length ws" "take_turn R t (ws, st) = (ws', st')"
  shows "turns_left (ws' ! i) \<le> turns_left (ws ! i) - (if t = Turn i then 1 else 0)"
proof (cases t)
  case (Turn j)
  obtain wk st1 where s: "exec_step R (ws ! j, st) = (wk, st1)" by fastforce
  show ?thesis
  proof (cases "j = i")
    case True
    with assms Turn s have "ws' ! i = wk" by auto
    with exec_step_progress [OF s] Turn True show ?thesis by simp
  next
    case False
    with assms Turn s have "ws' ! i = ws ! i" by (auto split: if_splits)
    with False Turn show ?thesis by simp
  qed
qed (use assms in auto)

lemma turns_finish:
  assumes "i < length ws" "turns_left (ws ! i) \<le> length (filter (\<lambda>t. t = Turn i) turns)"
    and "run_turns R turns (ws, st) = (ws', st')"
  shows "\<exists>e. wkPhase (ws' ! i) = Finished e"
  using assms
proof (induction turns arbitrary: ws st)
  case Nil
  then show ?case using turns_left_0 by auto
next
  case (Cons t turns)
  obtain ws1 st1 where t: "take_turn R t (ws, st) = (ws1, st1)" by fastforce
  with take_turn_length [of R t "(ws, st)"] Cons.prems(1) have i: "i < length ws1" by simp
  have "turns_left (ws1 ! i) \<le> length (filter (\<lambda>t. t = Turn i) turns)"
    using turn_progress [OF Cons.prems(1) t] Cons.prems(2) by (auto split: if_splits simp del: turns_left.simps)
  with Cons.IH [OF i] Cons.prems(3) t show ?case by simp
qed

section \<open>Rely and guarantee\<close>

text \<open>
  The ports a service claims are a set of slots, \<open>N\<close> are the names of rules of others that it may have to put back
  there.  \<open>guarantees service N T S S'\<close>: only rules on these slots go, and what comes is a rule on one of them that has the
  name of the service or a name in \<open>N\<close>.  \<open>relies service T S S'\<close>: rules on these slots stay and none comes, and
  no rule comes that has the name of the service.
\<close>

definition may_write :: "Service \<Rightarrow> string set \<Rightarrow> string \<Rightarrow> bool" where
  "may_write service N name \<longleftrightarrow> RuleBelongsToService name (svcNamespace service) (svcName service) \<or> name \<in> N"

definition guarantees :: "Service \<Rightarrow> string set \<Rightarrow> (int \<times> string) set \<Rightarrow> PortForward set \<Rightarrow> PortForward set \<Rightarrow> bool" where
  "guarantees service N T S S' \<longleftrightarrow>
     (\<forall>rule \<in> S - S'. slot rule \<in> Some ` T) \<and> (\<forall>rule \<in> S' - S. slot rule \<in> Some ` T \<and> may_write service N (pfName rule))"

definition relies :: "Service \<Rightarrow> (int \<times> string) set \<Rightarrow> PortForward set \<Rightarrow> PortForward set \<Rightarrow> bool" where
  "relies service T S S' \<longleftrightarrow>
     (\<forall>rule \<in> S - S'. slot rule \<notin> Some ` T) \<and> (\<forall>rule \<in> S' - S. slot rule \<notin> Some ` T \<and> \<not> belongs service rule)"

lemma guarantees_refl [simp, intro]: "guarantees service N T S S"
  by (simp add: guarantees_def)

lemma guarantees_trans: "guarantees service N T S S1 \<Longrightarrow> guarantees service N T S1 S' \<Longrightarrow> guarantees service N T S S'"
  unfolding guarantees_def by blast

lemma guarantees_relies:
  assumes "guarantees a N A S S'" "A \<inter> B = {}" "\<And>rule. may_write a N (pfName rule) \<Longrightarrow> \<not> belongs b rule"
  shows "relies b B S S'"
proof -
  have "s \<in> Some ` A \<Longrightarrow> s \<notin> Some ` B" for s using assms(2) by blast
  with assms(1,3) show ?thesis by (simp add: guarantees_def relies_def)
qed

text \<open>The rules on the claimed slots.\<close>

definition on_slots :: "(int \<times> string) set \<Rightarrow> PortForward set \<Rightarrow> PortForward set" where
  "on_slots T S = {rule \<in> S. slot rule \<in> Some ` T}"

lemma on_slots_relies: "relies service T S S' \<Longrightarrow> on_slots T S' = on_slots T S"
  unfolding relies_def on_slots_def by blast

lemma on_slots_exclusive: "exclusive S \<Longrightarrow> exclusive (on_slots T S)"
  unfolding exclusive_def on_slots_def by blast

text \<open>An operation that stays within the claims of a service, together with its rollback.\<close>

definition op_within :: "Service \<Rightarrow> string set \<Rightarrow> (int \<times> string) set \<Rightarrow> PortOperation \<Rightarrow> bool" where
  "op_within service N T op \<longleftrightarrow>
     op_slot op \<in> T \<and> in_int64 (DstPort (opConfig op)) \<and> may_write service N (Name (opConfig op)) \<and>
     (opType op = OpUpdate \<longrightarrow>
        (case opExistingRule op of
           None \<Rightarrow> True
         | Some er \<Rightarrow> may_write service N (pfName er) \<and> cslot (rule_config strToInt er) = op_slot op))"

lemma op_withinD:
  assumes "op_within service N T op"
  shows ow_slot: "op_slot op \<in> T" and ow_int64: "in_int64 (DstPort (opConfig op))"
    and ow_name: "may_write service N (Name (opConfig op))"
    and ow_update: "opType op = OpUpdate \<Longrightarrow> opExistingRule op = Some er \<Longrightarrow>
      may_write service N (pfName er) \<and> cslot (rule_config strToInt er) = op_slot op"
  using assms by (auto simp: op_within_def)

lemma realises_within:
  assumes "realises c rule" "cslot c \<in> T" "in_int64 (DstPort c)" "may_write service N (Name c)"
  shows "slot rule \<in> Some ` T \<and> may_write service N (pfName rule)"
  using assms slot_realises by (auto simp: realises_def)

text \<open>Within the claims, the effect of an operation on the whole table is its effect on the claimed slots.\<close>

lemma op_post_guarantees:
  assumes op: "op_post op S S'" "op_within service N T op"
  shows "guarantees service N T S S'"
proof -
  note w = op_withinD(1-3) [OF op(2)]
  show ?thesis
  proof (cases "opType op")
    case OpCreate
    with op(1) realises_within [OF _ w] show ?thesis by (auto simp: op_post_def guarantees_def)
  next
    case OpUpdate
    with op(1) obtain old new where "slot old = Some (op_slot op)" "realises (opConfig op) new" "S' = insert new (S - {old})"
      by (auto simp: op_post_def)
    with realises_within [OF _ w] w(1) show ?thesis by (auto simp: guarantees_def)
  next
    case OpDelete
    with op(1) w(1) show ?thesis by (auto simp: op_post_def guarantees_def)
  qed
qed

lemma op_post_on_slots:
  assumes op: "op_post op S S'" "op_slot op \<in> T" "in_int64 (DstPort (opConfig op))"
  shows "op_post op (on_slots T S) (on_slots T S')"
proof (cases "opType op")
  case OpCreate
  with op slot_realises [OF _ op(3)] show ?thesis by (auto simp: op_post_def on_slots_def)
next
  case OpUpdate
  with op(1) obtain old new where o: "old \<in> S" "slot old = Some (op_slot op)" "realises (opConfig op) new"
    "ID new = ID old" "Src new = Src old" "S' = insert new (S - {old})" by (auto simp: op_post_def)
  with slot_realises [OF o(3) op(3)] op(2)
  have "old \<in> on_slots T S" "on_slots T S' = insert new (on_slots T S - {old})" by (auto simp: on_slots_def)
  with OpUpdate o show ?thesis by (auto simp: op_post_def)
next
  case OpDelete
  with op show ?thesis by (auto simp: op_post_def on_slots_def)
qed

lemma ops_post_snoc:
  "ops_post ops S T \<Longrightarrow> op_post op T S' \<Longrightarrow> exclusive S' \<Longrightarrow> ops_post (ops @ [op]) S S'"
  by (induction rule: ops_post.induct) (auto intro: ops_post.intros)

section \<open>Calls within the claims\<close>

definition stays_within :: "Service \<Rightarrow> string set \<Rightarrow> (int \<times> string) set \<Rightarrow> PortForward list \<Rightarrow> PortForward list \<Rightarrow> bool" where
  "stays_within service N T rs rs' \<longleftrightarrow> table_ok rs' \<and> guarantees service N T (set rs) (set rs')"

lemma stays_within_mset: "mset rs' = mset rs \<Longrightarrow> table_ok rs \<Longrightarrow> stays_within service N T rs rs'"
  using table_ok_mset [of rs' rs] mset_eq_setD [of rs' rs] by (simp add: stays_within_def)

lemma stays_within_trans: "stays_within service N T rs rs1 \<Longrightarrow> stays_within service N T rs1 rs' \<Longrightarrow> stays_within service N T rs rs'"
  using guarantees_trans by (auto simp: stays_within_def)

context router_lossy
begin

lemma add_within:
  assumes tab: "table_ok (rules w)" and run: "r_AddPort R c w = (res, w')"
    and c: "cslot c \<in> T" "in_int64 (DstPort c)" "may_write service N (Name c)"
  shows "stays_within service N T (rules w) (rules w')"
  using tab run
proof (cases rule: add_cases)
  case kept
  from stays_within_mset [OF this tab] show ?thesis .
next
  case (took r)
  with realises_within [OF took(2) c] show ?thesis by (auto simp: stays_within_def guarantees_def)
qed

lemma remove_within:
  assumes tab: "table_ok (rules w)" and run: "r_RemovePort R c w = (res, w')" and c: "cslot c \<in> T"
  shows "stays_within service N T (rules w) (rules w')"
  using tab run
proof (cases rule: remove_cases)
  case kept
  from stays_within_mset [OF this tab] show ?thesis .
next
  case took
  with c show ?thesis by (auto simp: stays_within_def guarantees_def)
qed

lemma update_within:
  assumes tab: "table_ok (rules w)" and run: "r_UpdatePort R (DstPort c) c w = (res, w')"
    and c: "cslot c \<in> T" "in_int64 (DstPort c)" "may_write service N (Name c)"
  shows "stays_within service N T (rules w) (rules w')"
  using tab run
proof (cases rule: update_cases)
  case kept
  from stays_within_mset [OF this tab] show ?thesis .
next
  case (took old new)
  with realises_within [OF took(4) c] c(1) show ?thesis by (auto simp: stays_within_def guarantees_def cslot_def)
qed

lemma run_op_within:
  assumes tab: "table_ok (rules w)" and run: "run_op R op w = (res, w')" and op: "op_within service N T op"
  shows "stays_within service N T (rules w) (rules w')"
proof (cases "opType op")
  case OpCreate
  with run have "r_AddPort R (opConfig op) w = (res, w')" by (simp add: run_op_def)
  from add_within [OF tab this op_withinD(1-3) [OF op]] show ?thesis .
next
  case OpUpdate
  with run have "r_UpdatePort R (DstPort (opConfig op)) (opConfig op) w = (res, w')" by (simp add: run_op_def)
  from update_within [OF tab this op_withinD(1-3) [OF op]] show ?thesis .
next
  case OpDelete
  with run have "r_RemovePort R (opConfig op) w = (res, w')" by (simp add: run_op_def)
  from remove_within [OF tab this ow_slot [OF op]] show ?thesis .
qed

lemma rollback_op_within:
  assumes tab: "table_ok (rules w)" and run: "rollback_op R op w = (res, w')" and op: "op_within service N T op"
  shows "stays_within service N T (rules w) (rules w')"
proof (cases "opType op")
  case OpCreate
  with run have "r_RemovePort R (opConfig op) w = (res, w')" by (simp add: rollback_op_def)
  from remove_within [OF tab this ow_slot [OF op]] show ?thesis .
next
  case OpDelete
  with run have "r_AddPort R (opConfig op) w = (res, w')" by (simp add: rollback_op_def)
  from add_within [OF tab this op_withinD(1-3) [OF op]] show ?thesis .
next
  case OpUpdate
  show ?thesis
  proof (cases "opExistingRule op")
    case None
    with run OpUpdate tab show ?thesis by (simp add: rollback_op_def stays_within_mset)
  next
    case (Some er)
    let ?c = "rule_config strToInt er"
    have er: "cslot ?c = op_slot op" "DstPort ?c = DstPort (opConfig op)"
      "may_write service N (Name ?c)"
      using ow_update [OF op OpUpdate Some] by (simp_all add: cslot_def rule_config_def)
    obtain res w1 where u: "r_UpdatePort R (DstPort ?c) ?c w = (res, w1)" by fastforce
    have 1: "stays_within service N T (rules w) (rules w1)"
      by (rule update_within [OF tab u]) (use op_withinD(1-3) [OF op] er in simp_all)
    let ?d = "(opConfig op)\<lparr>Interface := ''wan'', SrcIP := ''any''\<rparr>"
    have d: "cslot ?d \<in> T" "in_int64 (DstPort ?d)" "may_write service N (Name ?d)"
      using op_withinD(1-3) [OF op] by (simp_all add: cslot_def)
    obtain res2 w2 where v: "r_AddPort R ?d w1 = (res2, w2)" by fastforce
    have "table_ok (rules w1)" using 1 by (simp add: stays_within_def)
    from stays_within_trans [OF 1 add_within [OF this v d]] have 2: "stays_within service N T (rules w) (rules w2)" .
    have "w' = w1 \<or> w' = w2" using run OpUpdate Some u v er by (auto simp: rollback_op_def split: sum.splits if_splits)
    with 1 2 show ?thesis by blast
  qed
qed

end

section \<open>The invariant of a worker\<close>

text \<open>
  On the claimed slots, the table is the one the worker started from, changed by its completed operations and
  by nothing else; \<open>confined\<close>: the rules of the service are on these slots.
\<close>

definition worker_ok :: "Service \<Rightarrow> string set \<Rightarrow> (int \<times> string) set \<Rightarrow> PortOperation list \<Rightarrow> PortForward set \<Rightarrow> worker \<Rightarrow> PortForward set \<Rightarrow> bool" where
  "worker_ok service N T operations S0 wk S \<longleftrightarrow>
     (\<forall>op \<in> set operations. op_within service N T op) \<and>
     (case wkPhase wk of
        Running \<Rightarrow> wkCompleted wk @ wkOps wk = operations \<and> ops_post (wkCompleted wk) (on_slots T S0) (on_slots T S)
      | RollingBack ops err \<Rightarrow> set ops \<subseteq> set operations
      | Finished e \<Rightarrow> e = None \<longrightarrow> ops_post operations (on_slots T S0) (on_slots T S))"

definition confined :: "Service \<Rightarrow> (int \<times> string) set \<Rightarrow> PortForward set \<Rightarrow> bool" where
  "confined service T S \<longleftrightarrow> (\<forall>rule \<in> S. belongs service rule \<longrightarrow> slot rule \<in> Some ` T)"

lemma worker_ok_relies: "relies service T S S' \<Longrightarrow> worker_ok service N T operations S0 wk S' = worker_ok service N T operations S0 wk S"
  by (simp add: worker_ok_def on_slots_relies split: phase.split)

lemma confined_relies: "confined service T S \<Longrightarrow> relies service T S S' \<Longrightarrow> confined service T S'"
  unfolding confined_def relies_def by blast

lemma confined_guarantees: "confined service T S \<Longrightarrow> guarantees service N T S S' \<Longrightarrow> confined service T S'"
  unfolding confined_def guarantees_def by blast

lemma worker_ok_start:
  "\<forall>op \<in> set operations. op_within service N T op \<Longrightarrow> worker_ok service N T operations S (start_worker operations) S"
  by (simp add: worker_ok_def start_worker_def ops_done)

context router_lossy
begin

lemma exec_step_ok:
  assumes tab: "table_ok (rules (world st))" and ok: "worker_ok service N T operations S0 wk (set (rules (world st)))"
    and step: "exec_step R (wk, st) = (wk', st')"
  shows "worker_ok service N T operations S0 wk' (set (rules (world st'))) \<and> stays_within service N T (rules (world st)) (rules (world st'))"
proof (cases "wkPhase wk")
  case Running
  note inv = ok [unfolded worker_ok_def Running, simplified]
  show ?thesis
  proof (cases "wkOps wk")
    case Nil
    with step Running inv stays_within_mset [OF refl tab] show ?thesis by (auto simp: exec_step_def worker_ok_def)
  next
    case (Cons op ops)
    have op: "op_within service N T op" using inv Cons by auto
    show ?thesis
    proof (cases "run_op R op (world st)" rule: io_cases)
      case (Err e w1)
      with step Running Cons inv run_op_within [OF tab Err op] show ?thesis
        by (auto simp: exec_step_def worker_ok_def)
    next
      case (Ok u w1)
      from run_op_ok [OF Ok tab] have post: "op_post op (set (rules (world st))) (set (rules w1))" and tab1: "table_ok (rules w1)"
        by auto
      have "ops_post (wkCompleted wk @ [op]) (on_slots T S0) (on_slots T (set (rules w1)))"
        using inv op_post_on_slots [OF post ow_slot [OF op] ow_int64 [OF op]] on_slots_exclusive [OF table_ok_exclusive [OF tab1]]
        by (blast intro: ops_post_snoc)
      with step Running Cons Ok inv run_op_within [OF tab Ok op] show ?thesis
        by (auto simp: exec_step_def worker_ok_def)
    qed
  qed
next
  case (RollingBack ops err)
  note inv = ok [unfolded worker_ok_def RollingBack, simplified]
  show ?thesis
  proof (cases ops)
    case Nil
    with step RollingBack inv stays_within_mset [OF refl tab] show ?thesis by (auto simp: exec_step_def worker_ok_def)
  next
    case (Cons op ops')
    obtain res w1 where r: "rollback_op R op (world st) = (res, w1)" by fastforce
    have "op_within service N T op" using inv Cons by auto
    from rollback_op_within [OF tab r this] step RollingBack Cons inv r show ?thesis
      by (auto simp: exec_step_def worker_ok_def)
  qed
next
  case (Finished e)
  with step ok stays_within_mset [OF refl tab] show ?thesis by simp
qed

end

section \<open>Jobs\<close>

text \<open>
  A job is the execution of the operations that were computed for a service from its rules on the gateway and its
  desired configurations.  It claims the slots of both.
\<close>

record job =
  jobService :: Service
  jobCurrent :: "PortForward list"
  jobDesired :: "PortConfig list"
  jobOps :: "PortOperation list"

definition claims :: "job \<Rightarrow> (int \<times> string) list" where
  "claims job = List.map_filter slot (jobCurrent job) @ map cslot (jobDesired job)"

text \<open>The rules that the operations of a job rewrite, and the names that a rollback may have to put back.\<close>

definition rewritten :: "job \<Rightarrow> PortForward set" where
  "rewritten job = {er. \<exists>op \<in> set (jobOps job). opType op = OpUpdate \<and> opExistingRule op = Some er}"

abbreviation taken :: "job \<Rightarrow> string set" where
  "taken job \<equiv> pfName ` rewritten job"

definition different :: "Service \<Rightarrow> Service \<Rightarrow> bool" where
  "different a b \<longleftrightarrow> (svcNamespace a, svcName a) \<noteq> (svcNamespace b, svcName b)"

lemma belongs_different:
  assumes "service_ok a" "service_ok b" "different a b" "belongs a rule"
  shows "\<not> belongs b rule"
proof
  assume "belongs b rule"
  then obtain p where p: "pfName rule = svcNamespace b @ ''/'' @ svcName b @ '':'' @ p"
    unfolding belongs_def belongs_iff by blast
  obtain q where q: "pfName rule = svcNamespace a @ ''/'' @ svcName a @ '':'' @ q"
    using assms(4) unfolding belongs_def belongs_iff by blast
  have "svcNamespace a = svcNamespace b \<and> svcName a = svcName b \<and> q = p"
    by (rule key_inj) (use assms(1,2) p q in \<open>simp_all add: service_ok_def\<close>)
  with assms(3) show False by (simp add: different_def)
qed

text \<open>Jobs of different services, without a common slot.\<close>

definition apart :: "job \<Rightarrow> job \<Rightarrow> bool" where
  "apart a b \<longleftrightarrow> different (jobService a) (jobService b) \<and> set (claims a) \<inter> set (claims b) = {}"

text \<open>Moreover neither rewrites a rule of the other.\<close>

definition separate :: "job \<Rightarrow> job \<Rightarrow> bool" where
  "separate a b \<longleftrightarrow> apart a b \<and> (\<forall>er \<in> rewritten a. \<not> belongs (jobService b) er) \<and> (\<forall>er \<in> rewritten b. \<not> belongs (jobService a) er)"

lemma separate_sym: "separate a b \<Longrightarrow> separate b a"
  unfolding separate_def apart_def different_def by (simp add: Int_commute) (metis)

lemma separate_nth: "sorted_wrt separate jobs \<Longrightarrow> i < length jobs \<Longrightarrow> j < length jobs \<Longrightarrow> i \<noteq> j \<Longrightarrow> separate (jobs ! i) (jobs ! j)"
  using sorted_wrt_nth_less [of separate jobs] separate_sym by (metis nat_neq_iff)

lemma separate_relies:
  assumes g: "guarantees (jobService a) (taken a) (set (claims a)) S S'" and sep: "separate a b"
    and svc: "service_ok (jobService a)" "service_ok (jobService b)"
  shows "relies (jobService b) (set (claims b)) S S'"
proof (rule guarantees_relies [OF g])
  show "set (claims a) \<inter> set (claims b) = {}" using sep by (simp add: separate_def apart_def)
  fix rule :: PortForward assume "may_write (jobService a) (taken a) (pfName rule)"
  then consider "belongs (jobService a) rule" | er where "er \<in> rewritten a" "pfName rule = pfName er"
    by (auto simp: may_write_def belongs_def)
  then show "\<not> belongs (jobService b) rule"
  proof cases
    case 1
    with belongs_different [OF svc _ 1] sep show ?thesis by (simp add: separate_def apart_def)
  next
    case 2
    with sep show ?thesis by (auto simp: separate_def belongs_def)
  qed
qed

text \<open>What happens elsewhere leaves the slots and the names of the jobs alone.\<close>

definition spares_jobs :: "('w \<Rightarrow> PortForward list) \<Rightarrow> job list \<Rightarrow> ('w, 'e) cstate_scheme turn \<Rightarrow> bool" where
  "spares_jobs rules jobs t \<longleftrightarrow>
     (case t of
        Turn i \<Rightarrow> True
      | Elsewhere f \<Rightarrow> \<forall>st. table_ok (rules (world st)) \<longrightarrow> table_ok (rules (world (f st))) \<and>
          (\<forall>job \<in> set jobs. relies (jobService job) (set (claims job)) (set (rules (world st))) (set (rules (world (f st))))))"

definition job_ok :: "PortForward set \<Rightarrow> PortForward set \<Rightarrow> job \<Rightarrow> worker \<Rightarrow> bool" where
  "job_ok S0 S job wk \<longleftrightarrow>
     worker_ok (jobService job) (taken job) (set (claims job)) (jobOps job) S0 wk S \<and> confined (jobService job) (set (claims job)) S"

abbreviation job_relies :: "job \<Rightarrow> PortForward set \<Rightarrow> PortForward set \<Rightarrow> bool" where
  "job_relies job \<equiv> relies (jobService job) (set (claims job))"

lemma job_ok_relies: "job_ok S0 S job wk \<Longrightarrow> job_relies job S S' \<Longrightarrow> job_ok S0 S' job wk"
  unfolding job_ok_def using worker_ok_relies confined_relies by blast

context router_lossy
begin

lemma take_turn_ok:
  assumes tab: "table_ok (rules (world st))" and ok: "list_all2 (job_ok S0 (set (rules (world st)))) jobs ws"
    and sep: "sorted_wrt separate jobs" "\<forall>job \<in> set jobs. service_ok (jobService job)"
    and spares: "spares_jobs rules jobs t" and turn: "take_turn R t (ws, st) = (ws', st')"
  shows "table_ok (rules (world st')) \<and> list_all2 (job_ok S0 (set (rules (world st')))) jobs ws'"
proof -
  let ?S = "set (rules (world st))" and ?S' = "set (rules (world st'))"
  from ok have len: "length jobs = length ws" and at: "\<And>i. i < length ws \<Longrightarrow> job_ok S0 ?S (jobs ! i) (ws ! i)"
    by (simp_all add: list_all2_conv_all_nth)
  show ?thesis
  proof (cases t)
    case (Elsewhere f)
    with turn spares tab have f: "ws' = ws" "table_ok (rules (world st'))" "\<forall>job \<in> set jobs. job_relies job ?S ?S'"
      by (auto simp: spares_jobs_def)
    have "job_ok S0 ?S' (jobs ! i) (ws ! i)" if "i < length ws" for i
      by (rule job_ok_relies [OF at]) (use that f(3) len in simp_all)
    with f len show ?thesis by (simp add: list_all2_conv_all_nth)
  next
    case (Turn j)
    show ?thesis
    proof (cases "j < length ws")
      case False
      with Turn turn tab ok show ?thesis by simp
    next
      case True
      from True turn Turn obtain wk where s: "exec_step R (ws ! j, st) = (wk, st')" and ws': "ws' = ws[j := wk]"
        by (auto split: prod.splits)
      from exec_step_ok [OF tab _ s] at [OF True] confined_guarantees
      have own: "job_ok S0 ?S' (jobs ! j) wk" "table_ok (rules (world st'))"
        and g: "guarantees (jobService (jobs ! j)) (taken (jobs ! j)) (set (claims (jobs ! j))) ?S ?S'"
        unfolding job_ok_def stays_within_def by blast+
      have "job_ok S0 ?S' (jobs ! i) (ws' ! i)" if i: "i < length ws" for i
      proof (cases "i = j")
        case False
        have "separate (jobs ! j) (jobs ! i)" using separate_nth [OF sep(1)] False i True len by simp
        moreover have "service_ok (jobService (jobs ! j))" "service_ok (jobService (jobs ! i))" using sep(2) i True len by simp_all
        ultimately have "job_relies (jobs ! i) ?S ?S'" by (rule separate_relies [OF g])
        with job_ok_relies [OF at [OF i]] False ws' show ?thesis by simp
      qed (use own ws' i in simp)
      with own(2) len ws' show ?thesis by (simp add: list_all2_conv_all_nth)
    qed
  qed
qed

lemma run_turns_ok:
  assumes "table_ok (rules (world st))" "list_all2 (job_ok S0 (set (rules (world st)))) jobs ws"
    and "sorted_wrt separate jobs" "\<forall>job \<in> set jobs. service_ok (jobService job)"
    and "\<forall>t \<in> set turns. spares_jobs rules jobs t" "run_turns R turns (ws, st) = (ws', st')"
  shows "table_ok (rules (world st')) \<and> list_all2 (job_ok S0 (set (rules (world st')))) jobs ws'"
  using assms
proof (induction turns arbitrary: ws st)
  case (Cons t turns)
  obtain ws1 st1 where t: "take_turn R t (ws, st) = (ws1, st1)" by fastforce
  from take_turn_ok [OF Cons.prems(1-4) _ t] Cons.prems(5)
  have "table_ok (rules (world st1))" "list_all2 (job_ok S0 (set (rules (world st1)))) jobs ws1" by auto
  with Cons.IH [OF this] Cons.prems t show ?case by simp
qed simp

end

end
