(* ===== verification/ConcurrentJobs.thy ===== *)
theory ConcurrentJobs
  imports Interleaving DriftCorrect
begin

text \<open>
  The jobs of the program: the differences of reconciled services and the corrections of the periodic reconciler,
  executed at the same time.  They settle their services when these are different and claim different ports; a
  concrete schedule shows what happens when both work on the same service.
\<close>

section \<open>Where jobs come from\<close>

text \<open>
  Two callers of \<open>executeOperations\<close>: \<open>processAllChanges\<close> with the difference for a service, and the periodic
  reconciler with the corrections of a drift, whether or not rules have to be rewritten for it.  \<open>rs\<close> is the listing
  that both of them start from.
\<close>

inductive prepared :: "PortForward list \<Rightarrow> job \<Rightarrow> bool" for rs where
  difference: "service_ok service \<Longrightarrow> GetPortConfigs service (GetLBIP service) FilterAnnotation used = (Inr ds, used') \<Longrightarrow>
     iter_order itc \<Longrightarrow> iter_order itd \<Longrightarrow>
     cur = filter (\<lambda>rule. split_key_matches (pfName rule) (serviceKey service)) rs \<Longrightarrow> \<forall>rule \<in> set cur. plain_rule rule \<Longrightarrow>
     prepared rs \<lparr>jobService = service, jobCurrent = cur, jobDesired = ds, jobOps = calculateDelta itc itd cur ds ctx service\<rparr>"
| correction: "service_ok service \<Longrightarrow> analyzeServiceDrift itd itc service rs used = (Inr a, used') \<Longrightarrow>
     iter_order itd \<Longrightarrow> iter_order itc \<Longrightarrow> cur = filter (belongs service) rs \<Longrightarrow>
     \<forall>rule \<in> set cur. 0 < ParseIntField (pfDstPort rule) \<Longrightarrow>
     prepared rs \<lparr>jobService = service, jobCurrent = cur, jobDesired = DesiredRules a, jobOps = drift_operations a\<rparr>"

text \<open>What the proofs use of a job.\<close>

definition sound_job :: "PortForward set \<Rightarrow> job \<Rightarrow> bool" where
  "sound_job S job \<longleftrightarrow>
     service_ok (jobService job) \<and> desired_ok (jobService job) (jobDesired job) \<and>
     set (jobCurrent job) = {rule \<in> S. belongs (jobService job) rule} \<and>
     (\<forall>rule \<in> set (jobCurrent job). slot rule \<noteq> None) \<and>
     (\<forall>er \<in> rewritten job. er \<in> S \<and> slot er \<in> Some ` set (claims job)) \<and>
     (\<forall>op \<in> set (jobOps job). op_within (jobService job) (taken job) (set (claims job)) op) \<and>
     ((\<exists>key good dels adds. jobOps job = dels @ adds \<and> plan_ok key good (jobCurrent job) (jobDesired job) dels adds \<and>
        (\<forall>d \<in> set (jobDesired job). \<forall>rule. good d rule \<longrightarrow> in_order d rule)) \<or>
      (\<forall>S'. \<not> ops_post (jobOps job) (on_slots (set (claims job)) S) S'))"

text \<open>Either the operations are a plan for the service, or they cannot all succeed, and the job never returns without error.\<close>

lemma sound_jobI:
  assumes "service_ok (jobService job)" "desired_ok (jobService job) (jobDesired job)"
    and "set (jobCurrent job) = {rule \<in> S. belongs (jobService job) rule}" "\<forall>rule \<in> set (jobCurrent job). slot rule \<noteq> None"
    and "\<And>er. er \<in> rewritten job \<Longrightarrow> er \<in> S \<and> slot er \<in> Some ` set (claims job)"
    and "\<And>op. op \<in> set (jobOps job) \<Longrightarrow> op_within (jobService job) (taken job) (set (claims job)) op"
    and "(\<exists>key good dels adds. jobOps job = dels @ adds \<and> plan_ok key good (jobCurrent job) (jobDesired job) dels adds \<and>
        (\<forall>d \<in> set (jobDesired job). \<forall>rule. good d rule \<longrightarrow> in_order d rule)) \<or>
      (\<forall>S'. \<not> ops_post (jobOps job) (on_slots (set (claims job)) S) S')"
  shows "sound_job S job"
  unfolding sound_job_def using assms by blast

lemma set_claims: "set (claims job) = {s. \<exists>rule \<in> set (jobCurrent job). slot rule = Some s} \<union> cslot ` set (jobDesired job)"
  unfolding claims_def set_append set_map by (auto simp: map_filter_Some_set)

lemma difference_within:
  assumes ds: "desired_ok service ds" and cur: "\<forall>rule \<in> set cur. plain_rule rule \<and> belongs service rule"
    and op: "op \<in> delta_del cur ds \<union> delta_add ctx cur ds"
    and T: "\<And>rule s. rule \<in> set cur \<Longrightarrow> slot rule = Some s \<Longrightarrow> s \<in> T" "cslot ` set ds \<subseteq> T"
  shows "op_within service N T op"
proof -
  have wf: "in_int64 (DstPort (opConfig op))" using delta_wf [OF op _ ds] cur by blast
  show ?thesis
  proof (cases "op \<in> delta_del cur ds")
    case True
    then obtain rule where r: "rule \<in> set cur" "op = delete_op rule" by (auto simp: delta_del_iff)
    with delete_op_slot [of rule] cur have "slot rule = Some (op_slot op)" by simp
    from T(1) [OF r(1) this] wf r cur show ?thesis by (auto simp: op_within_def may_write_def delete_op_def rule_config_def belongs_def)
  next
    case False
    with op have "op \<in> delta_add ctx cur ds" by simp
    then show ?thesis
    proof (cases rule: delta_add_cases)
      case create
      with wf T(2) ds show ?thesis by (auto simp: op_within_def may_write_def desired_ok_def)
    next
      case (update rule)
      have c: "plain_config (opConfig op)" using update(1) ds by (auto simp: desired_ok_def)
      have "slot rule = Some (op_slot op)" using ruleKey_slot [OF update(4) c] .
      moreover have "slot rule = Some (cslot (rule_config strToInt rule))"
        using delete_op_slot [of rule] cur update(3) by (simp add: delete_op_def)
      ultimately show ?thesis using wf T(2) ds cur update by (auto simp: op_within_def may_write_def belongs_def desired_ok_def)
    qed
  qed
qed

lemma slot_rule_config: "slot rule = Some t \<Longrightarrow> cslot (rule_config strToInt rule) = t"
  by (auto simp: slot_def cslot_def rule_config_def strToInt_def)

lemma correction_within:
  assumes f: "drift_facts service rs ds U a" and rs: "table_ok rs"
    and ds: "desired_ok service ds" "\<forall>d \<in> set ds. plain_config d \<and> 0 < DstPort d \<and> in_int64 (DstPort d)"
    and cur: "cur = filter (belongs service) rs" "\<forall>rule \<in> set cur. 0 < ParseIntField (pfDstPort rule)"
    and op: "op \<in> set (drift_operations a)"
    and T: "\<And>rule s. rule \<in> set cur \<Longrightarrow> slot rule = Some s \<Longrightarrow> s \<in> T" "cslot ` set ds \<subseteq> T"
    and N: "\<And>m. m \<in> set (WrongRules a) \<Longrightarrow> pfName (rmCurrent m) \<in> N"
  shows "op_within service N T op"
proof -
  have wf: "in_int64 (DstPort (opConfig op))" using drift_wf [OF f _ op] ds(2) by blast
  from op consider rule where "rule \<in> set (ExtraRules a)" "op = extra_delete rule"
    | d where "d \<in> set (MissingRules a)" "op = missing_create d" | m where "m \<in> set (WrongRules a)" "op = wrong_update m"
    unfolding drift_operations_eq [OF f] by auto
  then show ?thesis
  proof cases
    case 1
    with extra_in_U [OF f 1(1)] have r: "rule \<in> set cur" "belongs service rule" by (auto simp: df_U [OF f] unprocessed_def cur(1))
    with cur(2) have "0 < fst (op_slot (extra_delete rule))" by (simp add: extra_delete_def rule_config_def cslot_def)
    with T(1) [OF r(1)] extra_delete_positive 1 have "op_slot op \<in> T" by blast
    with wf r 1 show ?thesis by (simp add: op_within_def may_write_def extra_delete_def rule_config_def belongs_def)
  next
    case 2
    with df_missing [OF f] have "d \<in> set ds" by blast
    with 2 wf T(2) ds(1) show ?thesis by (auto simp: op_within_def may_write_def missing_create_def desired_ok_def)
  next
    case 3
    with wrong_is_missing [OF f rs 3(1)] ds(2) df_missing [OF f]
    have d: "rmDesired m \<in> set ds" "slot (rmCurrent m) = Some (cslot (rmDesired m))" by blast+
    with 3 wf T(2) ds(1) N slot_rule_config show ?thesis
      by (auto simp: op_within_def may_write_def wrong_update_def desired_ok_def)
  qed
qed

lemma wrong_never_done:
  assumes s: "drift_setting R rules st service rs ds U a" and wrong: "WrongRules a \<noteq> []" and T: "cslot ` set ds \<subseteq> T"
  shows "\<not> ops_post (drift_operations a) (on_slots T (set rs)) S'"
proof
  note f = ds_facts [OF s] and rs = ds_rs [OF s] and cfg = ds_cfg [OF s]
  assume post: "ops_post (drift_operations a) (on_slots T (set rs)) S'"
  obtain m where m: "m \<in> set (WrongRules a)" using wrong by (cases "WrongRules a") auto
  from wrong_is_missing [OF f rs m] cfg
  have mm: "rmDesired m \<in> set (MissingRules a)" "rmCurrent m \<in> set rs" "slot (rmCurrent m) = Some (cslot (rmDesired m))"
    by auto
  from mm(1) have d: "rmDesired m \<in> set ds" by (simp add: df_missing [OF f])
  with cfg have pos: "0 < fst (cslot (rmDesired m))" by (auto simp: cslot_def)
  have "rmCurrent m \<in> on_slots T (set rs)" using mm(2,3) d T by (auto simp: on_slots_def)
  with ops_post_occupied [OF post, of "cslot (rmDesired m)"] no_delete_on_wrong [OF f rs m mm(2,3) pos] drift_wf [OF f] cfg mm(3)
  have "\<forall>op \<in> set (drift_operations a). \<not> (op_slot op = cslot (rmDesired m) \<and> opType op = OpCreate)" by blast
  moreover have "missing_create (rmDesired m) \<in> set (drift_operations a)"
    using mm(1) by (simp add: drift_operations_eq [OF f])
  ultimately show False by (auto simp: missing_create_def)
qed

lemma prepared_sound:
  assumes job: "prepared rs job" and R: "router_contract R rules" and tab: "table_ok (rules (world st))"
    and rs: "mset rs = mset (rules (world st))"
  shows "sound_job (set (rules (world st))) job"
  using job
proof cases
  case (difference service used ds used' itc itd cur ctx)
  note svc = difference(2) and g = difference(3)
  have S: "set rs = set (rules (world st))" using rs by (rule mset_eq_setD)
  note ds = GetPortConfigs_desired_ok [OF g svc]
  have cur: "set cur = {rule \<in> set rs. belongs service rule}" using difference(6) same_filter [OF svc] by auto
  have "current_ok service cur"
    using cur difference(7) table_ok_exclusive [OF tab] S by (auto simp: current_ok_def exclusive_def)
  then obtain dels adds where d: "calculateDelta itc itd cur ds ctx service = dels @ adds"
    "set dels = delta_del cur ds" "set adds = delta_add ctx cur ds"
    by (rule calculateDelta_split [OF difference(4,5) _ ds])
  have plan: "plan_ok ruleKey rule_matches cur ds dels adds" by (rule delta_plan_ok [OF difference(7) ds d(2,3)])
  have rew: "er \<in> set cur \<and> slot er \<noteq> None" if er: "er \<in> rewritten job" for er
  proof -
    from er obtain op where op: "op \<in> delta_del cur ds \<union> delta_add ctx cur ds" "opType op = OpUpdate" "opExistingRule op = Some er"
      using difference(1) d by (auto simp: rewritten_def)
    then have "op \<in> delta_add ctx cur ds" by (auto simp: delta_del_iff delete_op_def)
    then have "er \<in> set cur" by (cases rule: delta_add_cases) (use op in auto)
    with difference(7) show ?thesis by (auto simp: plain_rule_def slot_def)
  qed
  show ?thesis
  proof (rule sound_jobI)
    show "(\<exists>key good dels adds. jobOps job = dels @ adds \<and> plan_ok key good (jobCurrent job) (jobDesired job) dels adds \<and>
        (\<forall>d \<in> set (jobDesired job). \<forall>rule. good d rule \<longrightarrow> in_order d rule)) \<or>
      (\<forall>S'. \<not> ops_post (jobOps job) (on_slots (set (claims job)) (set (rules (world st)))) S')"
    proof (intro disjI1 exI conjI)
      show "jobOps job = dels @ adds" "plan_ok ruleKey rule_matches (jobCurrent job) (jobDesired job) dels adds"
        using difference(1) d plan by simp_all
      show "\<forall>d \<in> set (jobDesired job). \<forall>rule. rule_matches d rule \<longrightarrow> in_order d rule"
        using desired_config_ok [OF g svc] matches_serves difference(1) by (simp add: in_order_def rule_matches_def)
    qed
    show "set (jobCurrent job) = {rule \<in> set (rules (world st)). belongs (jobService job) rule}"
      using difference(1) cur S by simp
    show "op_within (jobService job) (taken job) (set (claims job)) op" if "op \<in> set (jobOps job)" for op
      unfolding difference(1) job.simps
      by (rule difference_within [OF ds]) (use that d cur difference(1,7) in \<open>auto simp: set_claims\<close>)
    show "er \<in> set (rules (world st)) \<and> slot er \<in> Some ` set (claims job)" if "er \<in> rewritten job" for er
      using rew [OF that] cur S difference(1) by (auto simp: set_claims)
    show "\<forall>rule \<in> set (jobCurrent job). slot rule \<noteq> None"
      using difference(1,7) by (auto simp: plain_rule_def slot_def)
  qed (use difference(1) svc ds in simp_all)
next
  case (correction service itd itc used a used' cur)
  note svc = correction(2)
  from drift_settingI [OF R tab correction(4,5) svc correction(3) rs] obtain ds U where
    s: "drift_setting R rules st service rs ds U a" by blast
  note f = ds_facts [OF s] and ds = ds_ok [OF s] and cfg = ds_cfg [OF s]
  have pos: "\<forall>rule \<in> set rs. belongs service rule \<longrightarrow> 0 < ParseIntField (pfDstPort rule)" using correction(6,7) by auto
  have rew: "rewritten job = rmCurrent ` set (WrongRules a)"
    unfolding correction(1) rewritten_def job.simps drift_operations_eq [OF f]
    by (force simp: wrong_update_def extra_delete_def missing_create_def)
  have T: "cslot ` set ds \<subseteq> set (claims job)" using correction(1) df_desired [OF f] by (auto simp: set_claims)
  show ?thesis
  proof (rule sound_jobI)
    show "(\<exists>key good dels adds. jobOps job = dels @ adds \<and> plan_ok key good (jobCurrent job) (jobDesired job) dels adds \<and>
        (\<forall>d \<in> set (jobDesired job). \<forall>rule. good d rule \<longrightarrow> in_order d rule)) \<or>
      (\<forall>S'. \<not> ops_post (jobOps job) (on_slots (set (claims job)) (set (rules (world st)))) S')"
    proof (cases "WrongRules a = []")
      case True
      have "jobOps job = map extra_delete (ExtraRules a) @ map missing_create (MissingRules a)"
        using correction(1) by (simp add: drift_operations_eq [OF f] True)
      moreover have "plan_ok exactKey in_order (jobCurrent job) (jobDesired job) (map extra_delete (ExtraRules a)) (map missing_create (MissingRules a))"
        using correction(1,6) drift_plan_ok [OF s True pos] df_desired [OF f] by simp
      ultimately show ?thesis by blast
    next
      case False
      with wrong_never_done [OF s False T] correction(1) ds_set [OF s] show ?thesis by simp
    qed
    show "set (jobCurrent job) = {rule \<in> set (rules (world st)). belongs (jobService job) rule}"
      using correction(1,6) ds_set [OF s] by auto
    show "op_within (jobService job) (taken job) (set (claims job)) op" if "op \<in> set (jobOps job)" for op
    proof -
      have N: "pfName (rmCurrent m) \<in> taken job" if "m \<in> set (WrongRules a)" for m using rew that by simp
      have "op_within service (taken job) (set (claims job)) op"
        by (rule correction_within [OF f ds_rs [OF s] ds cfg correction(6,7) _ _ T N])
          (use that correction(1) in \<open>auto simp: set_claims\<close>)
      with correction(1) show ?thesis by simp
    qed
    show "er \<in> set (rules (world st)) \<and> slot er \<in> Some ` set (claims job)" if er: "er \<in> rewritten job" for er
    proof -
      obtain m where m: "m \<in> set (WrongRules a)" "er = rmCurrent m" using er rew by auto
      with wrong_is_missing [OF f ds_rs [OF s] m(1)] cfg df_missing [OF f] ds_set [OF s]
      have "er \<in> set (rules (world st))" "slot er = Some (cslot (rmDesired m))" "rmDesired m \<in> set ds" by blast+
      with T show ?thesis by auto
    qed
    show "\<forall>rule \<in> set (jobCurrent job). slot rule \<noteq> None"
      using correction(1,7) parse_slot [OF refl] by fastforce
  qed (use correction(1) svc ds df_desired [OF f] in simp_all)
qed

text \<open>Sound jobs of different services without a common slot do not rewrite each other's rules.\<close>

lemma sound_not_rewriting:
  assumes "sound_job S a" "sound_job S b" "apart a b" "er \<in> rewritten a"
  shows "\<not> belongs (jobService b) er"
proof
  assume "belongs (jobService b) er"
  moreover have er: "er \<in> S" "slot er \<in> Some ` set (claims a)" using assms(1,4) by (auto simp: sound_job_def)
  ultimately have "er \<in> set (jobCurrent b)" using assms(2) by (auto simp: sound_job_def)
  with er(2) assms(3) show False by (auto simp: set_claims apart_def)
qed

lemma apart_sym: "apart a b \<Longrightarrow> apart b a"
  unfolding apart_def different_def by (simp add: Int_commute) (metis)

lemma sound_separate: "sound_job S a \<Longrightarrow> sound_job S b \<Longrightarrow> apart a b \<Longrightarrow> separate a b"
  unfolding separate_def using sound_not_rewriting apart_sym by blast

section \<open>The property\<close>

lemma sound_job_confined: "sound_job S job \<Longrightarrow> confined (jobService job) (set (claims job)) S"
proof -
  assume "sound_job S job"
  then have "slot rule \<noteq> None \<and> rule \<in> set (jobCurrent job)" if "rule \<in> S" "belongs (jobService job) rule" for rule
    using that by (simp add: sound_job_def)
  then show ?thesis unfolding confined_def set_claims by blast
qed

lemma sound_job_start:
  "sound_job S job \<Longrightarrow> job_ok S S job (start_worker (jobOps job))"
  using sound_job_confined worker_ok_start by (auto simp: job_ok_def sound_job_def)

lemma finished_job_settled:
  assumes job: "sound_job S0 job" and S: "exclusive S0" and ok: "job_ok S0 S job wk" and fin: "wkPhase wk = Finished None"
  shows "settled (jobService job) (jobDesired job) S"
proof -
  let ?T = "set (claims job)" and ?svc = "jobService job" and ?ds = "jobDesired job"
  have done_ops: "ops_post (jobOps job) (on_slots ?T S0) (on_slots ?T S)"
    using ok fin by (simp add: job_ok_def worker_ok_def)
  with job obtain key good dels adds where ops: "jobOps job = dels @ adds"
    and plan: "plan_ok key good (jobCurrent job) ?ds dels adds"
    and good: "\<forall>d \<in> set ?ds. \<forall>rule. good d rule \<longrightarrow> in_order d rule"
    unfolding sound_job_def by blast
  have cur: "set (jobCurrent job) = {rule \<in> on_slots ?T S0. belongs ?svc rule}"
    using sound_job_confined [OF job] job by (auto simp: sound_job_def on_slots_def confined_def)
  have "ops_post (dels @ adds) (on_slots ?T S0) (on_slots ?T S)"
    using done_ops ops by simp
  with plan cur job on_slots_exclusive [OF S]
  have "plan_run key good ?svc ?ds (jobCurrent job) dels adds (on_slots ?T S0) (on_slots ?T S)"
    by (simp add: plan_run_def sound_job_def)
  from plan_run_converges [OF this] have conv: "\<forall>d \<in> set ?ds. \<exists>rule \<in> on_slots ?T S. good d rule"
    "\<forall>rule \<in> on_slots ?T S. belongs ?svc rule \<longrightarrow> (\<exists>d \<in> set ?ds. good d rule)"
    by (simp_all add: converged_def)
  have "\<exists>rule \<in> S. belongs ?svc rule \<and> serves d rule" if "d \<in> set ?ds" for d
    using that conv(1) good job by (fastforce simp: in_order_def sound_job_def desired_ok_def belongs_def on_slots_def)
  moreover have "\<exists>d \<in> set ?ds. serves d rule" if rule: "rule \<in> S" "belongs ?svc rule" for rule
  proof -
    have "rule \<in> on_slots ?T S" using rule ok by (simp add: job_ok_def confined_def on_slots_def)
    with conv(2) rule(2) good show ?thesis unfolding in_order_def by blast
  qed
  ultimately show ?thesis by (simp add: settled_def)
qed

text \<open>
  C5: jobs that run at the same time do not disturb each other.  Any number of executions, of the differences of
  reconciled services and of the corrections of the periodic reconciler, take turns in any order.  The conditions:
  the operations of all of them were computed from one listing, which was the table when the first turn began; they
  are for different services, and no two services claim a common slot (a slot is a port with a protocol; a service
  claims those of its rules and of its desired configurations); the table has no two rules on one slot and the
  rules of a service have numeric ports; a router call that fails either has no effect or its whole effect
  (\<open>router_lossy\<close>); and anything else that happens between the turns leaves the rules on these slots alone and brings neither an overlap nor a rule
  with the name of one of the services.  Then every execution that gets its turns returns, whatever the router
  answers; and if it returns no error, its service is settled at the end, no matter whether the others are done, half
  way, or rolling back.  Corrections that rewrite a rule are included: they always end in an error, so for their
  own services nothing is promised, but they do not disturb the others.
\<close>

theorem interleaved_jobs_settle:
  assumes R: "router_lossy R rules" and tab: "table_ok (rules (world st))" and rs: "mset rs = mset (rules (world st))"
    and jobs: "\<forall>job \<in> set jobs. prepared rs job" "sorted_wrt apart jobs"
    and elsewhere: "\<forall>t \<in> set turns. spares_jobs rules jobs t"
    and run: "run_turns R turns (map (\<lambda>job. start_worker (jobOps job)) jobs, st) = (ws, st')"
    and i: "i < length jobs" "2 * length (jobOps (jobs ! i)) + 2 \<le> length (filter (\<lambda>t. t = Turn i) turns)"
  shows "\<exists>e. wkPhase (ws ! i) = Finished e \<and>
    (e = None \<longrightarrow> settled (jobService (jobs ! i)) (jobDesired (jobs ! i)) (set (rules (world st'))))"
proof -
  let ?S = "set (rules (world st))" and ?ws = "map (\<lambda>job. start_worker (jobOps job)) jobs"
  have "router_contract R rules" using R by (simp add: router_lossy_def)
  then have sound: "\<forall>job \<in> set jobs. sound_job ?S job" using prepared_sound tab rs jobs(1) by blast
  have sep: "sorted_wrt separate jobs"
    by (rule sorted_wrt_mono_rel [OF _ jobs(2)]) (use sound sound_separate in blast)
  have "\<exists>e. wkPhase (ws ! i) = Finished e"
    by (rule turns_finish [OF _ _ run]) (use i in \<open>simp_all add: start_worker_def\<close>)
  moreover have "settled (jobService (jobs ! i)) (jobDesired (jobs ! i)) (set (rules (world st')))"
    if fin: "wkPhase (ws ! i) = Finished None"
  proof -
    have "list_all2 (job_ok ?S ?S) jobs ?ws" using sound sound_job_start by (simp add: list_all2_conv_all_nth)
    from router_lossy.run_turns_ok [OF R tab this sep _ elsewhere run] sound
    have "list_all2 (job_ok ?S (set (rules (world st')))) jobs ws" by (simp add: sound_job_def)
    with i(1) have "job_ok ?S (set (rules (world st'))) (jobs ! i) (ws ! i)" by (simp add: list_all2_conv_all_nth)
    with finished_job_settled [OF _ table_ok_exclusive [OF tab] this fin] sound i(1) show ?thesis by simp
  qed
  ultimately show ?thesis by blast
qed

section \<open>Calls of others\<close>

text \<open>The router calls of the PortForwardRule controller, for a rule on another slot and with another name.\<close>

lemma calls_spare_jobs:
  assumes R: "router_lossy R rules" and c: "in_int64 (DstPort c)"
    and jobs: "\<forall>job \<in> set jobs. cslot c \<notin> set (claims job) \<and>
      \<not> RuleBelongsToService (Name c) (svcNamespace (jobService job)) (svcName (jobService job))"
    and call: "call = r_AddPort R c \<or> call = r_UpdatePort R (DstPort c) c \<or> call = r_RemovePort R c"
  shows "spares_jobs rules jobs (Elsewhere (\<lambda>st. st\<lparr>world := snd (call (world st))\<rparr>))"
proof -
  have "table_ok (rules w') \<and> (\<forall>job \<in> set jobs. job_relies job (set (rules w)) (set (rules w')))"
    if tab: "table_ok (rules w)" and run: "call w = (res, w')" for w res w'
  proof -
    have new: "slot r = Some (cslot c) \<and> pfName r = Name c" if "realises c r" for r :: PortForward
      using that slot_realises [OF that c] by (simp add: realises_def)
    have "mset (rules w') = mset (rules w) \<or> table_ok (rules w') \<and>
        (\<forall>r \<in> set (rules w) - set (rules w'). slot r = Some (cslot c)) \<and>
        (\<forall>r \<in> set (rules w') - set (rules w). slot r = Some (cslot c) \<and> pfName r = Name c)"
      using call
    proof (elim disjE)
      assume "call = r_AddPort R c"
      with run have "r_AddPort R c w = (res, w')" by simp
      with R tab show ?thesis by (rule router_lossy.add_cases) (use new in auto)
    next
      assume "call = r_UpdatePort R (DstPort c) c"
      with run have "r_UpdatePort R (DstPort c) c w = (res, w')" by simp
      with R tab show ?thesis by (rule router_lossy.update_cases) (use new in \<open>auto simp: cslot_def\<close>)
    next
      assume "call = r_RemovePort R c"
      with run have "r_RemovePort R c w = (res, w')" by simp
      with R tab show ?thesis by (rule router_lossy.remove_cases) auto
    qed
    then show ?thesis
    proof
      assume m: "mset (rules w') = mset (rules w)"
      with tab table_ok_mset [OF m] mset_eq_setD [OF m] show ?thesis by (simp add: relies_def)
    next
      assume "table_ok (rules w') \<and>
        (\<forall>r \<in> set (rules w) - set (rules w'). slot r = Some (cslot c)) \<and>
        (\<forall>r \<in> set (rules w') - set (rules w). slot r = Some (cslot c) \<and> pfName r = Name c)"
      with jobs show ?thesis by (auto simp: relies_def belongs_def)
    qed
  qed
  then show ?thesis by (simp add: spares_jobs_def) (metis prod.collapse)
qed

section \<open>A concrete schedule\<close>

text \<open>
  One namespace, two services: the reconciler removes an old rule of the first and creates its new one, the
  periodic reconciler creates the missing rule of the second, and a PortForwardRule is created in between.
\<close>

definition mail_service :: Service where
  "mail_service = live_service\<lparr>svcName := ''mail'', svcAnnotations := Some [(FilterAnnotation, ''9443:tls'')]\<rparr>"

definition mail_ds :: "PortConfig list" where
  "mail_ds = [example_config ''web/mail:tls'' 9443 443]"

lemma mail_sel:
  "svcNamespace mail_service = ''web''" "svcName mail_service = ''mail''" "GetLBIP mail_service = ''10.0.0.5''"
  "svcDeletionTimestamp mail_service = None" "ContainsFinalizer mail_service" "hasPortForwardAnnotation mail_service"
  "shouldProcessService mail_service ''10.0.0.5''" "serviceKey mail_service = ''web/mail''"
  by (simp_all add: mail_service_def live_service_def example_service_def GetLBIP_def ContainsFinalizer_def hasPortForwardAnnotation_def
      shouldProcessService_def serviceKey_def)

lemma mail_ok: "service_ok mail_service"
  by (simp add: mail_service_def service_ok_def live_service_def example_service_def example_port_def dns_name_def dns_char_def valid_port_def)

lemma mail_configs:
  "gm_get used 9443 = None \<or> gm_get used 9443 = Some ''web/mail'' \<Longrightarrow>
   GetPortConfigs mail_service ''10.0.0.5'' FilterAnnotation used = (Inr mail_ds, gm_set 9443 ''web/mail'' used)"
  by (auto simp: mail_service_def live_service_def service_eval go_eval FilterAnnotation_def example_config_def mail_ds_def char_of_lower)

definition mail_analysis :: DriftAnalysis where
  "mail_analysis =
     \<lparr>daServiceName = ''web/mail'', daService = mail_service, DesiredRules = mail_ds, CurrentRules = [],
      MissingRules = mail_ds, WrongRules = [], ExtraRules = [], HasDrift = True\<rparr>"

lemma mail_analysis_run:
  "analyzeServiceDrift (\<lambda>ks. ks) rev mail_service example_rules [] = (Inr mail_analysis, [(9443, ''web/mail'')])"
  by (simp add: drift_eval mail_sel mail_configs mail_analysis_def example_rules_def mail_ds_def)

definition shop_job :: job where
  "shop_job = \<lparr>jobService = live_service, jobCurrent = ex_cur, jobDesired = ex_ds,
     jobOps = calculateDelta (\<lambda>ks. ks) rev ex_cur ex_ds live_context live_service\<rparr>"

definition mail_job :: job where
  "mail_job = \<lparr>jobService = mail_service, jobCurrent = [], jobDesired = mail_ds, jobOps = drift_operations mail_analysis\<rparr>"

lemma shop_prepared: "prepared example_rules shop_job"
proof -
  have "GetPortConfigs live_service (GetLBIP live_service) FilterAnnotation [] = (Inr ex_ds, gm_set 8080 ''web/shop'' [])"
    by (simp only: live_sel) (simp add: live_configs)
  moreover have "ex_cur = filter (\<lambda>rule. split_key_matches (pfName rule) (serviceKey live_service)) example_rules"
    using live_filter by (simp add: live_sel)
  moreover have "\<forall>rule \<in> set ex_cur. plain_rule rule" by (simp add: ex_cur_def plain_rule_def example_rule_def go_eval)
  ultimately show ?thesis unfolding shop_job_def by (intro prepared.difference live_ok iter_order_id iter_order_rev)
qed

lemma mail_prepared: "prepared example_rules mail_job"
proof -
  have "mail_job = \<lparr>jobService = mail_service, jobCurrent = filter (belongs mail_service) example_rules,
      jobDesired = DesiredRules mail_analysis, jobOps = drift_operations mail_analysis\<rparr>"
    by (simp add: mail_job_def mail_analysis_def example_rules_def example_rule_def belongs_def RuleBelongsToService_def
        HasPrefix_def mail_sel)
  moreover have "\<forall>rule \<in> set (filter (belongs mail_service) example_rules). 0 < ParseIntField (pfDstPort rule)"
    using example_positive by simp
  ultimately show ?thesis
    using prepared.correction [OF mail_ok mail_analysis_run iter_order_id iter_order_rev refl] by (simp add: mail_analysis_def)
qed

definition dns_config :: PortConfig where
  "dns_config = (example_config ''web/resolver'' 5353 53)\<lparr>Protocol := ''udp''\<rparr>"

definition example_turns :: "(cluster rstate) turn list" where
  "example_turns =
     [Turn 0, Turn 1, Elsewhere (\<lambda>st. st\<lparr>world := snd (r_AddPort (unifi_router (ref_router ''default'')) dns_config (world st))\<rparr>),
      Turn 0, Turn 1, Turn 0, Turn 1, Turn 0, Turn 1, Turn 0, Turn 0]"

lemma example_turns_run:
  "\<exists>w0 w1 st'. run_turns (unifi_router (ref_router ''default'')) example_turns
       (map (\<lambda>job. start_worker (jobOps job)) [shop_job, mail_job], live_state []) = ([w0, w1], st') \<and>
     wkPhase w0 = Finished None \<and> wkPhase w1 = Finished None"
  unfolding shop_job_def mail_job_def job.simps list.map live_delta
  by (simp add: example_turns_def start_worker_def exec_step_def drift_operations_def mail_analysis_def missing_create_def
      delete_op_def rule_config_def strToInt_def exec_eval router_eval example_rstate_def example_cluster_def
      example_rules_def mail_ds_def dns_config_def go_eval)

lemma example_apart: "sorted_wrt apart [shop_job, mail_job]"
  by (simp add: apart_def shop_job_def mail_job_def claims_def different_def live_sel mail_sel List.map_filter_simps
      ex_cur_def ex_ds_def mail_ds_def example_rule_def example_config_def slot_def cslot_def go_eval)

lemma example_spares: "\<forall>t \<in> set example_turns. spares_jobs gw_rules [shop_job, mail_job] t"
proof -
  let ?R = "unifi_router (ref_router ''default'') :: cluster Router"
  have R: "router_lossy ?R gw_rules"
    by (rule router_atomic_lossy [OF unifi_client_atomic.implements_atomic_router [OF ref_unifi_client_atomic]])
  have "spares_jobs gw_rules [shop_job, mail_job] (Elsewhere (\<lambda>st :: cluster rstate. st\<lparr>world := snd (r_AddPort ?R dns_config (world st))\<rparr>))"
    by (rule calls_spare_jobs [OF R]) (auto simp: dns_config_def example_config_def in_int64_def shop_job_def mail_job_def claims_def
        List.map_filter_simps ex_cur_def ex_ds_def mail_ds_def example_rule_def slot_def cslot_def go_eval live_sel mail_sel
        RuleBelongsToService_def HasPrefix_def)
  then show ?thesis by (simp add: example_turns_def spares_jobs_def)
qed

theorem interleaved_jobs_settle_witness:
  "\<exists>w0 w1 st'. run_turns (unifi_router (ref_router ''default'')) example_turns
       (map (\<lambda>job. start_worker (jobOps job)) [shop_job, mail_job], live_state []) = ([w0, w1], st') \<and>
     settled live_service ex_ds (set (gw_rules (world st'))) \<and> settled mail_service mail_ds (set (gw_rules (world st')))"
proof -
  let ?R = "unifi_router (ref_router ''default'') :: cluster Router"
  have R: "router_lossy ?R gw_rules"
    by (rule router_atomic_lossy [OF unifi_client_atomic.implements_atomic_router [OF ref_unifi_client_atomic]])
  obtain w0 w1 st' where
    run: "run_turns ?R example_turns (map (\<lambda>job. start_worker (jobOps job)) [shop_job, mail_job], live_state []) = ([w0, w1], st')"
    and fin: "wkPhase w0 = Finished None" "wkPhase w1 = Finished None"
    using example_turns_run by blast
  have st: "table_ok (gw_rules (world (live_state [])))" "mset example_rules = mset (gw_rules (world (live_state [])))"
    by (simp_all add: example_rstate_def example_cluster_def example_rules_ok)
  have jobs: "\<forall>job \<in> set [shop_job, mail_job]. prepared example_rules job" using shop_prepared mail_prepared by simp
  have turns: "2 * length (jobOps shop_job) + 2 \<le> length (filter (\<lambda>t. t = Turn 0) example_turns)"
    "2 * length (jobOps mail_job) + 2 \<le> length (filter (\<lambda>t. t = Turn 1) example_turns)"
    by (simp_all add: shop_job_def mail_job_def live_delta drift_operations_def mail_analysis_def mail_ds_def example_turns_def)
  note settle = interleaved_jobs_settle [OF R st jobs example_apart example_spares run]
  have "settled live_service ex_ds (set (gw_rules (world st')))" using settle [of 0] turns(1) fin by (simp add: shop_job_def)
  moreover have "settled mail_service mail_ds (set (gw_rules (world st')))" using settle [of 1] turns(2) fin by (simp add: mail_job_def)
  ultimately show ?thesis using run by blast
qed

section \<open>A race\<close>

text \<open>
  Different services are needed.  Nothing keeps the service reconciler and the periodic reconciler from working on
  the same service at the same time.  Here both remove its old rule and create the new one, in turns: the second
  creation is refused, and the rollback of the periodic reconciler brings the old rule back.  The reconcile has
  reported success, and the gateway forwards a port that the service no longer asks for.
\<close>

definition shop_correction :: job where
  "shop_correction = \<lparr>jobService = live_service, jobCurrent = ex_cur, jobDesired = ex_ds, jobOps = drift_operations live_analysis\<rparr>"

lemma shop_correction_prepared: "prepared example_rules shop_correction"
proof -
  have "shop_correction = \<lparr>jobService = live_service, jobCurrent = filter (belongs live_service) example_rules,
      jobDesired = DesiredRules live_analysis, jobOps = drift_operations live_analysis\<rparr>"
    by (simp add: shop_correction_def live_analysis_def example_rules_def example_rule_def belongs_def RuleBelongsToService_def
        HasPrefix_def live_sel ex_cur_def)
  moreover have "\<forall>rule \<in> set (filter (belongs live_service) example_rules). 0 < ParseIntField (pfDstPort rule)"
    using example_positive by simp
  ultimately show ?thesis
    using prepared.correction [OF live_ok live_analysis_run iter_order_id iter_order_rev refl] by (simp add: live_analysis_def)
qed

lemma same_service_race:
  "\<exists>w0 w1 st' err. run_turns (unifi_router (ref_router ''default''))
       [Turn 0, Turn 1, Turn 0, Turn 0, Turn 1, Turn 1, Turn 1]
       (map (\<lambda>job. start_worker (jobOps job)) [shop_job, shop_correction], live_state []) = ([w0, w1], st') \<and>
     wkPhase w0 = Finished None \<and> wkPhase w1 = Finished (Some err) \<and>
     \<not> settled live_service ex_ds (set (gw_rules (world st')))"
  unfolding shop_job_def shop_correction_def job.simps list.map live_delta
  by (simp add: start_worker_def exec_step_def drift_operations_def live_analysis_def missing_create_def extra_delete_def ParseIntField_def
      delete_op_def rule_config_def strToInt_def exec_eval router_eval example_rstate_def example_cluster_def
      example_rules_def ex_ds_def ex_cur_def go_eval settled_def belongs_def RuleBelongsToService_def HasPrefix_def live_sel serves_def)

section \<open>A takeover half way\<close>

text \<open>
  The periodic reconciler takes over a rule of another owner on a desired port: it counts as drift with the mismatch
  ''ownership''.  But the update of that rule is scheduled together with the creation of a new rule on the same port.  So
  every cycle redirects the rule to the service, fails to create the second one, and turns the first one back: in
  between, its traffic goes to the other service.  When the rollback fails, it stays there.
\<close>

definition foreign_rule :: PortForward where
  "foreign_rule = (example_rule ''b'' ''other/svc:x'' 8080 80)\<lparr>Fwd := ''10.0.0.9''\<rparr>"

definition taken_rule :: PortForward where
  "taken_rule = example_rule ''b'' ''web/shop:http'' 8080 80"

definition takeover_analysis :: DriftAnalysis where
  "takeover_analysis =
     \<lparr>daServiceName = ''web/shop'', daService = live_service, DesiredRules = ex_ds, CurrentRules = [], MissingRules = ex_ds,
      WrongRules = [\<lparr>rmCurrent = foreign_rule, rmDesired = example_config ''web/shop:http'' 8080 80, rmMismatchType = ''ownership''\<rparr>],
      ExtraRules = [], HasDrift = True\<rparr>"

lemma takeover_analysis_run:
  "analyzeServiceDrift (\<lambda>ks. ks) rev live_service [foreign_rule] [] = (Inr takeover_analysis, [(8080, ''web/shop'')])"
  by (simp add: drift_eval foreign_rule_def takeover_analysis_def)

text \<open>Such a correction is one of the jobs above: it rewrites the rule of the other owner, which lies on a slot it claims.\<close>

lemma takeover_prepared:
  "prepared [foreign_rule] \<lparr>jobService = live_service, jobCurrent = [], jobDesired = ex_ds, jobOps = drift_operations takeover_analysis\<rparr>"
proof -
  have none: "[] = filter (belongs live_service) [foreign_rule]"
    by (simp add: foreign_rule_def example_rule_def belongs_def RuleBelongsToService_def HasPrefix_def live_sel)
  show ?thesis
    using prepared.correction [OF live_ok takeover_analysis_run iter_order_id iter_order_rev none] by (simp add: takeover_analysis_def)
qed

definition takeover_run :: "gateway cstate turn list \<Rightarrow> bool list \<Rightarrow> worker list \<times> gateway cstate" where
  "takeover_run turns faults = run_turns (unifi_router (ref_router ''default'')) turns
     ([start_worker (drift_operations takeover_analysis)], example_state [foreign_rule] faults)"

lemmas takeover_eval = takeover_run_def takeover_analysis_def foreign_rule_def taken_rule_def drift_operations_def
  isSafeUpdate_def wrong_update_def missing_create_def start_worker_def exec_step_def exec_eval
  rule_config_def strToInt_def router_eval ex_ds_def go_eval

lemma foreign_rule_redirected:
  "gw_rules (world (snd (takeover_run [Turn 0] []))) = [taken_rule]"
  "gw_rules (world (snd (takeover_run [Turn 0, Turn 0, Turn 0, Turn 0] []))) = [foreign_rule]"
  by (simp_all add: takeover_eval)

lemma foreign_rule_lost:
  "gw_rules (world (snd (takeover_run [Turn 0, Turn 0, Turn 0, Turn 0] [False, False, False, True]))) = [taken_rule]"
  by (simp add: takeover_eval)

end
