(* ===== verification/EventFilter.thy ===== *)
theory EventFilter
  imports ReconcileEnv
begin

text \<open>
  The event filter and the reconciler together.  An update event that the filter of pkg/controller/predicates.go
  drops is one after which \<open>Reconcile\<close> would do exactly what it does for the old version of the service: everything
  that it reads of the service is unchanged.  The exceptions are shown as well: a service that loses its last
  annotation is not noticed, and neither is its deletion after that.
\<close>

section \<open>What a reconcile reads of a service\<close>

definition same_view :: "Service \<Rightarrow> Service \<Rightarrow> bool" where
  "same_view a b \<longleftrightarrow>
     svcNamespace a = svcNamespace b \<and> svcName a = svcName b \<and> svcPorts a = svcPorts b \<and> GetLBIP a = GetLBIP b \<and>
     get_annotation a FilterAnnotation = get_annotation b FilterAnnotation"

lemma same_viewD:
  assumes "same_view a b"
  shows "svcNamespace a = svcNamespace b" "svcName a = svcName b" "svcPorts a = svcPorts b" "GetLBIP a = GetLBIP b"
    "get_annotation a FilterAnnotation = get_annotation b FilterAnnotation" "serviceKey a = serviceKey b"
  using assms by (simp_all add: same_view_def serviceKey_def)

lemma config_ports_view: "same_view a b \<Longrightarrow> config_ports a ip ms ports cs used = config_ports b ip ms ports cs used"
  by (induction ports arbitrary: cs used)
    (auto simp: same_viewD [of a b] port_config_def rule_name_def Let_def split: option.split sum.split)

lemma GetPortConfigs_view:
  assumes "same_view a b"
  shows "GetPortConfigs a ip FilterAnnotation used = GetPortConfigs b ip FilterAnnotation used"
  unfolding GetPortConfigs_def validatePortMappings_def available_ports_def same_viewD [OF assms] config_ports_view [OF assms] ..

lemma calculateDesiredState_view:
  assumes "same_view a b"
  shows "calculateDesiredState a st = calculateDesiredState b st"
  unfolding calculateDesiredState_def same_viewD [OF assms] GetPortConfigs_view [OF assms] ..

lemma belongs_view:
  assumes "same_view a b"
  shows "belongs a = belongs b"
  unfolding fun_eq_iff belongs_def same_viewD [OF assms] by simp

lemma calculateDelta_view:
  assumes "same_view a b"
  shows "calculateDelta itc itd cur ds ctx a = calculateDelta itc itd cur ds ctx b"
  unfolding calculateDelta_def detectPortConflicts_def same_viewD [OF assms] belongs_view [OF assms] ..

lemma detectChanges_view:
  assumes "same_view a b"
  shows "detectChanges a key rs st = detectChanges b key rs st"
  unfolding detectChanges_def same_viewD [OF assms] calculateDesiredState_view [OF assms] ..

lemma GetPortNameByNumber_view:
  assumes "same_view a b"
  shows "GetPortNameByNumber a p = GetPortNameByNumber b p"
  unfolding GetPortNameByNumber_def same_viewD [OF assms] ..

lemma createEvent_view:
  assumes "same_view a b"
  shows "createEvent rec a t m d es = createEvent rec b t m d es" "event_data a reason msg = event_data b reason msg"
  unfolding createEvent_def event_data_def same_viewD [OF assms] by (rule refl)+

lemma events_view:
  assumes "same_view a b"
  shows "created_event a c rec es = created_event b c rec es" "updated_event a c rec es = updated_event b c rec es"
    "failed_event a e rec es = failed_event b e rec es" "deleted_event a reason c rec es = deleted_event b reason c rec es"
    "PublishPortForwardTakenOwnershipEvent rec a o' n' p q es = PublishPortForwardTakenOwnershipEvent rec b o' n' p q es"
  unfolding created_event_def updated_event_def failed_event_def deleted_event_def
    PublishPortForwardCreatedEvent_def PublishPortForwardUpdatedEvent_def PublishPortForwardFailedEvent_def
    PublishPortForwardDeletedEvent_def PublishPortForwardTakenOwnershipEvent_def GetPortNameByNumber_view [OF assms]
    createEvent_view [OF assms] same_viewD [OF assms] by (rule refl)+

lemma event_functions_view:
  assumes "same_view a b"
  shows "created_event a = created_event b" "updated_event a = updated_event b" "failed_event a = failed_event b"
    "deleted_event a = deleted_event b"
    "(\<lambda>rec. PublishPortForwardTakenOwnershipEvent rec a) = (\<lambda>rec. PublishPortForwardTakenOwnershipEvent rec b)"
  by (intro ext events_view [OF assms])+

lemma processAllChanges_view:
  assumes "same_view a b"
  shows "processAllChanges itc itd r a ctx cur st = processAllChanges itc itd r b ctx cur st"
  unfolding processAllChanges_def success_events_def calculateDesiredState_view [OF assms] calculateDelta_view [OF assms]
    event_functions_view [OF assms] ..

lemma ownership_events_view:
  assumes "same_view a b"
  shows "ownership_events r a ops st = ownership_events r b ops st"
  unfolding ownership_events_def events_view(5) [OF assms] ..

lemma reconcile_rules_view:
  assumes "same_view a b"
  shows "reconcile_rules itc itd r key a st = reconcile_rules itc itd r key b st"
  unfolding reconcile_rules_def detectChanges_view [OF assms] processAllChanges_view [OF assms] ownership_events_view [OF assms] ..

section \<open>Filtered updates\<close>

text \<open>The reconciler whose API server has a given version of the service.\<close>

definition serving :: "'w Reconciler \<Rightarrow> Service \<Rightarrow> 'w Reconciler" where
  "serving r service = r\<lparr>rcClient := (rcClient r)\<lparr>k_Get := (\<lambda>ns n w. (Inr service, w))\<rparr>\<rparr>"

lemma serving_simps:
  "publish (serving r service) = publish r" "rcRouter (serving r service) = rcRouter r" "rcNow (serving r service) = rcNow r"
  "rcCleanupWindow (serving r service) = rcCleanupWindow r"
  by (simp_all add: serving_def publish_def fun_eq_iff)

lemma serving_reconcile_rules: "reconcile_rules itc itd (serving r service) key svc st = reconcile_rules itc itd r key svc st"
  unfolding reconcile_rules_def processAllChanges_def ownership_events_def success_events_def serving_simps ..

lemma serving_recent: "isRecentlyCleaned (serving r service) key st = isRecentlyCleaned r key st"
  unfolding isRecentlyCleaned_def time_now_def serving_simps ..

text \<open>For a managed service that is not under deletion, \<open>Reconcile\<close> is the reconciliation of its rules.\<close>

lemma Reconcile_serving:
  assumes "IsZeroTime (svcDeletionTimestamp service)" "hasPortForwardAnnotation service" "ContainsFinalizer service"
  shows "Reconcile ovf itc itd (serving r service) ns n st =
    (case isRecentlyCleaned r (ns @ ''/'' @ n) st of (recent, st1) \<Rightarrow>
       if recent \<or> GetLBIP service = '''' then ((emptyResultR, None), st1)
       else reconcile_rules itc itd r (ns @ ''/'' @ n) service st1)"
proof -
  have "shouldProcessService service (GetLBIP service) \<longleftrightarrow> GetLBIP service \<noteq> ''''"
    using assms(2) by (auto simp: shouldProcessService_def hasPortForwardAnnotation_def split: option.splits)
  moreover have "on_world (k_Get (rcClient (serving r service)) ns n) s = (Inr service, s)" for s :: "'a rstate"
    by (simp add: on_world_def serving_def)
  ultimately show ?thesis
    using assms(1,3) by (auto simp: Reconcile_def serving_recent serving_reconcile_rules Let_def split: prod.split)
qed

lemma annotation_text: "hasPortForwardAnnotation service \<Longrightarrow> svcAnnotations service \<noteq> None"
  by (auto simp: hasPortForwardAnnotation_def split: option.splits)

lemma no_annotation_text: "\<not> hasPortForwardAnnotation service \<Longrightarrow> get_annotation service FilterAnnotation = ''''"
  by (auto simp: hasPortForwardAnnotation_def get_annotation_def split: option.splits)

text \<open>
  C39: an update event that is filtered out is not missed.  Let one of two versions of a service carry the mapping
  annotation, neither carry it with an empty text, and neither or both have an annotation map; let the old
  version not be under deletion, and both have the finalizer.  If the filter drops the update from the old to the new
  version, then deletion has not been requested, and a \<open>Reconcile\<close> that reads the new version does, in every state
  and with every router, exactly what it does when it reads the old one: the same router calls, events, port
  tracking and result.
\<close>

theorem filtered_update_is_irrelevant:
  assumes filtered: "\<not> predicate_Update it (Some old) (Some new)"
    and name: "svcNamespace new = svcNamespace old" "svcName new = svcName old"
    and annotated: "hasPortForwardAnnotation old \<or> hasPortForwardAnnotation new"
    and maps: "svcAnnotations old = None \<longleftrightarrow> svcAnnotations new = None"
    and mapping: "\<forall>service \<in> {old, new}. hasPortForwardAnnotation service \<longrightarrow> get_annotation service FilterAnnotation \<noteq> ''''"
    and alive: "IsZeroTime (svcDeletionTimestamp old)" and fin: "ContainsFinalizer old" "ContainsFinalizer new"
  shows "IsZeroTime (svcDeletionTimestamp new) \<and>
    Reconcile ovf itc itd (serving r new) ns n st = Reconcile ovf itc itd (serving r old) ns n st"
proof -
  have rel: "\<not> HasRelevantChanges (analyzeChanges it old new)"
    using filtered annotated by (auto simp: predicate_Update_def split: if_splits)
  have some: "svcAnnotations old \<noteq> None" "svcAnnotations new \<noteq> None" using annotated maps annotation_text by blast+
  with rel alive have same: "IsZeroTime (svcDeletionTimestamp new)" "same_view new old"
    using name by (auto simp: analyzeChanges_relevant same_view_def)
  have both: "hasPortForwardAnnotation old" "hasPortForwardAnnotation new"
    using annotated mapping no_annotation_text same_viewD(5) [OF same(2)] by auto metis+
  show ?thesis
    unfolding Reconcile_serving [OF alive both(1) fin(1)] Reconcile_serving [OF same(1) both(2) fin(2)]
      same_viewD(4) [OF same(2)] reconcile_rules_view [OF same(2)]
    using same(1) by simp
qed

text \<open>
  The condition on the finalizer and the annotation is needed.  A service that has lost all its annotations keeps its
  finalizer, as that update is filtered out (\<open>removing_all_annotations_is_filtered\<close>); its deletion is filtered out
  too, before and after a restart of the controller, and while the finalizer is in place the API server never
  sends the delete event that would pass.
\<close>

lemma deletion_without_annotation_is_filtered:
  assumes "\<not> hasPortForwardAnnotation old" "\<not> hasPortForwardAnnotation new"
  shows "\<not> predicate_Update it (Some old) (Some new) \<and> \<not> predicate_Create (Some new)"
  using assms by (simp add: predicate_Update_def predicate_Create_def)

lemma forgotten_deletion:
  "\<exists>managed bare dying :: Service.
     hasPortForwardAnnotation managed \<and> ContainsFinalizer managed \<and> ContainsFinalizer dying \<and>
     \<not> IsZeroTime (svcDeletionTimestamp dying) \<and>
     \<not> predicate_Update (\<lambda>ks. ks) (Some managed) (Some bare) \<and>
     \<not> predicate_Update (\<lambda>ks. ks) (Some bare) (Some dying) \<and> \<not> predicate_Create (Some dying)"
  by (rule exI [of _ live_service], rule exI [of _ "live_service\<lparr>svcAnnotations := None\<rparr>"],
      rule exI [of _ "live_service\<lparr>svcAnnotations := None, svcDeletionTimestamp := Some 5\<rparr>"])
    (simp add: predicate_Update_def predicate_Create_def analyzeChanges_relevant hasPortForwardAnnotation_def
      ContainsFinalizer_def IsZeroTime_def live_service_def example_service_def GetLBIP_def)

section \<open>Witness\<close>

text \<open>Another annotation on the service.\<close>

definition labelled_service :: Service where
  "labelled_service = live_service\<lparr>svcAnnotations := Some [(''team'', ''shop''), (FilterAnnotation, ''8080:http'')]\<rparr>"

lemma filtered_update_is_irrelevant_witness:
  "\<not> predicate_Update (\<lambda>ks. ks) (Some live_service) (Some labelled_service) \<and> live_service \<noteq> labelled_service \<and>
   Reconcile (\<lambda>_. 0) (\<lambda>ks. ks) rev (serving (ref_reconciler ''default'') labelled_service) ''web'' ''shop''
     (example_rstate (example_cluster example_rules [live_service] [] [])) =
   Reconcile (\<lambda>_. 0) (\<lambda>ks. ks) rev (serving (ref_reconciler ''default'') live_service) ''web'' ''shop''
     (example_rstate (example_cluster example_rules [live_service] [] []))"
proof -
  have f: "\<not> predicate_Update (\<lambda>ks. ks) (Some live_service) (Some labelled_service)"
    "svcNamespace labelled_service = svcNamespace live_service" "svcName labelled_service = svcName live_service"
    "hasPortForwardAnnotation live_service \<or> hasPortForwardAnnotation labelled_service"
    "svcAnnotations live_service = None \<longleftrightarrow> svcAnnotations labelled_service = None"
    "\<forall>service \<in> {live_service, labelled_service}. hasPortForwardAnnotation service \<longrightarrow> get_annotation service FilterAnnotation \<noteq> ''''"
    "IsZeroTime (svcDeletionTimestamp live_service)" "ContainsFinalizer live_service" "ContainsFinalizer labelled_service"
    "live_service \<noteq> labelled_service"
    by (simp_all add: predicate_Update_def analyzeChanges_relevant labelled_service_def live_service_def example_service_def
        hasPortForwardAnnotation_def get_annotation_def ContainsFinalizer_def IsZeroTime_def GetLBIP_def FilterAnnotation_def)
  from filtered_update_is_irrelevant [OF f(1-9), where r = "ref_reconciler ''default'' :: cluster Reconciler"] f(1,10) show ?thesis by blast
qed

end
