(* ===== verification/Spec2Isabelle.thy ===== *)
theory Spec2Isabelle
  imports RuleLifecycle ErrorLimiter CleanerCorrect ControllerState RetryLoop StartUp DeepCopy TestEnvCorrect MockUnifi
    ForeignRules ConcurrentJobs EventFilter
begin

text \<open>
  A verification library for unifi-port-forward, a Kubernetes controller that forwards ports of a UniFi
  gateway to services.

  \<^bold>\<open>The program.\<close>  Two controllers write port forwarding rules to one gateway.  The service
  controller (pkg/controller/reconciler.go) watches LoadBalancer services that carry the mapping
  annotation: it parses the annotation into the desired rules (pkg/utils/service_utils.go), claims their
  external ports in a process-wide map (pkg/utils/port_utils.go), computes the difference to the rules on
  the gateway and executes it with a rollback (pkg/controller/unified_operations.go), and guards the
  service with a finalizer so that its rules are removed before it goes.  A periodic run compares all
  services with the gateway and repairs what differs (drift_detection.go, periodic_reconciler.go).  The
  second controller (portforwardrule_controller.go) does the same for single rules written as
  PortForwardRule objects (pkg/api/v1alpha1).  Both talk to the gateway through the interface
  routers.Router, implemented by pkg/routers/unifi.go.  main.go reads the configuration (pkg/config) and
  starts the controllers; a separate command (cmd/cleaner) removes rules by port and address.  The tests run
  the same code on doubles of the router, the clients, the clock and the event recorder (testutils,
  pkg/controller/controller_test_helpers.go).

  \<^bold>\<open>How the code is modelled.\<close>  A Go function is a HOL function with the same name (with a prefix where two
  Go packages or types share a name); a method that changes state takes the state and returns it.  A call on
  the outside world (gateway, API server, clock) has type \<open>('w, 'a) io\<close>: it takes a world, and returns an
  error or a result together with the new world, so every call may fail and may have had an effect when it
  fails.  The world \<open>'w\<close> is a type variable; what the code relies on is stated as locales over it.  Go maps
  are association lists with distinct keys, and wherever the code ranges over a map the order is an argument
  that every theorem quantifies over (\<open>iter_order\<close>).  Go strings are byte strings, Go integers are integers
  with their range checks written out where the code can observe them (\<open>Atoi\<close>), 32-bit fields of the custom
  resource are words.  Where the code shares memory, memory is explicit: slices are windows on backing arrays
  in a store (\<open>GoSlices\<close>), the deep copies work on a map of cells (\<open>DeepCopy\<close>).  Run-time panics are the
  value \<open>Panic\<close>.  Logging and sleeping have no counterpart.

  \<^bold>\<open>The theories.\<close>

  \<^item> \<open>Prelude\<close>, \<open>GoStrings\<close>, \<open>GoNet\<close>, \<open>GoSlices\<close>: errors, results, maps, iteration order; strconv, strings,
    fmt, net.ParseIP and filepath as far as the program uses them; slices.
  \<^item> \<open>Routers\<close>: pkg/routers/router.go.  \<open>slot\<close> is the address of a rule (external port and protocol),
    \<open>router_contract\<close> what every caller relies on, \<open>router_atomic\<close> that failed calls have no effect,
    \<open>router_up\<close> that a router in service succeeds.  \<open>LostAnswers\<close>: the weaker \<open>router_lossy\<close>, that a failed call has no
    effect or its whole effect, which covers a gateway whose answer is lost; what is said about failing runs and
    about runs that take turns rests on this one.
  \<^item> \<open>UnifiRouter\<close>, \<open>RefGateway\<close>: pkg/routers/unifi.go over the UniFi client; the client's contract gives
    the router's contract, and an in-memory gateway discharges it.
  \<^item> \<open>PortTracking\<close>, \<open>Services\<close>, \<open>RuleNames\<close>, \<open>Helpers\<close>: pkg/utils and pkg/helpers: the map of claimed
    ports, the annotation and the desired configurations, rule names and the synchronisation of the map, the
    look-up of the custom resource definition.
  \<^item> \<open>Config\<close>, \<open>CommandLine\<close>, \<open>CleanerCorrect\<close>: pkg/config/config.go, the flags and the clean command of
    main.go, cmd/cleaner/cleaner.go.
  \<^item> \<open>StartUp\<close>: the commands of main.go, the controller up to the start of the manager, and the shutdown; the
    locale \<open>platform_contract\<close> is what it takes from libraries.
  \<^item> \<open>ChangeDetection\<close>: change_detection.go and predicates.go.  \<open>EventFilter\<close>: the events that the filter drops do
    not matter to the reconciler.
  \<^item> \<open>Operations\<close>: unified_operations.go.  \<open>OpsEffect\<close> says what a list of successful operations does to
    the rules, \<open>Planner\<close> is the abstract specification of a plan that reaches the desired rules,
    \<open>Convergence\<close> shows that the calculated delta is such a plan, \<open>Rollback\<close> what of a failed one is undone.
  \<^item> \<open>Drift\<close>, \<open>Periodic\<close>, \<open>DriftCorrect\<close>: drift_detection.go and periodic_reconciler.go.
  \<^item> \<open>Events\<close>: change_events.go.
  \<^item> \<open>Reconciler\<close>, \<open>ReconcileEnv\<close>, \<open>Cleanup\<close>, \<open>RetryLoop\<close>, \<open>ReconcileCorrect\<close>, \<open>Progress\<close>: reconciler.go;
    its environment as a locale and in memory, deletion and its retries under the work queue (whose reaction to an answer is that of the vendored
    controller-runtime), convergence, and that it succeeds.  \<open>ForeignRules\<close>: a run that fails anywhere spares the rules of others.
    \<open>Interleaving\<close>, \<open>ConcurrentJobs\<close>: executions that take turns on one gateway.
    \<open>ControllerState\<close>: the steps of the whole process and the type of its state.
  \<^item> \<open>RuleTypes\<close>, \<open>RuleValidation\<close>, \<open>RuleController\<close>, \<open>RuleEnv\<close>, \<open>RuleCorrect\<close>, \<open>RuleLifecycle\<close>:
    pkg/api/v1alpha1 and portforwardrule_controller.go.  \<open>DeepCopy\<close>: zz_generated.deepcopy.go.
  \<^item> \<open>ErrorLimiter\<close>: error_rate_limiter.go.
  \<^item> \<open>MockRouter\<close>, \<open>MockUnifi\<close>, \<open>FakeClient\<close>, \<open>TestClock\<close>, \<open>TestEvents\<close>: the doubles of testutils.
    \<open>MockCorrect\<close> compares the router double with a table of rules and with the router contract.
    \<open>TestEnv\<close>, \<open>TestEnvCorrect\<close>: controller_test_helpers.go, and the reconciler run on the doubles.

  \<^bold>\<open>What is shown.\<close> Safety: a reconcile never touches the rules of other owners, not even
  when it fails, executions for different services do not disturb each other, ports of other services are never
  claimed, the finalizer outlives the rules unless a conflict loses the record of a rule, two workers never reconcile one
  PortForwardRule at once, a deep
  copy shares no memory with its original. Functional correctness: a successful reconcile leaves exactly the
  desired rules, a successful clean-up none, the cleaner removes exactly what it is told to; validation and
  drift detection are equivalent to declarative conditions. Types: the maps of the controller stay well-formed
  over every run. Errors: a failed delta is rolled back, a failed clean-up is retried a bounded number of times
  and then given up with the finalizer in place, the work queue's loop ends, and no event that matters is filtered
  out while the service keeps its annotations. Progress: in an environment in service, reconciliation, clean-up and the
  application of a rule succeed. Composition: the start-up establishes the environment that the theorems on the
  reconcilers assume, and the reconciler works in its test environment. Several lemmas record behaviour that the
  code can hardly intend (a rewritten rule that periodic correction never repairs, a claim that is lost, an
  identifier that is forgotten, a finalizer that stays, a flag without effect, assertions that cannot fail, a
  race of two runs on one service). In this theory the parts are put together.

  \<^bold>\<open>Bounds.\<close>  Loops over finite data are structural recursion.  The retry loops of the code are bounded there:
  five retries of a clean-up, three attempts of a status update, the attempts of \<open>add_finalizer\<close>; the model
  recurses on the attempts left.  The periodic loop runs over the list of signals it receives.  The loop of
  the work queue has no bound and is a partial function; that it ends is a theorem, and that it does not when
  the API server refuses every update is a lemma.  No fuel is used.

  \<^bold>\<open>Not modelled.\<close>  What runs inside libraries: \<open>mgr.Start\<close>, the builders of controller-runtime, the parsing
  of arguments by cobra, \<open>ctrl.GetConfigOrDie\<close>.  The UniFi client, the API server, the clock, the file
  system, the decoders of JSON and YAML, MD5, \<open>time.ParseDuration\<close> and \<open>url.Parse\<close> are parameters.
  pkg/interfaces declares interfaces without users; \<open>ChangeContextSerializable\<close>, some struct types of
  event_utils.go and \<open>DeletePortForwardByIDTracker\<close> of mock_router.go have no behaviour or serve one test.
  The goroutines of the two controllers and of the periodic reconciler share the gateway and the port map.
  Interleavings are modelled where the code synchronises (the port map, the limiter, the map of active
  reconciliations) and, operation by operation, for everything that \<open>executeOperations\<close> does to the gateway; between
  its listing and its first operation a handler is one sequential run.
\<close>

section \<open>Many services on one gateway\<close>

text \<open>
  \<open>settling\<close> is a run of successful reconciliations of several services, one after the other, each of
  them under management when its turn comes; the orders of map iteration may differ from one to the next.
\<close>

inductive settling ::
    "(nat \<Rightarrow> int) \<Rightarrow> 'w Reconciler \<Rightarrow> ('w \<Rightarrow> PortForward list) \<Rightarrow> 'w rstate \<Rightarrow>
     (Service \<times> PortConfig list) list \<Rightarrow> 'w rstate \<Rightarrow> bool" where
  stop: "settling ovf r rules st [] st"
| turn: "managed r rules st service ds \<Longrightarrow> iter_order itc \<Longrightarrow> iter_order itd \<Longrightarrow>
     Reconcile ovf itc itd r (svcNamespace service) (svcName service) st = ((res, None), st1) \<Longrightarrow>
     settling ovf r rules st1 svcs st' \<Longrightarrow> settling ovf r rules st ((service, ds) # svcs) st'"

lemma managed_service_ok: "managed r rules st service ds \<Longrightarrow> service_ok service"
  by (simp add: managed_def)

lemma served_keeps_settled:
  assumes "served b ds' S S'" "settled a ds S" "service_ok a" "service_ok b" "different a b"
  shows "settled a ds S'"
proof -
  have "belongs a rule \<Longrightarrow> rule \<in> S' \<longleftrightarrow> rule \<in> S" for rule
    using assms(1) belongs_different [OF assms(3-5)] by (simp add: served_def)
  with assms(2) show ?thesis unfolding settled_def by blast
qed

lemma settling_keeps:
  "settling ovf r rules st svcs st' \<Longrightarrow> reconciler_env r rules \<Longrightarrow> table_ok (rules (world st)) \<Longrightarrow> service_ok a \<Longrightarrow>
   \<forall>(b, ds') \<in> set svcs. different a b \<Longrightarrow> settled a ds (set (rules (world st))) \<Longrightarrow> settled a ds (set (rules (world st')))"
proof (induction rule: settling.induct)
  case (turn r rules st service ds' itc itd ovf res st1 svcs st')
  note s = Reconcile_served [OF turn.prems(1) turn.hyps(2,3) turn.prems(2) turn.hyps(1,4)]
  have "settled a ds (set (rules (world st1)))"
    using served_keeps_settled [OF conjunct1 [OF s] turn.prems(5,3) managed_service_ok [OF turn.hyps(1)]] turn.prems(4) by simp
  with turn.IH turn.prems(1,3,4) s show ?case by simp
qed simp

lemma settling_settles:
  "settling ovf r rules st svcs st' \<Longrightarrow> reconciler_env r rules \<Longrightarrow> table_ok (rules (world st)) \<Longrightarrow>
   distinct (map (\<lambda>(service, ds). (svcNamespace service, svcName service)) svcs) \<Longrightarrow>
   \<forall>(service, ds) \<in> set svcs. settled service ds (set (rules (world st')))"
proof (induction rule: settling.induct)
  case (turn r rules st service ds itc itd ovf res st1 svcs st')
  note s = Reconcile_served [OF turn.prems(1) turn.hyps(2,3) turn.prems(2) turn.hyps(1,4)]
  have "\<forall>(b, ds') \<in> set svcs. different service b"
    using turn.prems(3) by (auto simp: different_def image_iff)
  from settling_keeps [OF turn.hyps(5) turn.prems(1) _ managed_service_ok [OF turn.hyps(1)] this
      served_settled [OF conjunct1 [OF s]]] s
  have "settled service ds (set (rules (world st')))" by simp
  with turn.IH turn.prems(1,3) s show ?case by simp
qed simp

text \<open>
  C4: services do not interfere.  After a run of successful reconciliations of different services on one
  gateway, every one of them is settled: none has lost a rule to, or received a rule from, another one.
\<close>

theorem services_do_not_interfere:
  assumes "settling ovf r rules st svcs st'" and "reconciler_env r rules" and "table_ok (rules (world st))"
    and "distinct (map (\<lambda>(service, ds). (svcNamespace service, svcName service)) svcs)"
    and "(service, ds) \<in> set svcs"
  shows "settled service ds (set (rules (world st')))"
  using settling_settles [OF assms(1-4)] assms(5) by blast

text \<open>
  Two services in one namespace, on a gateway without rules: each takes its turn and creates its rule.
\<close>

abbreviation pair_state :: "cluster rstate" where
  "pair_state \<equiv> example_rstate (example_cluster [] [live_service, mail_service] [] [])"

lemma shop_desired:
  "usedPorts st = [] \<or> usedPorts st = [(8080, ''web/shop'')] \<Longrightarrow>
   calculateDesiredState live_service st = (Inr ex_ds, st\<lparr>usedPorts := [(8080, ''web/shop'')]\<rparr>)"
  by (auto simp: calculateDesiredState_def live_sel live_configs)

lemma mail_desired:
  "usedPorts st = [(8080, ''web/shop'')] \<or> usedPorts st = [(8080, ''web/shop''), (9443, ''web/mail'')] \<Longrightarrow>
   calculateDesiredState mail_service st = (Inr mail_ds, st\<lparr>usedPorts := [(8080, ''web/shop''), (9443, ''web/mail'')]\<rparr>)"
  by (auto simp: calculateDesiredState_def mail_sel mail_configs)

lemma shop_turn:
  "\<exists>st. reconcile_rules (\<lambda>ks. ks) rev (ref_reconciler ''default'') ''web/shop'' live_service pair_state = ((emptyResultR, None), st) \<and>
     usedPorts st = [(8080, ''web/shop'')] \<and> recentCleanups st = [] \<and>
     world st = example_cluster [example_rule ''x'' ''web/shop:http'' 8080 80] [live_service, mail_service] [] []"
  unfolding reconcile_rules_def detectChanges_def processAllChanges_def Let_def
  by (simp add: on_world_def router_eval example_rstate_def example_cluster_def shop_desired live_sel portConfigsMatch_def
    newContext_def HasRelevantChanges_def ex_ds_def delta_eval go_eval exec_eval emptyResultR_def ownership_events_def)

lemma mail_turn:
  assumes "usedPorts st = [(8080, ''web/shop'')]"
    "world st = example_cluster [example_rule ''x'' ''web/shop:http'' 8080 80] [live_service, mail_service] [] []"
  shows "\<exists>st'. reconcile_rules (\<lambda>ks. ks) rev (ref_reconciler ''default'') ''web/mail'' mail_service st = ((emptyResultR, None), st')"
  using assms unfolding reconcile_rules_def detectChanges_def processAllChanges_def Let_def
  by (simp add: on_world_def router_eval example_rstate_def example_cluster_def mail_desired mail_sel portConfigsMatch_def
    newContext_def HasRelevantChanges_def mail_ds_def delta_eval go_eval exec_eval emptyResultR_def ownership_events_def
    split_key_matches_iff)

lemma shop_managed: "managed (ref_reconciler ''default'') gw_rules pair_state live_service ex_ds"
  using live_configs live_ok
  by (auto simp: managed_def live_sel ref_kube_def same_service_def IsZeroTime_def example_rstate_def example_cluster_def)

lemma mail_managed:
  assumes "usedPorts st = [(8080, ''web/shop'')]" "recentCleanups st = []"
    "world st = example_cluster [example_rule ''x'' ''web/shop:http'' 8080 80] [live_service, mail_service] [] []"
  shows "managed (ref_reconciler ''default'') gw_rules st mail_service mail_ds"
  using assms mail_configs mail_ok
  by (auto simp: managed_def live_sel mail_sel ref_kube_def same_service_def IsZeroTime_def example_cluster_def plain_rule_def
      example_rule_def go_eval)

theorem services_do_not_interfere_witness:
  "\<exists>st'. settling (\<lambda>_. 0) (ref_reconciler ''default'') gw_rules pair_state [(live_service, ex_ds), (mail_service, mail_ds)] st' \<and>
     settled live_service ex_ds (set (gw_rules (world st'))) \<and> settled mail_service mail_ds (set (gw_rules (world st')))"
proof -
  let ?r = "ref_reconciler ''default'' :: cluster Reconciler"
  have turn: "Reconcile (\<lambda>_. 0) (\<lambda>ks. ks) rev ?r (svcNamespace service) (svcName service) st =
      reconcile_rules (\<lambda>ks. ks) rev ?r (serviceKey service) service st"
    if "managed ?r gw_rules st service ds" for st service ds
    using that by (rule managed_Reconcile [where ovf = "\<lambda>_. 0" and itc = "\<lambda>ks. ks" and itd = rev])
      (auto simp: ref_kube_def split: option.splits)
  obtain st1 where one: "reconcile_rules (\<lambda>ks. ks) rev ?r ''web/shop'' live_service pair_state = ((emptyResultR, None), st1)"
    and st1: "usedPorts st1 = [(8080, ''web/shop'')]" "recentCleanups st1 = []"
      "world st1 = example_cluster [example_rule ''x'' ''web/shop:http'' 8080 80] [live_service, mail_service] [] []"
    using shop_turn by blast
  obtain st2 where two: "reconcile_rules (\<lambda>ks. ks) rev ?r ''web/mail'' mail_service st1 = ((emptyResultR, None), st2)"
    using mail_turn [OF st1(1,3)] by blast
  note shop = shop_managed and mail = mail_managed [OF st1]
  have s: "settling (\<lambda>_. 0) ?r gw_rules pair_state [(live_service, ex_ds), (mail_service, mail_ds)] st2"
  proof (rule settling.turn [OF shop iter_order_id iter_order_rev])
    show "settling (\<lambda>_. 0) ?r gw_rules st1 [(mail_service, mail_ds)] st2"
      by (rule settling.turn [OF mail iter_order_id iter_order_rev _ settling.stop]) (use turn [OF mail] two in \<open>simp add: mail_sel\<close>)
  qed (use turn [OF shop] one in \<open>simp add: live_sel\<close>)
  have "table_ok (gw_rules (world pair_state))" by (simp add: example_rstate_def example_cluster_def table_ok_def exclusive_def)
  from services_do_not_interfere [OF s refc.reconciler_env_axioms this] s show ?thesis by (auto simp: live_sel mail_sel)
qed

section \<open>Over the UniFi router\<close>

text \<open>
  The reconciler's environment, when its router is the UniFi implementation over a client that keeps its
  contract: the contract of the router, on which all of the above rests, is then a theorem.
\<close>

lemma reconciler_env_over_unifi:
  assumes client: "unifi_client U rules" and router: "rcRouter r = unifi_router U"
    and frames: "\<And>ns n w. mset (rules (snd (k_Get (rcClient r) ns n w))) = mset (rules w)"
      "\<And>svc w. mset (rules (snd (k_Update (rcClient r) svc w))) = mset (rules w)"
      "\<And>w. mset (rules (snd (k_ListServices (rcClient r) w))) = mset (rules w)"
      "\<And>w. mset (rules (snd (rcNow r w))) = mset (rules w)"
  shows "reconciler_env r rules"
  using unifi_client.implements_router [OF client] frames
  by (simp add: reconciler_env_def reconciler_env_axioms_def router)

end
